(* ===== verification/Cogg_Prelude.thy ===== *)
theory Cogg_Prelude
  imports Main "HOL-Library.Word" "HOL-Library.Char_ord" "HOL-Library.List_Lexorder"
    "HOL-Library.Product_Lexorder"
begin

text \<open>
  Shared vocabulary of the development: the exception hierarchy of
  \<^verbatim>\<open>include/cogg/kernel.hpp\<close> as a datatype, results of operations that may throw as a
  sum type, the two combinators every translated function is written with
  (\<open>require\<close> for the guards, \<open>bindR\<close> for a call that may throw), and the generic
  lemmas on lists the components share.
\<close>

section \<open>Exceptions and results\<close>

named_theorems res_simps \<open>equations that take apart a successful result\<close>

datatype failure_kind = Backend | Transport | Timeout | Invalid_Output | Credentials

datatype failure_scope = Transient | Occasion_Scope

text \<open>
  \<open>Error\<close> and its subclasses \<open>ContextOverflow\<close>, \<open>Conflict\<close> and \<open>BackendFailure\<close>; the
  exceptions of the JSON library (a missing key, a value of the wrong type); any other
  standard exception; and an exception of an unknown type, which only \<open>catch (...)\<close> sees.
\<close>

datatype error =
    Error string
  | ContextOverflow string
  | Conflict string
  | BackendFailure failure_kind string
  | JsonException
  | StdException string
  | UnknownException

type_synonym 'a res = "error + 'a"
type_synonym millis = int

definition require :: "bool \<Rightarrow> string \<Rightarrow> 'a res \<Rightarrow> 'a res" where
  "require ok msg k = (if ok then k else Inl (Error msg))"

definition raise_unless :: "bool \<Rightarrow> error \<Rightarrow> 'a res \<Rightarrow> 'a res" where
  "raise_unless ok e k = (if ok then k else Inl e)"

definition bindR :: "'a res \<Rightarrow> ('a \<Rightarrow> 'b res) \<Rightarrow> 'b res" where
  "bindR m f = (case m of Inl e \<Rightarrow> Inl e | Inr x \<Rightarrow> f x)"

lemma require_Inr [res_simps]: "(require ok msg k = Inr y) = (ok \<and> k = Inr y)"
  by (simp add: require_def)

lemma raise_unless_Inr [res_simps]: "(raise_unless ok e k = Inr y) = (ok \<and> k = Inr y)"
  by (simp add: raise_unless_def)

lemma bindR_Inr [res_simps]: "(bindR m f = Inr y) = (\<exists>x. m = Inr x \<and> f x = Inr y)"
  by (cases m) (simp_all add: bindR_def)

lemma require_True [simp]: "require True msg k = k"
  and require_False [simp]: "require False msg k = Inl (Error msg)"
  by (simp_all add: require_def)

lemma raise_unless_True [simp]: "raise_unless True e k = k"
  and raise_unless_False [simp]: "raise_unless False e k = Inl e"
  by (simp_all add: raise_unless_def)

lemma bindR_Inr_left [simp]: "bindR (Inr x) f = f x"
  and bindR_Inl_left [simp]: "bindR (Inl e) f = Inl e"
  by (simp_all add: bindR_def)

text \<open>
  The rest of a computation is looked at only once its guard is decided, as the code
  would: these congruences keep the simplifier out of the continuations.
\<close>

lemma require_cong [cong]: "ok = ok' \<Longrightarrow> require ok msg k = require ok' msg k"
  by simp

lemma raise_unless_cong [cong]: "ok = ok' \<Longrightarrow> raise_unless ok e k = raise_unless ok' e k"
  by simp

lemma bindR_cong [cong]: "m = m' \<Longrightarrow> bindR m f = bindR m' f"
  by simp

lemma bindR_full_cong: "m = m' \<Longrightarrow> (\<And>x. m' = Inr x \<Longrightarrow> f x = g x) \<Longrightarrow> bindR m f = bindR m' g"
  by (cases m') (simp_all add: bindR_def)

lemma bindR_assoc: "bindR (bindR m f) g = bindR m (\<lambda>x. bindR (f x) g)"
  by (cases m) (simp_all add: bindR_def)

lemma bindR_Inl_iff: "(bindR m f = Inl e) = (m = Inl e \<or> (\<exists>x. m = Inr x \<and> f x = Inl e))"
  by (cases m) (simp_all add: bindR_def)

lemma require_unit_Inr [res_simps]: "(\<exists>u::unit. require ok msg k = Inr u) = (ok \<and> (\<exists>u. k = Inr u))"
  by (simp add: require_def)

text \<open>Run a fallible function over a list and collect the results, as a loop that
  pushes each result onto a vector does.\<close>

fun mapR :: "('a \<Rightarrow> 'b res) \<Rightarrow> 'a list \<Rightarrow> 'b list res" where
  "mapR f [] = Inr []"
| "mapR f (x # xs) = bindR (f x) (\<lambda>y. bindR (mapR f xs) (\<lambda>ys. Inr (y # ys)))"

lemma mapR_Inr_iff: "(mapR f xs = Inr ys) = list_all2 (\<lambda>x y. f x = Inr y) xs ys"
  by (induction xs arbitrary: ys) (auto simp: res_simps list_all2_Cons1)

lemma mapR_length: "mapR f xs = Inr ys \<Longrightarrow> length ys = length xs"
  by (induction xs arbitrary: ys) (auto simp: bindR_Inr)

lemma mapR_mem: "mapR f xs = Inr ys \<Longrightarrow> y \<in> set ys \<Longrightarrow> \<exists>x \<in> set xs. f x = Inr y"
  by (induction xs arbitrary: ys) (auto simp: bindR_Inr)

lemma mapR_mem_ex: "mapR f xs = Inr ys \<Longrightarrow> x \<in> set xs \<Longrightarrow> \<exists>y \<in> set ys. f x = Inr y"
  by (induction xs arbitrary: ys) (auto simp: bindR_Inr)

lemma mapR_map: "(\<And>x. x \<in> set xs \<Longrightarrow> f (g x) = Inr (h x)) \<Longrightarrow> mapR f (map g xs) = Inr (map h xs)"
  by (induction xs) simp_all

section \<open>Limits of machine integers\<close>

definition max_millis :: int where
  "max_millis = 9223372036854775807"

lemma max_millis_pow: "max_millis = 2 ^ 63 - 1"
  by (simp add: max_millis_def)

definition millis_ok :: "int \<Rightarrow> bool" where
  "millis_ok x \<longleftrightarrow> - max_millis - 1 \<le> x \<and> x \<le> max_millis"

section \<open>Lists\<close>

lemma filter_le_sorted_takeWhile:
  fixes xs :: "'a::linorder list"
  assumes "sorted xs"
  shows "filter (\<lambda>x. x \<le> v) xs = takeWhile (\<lambda>x. x \<le> v) xs"
  using assms
proof (induction xs)
  case Nil
  then show ?case by simp
next
  case (Cons x xs)
  show ?case
  proof (cases "x \<le> v")
    case True
    with Cons show ?thesis by simp
  next
    case False
    with Cons.prems have "\<forall>y \<in> set xs. \<not> y \<le> v" by auto
    with False show ?thesis by (simp add: filter_empty_conv)
  qed
qed

lemma filter_gt_sorted_dropWhile:
  fixes xs :: "'a::linorder list"
  assumes "sorted xs"
  shows "filter (\<lambda>x. v < x) xs = dropWhile (\<lambda>x. x \<le> v) xs"
  using assms
proof (induction xs)
  case Nil
  then show ?case by simp
next
  case (Cons x xs)
  show ?case
  proof (cases "x \<le> v")
    case True
    with Cons show ?thesis by auto
  next
    case False
    with Cons.prems have "\<forall>y \<in> set xs. v < y" by auto
    with False show ?thesis by (simp add: filter_id_conv)
  qed
qed

lemma find_Some_mem: "find P xs = Some x \<Longrightarrow> x \<in> set xs \<and> P x"
  by (auto simp: find_Some_iff)

lemma find_append: "find P (xs @ ys) = (case find P xs of None \<Rightarrow> find P ys | Some x \<Rightarrow> Some x)"
  by (induction xs) auto

lemma find_map_inv: "(\<And>x. P (f x) = P x) \<Longrightarrow> find P (map f xs) = map_option f (find P xs)"
  by (induction xs) auto

lemma distinct_find:
  assumes "distinct (map f xs)" and "x \<in> set xs"
  shows "find (\<lambda>y. f y = f x) xs = Some x"
  using assms by (induction xs) (auto simp: image_iff)

lemma filter_snoc: "filter P (xs @ [x]) = filter P xs @ (if P x then [x] else [])"
  by simp

lemma sorted_snoc: "sorted xs \<Longrightarrow> (\<forall>y \<in> set xs. y \<le> x) \<Longrightarrow> sorted (xs @ [x])"
  by (simp add: sorted_append)

section \<open>Loops that insert each key into a set of seen keys\<close>

text \<open>
  The validators all have the same loop: walk over a list, check each element, and refuse
  one whose key was already inserted into a \<^verbatim>\<open>std::set\<close>. The loop's contract is its
  two unfolding equations; what it accepts follows once for all of them.
\<close>

locale seen_loop =
  fixes key :: "'a \<Rightarrow> 'k"
    and ok :: "'a \<Rightarrow> bool"
    and accepts :: "'k list \<Rightarrow> 'a list \<Rightarrow> bool"
  assumes accepts_Nil: "accepts seen []"
    and accepts_Cons: "accepts seen (x # xs) =
      (ok x \<and> key x \<notin> set seen \<and> accepts (key x # seen) xs)"
begin

lemma accepts_from_iff:
  "accepts seen xs =
     (distinct (map key xs) \<and> set (map key xs) \<inter> set seen = {} \<and> (\<forall>x \<in> set xs. ok x))"
proof (induction xs arbitrary: seen)
  case Nil
  then show ?case by (simp add: accepts_Nil)
next
  case (Cons x xs)
  show ?case by (auto simp: accepts_Cons Cons.IH)
qed

lemma accepts_iff: "accepts [] xs = (distinct (map key xs) \<and> (\<forall>x \<in> set xs. ok x))"
  by (simp add: accepts_from_iff)

end

end
