(* ===== verification/Cogg_Json.thy ===== *)
theory Cogg_Json
  imports Cogg_Prelude
begin

text \<open>
  The JSON values the program passes around (\<^verbatim>\<open>using json = nlohmann::json\<close> in
  \<^verbatim>\<open>include/cogg/kernel.hpp\<close>). The value type is the library's documented one: an object
  is a map ordered by key, so it is kept here as a key-sorted association list and two
  objects are equal exactly when they are equal as maps. Serialisation is not modelled:
  \<open>dump\<close> belongs to the record \<open>ext\<close> of external functions, together with SHA-256 and
  full-text search. A double is opaque (its 64 bits). Non-negative integers are the
  library's unsigned integers, as its parser produces them.
\<close>

section \<open>Values\<close>

datatype json =
    JNull
  | JBool bool
  | JInt int
  | JFloat "64 word"
  | JStr string
  | JArr "json list"
  | JObj "(string \<times> json) list"

type_synonym jobject = "(string \<times> json) list"

fun is_object :: "json \<Rightarrow> bool" where
  "is_object (JObj _) = True"
| "is_object _ = False"

fun is_array :: "json \<Rightarrow> bool" where
  "is_array (JArr _) = True"
| "is_array _ = False"

fun is_string :: "json \<Rightarrow> bool" where
  "is_string (JStr _) = True"
| "is_string _ = False"

fun is_boolean :: "json \<Rightarrow> bool" where
  "is_boolean (JBool _) = True"
| "is_boolean _ = False"

fun is_number_integer :: "json \<Rightarrow> bool" where
  "is_number_integer (JInt _) = True"
| "is_number_integer _ = False"

fun jsize :: "json \<Rightarrow> nat" where
  "jsize JNull = 0"
| "jsize (JArr xs) = length xs"
| "jsize (JObj kvs) = length kvs"
| "jsize _ = 1"

section \<open>Objects\<close>

fun obj_put :: "string \<Rightarrow> json \<Rightarrow> jobject \<Rightarrow> jobject" where
  "obj_put k v [] = [(k, v)]"
| "obj_put k v ((k', v') # kvs) =
     (if k = k' then (k, v) # kvs
      else if k < k' then (k, v) # (k', v') # kvs
      else (k', v') # obj_put k v kvs)"

fun obj_del :: "string \<Rightarrow> jobject \<Rightarrow> jobject" where
  "obj_del k [] = []"
| "obj_del k ((k', v') # kvs) = (if k = k' then kvs else (k', v') # obj_del k kvs)"

definition obj_has :: "jobject \<Rightarrow> string \<Rightarrow> bool" where
  "obj_has kvs k \<longleftrightarrow> map_of kvs k \<noteq> None"

definition mk_obj :: "(string \<times> json) list \<Rightarrow> json" where
  "mk_obj kvs = JObj (fold (\<lambda>(k, v). obj_put k v) kvs [])"

definition obj_sorted :: "jobject \<Rightarrow> bool" where
  "obj_sorted kvs \<longleftrightarrow> sorted_wrt (<) (map fst kvs)"

lemma map_of_obj_put [simp]: "map_of (obj_put k v kvs) = (map_of kvs)(k \<mapsto> v)"
  by (induction k v kvs rule: obj_put.induct) auto

lemma obj_has_put [simp]: "obj_has (obj_put k v kvs) k' = (k = k' \<or> obj_has kvs k')"
  by (auto simp: obj_has_def)

lemma keys_obj_put [simp]: "fst ` set (obj_put k v kvs) = insert k (fst ` set kvs)"
  by (induction k v kvs rule: obj_put.induct) auto

lemma obj_sorted_Nil [simp]: "obj_sorted []"
  by (simp add: obj_sorted_def)

lemma obj_sorted_Cons: "obj_sorted ((k, v) # kvs) = ((\<forall>k' \<in> fst ` set kvs. k < k') \<and> obj_sorted kvs)"
  by (simp add: obj_sorted_def)

lemma obj_sorted_put: "obj_sorted kvs \<Longrightarrow> obj_sorted (obj_put k v kvs)"
proof (induction k v kvs rule: obj_put.induct)
  case (1 k v)
  show ?case by (simp add: obj_sorted_Cons)
next
  case (2 k v k' v' kvs)
  show ?case
  proof (cases "k = k'")
    case True
    with "2.prems" show ?thesis by (simp add: obj_sorted_Cons)
  next
    case neq: False
    show ?thesis
    proof (cases "k < k'")
      case True
      with neq "2.prems" show ?thesis by (auto simp: obj_sorted_Cons)
    next
      case False
      with neq "2.IH" "2.prems" show ?thesis by (auto simp: obj_sorted_Cons)
    qed
  qed
qed

lemma obj_sorted_distinct: "obj_sorted kvs \<Longrightarrow> distinct (map fst kvs)"
  by (simp add: obj_sorted_def strict_sorted_iff)

lemma obj_eqI:
  assumes "obj_sorted xs" and "obj_sorted ys" and "map_of xs = map_of ys"
  shows "xs = ys"
proof (rule map_sorted_distinct_set_unique [where f = fst])
  from assms(3) have "set xs = set ys"
    by (simp add: map_of_inject_set [OF obj_sorted_distinct [OF assms(1)] obj_sorted_distinct [OF assms(2)]])
  then show "set xs = set ys" .
  show "inj_on fst (set xs \<union> set ys)"
    using \<open>set xs = set ys\<close> obj_sorted_distinct [OF assms(1)] by (simp add: distinct_map)
qed (use assms in \<open>simp_all add: obj_sorted_def strict_sorted_iff distinct_map\<close>)

lemma obj_sorted_fold_put: "obj_sorted o0 \<Longrightarrow> obj_sorted (fold (\<lambda>(k, v). obj_put k v) kvs o0)"
  by (induction kvs arbitrary: o0) (auto simp: obj_sorted_put)

lemma map_of_fold_put:
  "map_of (fold (\<lambda>(k, v). obj_put k v) kvs o0) = fold (\<lambda>(k, v) m. m(k \<mapsto> v)) kvs (map_of o0)"
  by (induction kvs arbitrary: o0) auto

lemma map_of_obj_del: "obj_sorted kvs \<Longrightarrow> map_of (obj_del k kvs) = (map_of kvs)(k := None)"
proof (induction kvs)
  case Nil
  then show ?case by simp
next
  case (Cons x kvs)
  obtain k' v' where x: "x = (k', v')" by fastforce
  show ?case
  proof (cases "k = k'")
    case True
    have "k' \<notin> fst ` set kvs" using Cons.prems unfolding x by (auto simp: obj_sorted_Cons)
    then have "map_of kvs k' = None" by (simp add: map_of_eq_None_iff)
    with True show ?thesis by (auto simp: x fun_eq_iff)
  next
    case False
    with Cons show ?thesis by (auto simp: x obj_sorted_Cons)
  qed
qed

section \<open>Access: \<open>at\<close>, \<open>contains\<close>, \<open>value\<close>, \<open>get\<close>\<close>

text \<open>\<open>at\<close> throws a JSON exception on a missing key and on a value that is no object;
  \<open>contains\<close> is false there. \<open>value\<close> with a default throws on a non-object and on a
  present value of another type.\<close>

fun jat :: "json \<Rightarrow> string \<Rightarrow> json res" where
  "jat (JObj kvs) k = (case map_of kvs k of Some v \<Rightarrow> Inr v | None \<Rightarrow> Inl JsonException)"
| "jat _ k = Inl JsonException"

fun jcontains :: "json \<Rightarrow> string \<Rightarrow> bool" where
  "jcontains (JObj kvs) k = obj_has kvs k"
| "jcontains _ k = False"

fun get_string :: "json \<Rightarrow> string res" where
  "get_string (JStr s) = Inr s"
| "get_string _ = Inl JsonException"

fun get_int :: "json \<Rightarrow> int res" where
  "get_int (JInt i) = Inr i"
| "get_int _ = Inl JsonException"

fun get_strings :: "json \<Rightarrow> string list res" where
  "get_strings (JArr xs) = mapR get_string xs"
| "get_strings _ = Inl JsonException"

fun jvalue_string :: "json \<Rightarrow> string \<Rightarrow> string \<Rightarrow> string res" where
  "jvalue_string (JObj kvs) k d = (case map_of kvs k of Some v \<Rightarrow> get_string v | None \<Rightarrow> Inr d)"
| "jvalue_string _ k d = Inl JsonException"

fun elements :: "json \<Rightarrow> json list" where
  "elements (JArr xs) = xs"
| "elements (JObj kvs) = map snd kvs"
| "elements JNull = []"
| "elements j = [j]"

text \<open>The members \<open>items()\<close> runs over.\<close>

fun members :: "json \<Rightarrow> jobject" where
  "members (JObj kvs) = kvs"
| "members _ = []"

fun jempty :: "json \<Rightarrow> bool" where
  "jempty j = (jsize j = 0)"

definition optional_time :: "millis option \<Rightarrow> json" where
  "optional_time t = (case t of Some x \<Rightarrow> JInt x | None \<Rightarrow> JNull)"

definition read_time :: "json \<Rightarrow> millis option res" where
  "read_time j = (if j = JNull then Inr None else bindR (get_int j) (\<lambda>x. Inr (Some x)))"

lemma read_optional_time [simp]: "read_time (optional_time t) = Inr t"
  by (cases t) (simp_all add: read_time_def optional_time_def)

lemma optional_time_inject [simp]: "(optional_time s = optional_time t) = (s = t)"
  by (cases s; cases t) (simp_all add: optional_time_def)

lemma mapR_get_string [simp]: "mapR get_string (map JStr xs) = Inr xs"
  by (induction xs) simp_all

lemma get_strings_JStr: "get_strings (JArr (map JStr xs)) = Inr xs"
  by simp

lemma jat_Inr_contains: "jat j k = Inr v \<Longrightarrow> jcontains j k"
  by (cases j) (auto simp: obj_has_def split: option.splits)

text \<open>Reading a freshly built object: the last binding of a key wins.\<close>

lemma fold_put_map_of: "map_of (fold (\<lambda>(k, v). obj_put k v) kvs o0) = map_of o0 ++ map_of (rev kvs)"
proof (induction kvs arbitrary: o0)
  case Nil
  then show ?case by simp
next
  case (Cons x kvs)
  then show ?case by (cases x) (auto simp: map_add_def fun_eq_iff split: option.splits)
qed

lemma fold_put_keys: "fst ` set (fold (\<lambda>(k, v). obj_put k v) kvs o0) = fst ` set o0 \<union> fst ` set kvs"
  by (induction kvs arbitrary: o0) (simp_all add: split_beta)

lemma jat_mk_obj: "jat (mk_obj kvs) k = (case map_of (rev kvs) k of Some v \<Rightarrow> Inr v | None \<Rightarrow> Inl JsonException)"
  by (simp add: mk_obj_def fold_put_map_of)

lemma jcontains_mk_obj: "jcontains (mk_obj kvs) k = (k \<in> fst ` set kvs)"
proof -
  have "obj_has (fold (\<lambda>(k, v). obj_put k v) kvs []) k = (k \<in> fst ` set (fold (\<lambda>(k, v). obj_put k v) kvs []))"
    by (auto simp: obj_has_def map_of_eq_None_iff)
  then show ?thesis by (simp add: mk_obj_def fold_put_keys)
qed

lemma jvalue_string_mk_obj:
  "jvalue_string (mk_obj kvs) k d = (case map_of (rev kvs) k of Some v \<Rightarrow> get_string v | None \<Rightarrow> Inr d)"
  by (simp add: mk_obj_def fold_put_map_of)

lemma is_object_mk_obj [simp]: "is_object (mk_obj kvs)"
  by (simp add: mk_obj_def)

lemma length_obj_put_new: "k \<notin> fst ` set kvs \<Longrightarrow> length (obj_put k v kvs) = Suc (length kvs)"
  by (induction k v kvs rule: obj_put.induct) auto

lemma length_fold_put:
  "distinct (map fst kvs) \<Longrightarrow> fst ` set kvs \<inter> fst ` set o0 = {} \<Longrightarrow>
     length (fold (\<lambda>(k, v). obj_put k v) kvs o0) = length o0 + length kvs"
proof (induction kvs arbitrary: o0)
  case Nil
  then show ?case by simp
next
  case (Cons x kvs)
  obtain k v where x: "x = (k, v)" by fastforce
  from Cons.prems have "k \<notin> fst ` set o0" and "fst ` set kvs \<inter> fst ` set (obj_put k v o0) = {}"
    and "distinct (map fst kvs)"
    unfolding x keys_obj_put by auto
  with Cons.IH [of "obj_put k v o0"] show ?case by (simp add: x length_obj_put_new)
qed

lemma jsize_mk_obj: "distinct (map fst kvs) \<Longrightarrow> jsize (mk_obj kvs) = length kvs"
  by (simp add: mk_obj_def length_fold_put)

lemmas mk_obj_access = jat_mk_obj jcontains_mk_obj jvalue_string_mk_obj jsize_mk_obj

section \<open>External functions\<close>

text \<open>
  What the program calls and the repository does not contain: the JSON serialiser
  (\<open>json::dump\<close>), OpenSSL's SHA-256, and SQLite's FTS5 \<open>MATCH\<close> with its \<open>bm25\<close>
  ranking. \<open>x_fts q rows\<close> gives the matching deposit IDs of an index of
  \<open>(id, key, text)\<close> rows with their ranks. Every definition that needs one of them takes
  the record as its first argument; nothing is assumed of them unless a lemma says so.
\<close>

record ext =
  x_dump :: "json \<Rightarrow> string"
  x_sha256 :: "string \<Rightarrow> 8 word list"
  x_fts :: "string \<Rightarrow> (string \<times> string \<times> string) list \<Rightarrow> (string \<times> int) list"

definition hex_digit :: "nat \<Rightarrow> char" where
  "hex_digit n = ''0123456789abcdef'' ! n"

definition hex_byte :: "8 word \<Rightarrow> string" where
  "hex_byte b = [hex_digit (unat (drop_bit 4 b)), hex_digit (unat (and b 15))]"

definition hex :: "8 word list \<Rightarrow> string" where
  "hex bs = concat (map hex_byte bs)"

definition hash :: "ext \<Rightarrow> json \<Rightarrow> string" where
  "hash X v = hex (x_sha256 X (x_dump X v))"

definition hex_string :: "string \<Rightarrow> bool" where
  "hex_string s \<longleftrightarrow> list_all (\<lambda>c. c \<in> set ''0123456789abcdef'') s"

definition digest_string :: "string \<Rightarrow> bool" where
  "digest_string s \<longleftrightarrow> length s = 64 \<and> hex_string s"

lemma hex_digit_mem: "n < 16 \<Longrightarrow> hex_digit n \<in> set ''0123456789abcdef''"
  unfolding hex_digit_def by (rule nth_mem) simp

lemma nibbles_bound:
  fixes b :: "8 word"
  shows "unat (drop_bit 4 b) < 16" and "unat (and b 15) < 16"
proof -
  have "unat b < 256" using unsigned_less [of b] by simp
  then show "unat (drop_bit 4 b) < 16"
    by (simp add: drop_bit_eq_div unat_div)
  have "and b 15 = b mod 16"
    using take_bit_eq_mask [of 4 b] by (simp add: mask_eq_exp_minus_1 take_bit_eq_mod)
  then have "unat (and b 15) = unat b mod 16" by (simp add: unat_mod)
  then show "unat (and b 15) < 16" by simp
qed

lemma hex_byte_hex: "hex_string (hex_byte b)"
  using nibbles_bound [of b] by (simp add: hex_string_def hex_byte_def hex_digit_mem del: set_simps)

lemma hex_string_append [simp]: "hex_string (s @ t) = (hex_string s \<and> hex_string t)"
  by (simp add: hex_string_def)

lemma hex_hex: "hex_string (hex bs)"
  by (induction bs) (auto simp: hex_def hex_byte_hex, simp add: hex_string_def)

lemma length_hex [simp]: "length (hex bs) = 2 * length bs"
  by (induction bs) (auto simp: hex_def hex_byte_def)

lemma hash_digest: "length (x_sha256 X (x_dump X v)) = 32 \<Longrightarrow> digest_string (hash X v)"
  by (simp add: hash_def digest_string_def hex_hex)

section \<open>A concrete instance of the external functions\<close>

text \<open>
  Used only to show that hypotheses about the external functions can hold: a printer that
  keeps the tick of a body (or its parent, or the tail of its key) and a digest of 32 bytes that ends in the
  length of what it digests.
\<close>

definition sample_dump :: "json \<Rightarrow> string" where
  "sample_dump j = (case jat j ''tick'' of
     Inr (JInt i) \<Rightarrow> replicate (nat i) (CHR ''x'')
   | _ \<Rightarrow> (case jat j ''parent'' of Inr (JStr p) \<Rightarrow> p
   | _ \<Rightarrow> (case jat j ''key'' of Inr (JStr k) \<Rightarrow> drop 14 k | _ \<Rightarrow> [])))"

definition sample_ext :: ext where
  "sample_ext = \<lparr>x_dump = sample_dump, x_sha256 = (\<lambda>s. replicate 31 0 @ [of_nat (length s)]),
     x_fts = (\<lambda>q rows. [])\<rparr>"

definition sample_id :: "nat \<Rightarrow> string" where
  "sample_id n = hex (replicate 31 0 @ [of_nat n])"

lemma hash_sample: "hash sample_ext j = sample_id (length (sample_dump j))"
  by (simp add: hash_def sample_ext_def sample_id_def)

lemma sample_dump_ext [simp]: "x_dump sample_ext = sample_dump"
  by (simp add: sample_ext_def)

lemma hex_digit_inject: "i < 16 \<Longrightarrow> j < 16 \<Longrightarrow> (hex_digit i = hex_digit j) = (i = j)"
  unfolding hex_digit_def by (rule nth_eq_iff_index_eq) simp_all

lemma hex_byte_inject: "(hex_byte a = hex_byte b) = (a = b)"
proof
  assume "hex_byte a = hex_byte b"
  then have "unat (drop_bit 4 a) = unat (drop_bit 4 b)" and "unat (and a 15) = unat (and b 15)"
    by (simp_all add: hex_byte_def hex_digit_inject nibbles_bound)
  then have d: "drop_bit 4 a = drop_bit 4 b" and m: "and a 15 = and b 15"
    by (simp_all only: word_unat_eq_iff)
  then have "take_bit 4 a = take_bit 4 b"
    by (simp add: take_bit_eq_mask mask_eq_exp_minus_1)
  with d show "a = b" by (metis bits_ident)
qed simp

lemma hex_inject: "(hex as = hex bs) = (as = bs)"
proof (induction as arbitrary: bs)
  case Nil
  then show ?case using length_hex [of bs] by (auto simp: hex_def hex_byte_def)
next
  case (Cons a as)
  have hc: "hex (c # cs) = hex_byte c @ hex cs" "length (hex_byte c) = 2" for c cs
    by (simp_all add: hex_def hex_byte_def)
  show ?case
  proof (cases bs)
    case Nil
    then show ?thesis by (simp add: hc(1)) (simp add: hex_def hex_byte_def)
  next
    case (Cons b cs)
    then show ?thesis using Cons.IH by (simp add: hc hex_byte_inject)
  qed
qed

lemma sample_id_inject: "m < 256 \<Longrightarrow> n < 256 \<Longrightarrow> (sample_id m = sample_id n) = (m = n)"
  by (simp add: sample_id_def hex_inject word_of_nat_eq_iff take_bit_eq_mod)

lemma sample_id_digest [simp]: "digest_string (sample_id n)"
  by (simp add: sample_id_def digest_string_def hex_hex)

lemma sample_id_nonempty [simp]: "sample_id n \<noteq> []"
  by (simp add: sample_id_def hex_def hex_byte_def)

end
