(* ===== verification/Cogg_Types.thy ===== *)
theory Cogg_Types
  imports Cogg_Json
begin

text \<open>
  The data of \<^verbatim>\<open>include/cogg/kernel.hpp\<close> and \<^verbatim>\<open>include/cogg/memory.hpp\<close>, the
  validation of typed deposits (\<^verbatim>\<open>src/memory.cpp\<close>) and of proposed transitions
  (\<^verbatim>\<open>src/kernel.cpp\<close>), and the conversions between proposals and untrusted JSON. The
  main results: each validation loop accepts exactly what a declarative predicate
  describes, and parsing what \<open>proposal_json\<close> prints gives the proposal back.
\<close>

section \<open>Time and limits\<close>

definition max_payload :: nat where "max_payload = 65536"
definition max_state :: nat where "max_state = 1048576"
definition max_delay :: millis where "max_delay = 365 * 24 * 60 * 60 * 1000"

definition check_text :: "string \<Rightarrow> nat \<Rightarrow> string \<Rightarrow> unit res" where
  "check_text s mx field =
     require (s \<noteq> [] \<and> length s \<le> mx \<and> CHR 0x00 \<notin> set s) (''invalid '' @ field) (Inr ())"

definition check_time :: "millis \<Rightarrow> unit res" where
  "check_time now = require (0 \<le> now) ''negative wall clock'' (Inr ())"

definition add_time :: "millis \<Rightarrow> millis \<Rightarrow> millis res" where
  "add_time a b = require (0 \<le> b \<and> a \<le> max_millis - b) ''time overflow'' (Inr (a + b))"

record limits =
  min_wake_ms :: millis
  max_attempts :: int
  period_ms :: millis
  max_wake_ms :: millis
  max_occasion_failures :: int

definition default_limits :: limits where
  "default_limits = \<lparr>min_wake_ms = 30000, max_attempts = 20, period_ms = 3600000,
     max_wake_ms = 365 * 24 * 60 * 60 * 1000, max_occasion_failures = 3\<rparr>"

definition limits_ok :: "limits \<Rightarrow> bool" where
  "limits_ok l \<longleftrightarrow>
     min_wake_ms l > 0 \<and> min_wake_ms l \<le> max_delay \<and> max_attempts l > 0 \<and>
     max_attempts l \<le> 1000000 \<and> period_ms l > 0 \<and> period_ms l \<le> max_delay \<and>
     max_wake_ms l \<ge> min_wake_ms l \<and> max_wake_ms l \<le> max_delay \<and>
     max_occasion_failures l \<ge> 0 \<and> max_occasion_failures l \<le> 64"

definition limits_json :: "limits \<Rightarrow> json res" where
  "limits_json l = require (limits_ok l) ''invalid runtime limits'' (Inr (mk_obj
     ([(''min_wake_ms'', JInt (min_wake_ms l)), (''max_attempts'', JInt (max_attempts l)),
       (''period_ms'', JInt (period_ms l)), (''max_wake_ms'', JInt (max_wake_ms l))] @
      (if max_occasion_failures l > 0
       then [(''max_occasion_failures'', JInt (max_occasion_failures l))] else []))))"

definition failure_scope :: "failure_kind \<Rightarrow> failure_scope" where
  "failure_scope kind = (if kind = Invalid_Output then Occasion_Scope else Transient)"

fun failure_reason :: "failure_kind \<Rightarrow> string" where
  "failure_reason Transport = ''transport_failed''"
| "failure_reason Timeout = ''timeout''"
| "failure_reason Invalid_Output = ''invalid_output''"
| "failure_reason Credentials = ''credentials_unavailable''"
| "failure_reason Backend = ''backend_failed''"

section \<open>Deposits, proposals, outcomes\<close>

record memory_note =
  n_key :: string
  n_text :: string
  n_type :: string
  n_status :: string
  n_sources :: "string list"
  n_covers :: "string list"

record proposal =
  p_kind :: string
  p_text :: string
  p_memory :: "(string \<times> json) list"
  p_wake_after_ms :: "millis option"
  p_notes :: "memory_note list"

definition default_proposal :: proposal where
  "default_proposal = \<lparr>p_kind = ''null'', p_text = [], p_memory = [],
     p_wake_after_ms = None, p_notes = []\<rparr>"

record abstention =
  a_reason :: string
  a_detail :: string

datatype outcome = Participates proposal | Abstains abstention

record snapshot =
  sn_subject :: string
  sn_tick :: int
  sn_head :: string
  sn_memory :: jobject
  sn_wake_at :: "millis option"
  sn_lifecycle :: string

record occasion =
  o_id :: string
  o_kind :: string
  o_payload :: json

lemma memory_note_eta [simp]:
  "\<lparr>n_key = n_key n, n_text = n_text n, n_type = n_type n, n_status = n_status n,
     n_sources = n_sources n, n_covers = n_covers n\<rparr> = n"
  by simp

lemma proposal_eta [simp]:
  "\<lparr>p_kind = p_kind p, p_text = p_text p, p_memory = p_memory p,
     p_wake_after_ms = p_wake_after_ms p, p_notes = p_notes p\<rparr> = p"
  by simp

section \<open>Deposits: validation and conversion\<close>

definition out_memory_writes :: nat where "out_memory_writes = 64"
definition out_notes :: nat where "out_notes = 8"
definition out_sources :: nat where "out_sources = 32"

definition text_ok :: "string \<Rightarrow> nat \<Rightarrow> unit res" where
  "text_ok s limit =
     require (s \<noteq> [] \<and> length s \<le> limit \<and> CHR 0x00 \<notin> set s) ''invalid memory text/key'' (Inr ())"

fun check_sources :: "string list \<Rightarrow> string list \<Rightarrow> string list res" where
  "check_sources src [] = Inr src"
| "check_sources src (x # xs) =
     require (digest_string x) ''invalid source id''
     (require (x \<notin> set src) ''duplicate source''
       (check_sources (x # src) xs))"

fun check_covers :: "string list \<Rightarrow> string list \<Rightarrow> string list \<Rightarrow> unit res" where
  "check_covers src cover [] = Inr ()"
| "check_covers src cover (x # xs) =
     require (x \<in> set src \<and> x \<notin> set cover) ''covers must be distinct explicit sources''
       (check_covers src (x # cover) xs)"

definition note_types :: "string list" where
  "note_types = [''note'', ''fact'', ''episode'', ''task'', ''summary'', ''procedure'', ''prospective'']"

definition note_statuses :: "string list" where
  "note_statuses = [''active'', ''open'', ''closed'', ''retracted'']"

definition validate_note :: "string list \<Rightarrow> memory_note \<Rightarrow> unit res" where
  "validate_note keys n =
     bindR (text_ok (n_key n) 128) (\<lambda>_.
     bindR (text_ok (n_text n) 8192) (\<lambda>_.
     require (n_key n \<notin> set keys) ''duplicate typed memory key'' (
     require (n_type n \<in> set note_types) ''invalid memory type'' (
     require (n_status n \<in> set note_statuses) ''invalid memory status'' (
     require ((n_status n \<noteq> ''open'' \<and> n_status n \<noteq> ''closed'') \<or> n_type n = ''task'')
       ''only tasks can be open or closed'' (
     require (length (n_sources n) \<le> out_sources \<and> length (n_covers n) \<le> out_sources)
       ''too many memory sources'' (
     bindR (check_sources [] (n_sources n)) (\<lambda>src.
     bindR (check_covers src [] (n_covers n)) (\<lambda>_.
     require (n_covers n = [] \<or> (n_type n = ''summary'' \<and> n_status n = ''active''))
       ''only an active summary can compact'' (
     require (n_type n \<noteq> ''summary'' \<or> n_sources n \<noteq> []) ''summary requires evidence sources'' (
     require (n_type n \<noteq> ''procedure'' \<or> n_status n = ''retracted'' \<or> n_sources n \<noteq> [])
       ''procedure requires evidence sources'' (Inr ()))))))))))))"

fun validate_notes_from :: "string list \<Rightarrow> memory_note list \<Rightarrow> unit res" where
  "validate_notes_from keys [] = Inr ()"
| "validate_notes_from keys (n # ns) =
     bindR (validate_note keys n) (\<lambda>_. validate_notes_from (n_key n # keys) ns)"

definition validate_memory_notes :: "memory_note list \<Rightarrow> unit res" where
  "validate_memory_notes notes =
     require (length notes \<le> out_notes) ''too many typed memory writes'' (validate_notes_from [] notes)"

definition memory_note_json :: "memory_note \<Rightarrow> json" where
  "memory_note_json n = mk_obj
     [(''key'', JStr (n_key n)), (''text'', JStr (n_text n)), (''type'', JStr (n_type n)),
      (''status'', JStr (n_status n)), (''sources'', JArr (map JStr (n_sources n))),
      (''covers'', JArr (map JStr (n_covers n)))]"

definition note_fields :: "string list" where
  "note_fields = [''key'', ''text'', ''type'', ''status'', ''sources'', ''covers'']"

fun object_keys :: "json \<Rightarrow> string list" where
  "object_keys (JObj kvs) = map fst kvs"
| "object_keys _ = []"

definition optional_strings :: "json \<Rightarrow> string \<Rightarrow> string list res" where
  "optional_strings j k =
     (if jcontains j k then bindR (jat j k) get_strings else Inr [])"

definition parse_memory_note :: "json \<Rightarrow> memory_note res" where
  "parse_memory_note j =
     require (is_object j) ''memory note must be an object'' (
     require (\<forall>k \<in> set (object_keys j). k \<in> set note_fields) ''unknown memory note field'' (
     bindR (bindR (jat j ''key'') get_string) (\<lambda>key.
     bindR (bindR (jat j ''text'') get_string) (\<lambda>txt.
     bindR (jvalue_string j ''type'' ''note'') (\<lambda>type.
     bindR (jvalue_string j ''status'' ''active'') (\<lambda>status.
     bindR (optional_strings j ''sources'') (\<lambda>sources.
     bindR (optional_strings j ''covers'') (\<lambda>covers.
     let n = \<lparr>n_key = key, n_text = txt, n_type = type, n_status = status,
              n_sources = sources, n_covers = covers\<rparr>
     in bindR (validate_memory_notes [n]) (\<lambda>_. Inr n)))))))))"

section \<open>Proposals: validation and conversion\<close>

fun validate_writes :: "ext \<Rightarrow> string list \<Rightarrow> (string \<times> json) list \<Rightarrow> unit res" where
  "validate_writes X keys [] = Inr ()"
| "validate_writes X keys ((k, v) # ws) =
     bindR (check_text k 128 ''memory key'') (\<lambda>_.
     require (k \<notin> set keys) ''duplicate memory key'' (
     require (length (x_dump X v) \<le> max_payload) ''memory value too large''
       (validate_writes X (k # keys) ws)))"

definition validate :: "ext \<Rightarrow> proposal \<Rightarrow> unit res" where
  "validate X p =
     bindR (validate_memory_notes (p_notes p)) (\<lambda>_.
     require (p_kind p = ''null'' \<or> p_kind p = ''reflection'' \<or> p_kind p = ''speech'')
       ''unsupported transition kind'' (
     require (length (p_text p) \<le> max_payload) ''speech too large'' (
     require (p_kind p = ''speech'' \<or> p_text p = []) ''only speech may emit text'' (
     require (length (p_memory p) \<le> out_memory_writes) ''too many memory writes'' (
     bindR (validate_writes X [] (p_memory p)) (\<lambda>_.
     require (case p_wake_after_ms p of None \<Rightarrow> True | Some t \<Rightarrow> 0 \<le> t \<and> t \<le> max_delay)
       ''wake interval outside supported range'' (Inr ())))))))"

definition write_json :: "string \<times> json \<Rightarrow> json" where
  "write_json w = mk_obj [(''key'', JStr (fst w)), (''value'', snd w)]"

definition proposal_enc :: "proposal \<Rightarrow> json" where
  "proposal_enc p = mk_obj
     ([(''kind'', JStr (p_kind p)), (''text'', JStr (p_text p)),
       (''memory'', JArr (map write_json (p_memory p))),
       (''wake_after_ms'', optional_time (p_wake_after_ms p))] @
      (if p_notes p \<noteq> [] then [(''notes'', JArr (map memory_note_json (p_notes p)))] else []))"

definition proposal_json :: "ext \<Rightarrow> proposal \<Rightarrow> json res" where
  "proposal_json X p = bindR (validate X p) (\<lambda>_. Inr (proposal_enc p))"

definition proposal_fields :: "string list" where
  "proposal_fields = [''kind'', ''text'', ''memory'', ''wake_after_ms'', ''notes'']"

definition parse_write :: "json \<Rightarrow> (string \<times> json) res" where
  "parse_write w =
     require (is_object w \<and> jsize w = 2 \<and> jcontains w ''key'' \<and> jcontains w ''value'')
       ''invalid memory write'' (
     bindR (bindR (jat w ''key'') get_string) (\<lambda>k.
     bindR (jat w ''value'') (\<lambda>v. Inr (k, v))))"

definition parse_wake :: "json \<Rightarrow> millis option res" where
  "parse_wake j =
     (if jcontains j ''wake_after_ms'' \<and> jat j ''wake_after_ms'' \<noteq> Inr JNull
      then bindR (jat j ''wake_after_ms'') (\<lambda>t.
             require (is_number_integer t) ''wake interval must be an integer'' (
             bindR (get_int t) (\<lambda>i.
             require (0 \<le> i \<longrightarrow> i \<le> max_delay) ''wake overflow'' (Inr (Some i)))))
      else Inr None)"

definition parse_list :: "json \<Rightarrow> string \<Rightarrow> string \<Rightarrow> (json \<Rightarrow> 'a res) \<Rightarrow> 'a list res" where
  "parse_list j k msg f =
     (if jcontains j k
      then bindR (jat j k) (\<lambda>xs. require (is_array xs) msg (mapR f (elements xs)))
      else Inr [])"

definition parse_proposal :: "ext \<Rightarrow> json \<Rightarrow> proposal res" where
  "parse_proposal X j =
     require (is_object j) ''transition must be an object'' (
     case find (\<lambda>k. k \<notin> set proposal_fields) (object_keys j) of
       Some k \<Rightarrow> Inl (Error (''unknown transition field: '' @ k))
     | None \<Rightarrow>
     bindR (bindR (jat j ''kind'') get_string) (\<lambda>kind.
     bindR (jvalue_string j ''text'' []) (\<lambda>txt.
     bindR (parse_wake j) (\<lambda>wake.
     bindR (parse_list j ''memory'' ''memory must be an array'' parse_write) (\<lambda>writes.
     bindR (parse_list j ''notes'' ''notes must be an array'' parse_memory_note) (\<lambda>notes.
     let p = \<lparr>p_kind = kind, p_text = txt, p_memory = writes, p_wake_after_ms = wake,
              p_notes = notes\<rparr>
     in bindR (validate X p) (\<lambda>_. Inr p)))))))"

section \<open>What the validators accept\<close>

definition key_ok :: "nat \<Rightarrow> string \<Rightarrow> bool" where
  "key_ok mx s \<longleftrightarrow> s \<noteq> [] \<and> length s \<le> mx \<and> CHR 0x00 \<notin> set s"

definition note_ok :: "memory_note \<Rightarrow> bool" where
  "note_ok n \<longleftrightarrow> key_ok 128 (n_key n) \<and> key_ok 8192 (n_text n) \<and>
     n_type n \<in> set note_types \<and> n_status n \<in> set note_statuses \<and>
     (n_status n \<in> {''open'', ''closed''} \<longrightarrow> n_type n = ''task'') \<and>
     length (n_sources n) \<le> out_sources \<and> length (n_covers n) \<le> out_sources \<and>
     distinct (n_sources n) \<and> list_all digest_string (n_sources n) \<and>
     distinct (n_covers n) \<and> set (n_covers n) \<subseteq> set (n_sources n) \<and>
     (n_covers n \<noteq> [] \<longrightarrow> n_type n = ''summary'' \<and> n_status n = ''active'') \<and>
     (n_type n = ''summary'' \<longrightarrow> n_sources n \<noteq> []) \<and>
     (n_type n = ''procedure'' \<longrightarrow> n_status n = ''retracted'' \<or> n_sources n \<noteq> [])"

definition notes_ok :: "memory_note list \<Rightarrow> bool" where
  "notes_ok ns \<longleftrightarrow> length ns \<le> out_notes \<and> distinct (map n_key ns) \<and> (\<forall>n \<in> set ns. note_ok n)"

definition proposal_ok :: "ext \<Rightarrow> proposal \<Rightarrow> bool" where
  "proposal_ok X p \<longleftrightarrow> notes_ok (p_notes p) \<and>
     p_kind p \<in> {''null'', ''reflection'', ''speech''} \<and> length (p_text p) \<le> max_payload \<and>
     (p_text p \<noteq> [] \<longrightarrow> p_kind p = ''speech'') \<and>
     length (p_memory p) \<le> out_memory_writes \<and> distinct (map fst (p_memory p)) \<and>
     (\<forall>(k, v) \<in> set (p_memory p). key_ok 128 k \<and> length (x_dump X v) \<le> max_payload) \<and>
     (\<forall>t. p_wake_after_ms p = Some t \<longrightarrow> 0 \<le> t \<and> t \<le> max_delay)"

lemma check_text_Inr [res_simps]: "(check_text s mx f = Inr ()) = key_ok mx s"
  by (simp add: check_text_def key_ok_def require_def)

lemma text_ok_Inr [res_simps]: "(text_ok s mx = Inr ()) = key_ok mx s"
  by (simp add: text_ok_def key_ok_def require_def)

lemma check_time_Inr [res_simps]: "(check_time now = Inr ()) = (0 \<le> now)"
  by (simp add: check_time_def require_def)

lemma add_time_Inr [res_simps]: "(add_time a b = Inr c) = (0 \<le> b \<and> a \<le> max_millis - b \<and> c = a + b)"
  by (auto simp: add_time_def require_def)

interpretation sources_loop:
  seen_loop "\<lambda>x. x" digest_string "\<lambda>seen xs. \<exists>r. check_sources seen xs = Inr r"
  by unfold_locales (auto simp: res_simps)

interpretation covers_loop:
  seen_loop "\<lambda>x. x" "\<lambda>x. x \<in> set src" "\<lambda>seen xs. check_covers src seen xs = Inr ()" for src
  by unfold_locales (auto simp: res_simps)

interpretation writes_loop:
  seen_loop fst "\<lambda>(k, v). key_ok 128 k \<and> length (x_dump X v) \<le> max_payload"
    "\<lambda>seen ws. validate_writes X seen ws = Inr ()" for X
  by unfold_locales (auto simp: res_simps)

lemma check_sources_set: "check_sources src xs = Inr r \<Longrightarrow> set r = set src \<union> set xs"
  by (induction src xs rule: check_sources.induct) (auto simp: res_simps)

lemma check_sources_Inr:
  "(check_sources [] xs = Inr r) \<Longrightarrow> distinct xs \<and> list_all digest_string xs \<and> set r = set xs"
  using sources_loop.accepts_iff [of xs] check_sources_set [of "[]" xs r]
  by (auto simp: list_all_iff)

lemma sources_covers_Inr:
  "(\<exists>r. check_sources [] xs = Inr r \<and> check_covers r [] cs = Inr () \<and> R) =
     (distinct xs \<and> list_all digest_string xs \<and> distinct cs \<and> set cs \<subseteq> set xs \<and> R)"
proof -
  have "(\<exists>r. check_sources [] xs = Inr r) = (distinct xs \<and> list_all digest_string xs)"
    using sources_loop.accepts_iff [of xs] by (simp add: list_all_iff)
  moreover have "check_covers r [] cs = Inr () \<longleftrightarrow> distinct cs \<and> set cs \<subseteq> set xs"
    if "check_sources [] xs = Inr r" for r
    using check_sources_set [OF that] covers_loop.accepts_iff [of r cs] by auto
  ultimately show ?thesis by blast
qed

lemma two_values_imp: "((s \<noteq> a \<and> s \<noteq> b) \<or> Q) = ((s = a \<longrightarrow> Q) \<and> (s = b \<longrightarrow> Q))"
  by blast

lemma validate_note_Inr: "(validate_note keys n = Inr ()) = (n_key n \<notin> set keys \<and> note_ok n)"
  by (simp add: validate_note_def note_ok_def res_simps sources_covers_Inr two_values_imp
      disj_imp)
    (simp only: conj_ac)

interpretation notes_loop:
  seen_loop n_key note_ok "\<lambda>seen ns. validate_notes_from seen ns = Inr ()"
  by unfold_locales (auto simp: res_simps validate_note_Inr)

lemma validate_memory_notes_Inr [res_simps]: "(validate_memory_notes ns = Inr ()) = notes_ok ns"
  by (simp add: validate_memory_notes_def notes_ok_def notes_loop.accepts_iff res_simps)

lemma validate_memory_notes_ok [simp]: "notes_ok ns \<Longrightarrow> validate_memory_notes ns = Inr ()"
  by (simp add: validate_memory_notes_Inr)

lemma notes_ok_single [simp]: "notes_ok [n] = note_ok n"
  by (simp add: notes_ok_def out_notes_def)

lemma validate_Inr [res_simps]: "(validate X p = Inr ()) = proposal_ok X p"
  by (auto simp: validate_def proposal_ok_def res_simps writes_loop.accepts_iff split: option.splits)

lemma validate_ok [simp]: "proposal_ok X p \<Longrightarrow> validate X p = Inr ()"
  by (simp add: validate_Inr)

lemma proposal_json_Inr [res_simps]: "(proposal_json X p = Inr j) = (proposal_ok X p \<and> j = proposal_enc p)"
  by (auto simp: proposal_json_def res_simps)

lemma parsed_proposal_ok: "parse_proposal X j = Inr p \<Longrightarrow> proposal_ok X p"
  by (auto simp: parse_proposal_def res_simps Let_def split: option.splits)

section \<open>Round trips\<close>

lemma object_keys_mk_obj: "set (object_keys (mk_obj kvs)) = fst ` set kvs"
  by (simp add: mk_obj_def fold_put_keys)

lemma parse_memory_note_json: "note_ok n \<Longrightarrow> parse_memory_note (memory_note_json n) = Inr n"
  by (simp add: parse_memory_note_def memory_note_json_def object_keys_mk_obj mk_obj_access
      note_fields_def optional_strings_def Let_def)

lemma parse_write_json: "parse_write (write_json w) = Inr w"
  by (simp add: parse_write_def write_json_def mk_obj_access)

lemma find_none: "(\<And>x. x \<in> set xs \<Longrightarrow> \<not> P x) \<Longrightarrow> find P xs = None"
  by (induction xs) auto

lemma parse_wake_enc:
  assumes "\<And>t. w = Some t \<Longrightarrow> 0 \<le> t \<and> t \<le> max_delay"
    and "jcontains j ''wake_after_ms''" and "jat j ''wake_after_ms'' = Inr (optional_time w)"
  shows "parse_wake j = Inr w"
  using assms by (cases w) (simp_all add: parse_wake_def optional_time_def)

lemma parse_proposal_enc:
  assumes ok: "proposal_ok X p"
  shows "parse_proposal X (proposal_enc p) = Inr p"
proof -
  define j where j: "j = proposal_enc p"
  have keys: "find (\<lambda>k. k \<notin> set proposal_fields) (object_keys j) = None"
    unfolding j proposal_enc_def
    by (rule find_none) (auto simp: object_keys_mk_obj proposal_fields_def)
  have wake: "parse_wake j = Inr (p_wake_after_ms p)"
    using ok by (intro parse_wake_enc) (auto simp: j proposal_ok_def proposal_enc_def mk_obj_access)
  have writes: "parse_list j ''memory'' m parse_write = Inr (p_memory p)" for m
    using mapR_map [of "p_memory p" parse_write write_json "\<lambda>w. w"]
    by (simp add: j parse_list_def proposal_enc_def mk_obj_access parse_write_json)
  have "mapR parse_memory_note (map memory_note_json (p_notes p)) = Inr (p_notes p)"
    using mapR_map [of "p_notes p" parse_memory_note memory_note_json "\<lambda>n. n"] ok
    by (simp add: proposal_ok_def notes_ok_def parse_memory_note_json)
  then have nts: "parse_list j ''notes'' m parse_memory_note = Inr (p_notes p)" for m
    by (simp add: j parse_list_def proposal_enc_def mk_obj_access)
  have "is_object j" and "jat j ''kind'' = Inr (JStr (p_kind p))"
    and "jvalue_string j ''text'' [] = Inr (p_text p)"
    by (simp_all add: j proposal_enc_def mk_obj_access)
  with ok show ?thesis
    by (simp add: parse_proposal_def keys wake writes nts Let_def flip: j)
qed

text \<open>
  Round trip of a transition: whatever proposal \<open>proposal_json\<close> accepts and prints,
  \<open>parse_proposal\<close> reads back unchanged, its working-memory writes, typed deposits and wake
  request included. The ledger stores the printed form and every verification replays it.
\<close>

lemma proposal_roundtrip:
  assumes "proposal_json X p = Inr j"
  shows "parse_proposal X j = Inr p"
  using assms by (auto simp: res_simps parse_proposal_enc)

lemma default_proposal_ok: "proposal_ok X default_proposal"
  by (simp add: proposal_ok_def default_proposal_def notes_ok_def)

theorem proposal_roundtrip_witness:
  "parse_proposal sample_ext (proposal_enc default_proposal) = Inr default_proposal"
  by (rule proposal_roundtrip) (simp add: proposal_json_Inr default_proposal_ok)

end
