(* ===== verification/Cogg_Budget.thy ===== *)
theory Cogg_Budget
  imports Cogg_Types
begin

text \<open>
  Admission accounting and wake decisions: \<open>Store::Impl::budget\<close> and
  \<open>Store::Impl::wake_plan\<close> of \<^verbatim>\<open>src/kernel.cpp\<close>. The budget exists twice in the code:
  as SQL queries over the attempts table, used when an attempt is admitted or committed,
  and as two binary searches over arrays loaded once (\<open>BudgetHistory\<close>), used when the
  history is verified. Main results: the two agree on every history the verifier accepts;
  a replay with a stored watermark is not changed by later admissions; an admission the
  budget allows keeps the host's interval and quota; a granted wake is inside its bounds
  and every deviation from the request is recorded.
\<close>

section \<open>Definitions\<close>

record budget =
  bg_used :: nat
  bg_limit :: nat
  bg_period_ms :: millis
  bg_through_seq :: int
  bg_floor_at :: millis
  bg_quota_at :: millis
  bg_eligible_at :: millis

text \<open>The subject's rows of the attempts table in \<open>seq\<close> order: \<open>(seq, admitted_at)\<close>.\<close>

type_synonym admissions = "(int \<times> millis) list"

record budget_history =
  bh_seq :: "int list"
  bh_at :: "millis list"

definition upper_bound :: "int list \<Rightarrow> int \<Rightarrow> nat" where
  "upper_bound xs v = length (takeWhile (\<lambda>x. x \<le> v) xs)"

definition budget_lower :: "limits \<Rightarrow> millis \<Rightarrow> millis" where
  "budget_lower lim now = (if now \<ge> period_ms lim then now - period_ms lim else -1)"

definition budget_cap :: "limits \<Rightarrow> nat" where
  "budget_cap lim = nat (max_attempts lim)"

definition budget_result ::
    "limits \<Rightarrow> millis \<Rightarrow> nat \<Rightarrow> int \<Rightarrow> millis option \<Rightarrow> millis option \<Rightarrow> budget res" where
  "budget_result lim now used watermark last_at quota_source =
     bindR (case last_at of None \<Rightarrow> Inr now
            | Some l \<Rightarrow> bindR (add_time l (min_wake_ms lim)) (\<lambda>t. Inr (max now t))) (\<lambda>floor_at.
     bindR (case quota_source of None \<Rightarrow> Inr now | Some q \<Rightarrow> add_time q (period_ms lim)) (\<lambda>quota_at.
     Inr \<lparr>bg_used = used, bg_limit = budget_cap lim, bg_period_ms = period_ms lim,
          bg_through_seq = watermark, bg_floor_at = floor_at, bg_quota_at = quota_at,
          bg_eligible_at = max floor_at quota_at\<rparr>))"

definition budget_sql :: "limits \<Rightarrow> admissions \<Rightarrow> millis \<Rightarrow> int \<Rightarrow> budget res" where
  "budget_sql lim rows now through =
     (let lower = budget_lower lim now; cap = budget_cap lim;
          visible = filter (\<lambda>(s, a). s \<le> through) rows;
          windowed = filter (\<lambda>(s, a). lower < a) visible;
          used = length windowed;
          by_admitted_desc = rev (sort_key snd windowed)
      in if used \<ge> cap
         then require (cap - 1 < length by_admitted_desc) ''budget source missing''
           (budget_result lim now used (if visible = [] then 0 else fst (last visible))
              (if visible = [] then None else Some (snd (last visible)))
              (Some (snd (by_admitted_desc ! (cap - 1)))))
         else budget_result lim now used (if visible = [] then 0 else fst (last visible))
              (if visible = [] then None else Some (snd (last visible))) None)"

definition budget_indexed :: "limits \<Rightarrow> budget_history \<Rightarrow> millis \<Rightarrow> int \<Rightarrow> budget res" where
  "budget_indexed lim h now through =
     (let lower = budget_lower lim now; cap = budget_cap lim;
          e = upper_bound (bh_seq h) through;
          b = upper_bound (take e (bh_at h)) lower;
          used = e - b
      in budget_result lim now used (if e = 0 then 0 else bh_seq h ! (e - 1))
           (if e = 0 then None else Some (bh_at h ! (e - 1)))
           (if used \<ge> cap then Some (bh_at h ! (e - cap)) else None))"

record wake_plan =
  wp_decided_at :: millis
  wp_requested_after_ms :: "millis option"
  wp_requested_at :: "millis option"
  wp_granted_at :: "millis option"
  wp_granted_after_ms :: "millis option"
  wp_reasons :: "string list"
  wp_budget :: budget

definition wake_plan :: "limits \<Rightarrow> millis option \<Rightarrow> millis \<Rightarrow> budget \<Rightarrow> wake_plan res" where
  "wake_plan lim wake now b =
     (case wake of
        None \<Rightarrow> Inr \<lparr>wp_decided_at = now, wp_requested_after_ms = None, wp_requested_at = None,
                 wp_granted_at = None, wp_granted_after_ms = None,
                 wp_reasons = [''waiting_external''], wp_budget = b\<rparr>
      | Some after \<Rightarrow>
          bindR (add_time now after) (\<lambda>requested.
          let r1 = (if after < min_wake_ms lim then [''minimum_interval''] else []);
              d1 = (if after < min_wake_ms lim then min_wake_ms lim else after);
              r2 = (if d1 > max_wake_ms lim then [''maximum_interval''] else []);
              d2 = (if d1 > max_wake_ms lim then max_wake_ms lim else d1)
          in bindR (add_time now d2) (\<lambda>granted0.
             let r3 = (if bg_eligible_at b > granted0 then [''attempt_budget''] else []);
                 granted = (if bg_eligible_at b > granted0 then bg_eligible_at b else granted0)
             in Inr \<lparr>wp_decided_at = now, wp_requested_after_ms = Some after,
                     wp_requested_at = Some requested, wp_granted_at = Some granted,
                     wp_granted_after_ms = Some (granted - now),
                     wp_reasons = r1 @ r2 @ r3, wp_budget = b\<rparr>)))"

definition budget_json :: "budget \<Rightarrow> json" where
  "budget_json b = mk_obj
     [(''used'', JInt (int (bg_used b))), (''limit'', JInt (int (bg_limit b))),
      (''period_ms'', JInt (bg_period_ms b)), (''through_seq'', JInt (bg_through_seq b)),
      (''floor_at'', JInt (bg_floor_at b)), (''quota_at'', JInt (bg_quota_at b)),
      (''eligible_at'', JInt (bg_eligible_at b))]"

definition wake_plan_json :: "wake_plan \<Rightarrow> json" where
  "wake_plan_json w = mk_obj
     [(''policy'', JStr ''cogg:wake/v2''), (''decided_at'', JInt (wp_decided_at w)),
      (''requested_after_ms'', optional_time (wp_requested_after_ms w)),
      (''requested_at'', optional_time (wp_requested_at w)),
      (''granted_at'', optional_time (wp_granted_at w)),
      (''granted_after_ms'', optional_time (wp_granted_after_ms w)),
      (''reasons'', JArr (map JStr (wp_reasons w))), (''budget'', budget_json (wp_budget w))]"

section \<open>The two budget computations agree\<close>

lemma take_length_takeWhile: "take (length (takeWhile P xs)) xs = takeWhile P xs"
  by (metis append_eq_conv_conj takeWhile_dropWhile_id)

lemma filter_fst_le_take:
  fixes rows :: admissions
  assumes "sorted (map fst rows)"
  shows "filter (\<lambda>(s, a). s \<le> v) rows = take (upper_bound (map fst rows) v) rows"
  using assms
proof (induction rows)
  case Nil
  then show ?case by simp
next
  case (Cons x rows)
  obtain s a where x: "x = (s, a)" by fastforce
  show ?case
  proof (cases "s \<le> v")
    case True
    with Cons show ?thesis by (simp add: x upper_bound_def)
  next
    case False
    with Cons.prems have "\<forall>y \<in> set rows. \<not> fst y \<le> v" by (auto simp: x)
    with False show ?thesis by (auto simp: x upper_bound_def filter_empty_conv)
  qed
qed

lemma filter_snd_gt_drop:
  fixes rows :: admissions
  assumes "sorted (map snd rows)"
  shows "filter (\<lambda>(s, a). v < a) rows = drop (upper_bound (map snd rows) v) rows"
  using assms
proof (induction rows)
  case Nil
  then show ?case by simp
next
  case (Cons x rows)
  obtain s a where x: "x = (s, a)" by fastforce
  show ?case
  proof (cases "a \<le> v")
    case True
    with Cons show ?thesis by (simp add: x upper_bound_def)
  next
    case False
    with Cons.prems have "\<forall>y \<in> set rows. v < snd y" by (auto simp: x)
    with False show ?thesis by (auto simp: x upper_bound_def filter_id_conv)
  qed
qed

lemma upper_bound_le: "upper_bound xs v \<le> length xs"
  by (simp add: upper_bound_def length_takeWhile_le)

lemma budget_indexed_sql:
  assumes "sorted (map fst rows)" and "sorted (map snd rows)" and "0 < max_attempts lim"
  shows "budget_indexed lim \<lparr>bh_seq = map fst rows, bh_at = map snd rows\<rparr> now through
       = budget_sql lim rows now through"
proof -
  define e where "e = upper_bound (map fst rows) through"
  define lower where "lower = budget_lower lim now"
  define vis where "vis = take e rows"
  define b where "b = upper_bound (map snd vis) lower"
  have e: "e \<le> length rows" using upper_bound_le [of "map fst rows" through] by (simp add: e_def)
  have vis: "filter (\<lambda>(s, a). s \<le> through) rows = vis"
    using assms(1) by (simp add: filter_fst_le_take vis_def e_def)
  have sorted_vis: "sorted (map snd vis)"
    using assms(2) by (simp add: vis_def take_map [symmetric] sorted_wrt_take)
  have win: "filter (\<lambda>(s, a). lower < a) vis = drop b vis"
    using sorted_vis by (simp add: filter_snd_gt_drop b_def)
  have sort_win: "sort_key snd (drop b vis) = drop b vis"
    using sorted_vis by (intro sort_key_id_if_sorted) (simp add: drop_map [symmetric] sorted_wrt_drop)
  have lenv: "length vis = e" using e by (simp add: vis_def)
  have b_idx: "upper_bound (take e (map snd rows)) lower = b"
    by (simp add: b_def vis_def take_map)
  have last_vis: "last vis = rows ! (e - 1)" if "e \<noteq> 0"
  proof -
    from that lenv have "vis \<noteq> []" by auto
    then have "last vis = vis ! (e - 1)" by (simp add: last_conv_nth lenv)
    with that show ?thesis by (simp add: vis_def)
  qed
  have kth: "snd (rev (drop b vis) ! (budget_cap lim - 1)) = map snd rows ! (e - budget_cap lim)"
    if "budget_cap lim \<le> e - b"
    using that assms(3) e lenv
    by (simp add: rev_nth vis_def budget_cap_def)
  have cap_pos: "0 < budget_cap lim" using assms(3) by (simp add: budget_cap_def)
  have idx: "budget_cap lim - Suc 0 < e - b" if "budget_cap lim \<le> e - b"
    using that cap_pos by linarith
  show ?thesis
    unfolding budget_indexed_def budget_sql_def Let_def
    using e cap_pos
    by (simp add: require_def idx kth [simplified] e_def [symmetric] lower_def [symmetric] vis win sort_win b_idx lenv
        last_vis flip: length_0_conv)
qed

text \<open>
  C16. The verifier's budget is the database's budget: for rows in \<open>seq\<close> order with
  nondecreasing admission times (what the verifier checks while it loads the arrays), the
  two binary searches give the same usage, watermark, floor, quota and eligibility, errors
  included, as the SQL queries, for every time and watermark.
\<close>

theorem budget_indexed_eq_sql:
  assumes "sorted (map fst rows)" and "sorted (map snd rows)" and "0 < max_attempts lim"
  shows "budget_indexed lim \<lparr>bh_seq = map fst rows, bh_at = map snd rows\<rparr> now through
       = budget_sql lim rows now through"
  using assms by (rule budget_indexed_sql)

theorem budget_indexed_eq_sql_witness:
  "budget_indexed default_limits \<lparr>bh_seq = [1, 2], bh_at = [0, 40000]\<rparr> 50000 2
     = budget_sql default_limits [(1, 0), (2, 40000)] 50000 2"
  using budget_indexed_eq_sql [of "[(1, 0), (2, 40000)]" default_limits 50000 2]
  by (simp add: default_limits_def)

section \<open>Replay with a stored watermark\<close>

text \<open>What a budget computed without a watermark sees: all rows.\<close>

lemma budget_sql_all:
  assumes "\<And>s a. (s, a) \<in> set rows \<Longrightarrow> s \<le> through"
  shows "filter (\<lambda>(s, a). s \<le> through) rows = rows"
  using assms by (auto simp: filter_id_conv)

lemma budget_result_watermark:
  "budget_result lim now u w l q = Inr b \<Longrightarrow> bg_through_seq b = w \<and> bg_used b = u"
  by (cases l; cases q) (auto simp: budget_result_def res_simps)

lemma budget_result_eligible:
  "budget_result lim now u w l q = Inr b \<Longrightarrow> bg_eligible_at b = max (bg_floor_at b) (bg_quota_at b)"
  by (cases l; cases q) (auto simp: budget_result_def res_simps)

lemma budget_sql_eligible:
  "budget_sql lim rows now through = Inr b \<Longrightarrow> bg_eligible_at b = max (bg_floor_at b) (bg_quota_at b)"
  by (auto simp: budget_sql_def Let_def res_simps dest!: budget_result_eligible split: if_splits)

lemma budget_sql_watermark:
  assumes "budget_sql lim rows now through = Inr b"
  shows "bg_through_seq b =
    (let visible = filter (\<lambda>(s, a). s \<le> through) rows in if visible = [] then 0 else fst (last visible))"
  using assms
  by (auto simp: budget_sql_def Let_def res_simps dest!: budget_result_watermark split: if_splits)

lemma budget_sql_visible_cong:
  "filter (\<lambda>(s, a). s \<le> t) rows = filter (\<lambda>(s, a). s \<le> t') rows' \<Longrightarrow>
     budget_sql lim rows now t = budget_sql lim rows' now t'"
  by (simp add: budget_sql_def)

text \<open>
  A stored decision stays replayable: a budget computed over all rows of a subject
  records the last \<open>seq\<close> it saw; computing it again through that watermark, after any
  later admissions, gives the same budget. (\<open>AUTOINCREMENT\<close> makes every later \<open>seq\<close>
  larger, and every \<open>seq\<close> positive.)
\<close>

lemma budget_replay_stable:
  assumes "budget_sql lim rows now through = Inr b"
    and "\<forall>(s, a) \<in> set rows. s \<le> through" and "sorted (map fst rows)"
    and "\<forall>(s, a) \<in> set later. 0 < s \<and> (\<forall>(s', a') \<in> set rows. s' < s)"
  shows "budget_sql lim (rows @ later) now (bg_through_seq b) = Inr b"
proof -
  have all: "filter (\<lambda>(s, a). s \<le> through) rows = rows"
    using assms(2) by (intro budget_sql_all) auto
  have w: "bg_through_seq b = (if rows = [] then 0 else fst (last rows))"
    using budget_sql_watermark [OF assms(1)] by (simp add: all)
  have "filter (\<lambda>(s, a). s \<le> bg_through_seq b) later = []"
  proof (cases "rows = []")
    case True
    with assms(4) w show ?thesis by (auto simp: filter_empty_conv)
  next
    case False
    then have "last rows \<in> set rows" by simp
    then have "bg_through_seq b < s" if "(s, a) \<in> set later" for s a
      using that assms(4) w False by (metis (mono_tags, lifting) case_prodD prod.collapse)
    then show ?thesis by (force simp: filter_empty_conv)
  qed
  moreover have "filter (\<lambda>(s, a). s \<le> bg_through_seq b) rows = rows"
  proof (cases "rows = []")
    case False
    have "s \<le> fst (last rows)" if "(s, a) \<in> set rows" for s a
    proof -
      from that obtain i where i: "i < length rows" "rows ! i = (s, a)" by (auto simp: in_set_conv_nth)
      then have "map fst rows ! i \<le> map fst rows ! (length rows - 1)"
        using assms(3) by (intro sorted_nth_mono) auto
      with i False show ?thesis by (simp add: last_conv_nth)
    qed
    with w False show ?thesis by (auto simp: filter_id_conv)
  qed simp
  ultimately have "budget_sql lim (rows @ later) now (bg_through_seq b) = budget_sql lim rows now through"
    by (intro budget_sql_visible_cong) (simp add: all)
  with assms(1) show ?thesis by simp
qed

lemma budget_replay_example:
  "budget_sql default_limits [(1, 0), (2, 40000)] 50000 2 = Inr
     \<lparr>bg_used = 2, bg_limit = 20, bg_period_ms = 3600000, bg_through_seq = 2,
      bg_floor_at = 70000, bg_quota_at = 50000, bg_eligible_at = 70000\<rparr>"
  by (simp add: budget_sql_def budget_result_def budget_lower_def budget_cap_def default_limits_def
      add_time_def max_millis_def require_def)

theorem budget_replay_stable_witness:
  "budget_sql default_limits ([(1, 0), (2, 40000)] @ [(3, 90000)]) 50000 2 = Inr
     \<lparr>bg_used = 2, bg_limit = 20, bg_period_ms = 3600000, bg_through_seq = 2,
      bg_floor_at = 70000, bg_quota_at = 50000, bg_eligible_at = 70000\<rparr>"
  using budget_replay_stable [OF budget_replay_example, of "[(3, 90000)]"] by simp

section \<open>What an allowed admission guarantees\<close>

text \<open>The rate contract: consecutive admissions at least \<open>min_wake_ms\<close> apart, and at most
  \<open>max_attempts\<close> of them in any window of length \<open>period_ms\<close> that ends at an admission.\<close>

definition window_count :: "limits \<Rightarrow> admissions \<Rightarrow> millis \<Rightarrow> nat" where
  "window_count lim rows at = length (filter (\<lambda>(s, a). at - period_ms lim < a \<and> a \<le> at) rows)"

definition rate_ok :: "limits \<Rightarrow> admissions \<Rightarrow> bool" where
  "rate_ok lim rows \<longleftrightarrow>
     (\<forall>i. Suc i < length rows \<longrightarrow> snd (rows ! i) + min_wake_ms lim \<le> snd (rows ! Suc i)) \<and>
     (\<forall>i < length rows. int (window_count lim (take (Suc i) rows) (snd (rows ! i))) \<le> max_attempts lim)"

lemma budget_result_ready:
  assumes "budget_result lim now u w l q = Inr b" and "bg_eligible_at b \<le> now"
  shows "(case l of None \<Rightarrow> True | Some t \<Rightarrow> t + min_wake_ms lim \<le> now) \<and>
         (case q of None \<Rightarrow> True | Some t \<Rightarrow> t + period_ms lim \<le> now)"
  using assms by (cases l; cases q) (auto simp: budget_result_def res_simps)

text \<open>A full window is never eligible: the \<open>cap\<close>-th newest admission in it is less than a
  period old.\<close>

lemma budget_sql_ready_used:
  assumes "budget_sql lim rows now through = Inr b" and "bg_eligible_at b \<le> now"
    and "0 < max_attempts lim" and "\<forall>(s, a) \<in> set rows. 0 \<le> a"
  shows "length (filter (\<lambda>(s, a). budget_lower lim now < a)
           (filter (\<lambda>(s, a). s \<le> through) rows)) < budget_cap lim"
proof (rule ccontr)
  define windowed where "windowed = filter (\<lambda>(s, a). budget_lower lim now < a)
      (filter (\<lambda>(s, a). s \<le> through) rows)"
  assume "\<not> ?thesis"
  then have full: "budget_cap lim \<le> length windowed" by (simp add: windowed_def)
  have cap: "budget_cap lim - 1 < length windowed"
    using full assms(3) by (simp add: budget_cap_def)
  define q where "q = snd (rev (sort_key snd windowed) ! (budget_cap lim - 1))"
  have "rev (sort_key snd windowed) ! (budget_cap lim - 1) \<in> set windowed"
    using cap nth_mem [of "budget_cap lim - 1" "rev (sort_key snd windowed)"] by simp
  then have q: "budget_lower lim now < q" "0 \<le> q"
    using assms(4) by (auto simp: windowed_def q_def)
  have "q + period_ms lim \<le> now"
    using assms(1,2) full budget_result_ready
    by (fastforce simp: budget_sql_def Let_def res_simps windowed_def q_def)
  with q show False by (auto simp: budget_lower_def split: if_splits)
qed

lemma window_count_snoc:
  assumes "\<forall>(s, a) \<in> set rows. 0 \<le> a \<and> a \<le> now" and "0 < period_ms lim"
  shows "window_count lim (rows @ [(s, now)]) now =
    Suc (length (filter (\<lambda>(s, a). budget_lower lim now < a) rows))"
proof -
  have "filter (\<lambda>(s, a). now - period_ms lim < a \<and> a \<le> now) rows =
      filter (\<lambda>(s, a). budget_lower lim now < a) rows"
    using assms(1) by (intro filter_cong) (auto simp: budget_lower_def)
  with assms(2) show ?thesis by (simp add: window_count_def)
qed

lemma rate_ok_snoc:
  assumes "rate_ok lim rows"
    and "rows \<noteq> [] \<Longrightarrow> snd (last rows) + min_wake_ms lim \<le> now"
    and "int (window_count lim (rows @ [(s, now)]) now) \<le> max_attempts lim"
  shows "rate_ok lim (rows @ [(s, now)])"
  unfolding rate_ok_def
proof (intro conjI allI impI)
  fix i assume i: "Suc i < length (rows @ [(s, now)])"
  show "snd ((rows @ [(s, now)]) ! i) + min_wake_ms lim \<le> snd ((rows @ [(s, now)]) ! Suc i)"
  proof (cases "Suc i < length rows")
    case True
    with assms(1) show ?thesis by (simp add: rate_ok_def nth_append)
  next
    case False
    with i have n: "length rows = Suc i" and "rows \<noteq> []" by auto
    then have "last rows = rows ! i" by (simp add: last_conv_nth)
    with n \<open>rows \<noteq> []\<close> assms(2) show ?thesis by (simp add: nth_append)
  qed
next
  fix i assume i: "i < length (rows @ [(s, now)])"
  show "int (window_count lim (take (Suc i) (rows @ [(s, now)])) (snd ((rows @ [(s, now)]) ! i)))
      \<le> max_attempts lim"
  proof (cases "i < length rows")
    case True
    with assms(1) show ?thesis by (simp add: rate_ok_def nth_append)
  next
    case False
    with i have "i = length rows" by simp
    with assms(3) show ?thesis by (simp add: nth_append)
  qed
qed

text \<open>An admission the budget allows keeps the rate contract.\<close>

lemma rate_ok_admission:
  assumes "rate_ok lim rows" and "budget_sql lim rows now through = Inr b"
    and "bg_eligible_at b \<le> now" and "limits_ok lim"
    and "\<forall>(s, a) \<in> set rows. s \<le> through \<and> 0 \<le> a \<and> a \<le> now"
  shows "rate_ok lim (rows @ [(s, now)])"
proof (rule rate_ok_snoc [OF assms(1)])
  have all: "filter (\<lambda>(s, a). s \<le> through) rows = rows"
    using assms(5) by (intro budget_sql_all) auto
  have pos: "0 < max_attempts lim" "0 < period_ms lim" using assms(4) by (simp_all add: limits_ok_def)
  have "length (filter (\<lambda>(s, a). budget_lower lim now < a) rows) < budget_cap lim"
    using budget_sql_ready_used [OF assms(2,3) pos(1)] assms(5) by (fastforce simp: all)
  moreover have "window_count lim (rows @ [(s, now)]) now =
      Suc (length (filter (\<lambda>(s, a). budget_lower lim now < a) rows))"
    using assms(5) pos(2) by (intro window_count_snoc) auto
  ultimately show "int (window_count lim (rows @ [(s, now)]) now) \<le> max_attempts lim"
    using pos(1) by (simp add: budget_cap_def)
  assume "rows \<noteq> []"
  then have "\<exists>u w q. budget_result lim now u w (Some (snd (last rows))) q = Inr b"
    using assms(2) by (auto simp: budget_sql_def Let_def all res_simps split: if_splits)
  then show "snd (last rows) + min_wake_ms lim \<le> now"
    using budget_result_ready [OF _ assms(3)] by fastforce
qed

lemma count_above_less:
  fixes x :: int
  assumes "sorted xs" and "0 < k"
  shows "length (filter (\<lambda>a. x < a) xs) < k \<longleftrightarrow> length xs < k \<or> xs ! (length xs - k) \<le> x"
  using assms
proof (induction xs)
  case (Cons a xs)
  show ?case
  proof (cases "x < a")
    case True
    with Cons.prems(1) have all: "\<forall>y \<in> set (a # xs). x < y" by auto
    then have "x < (a # xs) ! (length (a # xs) - k)" if "k \<le> length (a # xs)"
      using that Cons.prems(2) by (intro bspec [OF all] nth_mem) auto
    moreover from all have "filter (\<lambda>a. x < a) (a # xs) = a # xs" by (auto simp: filter_id_conv)
    ultimately show ?thesis by (metis linorder_not_le)
  next
    case False
    consider "length xs < k" | "k \<le> length xs" by linarith
    then show ?thesis
    proof cases
      case 1
      with False Cons show ?thesis by (cases "length xs - k"; cases "Suc (length xs) - k") auto
    next
      case 2
      with False Cons show ?thesis by (simp add: Suc_diff_le)
    qed
  qed
qed simp

lemma rate_ok_snoc_iff:
  assumes "rate_ok lim rows"
  shows "rate_ok lim (rows @ [(s, now)]) \<longleftrightarrow>
    (rows \<noteq> [] \<longrightarrow> snd (last rows) + min_wake_ms lim \<le> now) \<and>
    int (window_count lim (rows @ [(s, now)]) now) \<le> max_attempts lim" (is "?l \<longleftrightarrow> ?r")
proof
  assume ?r with assms show ?l by (intro rate_ok_snoc) auto
next
  assume l: ?l
  have "snd (last rows) + min_wake_ms lim \<le> now" if "rows \<noteq> []"
  proof -
    from that have n: "Suc (length rows - 1) < length (rows @ [(s, now)])" by (cases rows) auto
    from that n l show ?thesis
      unfolding rate_ok_def by (auto simp: last_conv_nth nth_append dest!: spec [of _ "length rows - 1"])
  qed
  moreover have "int (window_count lim (rows @ [(s, now)]) now) \<le> max_attempts lim"
    using l unfolding rate_ok_def by (auto simp: nth_append dest!: spec [of _ "length rows"])
  ultimately show ?r by blast
qed

lemma rate_ok_sorted:
  assumes "rate_ok lim rows" and "limits_ok lim"
  shows "sorted (map snd rows)"
  using assms by (auto simp: sorted_iff_nth_Suc rate_ok_def limits_ok_def)

lemma budget_result_parts:
  "budget_result lim now u w l q = Inr b \<Longrightarrow>
     bg_floor_at b = (case l of None \<Rightarrow> now | Some t \<Rightarrow> max now (t + min_wake_ms lim)) \<and>
     bg_quota_at b = (case q of None \<Rightarrow> now | Some t \<Rightarrow> t + period_ms lim)"
  by (cases l; cases q) (auto simp: budget_result_def res_simps)

text \<open>The eligibility a budget announces is exact: as long as nothing else is admitted, an
  admission at \<open>t\<close> keeps the contract if and only if \<open>t\<close> has reached \<open>eligible_at\<close>.\<close>

lemma eligible_exact:
  assumes "limits_ok lim" and "rate_ok lim rows" and "budget_sql lim rows now through = Inr b"
    and "\<forall>(s, a) \<in> set rows. s \<le> through \<and> 0 \<le> a \<and> a \<le> now" and "now \<le> t"
  shows "rate_ok lim (rows @ [(s, t)]) \<longleftrightarrow> bg_eligible_at b \<le> t"
proof -
  define xs where "xs = map snd rows"
  define k where "k = budget_cap lim"
  have pos: "0 < k" "int k = max_attempts lim" "0 < period_ms lim"
    using assms(1) by (simp_all add: limits_ok_def k_def budget_cap_def)
  have sorted: "sorted xs" using rate_ok_sorted [OF assms(2,1)] by (simp add: xs_def)
  have bounds: "\<forall>(s, a) \<in> set rows. 0 \<le> a \<and> a \<le> u" if "now \<le> u" for u using assms(4) that by fastforce
  have count: "length (filter (\<lambda>(s, a). budget_lower lim u < a) rows) = length (filter (\<lambda>a. u - period_ms lim < a) xs)"
    if "now \<le> u" for u
  proof -
    have "length (filter (\<lambda>a. u - period_ms lim < a) xs) = length (filter (\<lambda>r. u - period_ms lim < snd r) rows)"
      by (simp add: xs_def filter_map comp_def)
    also have "filter (\<lambda>r. u - period_ms lim < snd r) rows = filter (\<lambda>(s, a). budget_lower lim u < a) rows"
      using bounds [OF that] by (intro filter_cong) (auto simp: budget_lower_def)
    finally show ?thesis by simp
  qed
  have window: "int (window_count lim (rows @ [(s, t)]) t) \<le> max_attempts lim \<longleftrightarrow>
      length xs < k \<or> xs ! (length xs - k) + period_ms lim \<le> t"
    using window_count_snoc [OF bounds [OF assms(5)] pos(3)] count [OF assms(5)] pos(2)
      count_above_less [OF sorted pos(1), of "t - period_ms lim"] by auto
  have all: "filter (\<lambda>(s, a). s \<le> through) rows = rows" using assms(4) by (intro budget_sql_all) auto
  let ?win = "filter (\<lambda>(s, a). budget_lower lim now < a) rows"
  let ?last = "if rows = [] then None else Some (snd (last rows))"
  have floor: "bg_floor_at b \<le> t \<longleftrightarrow> (rows \<noteq> [] \<longrightarrow> snd (last rows) + min_wake_ms lim \<le> t)"
    and quota: "bg_quota_at b \<le> t \<longleftrightarrow> length xs < k \<or> xs ! (length xs - k) + period_ms lim \<le> t"
  proof -
    consider (free) u w where "budget_result lim now u w ?last None = Inr b" "length ?win < k"
      | (full) u w where "budget_result lim now u w ?last (Some (snd (rev (sort_key snd ?win) ! (k - 1)))) = Inr b" "k \<le> length ?win"
      using assms(3) by (auto simp: budget_sql_def Let_def all res_simps k_def split: if_splits)
    then have "(bg_floor_at b \<le> t \<longleftrightarrow> (rows \<noteq> [] \<longrightarrow> snd (last rows) + min_wake_ms lim \<le> t)) \<and>
      (bg_quota_at b \<le> t \<longleftrightarrow> length xs < k \<or> xs ! (length xs - k) + period_ms lim \<le> t)"
    proof cases
      case free
      from free(2) count [of now] count_above_less [OF sorted pos(1), of "now - period_ms lim"]
      have "length xs < k \<or> xs ! (length xs - k) \<le> now - period_ms lim" by simp
      with budget_result_parts [OF free(1)] assms(5) show ?thesis by auto
    next
      case full
      define m where "m = upper_bound xs (budget_lower lim now)"
      have win: "?win = drop m rows" using filter_snd_gt_drop [of rows] sorted by (simp add: xs_def m_def)
      have "sort_key snd (drop m rows) = drop m rows"
        using sorted by (intro sort_key_id_if_sorted) (simp add: xs_def drop_map [symmetric] sorted_wrt_drop)
      with full pos(1) have src: "snd (rev (sort_key snd ?win) ! (k - 1)) = xs ! (length xs - k)"
        by (simp add: win rev_nth xs_def)
      have len: "k \<le> length xs" using le_trans [OF full(2) length_filter_le] by (simp add: xs_def)
      from budget_result_parts [OF full(1)] src len assms(5) show ?thesis by auto
    qed
    then show "bg_floor_at b \<le> t \<longleftrightarrow> (rows \<noteq> [] \<longrightarrow> snd (last rows) + min_wake_ms lim \<le> t)"
      and "bg_quota_at b \<le> t \<longleftrightarrow> length xs < k \<or> xs ! (length xs - k) + period_ms lim \<le> t" by blast+
  qed
  show ?thesis
    unfolding rate_ok_snoc_iff [OF assms(2)] window using floor quota budget_sql_eligible [OF assms(3)] by auto
qed

section \<open>What a wake decision grants\<close>

text \<open>
  A granted wake: no request, no wake; a request \<open>d\<close> is granted no earlier than the
  host's minimum interval and the attempt budget allow, no later than the maximum interval
  or the budget, and whenever the grant is later (earlier) than requested the plan says
  which bound moved it.
\<close>

lemma wake_plan_bounds:
  assumes "limits_ok lim" and "wake_plan lim wake now b = Inr w"
  shows "case wake of None \<Rightarrow> wp_granted_at w = None
    | Some d \<Rightarrow> \<exists>g. wp_granted_at w = Some g \<and> wp_granted_after_ms w = Some (g - now) \<and>
        now + min_wake_ms lim \<le> g \<and> bg_eligible_at b \<le> g \<and>
        g \<le> max (now + max_wake_ms lim) (bg_eligible_at b) \<and>
        (wp_reasons w = [] \<longrightarrow> g = now + d) \<and>
        (now + d < g \<longrightarrow> ''minimum_interval'' \<in> set (wp_reasons w) \<or> ''attempt_budget'' \<in> set (wp_reasons w)) \<and>
        (g < now + d \<longrightarrow> ''maximum_interval'' \<in> set (wp_reasons w))"
proof (cases wake)
  case None
  with assms(2) show ?thesis by (auto simp: wake_plan_def)
next
  case (Some d)
  have "min_wake_ms lim \<le> max_wake_ms lim" using assms(1) by (simp add: limits_ok_def)
  with Some assms(2) show ?thesis
    by (auto simp: wake_plan_def Let_def res_simps max_def split: if_splits)
qed

theorem wake_plan_bounds_witness:
  "\<exists>w. wake_plan default_limits (Some 100) 1000
        \<lparr>bg_used = 1, bg_limit = 20, bg_period_ms = 3600000, bg_through_seq = 1,
         bg_floor_at = 31000, bg_quota_at = 1000, bg_eligible_at = 31000\<rparr> = Inr w \<and>
      31000 \<le> the (wp_granted_at w)"
proof -
  let ?b = "\<lparr>bg_used = 1, bg_limit = 20, bg_period_ms = 3600000, bg_through_seq = 1,
         bg_floor_at = 31000, bg_quota_at = 1000, bg_eligible_at = 31000\<rparr>"
  obtain w where w: "wake_plan default_limits (Some 100) 1000 ?b = Inr w"
    by (simp add: wake_plan_def add_time_def max_millis_def default_limits_def Let_def)
  have "limits_ok default_limits" by (simp add: default_limits_def limits_ok_def max_delay_def)
  from wake_plan_bounds [OF this w] have "31000 \<le> the (wp_granted_at w)"
    by (auto simp: default_limits_def)
  with w show ?thesis by blast
qed

end
