(* ===== verification/Cogg_Store.thy ===== *)
theory Cogg_Store
  imports Cogg_Budget
begin

text \<open>
  The durable state: the tables \<open>Store::Store\<close> creates (\<^verbatim>\<open>src/kernel.cpp\<close>) and
  \<open>memory_schema\<close> adds (\<^verbatim>\<open>src/memory.cpp\<close>), one record per table row, and the JSON
  bodies the ledger hashes, one record per kind of body with the function that prints it.
  A \<open>TEXT\<close> column that holds \<open>body.dump()\<close> is modelled by the body itself. Tables with
  an \<open>AUTOINCREMENT\<close> key are lists in \<open>seq\<close> order, because SQLite appends to them; the
  counters are SQLite's \<open>sqlite_sequence\<close>. A statement that violates a \<open>UNIQUE\<close> or
  \<open>PRIMARY KEY\<close> constraint throws.
\<close>

section \<open>What an executor sees\<close>

record wire =
  w_note :: memory_note
  w_id :: string
  w_commit :: string
  w_tick :: int
  w_current :: bool
  w_summary_stale :: bool

record memory_view =
  mv_head :: string
  mv_strategy :: string
  mv_query :: string
  mv_max_bytes :: nat
  mv_max_items :: nat
  mv_candidate_limit :: nat
  mv_history :: bool
  mv_total_deposits :: nat
  mv_legacy_keys :: nat
  mv_candidates :: nat
  mv_items :: "wire list"
  mv_maintenance_ids :: "string list option"

record pending =
  pe_id :: "string option"
  pe_kind :: string
  pe_payload :: json

record decision =
  sc_status :: string
  sc_eligible_at :: "millis option"
  sc_occasion :: "pending option"
  sc_wall_observed_at :: millis
  sc_accounting_at :: millis
  sc_wall_rollback_ms :: millis
  sc_budget :: budget
  sc_head :: string
  sc_tick :: int
  sc_wake_at :: "millis option"

datatype previous_wake = No_Previous | Previous_Plan wake_plan | Previous_V1 "millis option"

record temporal =
  te_clock :: json
  te_coordinate :: int
  te_admission :: decision
  te_previous_wake :: previous_wake
  te_wake_lateness_ms :: "millis option"

record present =
  pr_state :: snapshot
  pr_occasion :: occasion
  pr_prior_unsettled :: bool
  pr_temporal :: temporal
  pr_working_memory :: "jobject option"
  pr_memory_view :: "memory_view option"
  pr_inputs :: json

record attempt =
  att_id :: string
  att_present :: present

section \<open>Hashed bodies\<close>

record event =
  ev_subject :: string
  ev_key :: string
  ev_kind :: string
  ev_payload :: json
  ev_received_at :: millis
  ev_parents :: "string list"

record admission =
  ad_schema :: int
  ad_nonce :: string
  ad_subject :: string
  ad_parent :: string
  ad_tick :: int
  ad_occasion :: string
  ad_backend :: string
  ad_admitted_at :: millis
  ad_prior_unsettled :: bool
  ad_wall_observed_at :: millis
  ad_temporal :: temporal
  ad_execution :: json
  ad_inputs :: json
  ad_context :: "(jobject \<times> memory_view) option"
  ad_capacity :: "(nat \<times> nat) option"

record disposition =
  di_limit :: int
  di_failures :: "string list"

record genesis =
  ge_schema :: int
  ge_subject :: string
  ge_created_at :: millis
  ge_nonce :: string
  ge_limits :: limits
  ge_memory :: jobject

record transition =
  tr_schema :: int
  tr_subject :: string
  tr_tick :: int
  tr_parent :: string
  tr_occasion :: string
  tr_attempt :: string
  tr_proposal :: proposal
  tr_memory :: jobject
  tr_wake_at :: "millis option"
  tr_committed_at :: millis
  tr_wall_observed_at :: millis
  tr_wake_plan :: "wake_plan option"
  tr_inference_elapsed_ms :: "millis option"
  tr_emission :: json
  tr_disposition :: "disposition option"

datatype commit_body = Genesis genesis | Transition transition

section \<open>Printing the bodies\<close>

definition wire_json :: "wire \<Rightarrow> json" where
  "wire_json w = mk_obj
     [(''key'', JStr (n_key (w_note w))), (''text'', JStr (n_text (w_note w))),
      (''type'', JStr (n_type (w_note w))), (''status'', JStr (n_status (w_note w))),
      (''sources'', JArr (map JStr (n_sources (w_note w)))),
      (''covers'', JArr (map JStr (n_covers (w_note w)))),
      (''id'', JStr (w_id w)), (''commit'', JStr (w_commit w)), (''tick'', JInt (w_tick w)),
      (''current'', JBool (w_current w)), (''summary_stale'', JBool (w_summary_stale w))]"

definition view_json :: "memory_view \<Rightarrow> json" where
  "view_json v = mk_obj
     ([(''schema'', JStr ''cogg:memory-view/v1''), (''head'', JStr (mv_head v)),
       (''strategy'', JStr (mv_strategy v)), (''query'', JStr (mv_query v)),
       (''max_bytes'', JInt (int (mv_max_bytes v))), (''max_items'', JInt (int (mv_max_items v))),
       (''candidate_limit'', JInt (int (mv_candidate_limit v))), (''history'', JBool (mv_history v)),
       (''total_deposits'', JInt (int (mv_total_deposits v))),
       (''legacy_keys'', JInt (int (mv_legacy_keys v))), (''candidates'', JInt (int (mv_candidates v))),
       (''items'', JArr (map wire_json (mv_items v))), (''omitted'', JBool True)] @
      (case mv_maintenance_ids v of None \<Rightarrow> []
       | Some ids \<Rightarrow> [(''maintenance_ids'', JArr (map JStr ids)),
          (''scope'', JStr (''Only named tasks are visible. Other obligations remain open; '' @
             ''this is not a complete task view.''))]))"

definition pending_json :: "pending \<Rightarrow> json" where
  "pending_json p = mk_obj
     [(''id'', case pe_id p of None \<Rightarrow> JNull | Some i \<Rightarrow> JStr i), (''kind'', JStr (pe_kind p)),
      (''payload'', pe_payload p)]"

definition decision_json :: "decision \<Rightarrow> json" where
  "decision_json d = mk_obj
     [(''status'', JStr (sc_status d)), (''eligible_at'', optional_time (sc_eligible_at d)),
      (''occasion'', case sc_occasion d of None \<Rightarrow> JNull | Some p \<Rightarrow> pending_json p),
      (''wall_observed_at'', JInt (sc_wall_observed_at d)), (''accounting_at'', JInt (sc_accounting_at d)),
      (''wall_rollback_ms'', JInt (sc_wall_rollback_ms d)), (''budget'', budget_json (sc_budget d)),
      (''head'', JStr (sc_head d)), (''tick'', JInt (sc_tick d)),
      (''wake_at'', optional_time (sc_wake_at d))]"

fun previous_wake_json :: "previous_wake \<Rightarrow> json" where
  "previous_wake_json No_Previous = JNull"
| "previous_wake_json (Previous_Plan w) = wake_plan_json w"
| "previous_wake_json (Previous_V1 t) =
     mk_obj [(''policy'', JStr ''cogg:wake/v1''), (''granted_at'', optional_time t)]"

definition clock_json :: "string \<Rightarrow> json" where
  "clock_json origin = mk_obj
     [(''clock_id'', JStr (''cogg:commit:'' @ origin)), (''origin'', JStr origin),
      (''grain_epoch'', JStr ''cogg:committed-transition/v1''), (''unit'', JStr ''committed_transition''),
      (''membership'', JStr ''verified subject commit parent chain; genesis is coordinate zero'')]"

definition temporal_json :: "temporal \<Rightarrow> json" where
  "temporal_json t = mk_obj
     [(''clock'', te_clock t), (''coordinate'', JInt (te_coordinate t)),
      (''admission'', decision_json (te_admission t)),
      (''previous_wake'', previous_wake_json (te_previous_wake t)),
      (''wake_lateness_ms'', optional_time (te_wake_lateness_ms t))]"

definition event_json :: "event \<Rightarrow> json" where
  "event_json e = mk_obj
     [(''schema'', JInt 1), (''subject'', JStr (ev_subject e)), (''key'', JStr (ev_key e)),
      (''kind'', JStr (ev_kind e)), (''payload'', ev_payload e), (''received_at'', JInt (ev_received_at e)),
      (''parents'', JArr (map JStr (ev_parents e)))]"

definition context_json :: "jobject \<times> memory_view \<Rightarrow> json" where
  "context_json c = mk_obj [(''memory'', JObj (fst c)), (''view'', view_json (snd c))]"

definition admission_json :: "admission \<Rightarrow> json" where
  "admission_json a = mk_obj
     ([(''schema'', JInt (ad_schema a)), (''nonce'', JStr (ad_nonce a)), (''subject'', JStr (ad_subject a)),
       (''parent'', JStr (ad_parent a)), (''tick'', JInt (ad_tick a)), (''occasion'', JStr (ad_occasion a)),
       (''backend'', JStr (ad_backend a)), (''admitted_at'', JInt (ad_admitted_at a)),
       (''prior_unsettled'', JBool (ad_prior_unsettled a)),
       (''wall_observed_at'', JInt (ad_wall_observed_at a)), (''temporal'', temporal_json (ad_temporal a)),
       (''execution'', ad_execution a), (''inputs'', ad_inputs a)] @
      (case ad_context a of None \<Rightarrow> [] | Some c \<Rightarrow> [(''context'', context_json c)]) @
      (case ad_capacity a of None \<Rightarrow> []
       | Some (items, bytes) \<Rightarrow> [(''capacity_policy'', mk_obj
            [(''schema'', JStr ''cogg:memory-capacity/v1''), (''max_items'', JInt (int items)),
             (''max_bytes'', JInt (int bytes))])]))"

definition disposition_json :: "disposition \<Rightarrow> json" where
  "disposition_json d = mk_obj
     [(''schema'', JStr ''cogg:disposition/v1''), (''reason'', JStr ''occasion_failures''),
      (''limit'', JInt (di_limit d)), (''failures'', JArr (map JStr (di_failures d)))]"

definition limits_enc :: "limits \<Rightarrow> json" where
  "limits_enc l = (case limits_json l of Inl e \<Rightarrow> JNull | Inr j \<Rightarrow> j)"

definition genesis_json :: "genesis \<Rightarrow> json" where
  "genesis_json g = mk_obj
     [(''schema'', JInt (ge_schema g)), (''subject'', JStr (ge_subject g)), (''tick'', JInt 0),
      (''parent'', JNull), (''created_at'', JInt (ge_created_at g)), (''nonce'', JStr (ge_nonce g)),
      (''limits'', limits_enc (ge_limits g)), (''memory'', JObj (ge_memory g)), (''wake_at'', JNull)]"

definition transition_json :: "transition \<Rightarrow> json" where
  "transition_json t = mk_obj
     ([(''schema'', JInt (tr_schema t)), (''subject'', JStr (tr_subject t)), (''tick'', JInt (tr_tick t)),
       (''parent'', JStr (tr_parent t)), (''occasion'', JStr (tr_occasion t)),
       (''attempt'', JStr (tr_attempt t)), (''proposal'', proposal_enc (tr_proposal t)),
       (''memory'', JObj (tr_memory t)), (''wake_at'', optional_time (tr_wake_at t)),
       (''committed_at'', JInt (tr_committed_at t)), (''wall_observed_at'', JInt (tr_wall_observed_at t)),
       (''inference_elapsed_ms'', optional_time (tr_inference_elapsed_ms t)),
       (''emission'', tr_emission t)] @
      (case tr_wake_plan t of None \<Rightarrow> [] | Some w \<Rightarrow> [(''wake_plan'', wake_plan_json w)]) @
      (case tr_disposition t of None \<Rightarrow> [] | Some d \<Rightarrow> [(''disposition'', disposition_json d)]))"

fun commit_json :: "commit_body \<Rightarrow> json" where
  "commit_json (Genesis g) = genesis_json g"
| "commit_json (Transition t) = transition_json t"

fun cb_schema :: "commit_body \<Rightarrow> int" where
  "cb_schema (Genesis g) = ge_schema g" | "cb_schema (Transition t) = tr_schema t"
fun cb_subject :: "commit_body \<Rightarrow> string" where
  "cb_subject (Genesis g) = ge_subject g" | "cb_subject (Transition t) = tr_subject t"
fun cb_tick :: "commit_body \<Rightarrow> int" where
  "cb_tick (Genesis g) = 0" | "cb_tick (Transition t) = tr_tick t"
fun cb_parent :: "commit_body \<Rightarrow> string option" where
  "cb_parent (Genesis g) = None" | "cb_parent (Transition t) = Some (tr_parent t)"
fun cb_memory :: "commit_body \<Rightarrow> jobject" where
  "cb_memory (Genesis g) = ge_memory g" | "cb_memory (Transition t) = tr_memory t"
fun cb_wake_at :: "commit_body \<Rightarrow> millis option" where
  "cb_wake_at (Genesis g) = None" | "cb_wake_at (Transition t) = tr_wake_at t"

section \<open>Tables\<close>

datatype attempt_status = Reserved | Committed | Failed | Superseded | Abstained

record subject_row =
  su_id :: string
  su_tick :: int
  su_head :: string
  su_memory :: jobject
  su_wake :: "millis option"
  su_limits :: limits
  su_accounting_wall :: millis

record occasion_row =
  oc_seq :: int
  oc_id :: string
  oc_subject :: string
  oc_key :: string
  oc_kind :: string
  oc_parent :: string
  oc_body :: event
  oc_consumed :: "string option"

record attempt_row =
  at_seq :: int
  at_id :: string
  at_subject :: string
  at_parent :: string
  at_occasion :: string
  at_admitted_at :: millis
  at_body :: admission
  at_status :: attempt_status
  at_error :: string

record commit_row =
  co_id :: string
  co_subject :: string
  co_tick :: int
  co_body :: commit_body

record abstention_body =
  ab_attempt :: string
  ab_subject :: string
  ab_parent :: string
  ab_occasion :: string
  ab_execution :: json
  ab_outcome :: abstention
  ab_provider :: json

record abstention_row =
  as_id :: string
  as_attempt :: string
  as_body :: abstention_body

record failure_row =
  fa_attempt :: string
  fa_occasion :: string
  fa_reason :: string

record deposit =
  de_id :: string
  de_subject :: string
  de_tick :: int
  de_commit :: string
  de_previous :: string
  de_note :: memory_note

record entry_row =
  me_id :: string
  me_subject :: string
  me_key :: string
  me_tick :: int
  me_commit :: string
  me_body :: deposit
  me_current :: bool

record link_row =
  ml_subject :: string
  ml_note :: string
  ml_source :: string
  ml_covers :: bool

record fts_row =
  ft_id :: string
  ft_subject :: string
  ft_key :: string
  ft_text :: string

record memory_db =
  md_entries :: "entry_row list"
  md_links :: "link_row list"
  md_fts :: "fts_row list"

record store =
  st_subjects :: "subject_row list"
  st_occasions :: "occasion_row list"
  st_occasion_seq :: int
  st_attempts :: "attempt_row list"
  st_attempt_seq :: int
  st_commits :: "commit_row list"
  st_abstentions :: "abstention_row list"
  st_failures :: "failure_row list"
  st_memory :: memory_db

definition empty_memory :: memory_db where
  "empty_memory = \<lparr>md_entries = [], md_links = [], md_fts = []\<rparr>"

definition empty_store :: store where
  "empty_store = \<lparr>st_subjects = [], st_occasions = [], st_occasion_seq = 0, st_attempts = [],
     st_attempt_seq = 0, st_commits = [], st_abstentions = [], st_failures = [],
     st_memory = empty_memory\<rparr>"

section \<open>Queries\<close>

definition find_subject :: "store \<Rightarrow> string \<Rightarrow> subject_row option" where
  "find_subject st s = find (\<lambda>r. su_id r = s) (st_subjects st)"

definition find_occasion :: "store \<Rightarrow> string \<Rightarrow> occasion_row option" where
  "find_occasion st i = find (\<lambda>r. oc_id r = i) (st_occasions st)"

definition find_attempt :: "store \<Rightarrow> string \<Rightarrow> attempt_row option" where
  "find_attempt st i = find (\<lambda>r. at_id r = i) (st_attempts st)"

definition find_commit :: "store \<Rightarrow> string \<Rightarrow> commit_row option" where
  "find_commit st i = find (\<lambda>r. co_id r = i) (st_commits st)"

definition subject_attempts :: "store \<Rightarrow> string \<Rightarrow> attempt_row list" where
  "subject_attempts st s = filter (\<lambda>r. at_subject r = s) (st_attempts st)"

definition admissions_of :: "store \<Rightarrow> string \<Rightarrow> admissions" where
  "admissions_of st s = map (\<lambda>r. (at_seq r, at_admitted_at r)) (subject_attempts st s)"

definition subject_commits :: "store \<Rightarrow> string \<Rightarrow> commit_row list" where
  "subject_commits st s = sort_key co_tick (filter (\<lambda>r. co_subject r = s) (st_commits st))"

definition row_snapshot :: "subject_row \<Rightarrow> snapshot" where
  "row_snapshot r = \<lparr>sn_subject = su_id r, sn_tick = su_tick r, sn_head = su_head r,
     sn_memory = su_memory r, sn_wake_at = su_wake r,
     sn_lifecycle = (if su_wake r \<noteq> None then ''sleeping'' else ''waiting_external'')\<rparr>"

definition snapshot :: "store \<Rightarrow> string \<Rightarrow> snapshot res" where
  "snapshot st s = (case find_subject st s of None \<Rightarrow> Inl (Error ''subject not found'')
     | Some r \<Rightarrow> Inr (row_snapshot r))"

definition config :: "store \<Rightarrow> string \<Rightarrow> limits res" where
  "config st s = (case find_subject st s of None \<Rightarrow> Inl (Error ''subject not found'')
     | Some r \<Rightarrow> Inr (su_limits r))"

definition clock :: "store \<Rightarrow> string \<Rightarrow> json res" where
  "clock st s = (case find (\<lambda>r. co_subject r = s \<and> co_tick r = 0) (st_commits st) of
     None \<Rightarrow> Inl (Error ''subject clock missing'') | Some r \<Rightarrow> Inr (clock_json (co_id r)))"

definition event_of :: "ext \<Rightarrow> store \<Rightarrow> string \<Rightarrow> event res" where
  "event_of X st i = (case find_occasion st i of None \<Rightarrow> Inl (Error ''occasion missing'')
     | Some r \<Rightarrow> require (hash X (event_json (oc_body r)) = i) ''occasion hash mismatch'' (Inr (oc_body r)))"

definition record_of :: "ext \<Rightarrow> store \<Rightarrow> string \<Rightarrow> commit_body res" where
  "record_of X st i = (case find_commit st i of None \<Rightarrow> Inl (Error ''record not found'')
     | Some r \<Rightarrow> require (hash X (commit_json (co_body r)) = i) ''record hash mismatch'' (Inr (co_body r)))"

definition max_seq :: int where "max_seq = max_millis"

definition budget :: "store \<Rightarrow> string \<Rightarrow> limits \<Rightarrow> millis \<Rightarrow> int \<Rightarrow> budget res" where
  "budget st s lim now through = budget_sql lim (admissions_of st s) now through"

end
