(* ===== verification/Cogg_Memory.thy ===== *)
theory Cogg_Memory
  imports Cogg_Store
begin

text \<open>
  The typed memory index of \<^verbatim>\<open>src/memory.cpp\<close>: \<open>memory_apply\<close> (deposits of one
  committed transition), \<open>memory_transition\<close> (the restrictions of task maintenance) and
  \<open>memory_rebuild\<close> (the index as a replay of the ledger). The index is derived state: the
  main results are its invariant (unique deposit IDs, one current version per key, every
  citation grounded in an earlier deposit of the same subject), the protection of open
  tasks, and that an index built incrementally is the one a replay of the history builds.
\<close>

section \<open>Depositing\<close>

definition memory_get :: "memory_db \<Rightarrow> string \<Rightarrow> string \<Rightarrow> deposit res" where
  "memory_get db subject i =
     (case find (\<lambda>e. me_subject e = subject \<and> me_id e = i) (md_entries db) of
        None \<Rightarrow> Inl (Error ''unknown or foreign memory source'') | Some e \<Rightarrow> Inr (me_body e))"

definition is_current_id :: "memory_db \<Rightarrow> string \<Rightarrow> bool" where
  "is_current_id db i = (case find (\<lambda>e. me_id e = i) (md_entries db) of
     None \<Rightarrow> False | Some e \<Rightarrow> me_current e)"

definition check_source ::
    "memory_db \<Rightarrow> string \<Rightarrow> int \<Rightarrow> string list \<Rightarrow> memory_note \<Rightarrow> nat \<Rightarrow> string \<Rightarrow> nat res" where
  "check_source db subject tick writing n source_bytes i =
     bindR (memory_get db subject i) (\<lambda>b.
     require (de_tick b < tick) ''same-transition memory source'' (
     require (n_type n = ''procedure'' \<longrightarrow> n_status (de_note b) \<noteq> ''retracted'')
       ''procedure cannot cite a retracted source'' (
     require (n_type n = ''procedure'' \<longrightarrow> n_type (de_note b) \<noteq> ''summary'')
       ''procedure requires non-summary evidence sources'' (
     require (n_type n = ''summary'' \<longrightarrow> is_current_id db i \<and> n_status (de_note b) \<noteq> ''retracted'')
       ''summary requires current source versions'' (
     require (n_type n = ''summary'' \<longrightarrow> n_type (de_note b) \<noteq> ''summary'')
       ''recursive summaries are not supported'' (
     require (n_type n = ''summary'' \<longrightarrow> n_key (de_note b) \<notin> set writing)
       ''cannot overwrite a summary source in the same transition'' (
     if i \<in> set (n_covers n) then
       require (is_current_id db i \<and> n_status (de_note b) \<noteq> ''retracted'')
         ''cannot compact superseded/retracted source'' (
       require (n_type (de_note b) \<noteq> ''summary'') ''recursive summary compaction is not supported'' (
       require (n_status (de_note b) \<noteq> ''open'') ''cannot compact an open task'' (
       require (n_key (de_note b) \<notin> set writing)
         ''cannot overwrite a compacted source in the same transition'' (
       Inr (source_bytes + length (n_text (de_note b)))))))
     else Inr source_bytes)))))))"

fun check_note_sources ::
    "memory_db \<Rightarrow> string \<Rightarrow> int \<Rightarrow> string list \<Rightarrow> memory_note \<Rightarrow> nat \<Rightarrow> string list \<Rightarrow> nat res" where
  "check_note_sources db subject tick writing n bytes [] = Inr bytes"
| "check_note_sources db subject tick writing n bytes (i # is) =
     bindR (check_source db subject tick writing n bytes i) (\<lambda>bytes'.
       check_note_sources db subject tick writing n bytes' is)"

definition current_entry :: "memory_db \<Rightarrow> string \<Rightarrow> string \<Rightarrow> entry_row option" where
  "current_entry db subject key =
     find (\<lambda>e. me_subject e = subject \<and> me_key e = key \<and> me_current e) (md_entries db)"

definition deposit_id :: "ext \<Rightarrow> string \<Rightarrow> nat \<Rightarrow> memory_note \<Rightarrow> string" where
  "deposit_id X parent index n = hash X (mk_obj
     [(''parent'', JStr parent), (''index'', JInt (int index)), (''note'', memory_note_json n)])"

definition supersede_key :: "string \<Rightarrow> string \<Rightarrow> entry_row \<Rightarrow> entry_row" where
  "supersede_key subject key e =
     (if me_subject e = subject \<and> me_key e = key \<and> me_current e then e\<lparr>me_current := False\<rparr> else e)"

definition link_pk :: "link_row \<Rightarrow> string \<times> string" where
  "link_pk l = (ml_note l, ml_source l)"

definition insert_deposit :: "memory_db \<Rightarrow> deposit \<Rightarrow> memory_db res" where
  "insert_deposit db d =
     (let n = de_note d; i = de_id d; subject = de_subject d;
          old = map (supersede_key subject (n_key n)) (md_entries db);
          row = \<lparr>me_id = i, me_subject = subject, me_key = n_key n, me_tick = de_tick d,
                 me_commit = de_commit d, me_body = d, me_current = True\<rparr>;
          links = map (\<lambda>src. \<lparr>ml_subject = subject, ml_note = i, ml_source = src,
                              ml_covers = (src \<in> set (n_covers n))\<rparr>) (n_sources n)
      in require (i \<notin> me_id ` set old) ''UNIQUE constraint failed: memory_entries.id'' (
         require (distinct (map link_pk links) \<and> link_pk ` set links \<inter> link_pk ` set (md_links db) = {})
           ''UNIQUE constraint failed: memory_links'' (
         Inr \<lparr>md_entries = old @ [row], md_links = md_links db @ links,
              md_fts = md_fts db @ [\<lparr>ft_id = i, ft_subject = subject, ft_key = n_key n,
                                      ft_text = n_text n\<rparr>]\<rparr>)))"

definition apply_note ::
    "ext \<Rightarrow> string \<Rightarrow> string \<Rightarrow> int \<Rightarrow> string \<Rightarrow> string list \<Rightarrow> memory_db \<Rightarrow> nat \<Rightarrow> memory_note
     \<Rightarrow> memory_db res" where
  "apply_note X subject parent tick commit writing db index n =
     bindR (check_note_sources db subject tick writing n 0 (n_sources n)) (\<lambda>source_bytes.
     require (n_covers n \<noteq> [] \<longrightarrow> length (n_text n) < source_bytes)
       ''compaction must reduce source text bytes'' (
     require (case current_entry db subject (n_key n) of None \<Rightarrow> True
        | Some old \<Rightarrow> n_status (de_note (me_body old)) = ''open'' \<longrightarrow>
            n_type n = ''task'' \<and> (n_status n = ''open'' \<or> n_status n = ''closed'' \<or> n_status n = ''retracted''))
       ''open task needs explicit resolution'' (
     insert_deposit db
       \<lparr>de_id = deposit_id X parent index n, de_subject = subject, de_tick = tick, de_commit = commit,
        de_previous = (case current_entry db subject (n_key n) of None \<Rightarrow> [] | Some old \<Rightarrow> me_id old),
        de_note = n\<rparr>)))"

fun apply_notes ::
    "ext \<Rightarrow> string \<Rightarrow> string \<Rightarrow> int \<Rightarrow> string \<Rightarrow> string list \<Rightarrow> memory_db \<Rightarrow> nat \<Rightarrow> memory_note list
     \<Rightarrow> memory_db res" where
  "apply_notes X subject parent tick commit writing db index [] = Inr db"
| "apply_notes X subject parent tick commit writing db index (n # ns) =
     bindR (apply_note X subject parent tick commit writing db index n) (\<lambda>db'.
       apply_notes X subject parent tick commit writing db' (Suc index) ns)"

definition memory_apply ::
    "ext \<Rightarrow> memory_db \<Rightarrow> string \<Rightarrow> string \<Rightarrow> int \<Rightarrow> string \<Rightarrow> memory_note list \<Rightarrow> memory_db res" where
  "memory_apply X db subject parent tick commit notes =
     bindR (validate_memory_notes notes) (\<lambda>_.
       apply_notes X subject parent tick commit (map n_key notes) db 0 notes)"

section \<open>Task maintenance\<close>

definition settles_named_task :: "memory_note \<Rightarrow> wire \<Rightarrow> bool" where
  "settles_named_task n old \<longleftrightarrow>
     n_key (w_note old) = n_key n \<and> n_text (w_note old) = n_text n \<and> n_status (w_note old) = ''open'' \<and>
     (n_status n = ''closed'' \<or> n_status n = ''retracted'') \<and> n_sources n = [] \<and> n_covers n = []"

definition memory_transition :: "proposal \<Rightarrow> admission \<Rightarrow> unit res" where
  "memory_transition p a =
     (case ad_context a of None \<Rightarrow> Inr ()
      | Some (memory, view) \<Rightarrow>
          if mv_strategy view \<noteq> ''task_maintenance'' then Inr ()
          else require (p_memory p = [] \<and> p_wake_after_ms p = None)
                 ''task maintenance cannot change legacy memory or schedule wakes'' (
               require (\<forall>n \<in> set (p_notes p). n_type n = ''task'' \<longrightarrow>
                   (\<exists>old \<in> set (mv_items view). settles_named_task n old))
                 ''maintenance may only settle named tasks with unchanged terms'' (Inr ())))"

section \<open>Replay\<close>

fun replay_commits :: "ext \<Rightarrow> string \<Rightarrow> memory_db \<Rightarrow> commit_row list \<Rightarrow> memory_db res" where
  "replay_commits X subject db [] = Inr db"
| "replay_commits X subject db (c # cs) =
     (case co_body c of
        Genesis g \<Rightarrow> replay_commits X subject db cs
      | Transition t \<Rightarrow>
          bindR (validate X (tr_proposal t)) (\<lambda>_.
          bindR (memory_apply X db subject (tr_parent t) (tr_tick t) (co_id c) (p_notes (tr_proposal t))) (\<lambda>db'.
          replay_commits X subject db' cs)))"

definition memory_delete :: "string \<Rightarrow> memory_db \<Rightarrow> memory_db" where
  "memory_delete subject db =
     \<lparr>md_entries = filter (\<lambda>e. me_subject e \<noteq> subject) (md_entries db),
      md_links = filter (\<lambda>l. ml_subject l \<noteq> subject) (md_links db),
      md_fts = filter (\<lambda>f. ft_subject f \<noteq> subject) (md_fts db)\<rparr>"

definition memory_rebuild :: "ext \<Rightarrow> store \<Rightarrow> string \<Rightarrow> memory_db res" where
  "memory_rebuild X st subject =
     replay_commits X subject (memory_delete subject (st_memory st)) (subject_commits st subject)"

section \<open>The index invariant\<close>

definition same_key :: "entry_row \<Rightarrow> entry_row \<Rightarrow> bool" where
  "same_key e f \<longleftrightarrow> me_subject e = me_subject f \<and> me_key e = me_key f"

definition entry_links :: "entry_row \<Rightarrow> link_row list" where
  "entry_links e = map (\<lambda>src. \<lparr>ml_subject = me_subject e, ml_note = me_id e, ml_source = src,
     ml_covers = (src \<in> set (n_covers (de_note (me_body e))))\<rparr>) (n_sources (de_note (me_body e)))"

definition entry_fts :: "entry_row \<Rightarrow> fts_row" where
  "entry_fts e = \<lparr>ft_id = me_id e, ft_subject = me_subject e, ft_key = me_key e,
     ft_text = n_text (de_note (me_body e))\<rparr>"

text \<open>A row repeats its body; a version is current exactly when no later row has its key;
  the link and full-text tables are determined by the entries.\<close>

definition row_ok :: "entry_row \<Rightarrow> bool" where
  "row_ok e \<longleftrightarrow> me_id e = de_id (me_body e) \<and> me_subject e = de_subject (me_body e) \<and>
     me_key e = n_key (de_note (me_body e)) \<and> me_tick e = de_tick (me_body e) \<and>
     me_commit e = de_commit (me_body e)"

definition grounded :: "entry_row list \<Rightarrow> entry_row \<Rightarrow> bool" where
  "grounded es e \<longleftrightarrow> (\<forall>s \<in> set (n_sources (de_note (me_body e))). \<exists>f \<in> set es.
     me_id f = s \<and> me_subject f = me_subject e \<and> me_tick f < me_tick e \<and>
     (n_type (de_note (me_body e)) \<in> {''summary'', ''procedure''} \<longrightarrow>
        n_type (de_note (me_body f)) \<noteq> ''summary'' \<and> n_status (de_note (me_body f)) \<noteq> ''retracted'') \<and>
     (s \<in> set (n_covers (de_note (me_body e))) \<longrightarrow> n_status (de_note (me_body f)) \<noteq> ''open''))"

definition memory_inv :: "memory_db \<Rightarrow> bool" where
  "memory_inv db \<longleftrightarrow> distinct (map me_id (md_entries db)) \<and>
     (\<forall>e \<in> set (md_entries db). row_ok e \<and> grounded (md_entries db) e) \<and>
     (\<forall>i < length (md_entries db). me_current (md_entries db ! i) \<longleftrightarrow>
        (\<forall>j < length (md_entries db). i < j \<longrightarrow> \<not> same_key (md_entries db ! i) (md_entries db ! j))) \<and>
     md_links db = concat (map entry_links (md_entries db)) \<and>
     md_fts db = map entry_fts (md_entries db)"

lemma supersede_key_simps [simp]:
  "me_id (supersede_key s k e) = me_id e" "me_subject (supersede_key s k e) = me_subject e"
  "me_key (supersede_key s k e) = me_key e" "me_tick (supersede_key s k e) = me_tick e"
  "me_commit (supersede_key s k e) = me_commit e" "me_body (supersede_key s k e) = me_body e"
  "me_current (supersede_key s k e) = (me_current e \<and> \<not> (me_subject e = s \<and> me_key e = k))"
  "entry_links (supersede_key s k e) = entry_links e" "entry_fts (supersede_key s k e) = entry_fts e"
  "row_ok (supersede_key s k e) = row_ok e"
  by (auto simp: supersede_key_def entry_links_def entry_fts_def row_ok_def)

lemma supersede_key_other: "me_subject e \<noteq> s \<Longrightarrow> supersede_key s k e = e"
  by (simp add: supersede_key_def)

lemma map_supersede_proj [simp]:
  "map me_id (map (supersede_key s k) es) = map me_id es"
  "me_id ` supersede_key s k ` A = me_id ` A"
  "concat (map entry_links (map (supersede_key s k) es)) = concat (map entry_links es)"
  "map entry_fts (map (supersede_key s k) es) = map entry_fts es"
  by (simp_all add: image_image comp_def)

lemma grounded_mono:
  assumes "grounded es e" and "me_body ` set es \<subseteq> me_body ` set es'"
    and "\<forall>f \<in> set es. row_ok f" and "\<forall>f \<in> set es'. row_ok f"
  shows "grounded es' e"
  unfolding grounded_def
proof
  fix s assume "s \<in> set (n_sources (de_note (me_body e)))"
  with assms(1) obtain f where f: "f \<in> set es" "me_id f = s" "me_subject f = me_subject e"
    "me_tick f < me_tick e"
    "n_type (de_note (me_body e)) \<in> {''summary'', ''procedure''} \<longrightarrow>
        n_type (de_note (me_body f)) \<noteq> ''summary'' \<and> n_status (de_note (me_body f)) \<noteq> ''retracted''"
    "s \<in> set (n_covers (de_note (me_body e))) \<longrightarrow> n_status (de_note (me_body f)) \<noteq> ''open''"
    unfolding grounded_def by blast
  from f(1) assms(2) obtain g where g: "g \<in> set es'" "me_body g = me_body f" by (metis image_eqI image_iff subsetD)
  then have "me_id g = me_id f" "me_subject g = me_subject f" "me_tick g = me_tick f"
    using assms(3,4) f(1) by (auto simp: row_ok_def)
  with f g show "\<exists>f \<in> set es'. me_id f = s \<and> me_subject f = me_subject e \<and> me_tick f < me_tick e \<and>
     (n_type (de_note (me_body e)) \<in> {''summary'', ''procedure''} \<longrightarrow>
        n_type (de_note (me_body f)) \<noteq> ''summary'' \<and> n_status (de_note (me_body f)) \<noteq> ''retracted'') \<and>
     (s \<in> set (n_covers (de_note (me_body e))) \<longrightarrow> n_status (de_note (me_body f)) \<noteq> ''open'')"
    by (intro bexI [of _ g]) simp_all
qed

lemma memory_get_Inr:
  "memory_get db s i = Inr b \<Longrightarrow>
     \<exists>e \<in> set (md_entries db). me_subject e = s \<and> me_id e = i \<and> me_body e = b"
  by (auto simp: memory_get_def split: option.splits dest!: find_Some_mem)

lemma check_source_Inr:
  assumes "check_source db s t ws n bytes i = Inr bytes'"
  shows "\<exists>e \<in> set (md_entries db). me_subject e = s \<and> me_id e = i \<and> de_tick (me_body e) < t \<and>
     (n_type n \<in> {''summary'', ''procedure''} \<longrightarrow>
        n_type (de_note (me_body e)) \<noteq> ''summary'' \<and> n_status (de_note (me_body e)) \<noteq> ''retracted'') \<and>
     (i \<in> set (n_covers n) \<longrightarrow> n_status (de_note (me_body e)) \<noteq> ''open'' \<and>
        bytes' = bytes + length (n_text (de_note (me_body e)))) \<and>
     (i \<notin> set (n_covers n) \<longrightarrow> bytes' = bytes)"
proof -
  from assms obtain b where b: "memory_get db s i = Inr b" and r: "de_tick b < t"
    "n_type n = ''procedure'' \<longrightarrow> n_status (de_note b) \<noteq> ''retracted''"
    "n_type n = ''procedure'' \<longrightarrow> n_type (de_note b) \<noteq> ''summary''"
    "n_type n = ''summary'' \<longrightarrow> n_status (de_note b) \<noteq> ''retracted''"
    "n_type n = ''summary'' \<longrightarrow> n_type (de_note b) \<noteq> ''summary''"
    "i \<in> set (n_covers n) \<longrightarrow> n_status (de_note b) \<noteq> ''open'' \<and> bytes' = bytes + length (n_text (de_note b))"
    "i \<notin> set (n_covers n) \<longrightarrow> bytes' = bytes"
    by (cases "i \<in> set (n_covers n)") (simp_all add: check_source_def res_simps, blast+)
  from memory_get_Inr [OF b] r show ?thesis by blast
qed

lemma check_note_sources_Inr:
  "check_note_sources db s t ws n bytes is = Inr bytes' \<Longrightarrow> i \<in> set is \<Longrightarrow>
     \<exists>b0 b1. check_source db s t ws n b0 i = Inr b1"
  by (induction db s t ws n bytes "is" rule: check_note_sources.induct) (auto simp: res_simps)

text \<open>What a successful deposit of one note does, in one rule.\<close>

lemma apply_note_Inr:
  assumes "apply_note X s parent t commit ws db index n = Inr db'"
  obtains row where
    "md_entries db' = map (supersede_key s (n_key n)) (md_entries db) @ [row]"
    and "me_id row = deposit_id X parent index n" and "me_subject row = s" and "me_key row = n_key n"
    and "me_tick row = t" and "me_commit row = commit" and "me_current row"
    and "row_ok row" and "de_note (me_body row) = n"
    and "de_previous (me_body row) =
        (case current_entry db s (n_key n) of None \<Rightarrow> [] | Some old \<Rightarrow> me_id old)"
    and "me_id row \<notin> me_id ` set (md_entries db)"
    and "md_links db' = md_links db @ entry_links row" and "md_fts db' = md_fts db @ [entry_fts row]"
    and "\<exists>bytes. check_note_sources db s t ws n 0 (n_sources n) = Inr bytes \<and>
           (n_covers n \<noteq> [] \<longrightarrow> length (n_text n) < bytes)"
    and "\<forall>old. current_entry db s (n_key n) = Some old \<longrightarrow> n_status (de_note (me_body old)) = ''open'' \<longrightarrow>
           n_type n = ''task'' \<and> n_status n \<in> {''open'', ''closed'', ''retracted''}"
proof -
  define d where "d = \<lparr>de_id = deposit_id X parent index n, de_subject = s, de_tick = t,
        de_commit = commit,
        de_previous = (case current_entry db s (n_key n) of None \<Rightarrow> [] | Some old \<Rightarrow> me_id old),
        de_note = n\<rparr>"
  define row where "row = \<lparr>me_id = deposit_id X parent index n, me_subject = s, me_key = n_key n,
      me_tick = t, me_commit = commit, me_body = d, me_current = True\<rparr>"
  from assms obtain bytes where bytes: "check_note_sources db s t ws n 0 (n_sources n) = Inr bytes"
    "n_covers n \<noteq> [] \<longrightarrow> length (n_text n) < bytes"
    and op: "case current_entry db s (n_key n) of None \<Rightarrow> True
        | Some old \<Rightarrow> n_status (de_note (me_body old)) = ''open'' \<longrightarrow>
            n_type n = ''task'' \<and> (n_status n = ''open'' \<or> n_status n = ''closed'' \<or> n_status n = ''retracted'')"
    and ins: "insert_deposit db d = Inr db'"
    unfolding apply_note_def d_def [symmetric] res_simps by blast
  from ins have "me_id row \<notin> me_id ` set (md_entries db)"
    and "md_entries db' = map (supersede_key s (n_key n)) (md_entries db) @ [row]"
    and "md_links db' = md_links db @ entry_links row" and "md_fts db' = md_fts db @ [entry_fts row]"
    by (auto simp: insert_deposit_def Let_def res_simps d_def row_def entry_links_def entry_fts_def)
  with bytes op show thesis
    by (intro that [of row]) (auto simp: row_def d_def row_ok_def)
qed

lemma same_key_supersede [simp]:
  "same_key (supersede_key s k e) f = same_key e f" "same_key e (supersede_key s k f) = same_key e f"
  by (simp_all add: same_key_def)

lemma currency_snoc:
  assumes "\<forall>i < length es. me_current (es ! i) \<longleftrightarrow> (\<forall>j < length es. i < j \<longrightarrow> \<not> same_key (es ! i) (es ! j))"
    and "me_current row"
  shows "let es' = map (supersede_key (me_subject row) (me_key row)) es @ [row] in
    \<forall>i < length es'. me_current (es' ! i) \<longleftrightarrow> (\<forall>j < length es'. i < j \<longrightarrow> \<not> same_key (es' ! i) (es' ! j))"
  unfolding Let_def
proof (intro allI impI)
  let ?es = "map (supersede_key (me_subject row) (me_key row)) es @ [row]"
  fix i assume i: "i < length ?es"
  show "me_current (?es ! i) = (\<forall>j < length ?es. i < j \<longrightarrow> \<not> same_key (?es ! i) (?es ! j))"
  proof (cases "i < length es")
    case True
    have "(\<forall>j < length ?es. i < j \<longrightarrow> \<not> same_key (?es ! i) (?es ! j)) =
        ((\<forall>j < length es. i < j \<longrightarrow> \<not> same_key (es ! i) (es ! j)) \<and> \<not> same_key (es ! i) row)"
      using True by (auto simp: nth_append less_Suc_eq)
    with True assms(1) show ?thesis by (auto simp: nth_append same_key_def)
  next
    case False
    with i have "i = length es" by simp
    with assms(2) show ?thesis by (simp add: nth_append)
  qed
qed

lemma apply_note_inv:
  assumes inv: "memory_inv db" and ap: "apply_note X s parent t commit ws db index n = Inr db'"
  shows "memory_inv db'"
proof (rule apply_note_Inr [OF ap])
  fix row
  let ?old = "map (supersede_key s (n_key n)) (md_entries db)"
  assume es: "md_entries db' = ?old @ [row]"
    and rowk: "me_subject row = s" "me_key row = n_key n" "me_tick row = t" "me_current row"
    and ok_row: "row_ok row" and body: "de_note (me_body row) = n"
      "de_previous (me_body row) =
        (case current_entry db s (n_key n) of None \<Rightarrow> [] | Some old \<Rightarrow> me_id old)"
    and fresh: "me_id row \<notin> me_id ` set (md_entries db)"
    and links: "md_links db' = md_links db @ entry_links row" "md_fts db' = md_fts db @ [entry_fts row]"
    and src: "\<exists>bytes. check_note_sources db s t ws n 0 (n_sources n) = Inr bytes \<and>
           (n_covers n \<noteq> [] \<longrightarrow> length (n_text n) < bytes)"
  have oks: "\<forall>e \<in> set (md_entries db). row_ok e" "\<forall>e \<in> set (md_entries db'). row_ok e"
    using inv ok_row by (auto simp: memory_inv_def es)
  have bodies: "me_body ` set (md_entries db) \<subseteq> me_body ` set (md_entries db')"
    by (auto simp: es image_iff)
  have "\<forall>i \<in> set (n_sources n). \<exists>f \<in> set (md_entries db). me_id f = i \<and> me_subject f = s \<and> me_tick f < t \<and>
        (n_type n \<in> {''summary'', ''procedure''} \<longrightarrow>
          n_type (de_note (me_body f)) \<noteq> ''summary'' \<and> n_status (de_note (me_body f)) \<noteq> ''retracted'') \<and>
        (i \<in> set (n_covers n) \<longrightarrow> n_status (de_note (me_body f)) \<noteq> ''open'')"
  proof
    fix i assume "i \<in> set (n_sources n)"
    with src obtain b0 b1 where "check_source db s t ws n b0 i = Inr b1"
      using check_note_sources_Inr by blast
    from check_source_Inr [OF this] oks(1)
    show "\<exists>f \<in> set (md_entries db). me_id f = i \<and> me_subject f = s \<and> me_tick f < t \<and>
        (n_type n \<in> {''summary'', ''procedure''} \<longrightarrow>
          n_type (de_note (me_body f)) \<noteq> ''summary'' \<and> n_status (de_note (me_body f)) \<noteq> ''retracted'') \<and>
        (i \<in> set (n_covers n) \<longrightarrow> n_status (de_note (me_body f)) \<noteq> ''open'')"
      unfolding row_ok_def by fastforce
  qed
  then have "grounded (md_entries db) row" by (simp add: grounded_def body rowk)
  then have g_row: "grounded (md_entries db') row"
    by (rule grounded_mono [OF _ bodies oks])
  have g_old: "grounded (md_entries db') (supersede_key s (n_key n) e)" if "e \<in> set (md_entries db)" for e
  proof -
    have "grounded (md_entries db') e"
      using inv that by (intro grounded_mono [OF _ bodies oks]) (simp add: memory_inv_def)
    then show ?thesis by (simp add: grounded_def)
  qed
  have cur: "\<forall>i < length (md_entries db'). me_current (md_entries db' ! i) \<longleftrightarrow>
        (\<forall>j < length (md_entries db'). i < j \<longrightarrow> \<not> same_key (md_entries db' ! i) (md_entries db' ! j))"
    using currency_snoc [of "md_entries db" row] inv rowk by (simp add: memory_inv_def es Let_def)
  have "distinct (map me_id (md_entries db'))"
    using inv fresh by (simp add: memory_inv_def es comp_def)
  moreover have "md_links db' = concat (map entry_links (md_entries db'))"
    and "md_fts db' = map entry_fts (md_entries db')"
    using inv by (simp_all add: memory_inv_def links es comp_def)
  ultimately show "memory_inv db'"
    unfolding memory_inv_def using cur g_row g_old oks by (auto simp: es)
qed

lemma apply_notes_inv:
  "memory_inv db \<Longrightarrow> apply_notes X s parent t commit ws db index ns = Inr db' \<Longrightarrow> memory_inv db'"
  by (induction X s parent t commit ws db index ns rule: apply_notes.induct)
    (auto simp: res_simps intro: apply_note_inv)

lemma memory_inv_empty: "memory_inv empty_memory"
  by (simp add: memory_inv_def empty_memory_def)

text \<open>
  The memory index stays well formed: depositing a transition's notes keeps deposit IDs
  unique, marks exactly the newest version of every key as current, keeps the link and
  full-text tables equal to what the entries say, and grounds every citation in a deposit
  of the same subject from an earlier transition; what a summary or a procedure cites was
  neither a summary nor retracted when cited, and nothing compacted was an open task.
\<close>

lemma memory_apply_inv:
  assumes "memory_inv db" and "memory_apply X db subject parent tick commit notes = Inr db'"
  shows "memory_inv db'"
  using assms by (auto simp: memory_apply_def res_simps intro: apply_notes_inv)

section \<open>Open tasks are protected\<close>

definition current_rows :: "memory_db \<Rightarrow> string \<Rightarrow> string \<Rightarrow> entry_row list" where
  "current_rows db s k =
     filter (\<lambda>e. me_subject e = s \<and> me_key e = k \<and> me_current e) (md_entries db)"

lemma memory_inv_current_unique:
  assumes "memory_inv db" and "e \<in> set (current_rows db s k)" and "f \<in> set (current_rows db s k)"
  shows "e = f"
proof -
  from assms(2,3) obtain i j where ij: "i < length (md_entries db)" "j < length (md_entries db)"
    "md_entries db ! i = e" "md_entries db ! j = f"
    by (auto simp: current_rows_def in_set_conv_nth)
  have cur: "me_current e" "me_current f" "same_key e f" "same_key f e"
    using assms(2,3) by (simp_all add: current_rows_def same_key_def)
  have "\<not> i < j"
    using assms(1) ij cur(1,3) unfolding memory_inv_def by blast
  moreover have "\<not> j < i"
    using assms(1) ij cur(2,4) unfolding memory_inv_def by blast
  ultimately show ?thesis using ij by simp
qed

lemma current_entry_unique:
  assumes "memory_inv db" and "e \<in> set (current_rows db s k)"
  shows "current_entry db s k = Some e"
proof -
  from assms(2) have "current_entry db s k \<noteq> None"
    by (auto simp: current_entry_def current_rows_def find_None_iff)
  then obtain f where f: "current_entry db s k = Some f" by auto
  then have "f \<in> set (current_rows db s k)"
    by (auto simp: current_entry_def current_rows_def dest!: find_Some_mem)
  with memory_inv_current_unique [OF assms] f show ?thesis by simp
qed

lemma open_task_step:
  assumes inv: "memory_inv db" and ap: "apply_note X s parent t commit ws db index n = Inr db'"
    and e: "e \<in> set (current_rows db s' k)" and op: "n_status (de_note (me_body e)) = ''open''"
  shows "if s' = s \<and> k = n_key n
    then \<exists>e' \<in> set (current_rows db' s' k). de_note (me_body e') = n \<and> n_type n = ''task'' \<and>
           n_status n \<in> {''open'', ''closed'', ''retracted''} \<and> de_previous (me_body e') = me_id e
    else e \<in> set (current_rows db' s' k)"
proof (rule apply_note_Inr [OF ap])
  fix row
  assume es: "md_entries db' = map (supersede_key s (n_key n)) (md_entries db) @ [row]"
    and rowk: "me_subject row = s" "me_key row = n_key n" "me_tick row = t" "me_current row"
    and ok_row: "row_ok row" and body: "de_note (me_body row) = n"
      "de_previous (me_body row) =
        (case current_entry db s (n_key n) of None \<Rightarrow> [] | Some old \<Rightarrow> me_id old)"
    and guard: "\<forall>old. current_entry db s (n_key n) = Some old \<longrightarrow>
          n_status (de_note (me_body old)) = ''open'' \<longrightarrow>
           n_type n = ''task'' \<and> n_status n \<in> {''open'', ''closed'', ''retracted''}"
  show ?thesis
  proof (cases "s' = s \<and> k = n_key n")
    case True
    with e have old: "current_entry db s (n_key n) = Some e"
      using current_entry_unique [OF inv, of e s "n_key n"] by simp
    have "row \<in> set (current_rows db' s' k)" using True rowk by (simp add: current_rows_def es)
    with True guard old op body show ?thesis by (auto intro!: bexI [of _ row])
  next
    case False
    with e have "supersede_key s (n_key n) e = e" by (auto simp: supersede_key_def current_rows_def)
    moreover from e have "e \<in> set (md_entries db)" by (simp add: current_rows_def)
    ultimately have "e \<in> set (md_entries db')" unfolding es by (metis image_eqI image_set in_set_conv_decomp set_append Un_iff)
    with e False show ?thesis by (auto simp: current_rows_def)
  qed
qed

lemma apply_note_other:
  assumes "apply_note X s parent t commit ws db index n = Inr db'" and "s' \<noteq> s \<or> k \<noteq> n_key n"
  shows "current_rows db' s' k = current_rows db s' k"
proof (rule apply_note_Inr [OF assms(1)])
  fix row
  assume es: "md_entries db' = map (supersede_key s (n_key n)) (md_entries db) @ [row]"
    and rowk: "me_subject row = s" "me_key row = n_key n" "me_tick row = t" "me_current row"
  have "filter (\<lambda>e. me_subject e = s' \<and> me_key e = k \<and> me_current e) (map (supersede_key s (n_key n)) es)
      = filter (\<lambda>e. me_subject e = s' \<and> me_key e = k \<and> me_current e) es" for es
    using assms(2) by (induction es) (auto simp: supersede_key_def)
  with rowk assms(2) show ?thesis by (auto simp: current_rows_def es)
qed

lemma apply_notes_other:
  "apply_notes X s parent t commit ws db index ns = Inr db' \<Longrightarrow> s' \<noteq> s \<or> k \<notin> n_key ` set ns \<Longrightarrow>
     current_rows db' s' k = current_rows db s' k"
proof (induction X s parent t commit ws db index ns rule: apply_notes.induct)
  case (2 X s parent t commit ws db index n ns)
  from "2.prems"(1) obtain db1 where db1: "apply_note X s parent t commit ws db index n = Inr db1"
    "apply_notes X s parent t commit ws db1 (Suc index) ns = Inr db'"
    by (auto simp: res_simps)
  with "2.IH" [OF db1(2)] "2.prems"(2) apply_note_other [OF db1(1), of s' k] show ?case by auto
qed simp

lemma apply_notes_append:
  "apply_notes X s parent t commit ws db index (xs @ ys) =
     bindR (apply_notes X s parent t commit ws db index xs) (\<lambda>db'.
       apply_notes X s parent t commit ws db' (index + length xs) ys)"
  by (induction xs arbitrary: db index) (simp_all add: bindR_assoc cong: bindR_full_cong)

text \<open>
  C17. An open task can only be changed by resolving it: after a transition is deposited, a
  task that was open is still the current, open version of its key, unless this transition
  wrote a task note under that very key with status open, closed or retracted; that note is
  then the current version and names the old one as its predecessor.
\<close>

theorem open_task_protected:
  assumes "memory_inv db" and "memory_apply X db subject parent tick commit notes = Inr db'"
    and "e \<in> set (current_rows db s k)" and "n_status (de_note (me_body e)) = ''open''"
  shows "if s = subject \<and> k \<in> n_key ` set notes
    then \<exists>e' \<in> set (current_rows db' s k). \<exists>n \<in> set notes. de_note (me_body e') = n \<and> n_key n = k \<and>
           n_type n = ''task'' \<and> n_status n \<in> {''open'', ''closed'', ''retracted''} \<and>
           de_previous (me_body e') = me_id e
    else e \<in> set (current_rows db' s k)"
proof (cases "s = subject \<and> k \<in> n_key ` set notes")
  case False
  moreover from assms(2) have
    "apply_notes X subject parent tick commit (map n_key notes) db 0 notes = Inr db'"
    by (simp add: memory_apply_def res_simps)
  ultimately show ?thesis using apply_notes_other assms(3) by auto
next
  case True
  then obtain n pre post where n: "notes = pre @ n # post" "n_key n = k" "s = subject"
    by (metis imageE split_list)
  from assms(2) have "notes_ok notes"
    and all: "apply_notes X subject parent tick commit (map n_key notes) db 0 notes = Inr db'"
    by (auto simp: memory_apply_def res_simps)
  then have keys: "k \<notin> n_key ` set pre" "k \<notin> n_key ` set post"
    using n by (auto simp: notes_ok_def)
  from all obtain db1 db2 where
    db1: "apply_notes X subject parent tick commit (map n_key notes) db 0 pre = Inr db1" and
    db2: "apply_note X subject parent tick commit (map n_key notes) db1 (length pre) n = Inr db2" and
    db3: "apply_notes X subject parent tick commit (map n_key notes) db2 (Suc (length pre)) post = Inr db'"
    by (subst (asm) (2) n(1)) (auto simp: apply_notes_append res_simps)
  have "e \<in> set (current_rows db1 s k)"
    using apply_notes_other [OF db1, of s k] keys(1) assms(3) by simp
  with open_task_step [OF apply_notes_inv [OF assms(1) db1] db2 _ assms(4), of s k] n(2,3)
  have "\<exists>e' \<in> set (current_rows db2 s k). de_note (me_body e') = n \<and> n_type n = ''task'' \<and>
           n_status n \<in> {''open'', ''closed'', ''retracted''} \<and> de_previous (me_body e') = me_id e"
    by simp
  then have "\<exists>e' \<in> set (current_rows db' s k). de_note (me_body e') = n \<and> n_type n = ''task'' \<and>
           n_status n \<in> {''open'', ''closed'', ''retracted''} \<and> de_previous (me_body e') = me_id e"
    using apply_notes_other [OF db3, of s k] keys(2) by simp
  moreover have "n \<in> set notes" using n(1) by simp
  ultimately show ?thesis using True n(2) by auto
qed

section \<open>The index as a replay of the history\<close>

definition memory_of :: "string \<Rightarrow> memory_db \<Rightarrow> memory_db" where
  "memory_of s db =
     \<lparr>md_entries = filter (\<lambda>e. me_subject e = s) (md_entries db),
      md_links = filter (\<lambda>l. ml_subject l = s) (md_links db),
      md_fts = filter (\<lambda>f. ft_subject f = s) (md_fts db)\<rparr>"

definition memory_join :: "memory_db \<Rightarrow> memory_db \<Rightarrow> memory_db" where
  "memory_join others db =
     \<lparr>md_entries = md_entries others @ md_entries db, md_links = md_links others @ md_links db,
      md_fts = md_fts others @ md_fts db\<rparr>"

definition only_subject :: "string \<Rightarrow> memory_db \<Rightarrow> bool" where
  "only_subject s db \<longleftrightarrow> (\<forall>e \<in> set (md_entries db). me_subject e = s) \<and>
     (\<forall>l \<in> set (md_links db). ml_subject l = s) \<and> (\<forall>f \<in> set (md_fts db). ft_subject f = s)"

definition no_subject :: "string \<Rightarrow> memory_db \<Rightarrow> bool" where
  "no_subject s db \<longleftrightarrow> (\<forall>e \<in> set (md_entries db). me_subject e \<noteq> s) \<and>
     (\<forall>l \<in> set (md_links db). ml_subject l \<noteq> s) \<and> (\<forall>f \<in> set (md_fts db). ft_subject f \<noteq> s)"

lemma memory_delete_no_subject: "no_subject s (memory_delete s db)"
  by (simp add: no_subject_def memory_delete_def)

lemma memory_of_join:
  "no_subject s others \<Longrightarrow> only_subject s db \<Longrightarrow> memory_of s (memory_join others db) = db"
  by (auto simp: memory_of_def memory_join_def no_subject_def only_subject_def filter_empty_conv filter_id_conv)

lemma memory_of_join_other:
  "s' \<noteq> s \<Longrightarrow> only_subject s db \<Longrightarrow> memory_of s' (memory_join others db) = memory_of s' others"
  by (auto simp: memory_of_def memory_join_def only_subject_def filter_empty_conv)

lemma memory_of_delete: "s' \<noteq> s \<Longrightarrow> memory_of s' (memory_delete s db) = memory_of s' db"
  by (auto simp: memory_of_def memory_delete_def intro!: filter_cong)

text \<open>Depositing for one subject neither reads nor changes the others' rows; what it does
  in a table shared with them is what it does alone, as long as no deposit ID collides.\<close>

lemma find_append_none: "\<forall>x \<in> set xs. \<not> P x \<Longrightarrow> find P (xs @ ys) = find P ys"
  by (simp add: find_append find_none)

lemma memory_get_join: "no_subject s others \<Longrightarrow> memory_get (memory_join others db) s i = memory_get db s i"
  unfolding memory_get_def memory_join_def by (simp add: find_append_none no_subject_def)

lemma is_current_id_join:
  "i \<notin> me_id ` set (md_entries others) \<Longrightarrow> is_current_id (memory_join others db) i = is_current_id db i"
proof -
  assume "i \<notin> me_id ` set (md_entries others)"
  then have "find (\<lambda>e. me_id e = i) (md_entries others @ md_entries db) =
      find (\<lambda>e. me_id e = i) (md_entries db)"
    by (intro find_append_none) auto
  then show ?thesis by (simp add: is_current_id_def memory_join_def)
qed

lemma check_source_join:
  assumes "no_subject s others"
    and "me_id ` set (md_entries db) \<inter> me_id ` set (md_entries others) = {}"
  shows "check_source (memory_join others db) s t ws n b i = check_source db s t ws n b i"
proof (cases "memory_get db s i")
  case (Inl e)
  with assms(1) show ?thesis by (simp add: check_source_def memory_get_join)
next
  case (Inr d)
  with memory_get_Inr [OF Inr] assms(2) have "i \<notin> me_id ` set (md_entries others)" by blast
  then have cur: "is_current_id (memory_join others db) i = is_current_id db i"
    by (rule is_current_id_join)
  show ?thesis
    unfolding check_source_def memory_get_join [OF assms(1)] cur by (rule refl)
qed

lemma check_note_sources_join:
  assumes "no_subject s others"
    and "me_id ` set (md_entries db) \<inter> me_id ` set (md_entries others) = {}"
  shows "check_note_sources (memory_join others db) s t ws n b is = check_note_sources db s t ws n b is"
proof (induction "is" arbitrary: b)
  case (Cons i "is")
  with check_source_join [OF assms] show ?case by (simp cong: bindR_full_cong)
qed simp

lemma current_entry_join: "no_subject s others \<Longrightarrow> current_entry (memory_join others db) s k = current_entry db s k"
  unfolding current_entry_def memory_join_def by (simp add: find_append_none no_subject_def)

lemma map_supersede_no_subject:
  "\<forall>e \<in> set es. me_subject e \<noteq> s \<Longrightarrow> map (supersede_key s k) es = es"
  by (induction es) (simp_all add: supersede_key_other)

lemma insert_deposit_join:
  assumes "no_subject s others" and "de_subject d = s"
    and "insert_deposit db d = Inr db'" and "de_id d \<notin> me_id ` set (md_entries others)"
    and "\<forall>l \<in> set (md_links others). ml_note l \<in> me_id ` set (md_entries others)"
  shows "insert_deposit (memory_join others db) d = Inr (memory_join others db')"
proof -
  have old: "map (supersede_key s k) (md_entries others) = md_entries others" for k
    using assms(1) by (intro map_supersede_no_subject) (simp add: no_subject_def)
  have links: "link_pk ` set (map (\<lambda>src. \<lparr>ml_subject = s, ml_note = de_id d, ml_source = src,
      ml_covers = c src\<rparr>) xs) \<inter> link_pk ` set (md_links others) = {}" for c xs
    using assms(4,5) by (auto simp: link_pk_def)
  from assms(3) old links assms(4) show ?thesis
    by (auto simp: insert_deposit_def Let_def assms(2) res_simps memory_join_def image_Un Int_Un_distrib)
qed

definition links_grounded :: "memory_db \<Rightarrow> bool" where
  "links_grounded db \<longleftrightarrow> (\<forall>l \<in> set (md_links db). ml_note l \<in> me_id ` set (md_entries db))"

lemma apply_note_ids:
  "apply_note X s parent t commit ws db index n = Inr db' \<Longrightarrow>
     me_id ` set (md_entries db') = insert (deposit_id X parent index n) (me_id ` set (md_entries db))"
  by (elim apply_note_Inr) simp

lemma apply_notes_ids:
  "apply_notes X s parent t commit ws db index ns = Inr db' \<Longrightarrow>
     me_id ` set (md_entries db) \<subseteq> me_id ` set (md_entries db')"
  by (induction X s parent t commit ws db index ns rule: apply_notes.induct)
    (fastforce simp: res_simps dest: apply_note_ids)+

lemma apply_note_join:
  assumes "no_subject s others" and "links_grounded others"
    and "apply_note X s parent t commit ws db index n = Inr db'"
    and "me_id ` set (md_entries db') \<inter> me_id ` set (md_entries others) = {}"
  shows "apply_note X s parent t commit ws (memory_join others db) index n = Inr (memory_join others db')"
proof -
  have new: "deposit_id X parent index n \<notin> me_id ` set (md_entries others)"
    and disj: "me_id ` set (md_entries db) \<inter> me_id ` set (md_entries others) = {}"
    using apply_note_ids [OF assms(3)] assms(4) by auto
  show ?thesis
    using assms(3) insert_deposit_join [OF assms(1), where db = db and db' = db'] new assms(2)
    unfolding apply_note_def check_note_sources_join [OF assms(1) disj] current_entry_join [OF assms(1)]
      res_simps links_grounded_def
    by (elim exE conjE) (intro exI conjI; simp)
qed

lemma apply_notes_join:
  assumes "no_subject s others" and "links_grounded others"
  shows "apply_notes X s parent t commit ws db index ns = Inr db' \<Longrightarrow>
    me_id ` set (md_entries db') \<inter> me_id ` set (md_entries others) = {} \<Longrightarrow>
    apply_notes X s parent t commit ws (memory_join others db) index ns = Inr (memory_join others db')"
proof (induction ns arbitrary: db index)
  case (Cons n ns)
  from Cons.prems(1) obtain db1 where db1: "apply_note X s parent t commit ws db index n = Inr db1"
    "apply_notes X s parent t commit ws db1 (Suc index) ns = Inr db'"
    by (auto simp: res_simps)
  have "me_id ` set (md_entries db1) \<inter> me_id ` set (md_entries others) = {}"
    using apply_notes_ids [OF db1(2)] Cons.prems(2) by blast
  from apply_note_join [OF assms db1(1) this] Cons.IH [OF db1(2) Cons.prems(2)] show ?case
    by simp
qed simp

lemma memory_apply_join:
  assumes "no_subject s others" and "links_grounded others"
    and "memory_apply X db s parent t commit ns = Inr db'"
    and "me_id ` set (md_entries db') \<inter> me_id ` set (md_entries others) = {}"
  shows "memory_apply X (memory_join others db) s parent t commit ns = Inr (memory_join others db')"
  using assms by (auto simp: memory_apply_def res_simps intro: apply_notes_join)

lemma replay_commits_ids:
  "replay_commits X s db cs = Inr db' \<Longrightarrow> me_id ` set (md_entries db) \<subseteq> me_id ` set (md_entries db')"
proof (induction X s db cs rule: replay_commits.induct)
  case (2 X s db c cs)
  then show ?case
    by (cases "co_body c") (fastforce simp: res_simps memory_apply_def dest: apply_notes_ids)+
qed simp

lemma replay_commits_join:
  assumes "no_subject s others" and "links_grounded others"
  shows "replay_commits X s db cs = Inr db' \<Longrightarrow>
    me_id ` set (md_entries db') \<inter> me_id ` set (md_entries others) = {} \<Longrightarrow>
    replay_commits X s (memory_join others db) cs = Inr (memory_join others db')"
proof (induction cs arbitrary: db)
  case (Cons c cs)
  show ?case
  proof (cases "co_body c")
    case (Genesis g)
    with Cons show ?thesis by simp
  next
    case (Transition t)
    with Cons.prems(1) obtain db1 where ok: "validate X (tr_proposal t) = Inr ()"
      and db1: "memory_apply X db s (tr_parent t) (tr_tick t) (co_id c) (p_notes (tr_proposal t)) = Inr db1"
      "replay_commits X s db1 cs = Inr db'"
      by (auto simp: res_simps)
    have "me_id ` set (md_entries db1) \<inter> me_id ` set (md_entries others) = {}"
      using replay_commits_ids [OF db1(2)] Cons.prems(2) by blast
    from memory_apply_join [OF assms db1(1) this] Cons.IH [OF db1(2) Cons.prems(2)] ok Transition
    show ?thesis by simp
  qed
qed simp

text \<open>Conversely, what one subject's deposits do in the shared tables is, seen from that
  subject's rows, what they do alone; the other subjects' rows are not touched.\<close>

lemma find_filter_conj: "find (\<lambda>x. Q x \<and> P x) (filter Q xs) = find (\<lambda>x. Q x \<and> P x) xs"
  by (induction xs) auto

lemma memory_get_of: "memory_get (memory_of s db) s i = memory_get db s i"
  by (simp add: memory_get_def memory_of_def find_filter_conj)

lemma current_entry_of: "current_entry (memory_of s db) s k = current_entry db s k"
  by (simp add: current_entry_def memory_of_def find_filter_conj)

lemma is_current_id_of:
  assumes "distinct (map me_id (md_entries db))" and "e \<in> set (md_entries db)" and "me_subject e = s"
  shows "is_current_id (memory_of s db) (me_id e) = is_current_id db (me_id e)"
proof -
  have "find (\<lambda>f. me_id f = me_id e) (md_entries db) = Some e"
    using assms(1,2) by (rule distinct_find)
  moreover have "find (\<lambda>f. me_id f = me_id e) (md_entries (memory_of s db)) = Some e"
    using assms by (intro distinct_find) (auto simp: memory_of_def distinct_map_filter)
  ultimately show ?thesis by (simp add: is_current_id_def)
qed

lemma check_source_of:
  assumes "distinct (map me_id (md_entries db))"
  shows "check_source (memory_of s db) s t ws n b i = check_source db s t ws n b i"
proof (cases "memory_get db s i")
  case (Inl e)
  then show ?thesis by (simp add: check_source_def memory_get_of)
next
  case (Inr d)
  from memory_get_Inr [OF Inr] obtain e where "e \<in> set (md_entries db)" "me_subject e = s" "me_id e = i"
    by blast
  with is_current_id_of [OF assms] have cur: "is_current_id (memory_of s db) i = is_current_id db i"
    by blast
  show ?thesis unfolding check_source_def memory_get_of cur by (rule refl)
qed

lemma check_note_sources_of:
  assumes "distinct (map me_id (md_entries db))"
  shows "check_note_sources (memory_of s db) s t ws n b is = check_note_sources db s t ws n b is"
  using check_source_of [OF assms]
  by (induction "is" arbitrary: b) (simp_all cong: bindR_full_cong)

lemma filter_map_supersede:
  "filter (\<lambda>e. me_subject e = s') (map (supersede_key s k) es) =
     (if s' = s then map (supersede_key s k) (filter (\<lambda>e. me_subject e = s') es)
      else filter (\<lambda>e. me_subject e = s') es)"
  by (induction es) (auto simp: supersede_key_other)

lemma insert_deposit_of:
  assumes "insert_deposit db d = Inr db'"
  shows "insert_deposit (memory_of (de_subject d) db) d = Inr (memory_of (de_subject d) db')"
    and "s' \<noteq> de_subject d \<Longrightarrow> memory_of s' db' = memory_of s' db"
proof -
  from assms show "insert_deposit (memory_of (de_subject d) db) d = Inr (memory_of (de_subject d) db')"
    by (auto simp: insert_deposit_def Let_def res_simps memory_of_def filter_map_supersede)
  from assms show "s' \<noteq> de_subject d \<Longrightarrow> memory_of s' db' = memory_of s' db"
    by (auto simp: insert_deposit_def Let_def res_simps memory_of_def filter_map_supersede)
qed

lemma apply_note_of:
  assumes "distinct (map me_id (md_entries db))"
    and "apply_note X s parent t commit ws db index n = Inr db'"
  shows "apply_note X s parent t commit ws (memory_of s db) index n = Inr (memory_of s db')"
    and "s' \<noteq> s \<Longrightarrow> memory_of s' db' = memory_of s' db"
proof -
  show "apply_note X s parent t commit ws (memory_of s db) index n = Inr (memory_of s db')"
    using assms(2) insert_deposit_of(1) [where db = db and db' = db']
    unfolding apply_note_def check_note_sources_of [OF assms(1)] current_entry_of res_simps
    by (elim exE conjE) (intro exI conjI; fastforce)
  show "s' \<noteq> s \<Longrightarrow> memory_of s' db' = memory_of s' db"
    using assms(2) insert_deposit_of(2) [where db = db and db' = db' and s' = s']
    unfolding apply_note_def res_simps by fastforce
qed

lemma apply_notes_of:
  "memory_inv db \<Longrightarrow> apply_notes X s parent t commit ws db index ns = Inr db' \<Longrightarrow>
     apply_notes X s parent t commit ws (memory_of s db) index ns = Inr (memory_of s db') \<and>
     (\<forall>s'. s' \<noteq> s \<longrightarrow> memory_of s' db' = memory_of s' db)"
proof (induction ns arbitrary: db index)
  case (Cons n ns)
  from Cons.prems(2) obtain db1 where db1: "apply_note X s parent t commit ws db index n = Inr db1"
    "apply_notes X s parent t commit ws db1 (Suc index) ns = Inr db'"
    by (auto simp: res_simps)
  have d: "distinct (map me_id (md_entries db))" using Cons.prems(1) by (simp add: memory_inv_def)
  from apply_note_of [OF d db1(1)] Cons.IH [OF apply_note_inv [OF Cons.prems(1) db1(1)] db1(2)]
  show ?case by simp
qed simp

lemma memory_apply_of:
  assumes "memory_inv db" and "memory_apply X db s parent t commit ns = Inr db'"
  shows "memory_apply X (memory_of s db) s parent t commit ns = Inr (memory_of s db')"
    and "s' \<noteq> s \<Longrightarrow> memory_of s' db' = memory_of s' db"
  using apply_notes_of [OF assms(1), of X s parent t commit "map n_key ns" 0 ns db'] assms(2)
  by (auto simp: memory_apply_def res_simps)

lemma replay_commits_append:
  "replay_commits X s db (cs @ cs') = bindR (replay_commits X s db cs) (\<lambda>db'. replay_commits X s db' cs')"
proof (induction cs arbitrary: db)
  case (Cons c cs)
  then show ?case by (cases "co_body c") (simp_all add: bindR_assoc cong: bindR_full_cong)
qed simp

text \<open>A subject's rows are exactly what its committed history deposits, in order.\<close>

definition index_is_replay :: "ext \<Rightarrow> commit_row list \<Rightarrow> memory_db \<Rightarrow> string \<Rightarrow> bool" where
  "index_is_replay X cs db s \<longleftrightarrow> replay_commits X s empty_memory cs = Inr (memory_of s db)"

lemma index_is_replay_step:
  assumes "memory_inv db" and "index_is_replay X cs db s"
    and "memory_apply X db s (tr_parent t) (tr_tick t) (co_id c) (p_notes (tr_proposal t)) = Inr db'"
    and "co_body c = Transition t" and "proposal_ok X (tr_proposal t)"
  shows "index_is_replay X (cs @ [c]) db' s"
  using assms(2,4,5) memory_apply_of(1) [OF assms(1,3)]
  by (simp add: index_is_replay_def replay_commits_append)

lemma only_subject_of: "only_subject s (memory_of s db)"
  by (simp add: only_subject_def memory_of_def)

lemma memory_inv_delete_links: "memory_inv db \<Longrightarrow> links_grounded (memory_delete s db)"
  by (fastforce simp: memory_inv_def links_grounded_def memory_delete_def entry_links_def)

lemma memory_join_empty: "memory_join others empty_memory = others"
  by (simp add: memory_join_def empty_memory_def)

lemma memory_rebuild_join:
  assumes "memory_inv (st_memory st)"
    and "index_is_replay X (subject_commits st s) (st_memory st) s"
  shows "memory_rebuild X st s = Inr (memory_join (memory_delete s (st_memory st)) (memory_of s (st_memory st)))"
proof -
  let ?others = "memory_delete s (st_memory st)" and ?mine = "memory_of s (st_memory st)"
  have disj: "me_id ` set (md_entries ?mine) \<inter> me_id ` set (md_entries ?others) = {}"
    using assms(1) by (auto simp: memory_inv_def memory_of_def memory_delete_def distinct_map inj_on_def)
  have "replay_commits X s (memory_join ?others empty_memory) (subject_commits st s)
      = Inr (memory_join ?others ?mine)"
    using assms(2) unfolding index_is_replay_def
    by (rule replay_commits_join [OF memory_delete_no_subject memory_inv_delete_links [OF assms(1)] _ disj])
  then show ?thesis by (simp add: memory_rebuild_def memory_join_empty)
qed

lemma memory_of_rebuilt:
  "memory_of s (memory_join (memory_delete s db) (memory_of s db)) = memory_of s db"
  "s' \<noteq> s \<Longrightarrow> memory_of s' (memory_join (memory_delete s db) (memory_of s db)) = memory_of s' db"
  by (simp_all add: memory_of_join [OF memory_delete_no_subject only_subject_of] memory_of_join_other
        only_subject_of memory_of_delete)

text \<open>Deleting a subject's rows, and replaying history, keep the index well formed.\<close>

fun currency :: "entry_row list \<Rightarrow> bool" where
  "currency [] = True"
| "currency (e # es) = ((me_current e \<longleftrightarrow> (\<forall>f \<in> set es. \<not> same_key e f)) \<and> currency es)"

lemma currency_iff:
  "currency es \<longleftrightarrow> (\<forall>i < length es. me_current (es ! i) \<longleftrightarrow>
     (\<forall>j < length es. i < j \<longrightarrow> \<not> same_key (es ! i) (es ! j)))"
proof (induction es)
  case (Cons e es)
  have "(\<forall>i < length (e # es). me_current ((e # es) ! i) \<longleftrightarrow>
      (\<forall>j < length (e # es). i < j \<longrightarrow> \<not> same_key ((e # es) ! i) ((e # es) ! j))) \<longleftrightarrow>
    (me_current e \<longleftrightarrow> (\<forall>j < length es. \<not> same_key e (es ! j))) \<and>
    (\<forall>i < length es. me_current (es ! i) \<longleftrightarrow> (\<forall>j < length es. i < j \<longrightarrow> \<not> same_key (es ! i) (es ! j)))"
    unfolding length_Cons All_less_Suc2 by (simp add: All_less_Suc2)
  with Cons show ?case by (simp add: all_set_conv_all_nth)
qed simp

lemma currency_filter: "currency es \<Longrightarrow> currency (filter (\<lambda>e. me_subject e \<noteq> s) es)"
  by (induction es) (auto simp: same_key_def)

lemma concat_links_filter:
  "filter (\<lambda>l. ml_subject l \<noteq> s) (concat (map entry_links es)) =
     concat (map entry_links (filter (\<lambda>e. me_subject e \<noteq> s) es))"
  by (induction es) (auto simp: entry_links_def filter_empty_conv filter_id_conv)

lemma memory_inv_delete:
  assumes "memory_inv db"
  shows "memory_inv (memory_delete s db)"
proof -
  let ?es = "filter (\<lambda>e. me_subject e \<noteq> s) (md_entries db)"
  from assms have rows: "\<forall>e \<in> set (md_entries db). row_ok e \<and> grounded (md_entries db) e"
    and cur: "currency (md_entries db)" by (simp_all add: memory_inv_def currency_iff)
  have "grounded ?es e" if "e \<in> set ?es" for e
    using rows that unfolding grounded_def by fastforce
  moreover have "filter (\<lambda>f. ft_subject f \<noteq> s) (map entry_fts es) = map entry_fts (filter (\<lambda>e. me_subject e \<noteq> s) es)" for es
    by (induction es) (simp_all add: entry_fts_def)
  moreover have "currency ?es" using cur by (rule currency_filter)
  ultimately show ?thesis
    using assms rows unfolding memory_inv_def memory_delete_def
    by (simp add: concat_links_filter distinct_map_filter currency_iff)
qed

lemma replay_commits_inv: "memory_inv db \<Longrightarrow> replay_commits X s db cs = Inr db' \<Longrightarrow> memory_inv db'"
proof (induction X s db cs rule: replay_commits.induct)
  case (2 X s db c cs)
  then show ?case
    by (cases "co_body c") (auto simp: res_simps memory_apply_def intro: apply_notes_inv)
qed simp

lemma memory_rebuild_inv: "memory_inv (st_memory st) \<Longrightarrow> memory_rebuild X st s = Inr db \<Longrightarrow> memory_inv db"
  unfolding memory_rebuild_def by (rule replay_commits_inv [OF memory_inv_delete])

text \<open>
  Rebuilding the index loses nothing: if a subject's rows are the replay of its commits
  (which every commit preserves), then deleting them and replaying the history succeeds,
  gives exactly the same rows for that subject in the same order, and leaves the rows of
  every other subject as they were.
\<close>

lemma memory_rebuild_same:
  assumes "memory_inv (st_memory st)"
    and "index_is_replay X (subject_commits st s) (st_memory st) s"
  shows "\<exists>db'. memory_rebuild X st s = Inr db' \<and> memory_of s db' = memory_of s (st_memory st) \<and>
    (\<forall>s'. s' \<noteq> s \<longrightarrow> memory_of s' db' = memory_of s' (st_memory st))"
  using memory_rebuild_join [OF assms] by (simp add: memory_of_rebuilt)

section \<open>The hypotheses can hold\<close>

definition sample_task :: "string \<Rightarrow> memory_note" where
  "sample_task status = \<lparr>n_key = ''milk'', n_text = ''buy milk'', n_type = ''task'', n_status = status,
     n_sources = [], n_covers = []\<rparr>"

lemma sample_task_ok: "status \<in> set note_statuses \<Longrightarrow> notes_ok [sample_task status]"
  by (simp add: note_ok_def sample_task_def key_ok_def note_types_def)

definition sample_entry :: "nat \<Rightarrow> string \<Rightarrow> string \<Rightarrow> bool \<Rightarrow> entry_row" where
  "sample_entry i prev status cur = \<lparr>me_id = sample_id i, me_subject = ''s'', me_key = ''milk'',
     me_tick = int i, me_commit = ''c'', me_body = \<lparr>de_id = sample_id i, de_subject = ''s'',
       de_tick = int i, de_commit = ''c'', de_previous = prev, de_note = sample_task status\<rparr>,
     me_current = cur\<rparr>"

definition sample_memory :: memory_db where
  "sample_memory = \<lparr>md_entries = [sample_entry 1 [] ''open'' True], md_links = [],
     md_fts = [entry_fts (sample_entry 1 [] ''open'' True)]\<rparr>"

definition sample_memory2 :: memory_db where
  "sample_memory2 = \<lparr>md_entries = [sample_entry 1 [] ''open'' False, sample_entry 2 (sample_id 1) ''closed'' True],
     md_links = [],
     md_fts = [entry_fts (sample_entry 1 [] ''open'' True), entry_fts (sample_entry 2 (sample_id 1) ''closed'' True)]\<rparr>"

lemma sample_deposit_id: "deposit_id sample_ext parent i n = sample_id (length parent)"
  by (simp add: deposit_id_def hash_sample sample_dump_def jat_mk_obj)

lemma sample_task_valid:
  "validate_memory_notes [sample_task ''open''] = Inr ()"
  "validate_memory_notes [sample_task ''closed''] = Inr ()"
  using sample_task_ok by (simp_all add: note_statuses_def del: notes_ok_single)

lemmas sample_apply_simps =
  apply_note_def insert_deposit_def sample_deposit_id Let_def current_entry_def sample_entry_def
  sample_task_def entry_fts_def sample_id_inject supersede_key_def

lemma sample_apply:
  "memory_apply sample_ext empty_memory ''s'' ''h'' 1 ''c'' [sample_task ''open''] = Inr sample_memory"
  unfolding memory_apply_def sample_task_valid bindR_Inr_left
  by (simp add: sample_apply_simps empty_memory_def sample_memory_def)

lemma sample_apply2:
  "memory_apply sample_ext sample_memory ''s'' ''hh'' 2 ''c'' [sample_task ''closed''] = Inr sample_memory2"
  unfolding memory_apply_def sample_task_valid bindR_Inr_left
  by (simp add: sample_apply_simps sample_memory_def sample_memory2_def)

lemma sample_memory_inv: "memory_inv sample_memory"
  by (simp add: memory_inv_def sample_memory_def sample_entry_def sample_task_def row_ok_def grounded_def
      entry_links_def entry_fts_def)

theorem open_task_protected_witness:
  "\<exists>e' \<in> set (current_rows sample_memory2 ''s'' ''milk''). \<exists>n \<in> set [sample_task ''closed''].
     de_note (me_body e') = n \<and> de_previous (me_body e') = sample_id 1"
  using open_task_protected [OF sample_memory_inv sample_apply2, of "sample_entry 1 [] ''open'' True" "''s''" "''milk''"]
  by (simp add: current_rows_def sample_memory_def sample_entry_def sample_task_def)

definition sample_store_memory :: store where
  "sample_store_memory = empty_store\<lparr>st_memory := sample_memory, st_commits :=
     [\<lparr>co_id = ''c'', co_subject = ''s'', co_tick = 1, co_body = Transition
        \<lparr>tr_schema = 5, tr_subject = ''s'', tr_tick = 1, tr_parent = ''h'', tr_occasion = ''o'',
         tr_attempt = ''a'', tr_proposal = default_proposal\<lparr>p_notes := [sample_task ''open'']\<rparr>,
         tr_memory = [], tr_wake_at = None, tr_committed_at = 0, tr_wall_observed_at = 0,
         tr_wake_plan = None, tr_inference_elapsed_ms = None, tr_emission = JNull,
         tr_disposition = None\<rparr>\<rparr>]\<rparr>"

lemma sample_index_is_replay:
  "index_is_replay sample_ext (subject_commits sample_store_memory ''s'') (st_memory sample_store_memory) ''s''"
proof -
  have "notes_ok [sample_task ''open'']" by (rule sample_task_ok) (simp add: note_statuses_def)
  then have "proposal_ok sample_ext (default_proposal\<lparr>p_notes := [sample_task ''open'']\<rparr>)"
    by (simp add: proposal_ok_def default_proposal_def)
  moreover have "memory_of ''s'' sample_memory = sample_memory"
    by (simp add: memory_of_def sample_memory_def sample_entry_def entry_fts_def)
  ultimately show ?thesis
    by (simp add: index_is_replay_def subject_commits_def sample_store_memory_def sample_apply)
qed

theorem memory_rebuild_same_witness:
  "\<exists>db'. memory_rebuild sample_ext sample_store_memory ''s'' = Inr db' \<and>
     memory_of ''s'' db' = memory_of ''s'' (st_memory sample_store_memory)"
  using memory_rebuild_same [OF _ sample_index_is_replay] sample_memory_inv
  by (fastforce simp: sample_store_memory_def)

end
