(* ===== verification/Cogg_Search.thy ===== *)
theory Cogg_Search
  imports Cogg_Types
begin

text \<open>
  Query text to full-text terms: \<open>tokenize_words\<close>, \<open>ascii_lower\<close>, \<open>terms\<close> and
  \<open>expanded_terms\<close> of \<^verbatim>\<open>src/memory.cpp\<close>. Strings are byte strings; the non-ASCII
  synonym clusters are written as their UTF-8 bytes. Main results: a query the user types
  can never become FTS5 syntax, and the expansion is bounded, free of repetitions and
  disjoint from the words of the query.
\<close>

section \<open>Words\<close>

definition word_char :: "char \<Rightarrow> bool" where
  "word_char c =
     (let n = of_char c :: nat
      in (48 \<le> n \<and> n \<le> 57) \<or> (65 \<le> n \<and> n \<le> 90) \<or> (97 \<le> n \<and> n \<le> 122) \<or> n \<ge> 128 \<or> n = 95)"

definition flush :: "nat \<Rightarrow> string list \<Rightarrow> string \<Rightarrow> string list" where
  "flush max_words words word =
     (if word \<noteq> [] \<and> length words < max_words then words @ [word] else words)"

fun tokenize_from :: "nat \<Rightarrow> string list \<Rightarrow> string \<Rightarrow> string \<Rightarrow> string list" where
  "tokenize_from mx words word [] = flush mx words word"
| "tokenize_from mx words word (c # cs) =
     (if word_char c then tokenize_from mx words (if length word < 128 then word @ [c] else word) cs
      else tokenize_from mx (flush mx words word) [] cs)"

definition tokenize_words :: "string \<Rightarrow> nat \<Rightarrow> string list" where
  "tokenize_words s max_words = tokenize_from max_words [] [] s"

definition lower_char :: "char \<Rightarrow> char" where
  "lower_char c =
     (let n = of_char c :: nat in if 65 \<le> n \<and> n \<le> 90 then char_of (n - 65 + 97) else c)"

definition ascii_lower :: "string \<Rightarrow> string" where
  "ascii_lower s = map lower_char s"

definition quote_word :: "string \<Rightarrow> string" where
  "quote_word w = CHR 0x22 # w @ [CHR 0x22]"

fun join_or :: "string \<Rightarrow> string list \<Rightarrow> string" where
  "join_or out [] = out"
| "join_or out (w # ws) = join_or ((if out = [] then [] else out @ '' OR '') @ quote_word w) ws"

definition terms :: "string \<Rightarrow> string" where
  "terms s = join_or [] (tokenize_words s 32)"

section \<open>Synonym expansion\<close>

definition clusters :: "string list list" where
  "clusters =
     [[''automobile'', ''car'', ''vehicle'', ''auto'', ''truck'', ''transport'', ''tag'',
       ''plate'', ''registration'', ''license''],
      [''destination'', ''delivery'', ''city'', ''location'', ''route'', ''shipment'',
       ''address''],
      [''workshop'', ''access'', ''code'', ''password'', ''pin'', ''passcode'', ''key'',
       ''door'', ''locker''],
      [''commitment'', ''promise'', ''obligation'', ''task'', ''duty'', ''reminder'',
       ''return''],
      [''telescope'', ''lens'', ''optics'', ''instrument''],
      [''camera'', ''photo'', ''photos'', ''photographs'', ''picture'', ''card''],
      [''procedure'', ''workflow'', ''protocol'', ''steps'', ''runbook'', ''checklist'',
       ''method''],
      [
       [CHR 0xD0, CHR 0xBA, CHR 0xD0, CHR 0xBD, CHR 0xD0, CHR 0xB8, CHR 0xD0, CHR 0xB3, CHR 0xD0, CHR 0xB0],
       [CHR 0xD0, CHR 0xBA, CHR 0xD0, CHR 0xBD, CHR 0xD0, CHR 0xB8, CHR 0xD0, CHR 0xB3, CHR 0xD1, CHR 0x83],
       [CHR 0xD0, CHR 0xBA, CHR 0xD0, CHR 0xBD, CHR 0xD0, CHR 0xB8, CHR 0xD0, CHR 0xB3, CHR 0xD0, CHR 0xB8],
       [CHR 0xD1, CHR 0x82, CHR 0xD0, CHR 0xBE, CHR 0xD0, CHR 0xBC],
       [CHR 0xD0, CHR 0xB8, CHR 0xD0, CHR 0xB7, CHR 0xD0, CHR 0xB4, CHR 0xD0, CHR 0xB0, CHR 0xD0, CHR 0xBD, CHR 0xD0, CHR 0xB8, CHR 0xD0, CHR 0xB5],
       [CHR 0xD1, CHR 0x88, CHR 0xD0, CHR 0xBA, CHR 0xD0, CHR 0xB0, CHR 0xD1, CHR 0x84],
       [CHR 0xD1, CHR 0x88, CHR 0xD0, CHR 0xBA, CHR 0xD0, CHR 0xB0, CHR 0xD1, CHR 0x84, CHR 0xD1, CHR 0x83],
       [CHR 0xD0, CHR 0xBA, CHR 0xD0, CHR 0xBE, CHR 0xD0, CHR 0xBC, CHR 0xD0, CHR 0xBE, CHR 0xD0, CHR 0xB4],
       [CHR 0xD0, CHR 0xBA, CHR 0xD0, CHR 0xBE, CHR 0xD0, CHR 0xBC, CHR 0xD0, CHR 0xBE, CHR 0xD0, CHR 0xB4, CHR 0xD0, CHR 0xB5],
       [CHR 0xD0, CHR 0xBF, CHR 0xD0, CHR 0xBE, CHR 0xD0, CHR 0xBB, CHR 0xD0, CHR 0xBA, CHR 0xD0, CHR 0xB0]],
      [
       [CHR 0xD0, CHR 0xB0, CHR 0xD0, CHR 0xB2, CHR 0xD1, CHR 0x82, CHR 0xD0, CHR 0xBE, CHR 0xD0, CHR 0xBC, CHR 0xD0, CHR 0xBE, CHR 0xD0, CHR 0xB1, CHR 0xD0, CHR 0xB8, CHR 0xD0, CHR 0xBB, CHR 0xD1, CHR 0x8C],
       [CHR 0xD0, CHR 0xBC, CHR 0xD0, CHR 0xB0, CHR 0xD1, CHR 0x88, CHR 0xD0, CHR 0xB8, CHR 0xD0, CHR 0xBD, CHR 0xD0, CHR 0xB0],
       [CHR 0xD1, CHR 0x82, CHR 0xD1, CHR 0x80, CHR 0xD0, CHR 0xB0, CHR 0xD0, CHR 0xBD, CHR 0xD1, CHR 0x81, CHR 0xD0, CHR 0xBF, CHR 0xD0, CHR 0xBE, CHR 0xD1, CHR 0x80, CHR 0xD1, CHR 0x82],
       [CHR 0xD0, CHR 0xBD, CHR 0xD0, CHR 0xBE, CHR 0xD0, CHR 0xBC, CHR 0xD0, CHR 0xB5, CHR 0xD1, CHR 0x80],
       [CHR 0xD1, CHR 0x80, CHR 0xD0, CHR 0xB5, CHR 0xD0, CHR 0xB3, CHR 0xD0, CHR 0xB8, CHR 0xD1, CHR 0x81, CHR 0xD1, CHR 0x82, CHR 0xD1, CHR 0x80, CHR 0xD0, CHR 0xB0, CHR 0xD1, CHR 0x86, CHR 0xD0, CHR 0xB8, CHR 0xD1, CHR 0x8F]]]"

fun push_clean :: "string set \<Rightarrow> string list \<times> string list \<Rightarrow> string list \<Rightarrow> string list \<times> string list" where
  "push_clean base (extra, seen) [] = (extra, seen)"
| "push_clean base (extra, seen) (clean # cs) =
     (let low = ascii_lower clean
      in if low \<in> base \<or> low \<in> set seen then push_clean base (extra, seen) cs
         else push_clean base (if length extra < 32 then extra @ [clean] else extra, low # seen) cs)"

definition push_token :: "string set \<Rightarrow> string list \<times> string list \<Rightarrow> string \<Rightarrow> string list \<times> string list" where
  "push_token base acc tok = push_clean base acc (tokenize_words tok 8)"

definition word_synonyms :: "(string \<times> string list) list \<Rightarrow> string \<Rightarrow> string list" where
  "word_synonyms custom w =
     (let low = ascii_lower w
      in concat (map snd (filter (\<lambda>(k, vals). ascii_lower k = low) custom)) @
         concat (filter (\<lambda>cluster. low \<in> set cluster) clusters))"

definition expanded_words :: "string \<Rightarrow> (string \<times> string list) list \<Rightarrow> string list" where
  "expanded_words s custom =
     (let base = tokenize_words s 32; base_lower = set (map ascii_lower base)
      in fst (foldl (push_token base_lower) ([], []) (concat (map (word_synonyms custom) base))))"

definition expanded_terms :: "string \<Rightarrow> (string \<times> string list) list \<Rightarrow> string" where
  "expanded_terms s custom = join_or [] (expanded_words s custom)"

section \<open>Queries are quoted word lists\<close>

definition word_ok :: "string \<Rightarrow> bool" where
  "word_ok w \<longleftrightarrow> w \<noteq> [] \<and> length w \<le> 128 \<and> list_all word_char w"

lemma word_char_quote: "\<not> word_char (CHR 0x22)"
  by (simp add: word_char_def Let_def)

lemma tokenize_from_ok:
  "list_all word_ok words \<Longrightarrow> length words \<le> mx \<Longrightarrow> length word \<le> 128 \<Longrightarrow> list_all word_char word \<Longrightarrow>
     list_all word_ok (tokenize_from mx words word s) \<and> length (tokenize_from mx words word s) \<le> mx"
proof (induction mx words word s rule: tokenize_from.induct)
  case (1 mx words word)
  then have "word \<noteq> [] \<Longrightarrow> word_ok word" by (simp add: word_ok_def)
  with 1 show ?case by (auto simp: flush_def)
next
  case (2 mx words word c cs)
  from "2.prems" have "word \<noteq> [] \<Longrightarrow> word_ok word" by (simp add: word_ok_def)
  with "2.prems" have "list_all word_ok (flush mx words word) \<and> length (flush mx words word) \<le> mx"
    by (auto simp: flush_def)
  with 2 show ?case by auto
qed

lemma tokenize_words_ok:
  "list_all word_ok (tokenize_words s mx) \<and> length (tokenize_words s mx) \<le> mx"
  unfolding tokenize_words_def by (rule tokenize_from_ok) simp_all

definition or_query :: "string list \<Rightarrow> string" where
  "or_query ws = (case ws of [] \<Rightarrow> [] | w # ws' \<Rightarrow> quote_word w @ concat (map (\<lambda>v. '' OR '' @ quote_word v) ws'))"

lemma join_or_nonempty: "out \<noteq> [] \<Longrightarrow> join_or out ws = out @ concat (map (\<lambda>v. '' OR '' @ quote_word v) ws)"
  by (induction ws arbitrary: out) (simp_all add: quote_word_def)

lemma join_or_or_query: "join_or [] ws = or_query ws"
  by (cases ws) (simp_all add: or_query_def join_or_nonempty quote_word_def)

text \<open>A quoted string of FTS5 starts and ends with a double quote; this reader splits a
  query back into its quoted strings and refuses everything else.\<close>

fun read_quoted :: "string \<Rightarrow> string \<Rightarrow> (string \<times> string) option" where
  "read_quoted acc [] = None"
| "read_quoted acc (c # cs) =
     (if c = CHR 0x22 then Some (rev acc, cs) else read_quoted (c # acc) cs)"

lemma read_quoted_word:
  "list_all word_char w \<Longrightarrow> read_quoted acc (w @ CHR 0x22 # rest) = Some (rev acc @ w, rest)"
proof (induction w arbitrary: acc)
  case (Cons c w)
  then have "c \<noteq> CHR 0x22" using word_char_quote by auto
  with Cons show ?case by simp
qed simp

lemma read_quoted_length: "read_quoted acc s = Some (w, rest) \<Longrightarrow> length rest < length s"
  by (induction acc s rule: read_quoted.induct) (auto split: if_splits)

fun read_or_query :: "nat \<Rightarrow> string \<Rightarrow> string list option" where
  "read_or_query 0 s = None"
| "read_or_query (Suc fuel) s =
     (if take 1 s = [CHR 0x22] then
        (case read_quoted [] (drop 1 s) of None \<Rightarrow> None
         | Some (w, rest) \<Rightarrow>
             if rest = [] then Some [w]
             else if take 4 rest = '' OR '' then map_option (Cons w) (read_or_query fuel (drop 4 rest))
             else None)
      else None)"

lemma read_or_query_or_query:
  "ws \<noteq> [] \<Longrightarrow> list_all word_ok ws \<Longrightarrow> length ws \<le> fuel \<Longrightarrow> read_or_query fuel (or_query ws) = Some ws"
proof (induction ws arbitrary: fuel)
  case Nil
  then show ?case by simp
next
  case (Cons w ws)
  from Cons.prems obtain f where f: "fuel = Suc f" by (cases fuel) auto
  from Cons.prems have w: "list_all word_char w" by (simp add: word_ok_def)
  show ?case
  proof (cases ws)
    case Nil
    with w show ?thesis
      using read_quoted_word [OF w, of "[]" "[]"] by (simp add: f or_query_def quote_word_def)
  next
    case (Cons v vs)
    have q: "or_query (w # ws) = quote_word w @ '' OR '' @ or_query ws"
      by (simp add: or_query_def Cons)
    have "read_or_query f (or_query ws) = Some ws"
      using Cons.IH Cons.prems Cons f by simp
    with w show ?thesis
      using read_quoted_word [OF w, of "[]" "'' OR '' @ or_query ws"]
      unfolding q by (simp add: f quote_word_def)
  qed
qed

text \<open>
  A query can not inject full-text syntax: what \<open>terms\<close> builds from any text is empty or
  reads back, quoted string by quoted string, as the words of that text; there are at most 32
  of them, each of at most 128 letters, digits, underscores or non-ASCII bytes.
\<close>

lemma terms_no_injection:
  "(terms s = [] \<and> tokenize_words s 32 = [] \<or> read_or_query 32 (terms s) = Some (tokenize_words s 32)) \<and>
   list_all word_ok (tokenize_words s 32) \<and> length (tokenize_words s 32) \<le> 32"
proof (cases "tokenize_words s 32 = []")
  case True
  then show ?thesis by (simp add: terms_def)
next
  case False
  with tokenize_words_ok [of s 32] show ?thesis
    by (auto simp: terms_def join_or_or_query intro!: read_or_query_or_query)
qed

section \<open>The expansion is bounded\<close>

definition expansion_inv :: "string set \<Rightarrow> string list \<times> string list \<Rightarrow> bool" where
  "expansion_inv base acc \<longleftrightarrow>
     length (fst acc) \<le> 32 \<and> distinct (map ascii_lower (fst acc)) \<and>
     set (map ascii_lower (fst acc)) \<subseteq> set (snd acc) \<and>
     set (map ascii_lower (fst acc)) \<inter> base = {} \<and> list_all word_ok (fst acc)"

lemma push_clean_inv:
  "expansion_inv base (extra, seen) \<Longrightarrow> list_all word_ok cs \<Longrightarrow>
     expansion_inv base (push_clean base (extra, seen) cs)"
proof (induction cs arbitrary: extra seen)
  case Nil
  then show ?case by simp
next
  case (Cons clean cs)
  show ?case
  proof (cases "ascii_lower clean \<in> base \<or> ascii_lower clean \<in> set seen")
    case True
    with Cons show ?thesis by (simp add: Let_def)
  next
    case False
    with Cons.prems have
      "expansion_inv base (if length extra < 32 then extra @ [clean] else extra, ascii_lower clean # seen)"
      by (auto simp: expansion_inv_def)
    then have "expansion_inv base (push_clean base
        (if length extra < 32 then extra @ [clean] else extra, ascii_lower clean # seen) cs)"
      using Cons.IH Cons.prems by simp
    with False show ?thesis by (simp add: Let_def)
  qed
qed

lemma push_tokens_inv:
  "expansion_inv base acc \<Longrightarrow> expansion_inv base (foldl (push_token base) acc toks)"
proof (induction toks arbitrary: acc)
  case (Cons t toks)
  have "expansion_inv base (push_token base acc t)"
    using push_clean_inv [of base "fst acc" "snd acc"] Cons.prems tokenize_words_ok [of t 8]
    by (simp add: push_token_def)
  with Cons.IH show ?case by simp
qed simp

text \<open>
  Synonym expansion is bounded and adds no duplicates: at most 32 words, all plain words,
  pairwise different up to ASCII case and none of them a word of the query; and the
  expanded query is again injection-free.
\<close>

lemma expanded_words_bounded:
  "length (expanded_words s custom) \<le> 32 \<and> distinct (map ascii_lower (expanded_words s custom)) \<and>
   set (map ascii_lower (expanded_words s custom)) \<inter> set (map ascii_lower (tokenize_words s 32)) = {} \<and>
   (expanded_words s custom = [] \<or> read_or_query 32 (expanded_terms s custom) = Some (expanded_words s custom))"
proof -
  have "expansion_inv (set (map ascii_lower (tokenize_words s 32)))
      (foldl (push_token (set (map ascii_lower (tokenize_words s 32)))) ([], [])
        (concat (map (word_synonyms custom) (tokenize_words s 32))))"
    by (rule push_tokens_inv) (simp add: expansion_inv_def)
  then have inv: "length (expanded_words s custom) \<le> 32" "list_all word_ok (expanded_words s custom)"
    "distinct (map ascii_lower (expanded_words s custom))"
    "set (map ascii_lower (expanded_words s custom)) \<inter> set (map ascii_lower (tokenize_words s 32)) = {}"
    by (simp_all add: expansion_inv_def expanded_words_def Let_def)
  then show ?thesis
    by (auto simp: expanded_terms_def join_or_or_query intro: read_or_query_or_query)
qed

end
