(* ===== verification/Cogg_View.thy ===== *)
theory Cogg_View
  imports Cogg_Memory Cogg_Search
begin

text \<open>
  What of its memory a subject's executor is shown: \<open>policy_ok\<close>, \<open>wire_at\<close>,
  \<open>memory_candidates\<close>, \<open>project_memory\<close> and \<open>memory_capacity\<close> of
  \<^verbatim>\<open>src/memory.cpp\<close>. Candidates come from several ranked lanes; the projection takes
  every required one or fails, then fills the rest of the budget greedily. Main results:
  a projection is within every budget, shows only what it was offered, and never hides an
  open task.
\<close>

section \<open>Policies\<close>

text \<open>A scorer returns a double of which only the sign and the order are used: an \<open>int\<close>.\<close>

record memory_policy =
  mp_query :: string
  mp_max_bytes :: nat
  mp_max_items :: nat
  mp_candidate_limit :: nat
  mp_history :: bool
  mp_strategy :: string
  mp_maintenance_ids :: "string list"
  mp_synonyms :: "(string \<times> string list) list"
  mp_semantic_scorer :: "(wire \<Rightarrow> string \<Rightarrow> int) option"

definition default_policy :: memory_policy where
  "default_policy = \<lparr>mp_query = [], mp_max_bytes = 8192, mp_max_items = 16, mp_candidate_limit = 64,
     mp_history = False, mp_strategy = ''balanced'', mp_maintenance_ids = [], mp_synonyms = [],
     mp_semantic_scorer = None\<rparr>"

fun check_synonyms :: "(string \<times> string list) list \<Rightarrow> unit res" where
  "check_synonyms [] = Inr ()"
| "check_synonyms ((k, vals) # rest) =
     bindR (text_ok k 128) (\<lambda>_.
     require (length vals \<le> 16) ''too many synonyms for one term'' (
     bindR (mapR (\<lambda>v. text_ok v 128) vals) (\<lambda>_. check_synonyms rest)))"

definition policy_ok :: "memory_policy \<Rightarrow> unit res" where
  "policy_ok p =
     require (mp_max_bytes p \<ge> 256 \<and> mp_max_bytes p \<le> 1048576 \<and> mp_max_items p > 0 \<and>
        mp_max_items p \<le> 256 \<and> mp_candidate_limit p \<ge> mp_max_items p \<and>
        mp_candidate_limit p \<le> 512 \<and> length (mp_query p) \<le> 65536) ''invalid memory policy'' (
     require (mp_strategy p \<in> {''balanced'', ''hybrid'', ''semantic'', ''lexical'', ''recent'', ''task_maintenance''})
       ''unknown memory strategy'' (
     require (if mp_strategy p = ''task_maintenance''
        then mp_maintenance_ids p \<noteq> [] \<and> length (mp_maintenance_ids p) \<le> 8 \<and> distinct (mp_maintenance_ids p)
        else mp_maintenance_ids p = [])
       ''maintenance requires 1..8 distinct source IDs and task_maintenance strategy'' (
     require (length (mp_synonyms p) \<le> 64) ''too many synonym entries in memory policy''
       (check_synonyms (mp_synonyms p)))))"

definition protects_tasks :: "memory_policy \<Rightarrow> bool" where
  "protects_tasks p \<longleftrightarrow>
     mp_strategy p = ''balanced'' \<or> mp_strategy p = ''hybrid'' \<or> mp_strategy p = ''semantic''"

section \<open>Deposits on the wire\<close>

definition latest_version :: "memory_db \<Rightarrow> string \<Rightarrow> string \<Rightarrow> int \<Rightarrow> string option" where
  "latest_version db subject key at =
     (let rows = filter (\<lambda>e. me_subject e = subject \<and> me_key e = key \<and> me_tick e \<le> at) (md_entries db)
      in if rows = [] then None else Some (me_id (last (sort_key me_tick rows))))"

definition current_at :: "memory_db \<Rightarrow> string \<Rightarrow> int \<Rightarrow> deposit \<Rightarrow> bool" where
  "current_at db subject at source =
     (latest_version db subject (n_key (de_note source)) at = Some (de_id source))"

definition wire_at :: "memory_db \<Rightarrow> string \<Rightarrow> int \<Rightarrow> deposit \<Rightarrow> wire res" where
  "wire_at db subject at b =
     bindR (if n_type (de_note b) = ''summary''
            then bindR (mapR (memory_get db subject) (n_sources (de_note b)))
                   (\<lambda>sources. Inr (\<not> list_all (current_at db subject at) sources))
            else Inr False) (\<lambda>stale.
     Inr \<lparr>w_note = de_note b, w_id = de_id b, w_commit = de_commit b, w_tick = de_tick b,
          w_current = current_at db subject at b, w_summary_stale = stale\<rparr>)"

section \<open>Candidates\<close>

definition stale_source :: "memory_db \<Rightarrow> string \<Rightarrow> bool" where
  "stale_source db note = list_ex (\<lambda>l. ml_note l = note \<and>
     list_ex (\<lambda>s. me_id s = ml_source l \<and> \<not> me_current s) (md_entries db)) (md_links db)"

definition current_filter :: "memory_db \<Rightarrow> entry_row \<Rightarrow> bool" where
  "current_filter db e \<longleftrightarrow> me_current e \<and> n_status (de_note (me_body e)) \<noteq> ''retracted'' \<and>
     (n_type (de_note (me_body e)) \<noteq> ''summary'' \<or> \<not> stale_source db (me_id e))"

definition uncovered_filter :: "memory_db \<Rightarrow> entry_row \<Rightarrow> bool" where
  "uncovered_filter db e \<longleftrightarrow> \<not> list_ex (\<lambda>l. ml_source l = me_id e \<and> ml_covers l \<and>
     list_ex (\<lambda>c. me_id c = ml_note l \<and> me_current c \<and>
        n_status (de_note (me_body c)) \<noteq> ''retracted'' \<and> \<not> stale_source db (me_id c)) (md_entries db))
     (md_links db)"

definition newest_first :: "entry_row list \<Rightarrow> entry_row list" where
  "newest_first = sort_key (\<lambda>e. (- me_tick e, me_id e))"

definition subject_entries :: "memory_db \<Rightarrow> string \<Rightarrow> (entry_row \<Rightarrow> bool) \<Rightarrow> entry_row list" where
  "subject_entries db subject P = filter (\<lambda>e. me_subject e = subject \<and> P e) (md_entries db)"

definition fts_hits ::
    "ext \<Rightarrow> memory_db \<Rightarrow> string \<Rightarrow> string \<Rightarrow> (entry_row \<Rightarrow> bool) \<Rightarrow> nat \<Rightarrow> entry_row list" where
  "fts_hits X db subject query P limit =
     (let hits = x_fts X query (map (\<lambda>f. (ft_id f, ft_key f, ft_text f)) (md_fts db));
          rows = concat (map (\<lambda>(i, rank). map (\<lambda>e. (rank, e))
                   (filter (\<lambda>e. me_id e = i) (subject_entries db subject P))) hits)
      in take limit (map snd (sort_key (\<lambda>(rank, e). (rank, - me_tick e, me_id e)) rows)))"

record candidate =
  c_entry :: wire
  c_required :: bool
  c_lane :: string

record candidates =
  ca_entries :: "candidate list"
  ca_total_deposits :: nat
  ca_candidate_limit :: nat

definition maintenance_entry :: "memory_db \<Rightarrow> string \<Rightarrow> int \<Rightarrow> string \<Rightarrow> wire res" where
  "maintenance_entry db subject at i =
     bindR (bindR (memory_get db subject i) (wire_at db subject at)) (\<lambda>entry.
     require (list_ex (\<lambda>e. me_subject e = subject \<and> me_id e = i \<and> me_current e) (md_entries db))
       ''stale maintenance task'' (
     require (n_type (w_note entry) = ''task'' \<and> n_status (w_note entry) = ''open'')
       ''maintenance source must be an open task'' (Inr entry)))"

definition open_task_rows :: "memory_db \<Rightarrow> string \<Rightarrow> entry_row list" where
  "open_task_rows db subject =
     sort_key (\<lambda>e. (me_tick e, me_id e)) (subject_entries db subject
       (\<lambda>e. current_filter db e \<and> n_type (de_note (me_body e)) = ''task'' \<and>
            n_status (de_note (me_body e)) = ''open''))"

definition mandatory_lane :: "memory_db \<Rightarrow> string \<Rightarrow> int \<Rightarrow> memory_policy \<Rightarrow> wire list res" where
  "mandatory_lane db subject at p =
     bindR (if protects_tasks p
            then bindR (mapR (\<lambda>e. wire_at db subject at (me_body e))
                         (take (mp_max_items p + 1) (open_task_rows db subject))) (\<lambda>ws.
                 raise_unless (length ws \<le> mp_max_items p)
                   (ContextOverflow ''memory pressure: too many open tasks'') (Inr ws))
            else Inr []) (\<lambda>tasks.
     bindR (if mp_strategy p = ''task_maintenance''
            then mapR (maintenance_entry db subject at) (mp_maintenance_ids p) else Inr []) (\<lambda>named.
     Inr (tasks @ named)))"

definition lane_filter :: "memory_db \<Rightarrow> memory_policy \<Rightarrow> entry_row \<Rightarrow> bool" where
  "lane_filter db p e \<longleftrightarrow> mp_history p \<or> current_filter db e"

definition lexical_lane :: "ext \<Rightarrow> memory_db \<Rightarrow> string \<Rightarrow> memory_policy \<Rightarrow> entry_row list" where
  "lexical_lane X db subject p =
     (let query = terms (mp_query p)
      in if query \<noteq> [] \<and> mp_strategy p \<noteq> ''recent'' \<and> mp_strategy p \<noteq> ''task_maintenance''
         then fts_hits X db subject query (lane_filter db p) (mp_candidate_limit p) else [])"

definition recent_rows :: "memory_db \<Rightarrow> string \<Rightarrow> memory_policy \<Rightarrow> nat \<Rightarrow> entry_row list" where
  "recent_rows db subject p limit =
     take limit (newest_first (subject_entries db subject
       (\<lambda>e. mp_history p \<or> (current_filter db e \<and> uncovered_filter db e))))"

definition scored_lane ::
    "memory_db \<Rightarrow> string \<Rightarrow> int \<Rightarrow> memory_policy \<Rightarrow> (wire \<Rightarrow> string \<Rightarrow> int) \<Rightarrow> wire list res" where
  "scored_lane db subject at p scorer =
     bindR (mapR (\<lambda>e. wire_at db subject at (me_body e))
              (recent_rows db subject p (mp_candidate_limit p * 4))) (\<lambda>ws.
     Inr (take (mp_candidate_limit p)
       (sort_key (\<lambda>w. - scorer w (mp_query p)) (filter (\<lambda>w. scorer w (mp_query p) > 0) ws))))"

definition semantic_lane ::
    "ext \<Rightarrow> memory_db \<Rightarrow> string \<Rightarrow> int \<Rightarrow> memory_policy \<Rightarrow> bool \<Rightarrow> wire list res" where
  "semantic_lane X db subject at p lex_empty =
     (if mp_strategy p = ''hybrid'' \<or> mp_strategy p = ''semantic'' \<or>
         (mp_strategy p = ''balanced'' \<and>
            (lex_empty \<or> mp_synonyms p \<noteq> [] \<or> mp_semantic_scorer p \<noteq> None))
      then bindR (case mp_semantic_scorer p of None \<Rightarrow> Inr [] | Some f \<Rightarrow> scored_lane db subject at p f) (\<lambda>scored.
           let exp_query = expanded_terms (mp_query p) (mp_synonyms p)
           in bindR (if exp_query \<noteq> []
                     then mapR (\<lambda>e. wire_at db subject at (me_body e))
                            (fts_hits X db subject exp_query (lane_filter db p) (mp_candidate_limit p))
                     else Inr []) (\<lambda>expanded. Inr (scored @ expanded)))
      else Inr [])"

definition procedure_rows :: "memory_db \<Rightarrow> string \<Rightarrow> memory_policy \<Rightarrow> entry_row list" where
  "procedure_rows db subject p =
     (if protects_tasks p
      then take (mp_candidate_limit p) (newest_first (subject_entries db subject
        (\<lambda>e. lane_filter db p e \<and> n_type (de_note (me_body e)) \<in> {''procedure'', ''prospective''})))
      else [])"

definition add_candidate :: "candidate list \<Rightarrow> candidate \<Rightarrow> candidate list" where
  "add_candidate all c = (if w_id (c_entry c) \<in> (w_id \<circ> c_entry) ` set all then all else all @ [c])"

definition lane_at :: "nat \<Rightarrow> wire list \<Rightarrow> string \<Rightarrow> candidate list" where
  "lane_at i xs lane =
     (if i < length xs then [\<lparr>c_entry = xs ! i, c_required = False, c_lane = lane\<rparr>] else [])"

definition interleave ::
    "string \<Rightarrow> wire list \<Rightarrow> wire list \<Rightarrow> wire list \<Rightarrow> wire list \<Rightarrow> candidate list" where
  "interleave strategy lexical sem proc recent =
     concat (map (\<lambda>i. if strategy = ''semantic''
        then lane_at i sem ''semantic'' @ lane_at i lexical ''lexical'' @ lane_at i proc ''procedure''
        else lane_at i lexical ''lexical'' @ lane_at i sem ''semantic'' @ lane_at i proc ''procedure'' @
             lane_at i recent ''recent'')
      [0..<Max {length lexical, length sem, length proc, length recent}])"

definition recent_lane :: "memory_db \<Rightarrow> string \<Rightarrow> int \<Rightarrow> memory_policy \<Rightarrow> wire list res" where
  "recent_lane db subject at p =
     (if mp_strategy p \<noteq> ''lexical'' \<and> mp_strategy p \<noteq> ''semantic'' \<and> mp_strategy p \<noteq> ''task_maintenance''
      then mapR (\<lambda>e. wire_at db subject at (me_body e)) (recent_rows db subject p (mp_candidate_limit p))
      else Inr [])"

definition assemble ::
    "memory_db \<Rightarrow> string \<Rightarrow> memory_policy \<Rightarrow> wire list \<Rightarrow> wire list \<Rightarrow> wire list \<Rightarrow> wire list \<Rightarrow>
     wire list \<Rightarrow> candidates" where
  "assemble db subject p mandatory lexical sem proc recent =
     \<lparr>ca_entries = foldl add_candidate []
        (map (\<lambda>x. \<lparr>c_entry = x, c_required = True, c_lane = ''open_task''\<rparr>) mandatory @
         interleave (mp_strategy p) lexical sem proc recent),
      ca_total_deposits = length (subject_entries db subject (\<lambda>e. True)),
      ca_candidate_limit = mp_candidate_limit p\<rparr>"

definition memory_candidates ::
    "ext \<Rightarrow> memory_db \<Rightarrow> int option \<Rightarrow> string \<Rightarrow> memory_policy \<Rightarrow> candidates res" where
  "memory_candidates X db head_tick subject p =
     bindR (policy_ok p) (\<lambda>_.
     case head_tick of None \<Rightarrow> Inl (Error ''subject missing'')
     | Some at \<Rightarrow>
     bindR (mandatory_lane db subject at p) (\<lambda>mandatory.
     bindR (mapR (\<lambda>e. wire_at db subject at (me_body e)) (lexical_lane X db subject p)) (\<lambda>lexical.
     bindR (semantic_lane X db subject at p (lexical = [])) (\<lambda>sem.
     bindR (mapR (\<lambda>e. wire_at db subject at (me_body e)) (procedure_rows db subject p)) (\<lambda>proc.
     bindR (recent_lane db subject at p) (\<lambda>recent.
     Inr (assemble db subject p mandatory lexical sem proc recent)))))))"

section \<open>Projection\<close>

fun substring :: "string \<Rightarrow> string \<Rightarrow> bool" where
  "substring k [] = (k = [])"
| "substring k (c # cs) = (take (length k) (c # cs) = k \<or> substring k cs)"

type_synonym fits = "(present \<Rightarrow> bool) option"

definition with_memory :: "present \<Rightarrow> jobject \<Rightarrow> memory_view \<Rightarrow> present" where
  "with_memory p working view = p\<lparr>pr_working_memory := Some working, pr_memory_view := Some view\<rparr>"

definition projection_bytes :: "ext \<Rightarrow> jobject \<Rightarrow> memory_view \<Rightarrow> nat" where
  "projection_bytes X working view = length (x_dump X (context_json (working, view)))"

definition projection_valid :: "ext \<Rightarrow> memory_policy \<Rightarrow> fits \<Rightarrow> present \<Rightarrow> jobject \<times> memory_view \<Rightarrow> bool" where
  "projection_valid X policy fits p s \<longleftrightarrow>
     length (fst s) + length (mv_items (snd s)) \<le> mp_max_items policy \<and>
     projection_bytes X (fst s) (snd s) \<le> mp_max_bytes policy \<and>
     (case fits of None \<Rightarrow> True | Some f \<Rightarrow> f (with_memory p (fst s) (snd s)))"

definition push_item :: "wire \<Rightarrow> jobject \<times> memory_view \<Rightarrow> jobject \<times> memory_view" where
  "push_item w s = (fst s, (snd s)\<lparr>mv_items := mv_items (snd s) @ [w]\<rparr>)"

definition push_key :: "string \<Rightarrow> json \<Rightarrow> jobject \<times> memory_view \<Rightarrow> jobject \<times> memory_view" where
  "push_key k v s = (obj_put k v (fst s), snd s)"

fun push_required ::
    "(jobject \<times> memory_view \<Rightarrow> bool) \<Rightarrow> jobject \<times> memory_view \<Rightarrow> candidate list \<Rightarrow> (jobject \<times> memory_view) res" where
  "push_required valid s [] = Inr s"
| "push_required valid s (c # cs) =
     (if c_required c then
        raise_unless (valid (push_item (c_entry c) s))
          (ContextOverflow ''memory pressure: open tasks exceed context budget'')
          (push_required valid (push_item (c_entry c) s) cs)
      else push_required valid s cs)"

text \<open>Append, and take back what does not fit.\<close>

definition try_push ::
    "(jobject \<times> memory_view \<Rightarrow> bool) \<Rightarrow> (jobject \<times> memory_view \<Rightarrow> jobject \<times> memory_view)
     \<Rightarrow> jobject \<times> memory_view \<Rightarrow> jobject \<times> memory_view" where
  "try_push valid push s = (if valid (push s) then push s else s)"

definition key_score :: "ext \<Rightarrow> memory_policy \<Rightarrow> jobject \<Rightarrow> string \<Rightarrow> bool" where
  "key_score X policy legacy k \<longleftrightarrow> mp_query policy \<noteq> [] \<and>
     (substring k (mp_query policy) \<or>
      (case map_of legacy k of None \<Rightarrow> False | Some v \<Rightarrow> substring (mp_query policy) (x_dump X v)))"

definition fill_step ::
    "(jobject \<times> memory_view \<Rightarrow> bool) \<Rightarrow> candidate list \<Rightarrow> (string \<times> json) list \<Rightarrow>
     jobject \<times> memory_view \<Rightarrow> nat \<Rightarrow> jobject \<times> memory_view" where
  "fill_step valid entries kvs s i =
     (let s1 = (if i < length entries \<and> \<not> c_required (entries ! i)
                then try_push valid (push_item (c_entry (entries ! i))) s else s)
      in if i < length kvs then try_push valid (push_key (fst (kvs ! i)) (snd (kvs ! i))) s1 else s1)"

definition initial_view :: "snapshot \<Rightarrow> candidates \<Rightarrow> memory_policy \<Rightarrow> memory_view" where
  "initial_view state ca policy =
     \<lparr>mv_head = sn_head state, mv_strategy = mp_strategy policy, mv_query = mp_query policy,
      mv_max_bytes = mp_max_bytes policy, mv_max_items = mp_max_items policy,
      mv_candidate_limit = mp_candidate_limit policy, mv_history = mp_history policy,
      mv_total_deposits = ca_total_deposits ca, mv_legacy_keys = length (sn_memory state),
      mv_candidates = length (ca_entries ca), mv_items = [],
      mv_maintenance_ids = (if mp_strategy policy = ''task_maintenance''
                            then Some (mp_maintenance_ids policy) else None)\<rparr>"

definition project_memory ::
    "ext \<Rightarrow> present \<Rightarrow> candidates \<Rightarrow> memory_policy \<Rightarrow> fits \<Rightarrow> present res" where
  "project_memory X p ca policy fits =
     bindR (policy_ok policy) (\<lambda>_.
     let legacy = sn_memory (pr_state p);
         valid = projection_valid X policy fits p;
         s0 = ([], initial_view (pr_state p) ca policy);
         kvs = sort_key (\<lambda>kv. if key_score X policy legacy (fst kv) then 0 else (1::nat)) legacy;
         entries = ca_entries ca
     in raise_unless (valid s0) (ContextOverflow ''memory pressure: fixed context exceeds budget'') (
        bindR (push_required valid s0 entries) (\<lambda>s1.
        let s2 = foldl (fill_step valid entries kvs) s1 [0..<max (length kvs) (length entries)]
        in Inr (with_memory p (fst s2) (snd s2)))))"

section \<open>Greedy filling\<close>

text \<open>A loop that keeps a step only where the result is still valid: what is valid stays
  valid, and what was taken is never dropped.\<close>

locale guarded_fill =
  fixes ok :: "'s \<Rightarrow> bool"
    and step :: "'s \<Rightarrow> 'a \<Rightarrow> 's"
    and below :: "'s \<Rightarrow> 's \<Rightarrow> bool"
  assumes below_refl: "below s s"
    and below_trans: "below s t \<Longrightarrow> below t u \<Longrightarrow> below s u"
    and step_ok: "ok s \<Longrightarrow> ok (step s x)"
    and step_below: "below s (step s x)"
begin

lemma fill_ok: "ok s \<Longrightarrow> ok (foldl step s xs)"
  by (induction xs arbitrary: s) (simp_all add: step_ok)

lemma fill_below: "below s (foldl step s xs)"
proof (induction xs arbitrary: s)
  case (Cons x xs)
  from below_trans [OF step_below Cons] show ?case by simp
qed (simp add: below_refl)

end

text \<open>A projection under construction: its own budget test, only offered items, only the
  subject's own keys.\<close>

definition projection_inv ::
    "(jobject \<times> memory_view \<Rightarrow> bool) \<Rightarrow> candidate list \<Rightarrow> jobject \<Rightarrow> memory_view \<Rightarrow> jobject \<times> memory_view \<Rightarrow> bool" where
  "projection_inv valid entries legacy v0 s \<longleftrightarrow>
     valid s \<and> set (mv_items (snd s)) \<subseteq> c_entry ` set entries \<and> set (fst s) \<subseteq> set legacy \<and>
     obj_sorted (fst s) \<and> snd s = v0\<lparr>mv_items := mv_items (snd s)\<rparr>"

definition keeps_items :: "jobject \<times> memory_view \<Rightarrow> jobject \<times> memory_view \<Rightarrow> bool" where
  "keeps_items s t \<longleftrightarrow> set (mv_items (snd s)) \<subseteq> set (mv_items (snd t))"

lemma set_obj_put: "set (obj_put k v kvs) \<subseteq> insert (k, v) (set kvs)"
  by (induction k v kvs rule: obj_put.induct) auto

lemma push_item_inv:
  assumes "projection_inv valid entries legacy v0 s" and "valid (push_item w s)" and "w \<in> c_entry ` set entries"
  shows "projection_inv valid entries legacy v0 (push_item w s)"
proof -
  from assms(1) have eq: "snd s = v0\<lparr>mv_items := mv_items (snd s)\<rparr>" by (simp add: projection_inv_def)
  have "(snd s)\<lparr>mv_items := mv_items (snd s) @ [w]\<rparr> = v0\<lparr>mv_items := mv_items (snd s) @ [w]\<rparr>"
    by (subst eq) simp
  with assms show ?thesis by (auto simp: projection_inv_def push_item_def)
qed

lemma push_key_inv:
  assumes "projection_inv valid entries legacy v0 s" and "valid (push_key k v s)" and "(k, v) \<in> set legacy"
  shows "projection_inv valid entries legacy v0 (push_key k v s)"
  using assms set_obj_put [of k v "fst s"]
  by (auto simp: projection_inv_def push_key_def obj_sorted_put)

lemma fill_step_inv:
  assumes "projection_inv valid entries legacy v0 s" and "set kvs \<subseteq> set legacy"
  shows "projection_inv valid entries legacy v0 (fill_step valid entries kvs s i)"
proof -
  have item: "projection_inv valid entries legacy v0 (try_push valid (push_item w) s)"
    if "w \<in> c_entry ` set entries" for w
    using push_item_inv [OF assms(1) _ that] assms(1) by (simp add: try_push_def)
  have key: "projection_inv valid entries legacy v0 (try_push valid (push_key (fst (kvs ! i)) (snd (kvs ! i))) t)"
    if "projection_inv valid entries legacy v0 t" "i < length kvs" for t
    using push_key_inv [OF that(1), of "fst (kvs ! i)" "snd (kvs ! i)"] that(1) assms(2) nth_mem [OF that(2)]
    by (auto simp: try_push_def)
  show ?thesis
    using assms(1) by (auto simp: fill_step_def Let_def intro!: item key)
qed

lemma fill_step_keeps: "keeps_items s (fill_step valid entries kvs s i)"
  by (auto simp: fill_step_def Let_def try_push_def push_item_def push_key_def keeps_items_def)

interpretation filling:
  guarded_fill "\<lambda>s. set kvs \<subseteq> set legacy \<and> projection_inv valid entries legacy v0 s"
    "fill_step valid entries kvs" keeps_items
  for kvs legacy valid entries v0
  by unfold_locales (auto simp: keeps_items_def fill_step_inv dest: subsetD [OF fill_step_keeps [unfolded keeps_items_def]])

lemma push_required_inv:
  assumes "push_required valid s cs = Inr s'" and "set cs \<subseteq> set entries"
    and "projection_inv valid entries legacy v0 s"
  shows "projection_inv valid entries legacy v0 s' \<and> keeps_items s s' \<and>
    (\<forall>c \<in> set cs. c_required c \<longrightarrow> c_entry c \<in> set (mv_items (snd s')))"
  using assms
proof (induction cs arbitrary: s)
  case (Cons c cs)
  show ?case
  proof (cases "c_required c")
    case True
    with Cons.prems have v: "valid (push_item (c_entry c) s)"
      and rest: "push_required valid (push_item (c_entry c) s) cs = Inr s'"
      by (simp_all add: res_simps)
    have "projection_inv valid entries legacy v0 (push_item (c_entry c) s)"
      using Cons.prems by (intro push_item_inv v) auto
    from Cons.IH [OF rest _ this] Cons.prems(2) show ?thesis
      by (auto simp: keeps_items_def push_item_def)
  next
    case False
    with Cons show ?thesis by simp
  qed
qed (simp add: keeps_items_def)

text \<open>Everything a successful projection is, in one rule.\<close>

lemma project_memory_Inr:
  assumes "project_memory X p ca policy fits = Inr p'"
  obtains working view where "p' = with_memory p working view"
    and "projection_inv (projection_valid X policy fits p) (ca_entries ca) (sn_memory (pr_state p))
           (initial_view (pr_state p) ca policy) (working, view)"
    and "\<forall>c \<in> set (ca_entries ca). c_required c \<longrightarrow> c_entry c \<in> set (mv_items view)"
proof -
  let ?legacy = "sn_memory (pr_state p)" and ?valid = "projection_valid X policy fits p"
  let ?v0 = "initial_view (pr_state p) ca policy"
  let ?kvs = "sort_key (\<lambda>kv. if key_score X policy ?legacy (fst kv) then 0 else (1::nat)) ?legacy"
  let ?inv = "projection_inv ?valid (ca_entries ca) ?legacy ?v0"
  from assms obtain s1 where v: "?valid ([], ?v0)"
    and s1: "push_required ?valid ([], ?v0) (ca_entries ca) = Inr s1"
    and p': "p' = with_memory p
        (fst (foldl (fill_step ?valid (ca_entries ca) ?kvs) s1 [0..<max (length ?kvs) (length (ca_entries ca))]))
        (snd (foldl (fill_step ?valid (ca_entries ca) ?kvs) s1 [0..<max (length ?kvs) (length (ca_entries ca))]))"
    by (auto simp: project_memory_def Let_def res_simps)
  have "?inv ([], ?v0)" using v by (simp add: projection_inv_def initial_view_def)
  from push_required_inv [OF s1 subset_refl this] have i1: "?inv s1"
    and req: "\<forall>c \<in> set (ca_entries ca). c_required c \<longrightarrow> c_entry c \<in> set (mv_items (snd s1))"
    by simp_all
  define s2 where "s2 = foldl (fill_step ?valid (ca_entries ca) ?kvs) s1 [0..<max (length ?kvs) (length (ca_entries ca))]"
  have "?inv s2" unfolding s2_def
    using filling.fill_ok [where kvs = ?kvs and legacy = ?legacy and valid = ?valid] i1 by simp
  moreover have "keeps_items s1 s2" unfolding s2_def by (rule filling.fill_below)
  moreover have "p' = with_memory p (fst s2) (snd s2)" unfolding s2_def by (rule p')
  ultimately show thesis
    using that [of "fst s2" "snd s2"] req by (auto simp: keeps_items_def)
qed

section \<open>What is offered\<close>

definition candidate_ids :: "candidate list \<Rightarrow> string list" where
  "candidate_ids cs = map (\<lambda>c. w_id (c_entry c)) cs"

lemma add_candidate_step:
  assumes "distinct (candidate_ids acc)"
  shows "distinct (candidate_ids (add_candidate acc c))"
    and "set (candidate_ids (add_candidate acc c)) = insert (w_id (c_entry c)) (set (candidate_ids acc))"
    and "set acc \<subseteq> set (add_candidate acc c)" and "set (add_candidate acc c) \<subseteq> insert c (set acc)"
  using assms by (auto simp: add_candidate_def candidate_ids_def image_iff)

lemma add_candidates:
  assumes "distinct (candidate_ids acc)"
  shows "distinct (candidate_ids (foldl add_candidate acc cs)) \<and>
    set (candidate_ids (foldl add_candidate acc cs)) = set (candidate_ids acc) \<union> set (candidate_ids cs) \<and>
    set acc \<subseteq> set (foldl add_candidate acc cs) \<and>
    set (foldl add_candidate acc cs) \<subseteq> set acc \<union> set cs"
  using assms
proof (induction cs arbitrary: acc)
  case (Cons c cs)
  note step = add_candidate_step [OF Cons.prems, of c]
  have ids: "set (candidate_ids (c # cs)) = insert (w_id (c_entry c)) (set (candidate_ids cs))"
    by (simp add: candidate_ids_def)
  from Cons.IH [OF step(1)] step show ?case unfolding ids foldl_Cons list.set by blast
qed (simp add: candidate_ids_def)

definition genuine :: "memory_db \<Rightarrow> string \<Rightarrow> int \<Rightarrow> wire \<Rightarrow> bool" where
  "genuine db subject at w \<longleftrightarrow> (\<exists>e \<in> set (md_entries db). me_subject e = subject \<and>
     wire_at db subject at (me_body e) = Inr w)"

lemma wire_at_Inr: "wire_at db s at b = Inr w \<Longrightarrow> w_id w = de_id b \<and> w_note w = de_note b"
  by (auto simp: wire_at_def res_simps)

lemma mapR_wire_genuine:
  assumes "mapR (\<lambda>e. wire_at db s at (me_body e)) es = Inr ws" and "set es \<subseteq> set (subject_entries db s P)"
  shows "\<forall>w \<in> set ws. genuine db s at w"
  using mapR_mem [OF assms(1)] assms(2) by (fastforce simp: genuine_def subject_entries_def)

lemma subject_entries_mono: "set (subject_entries db s P) \<subseteq> set (subject_entries db s (\<lambda>e. True))"
  by (auto simp: subject_entries_def)

lemma fts_hits_subject: "set (fts_hits X db s q P n) \<subseteq> set (subject_entries db s (\<lambda>e. True))"
  by (auto simp: fts_hits_def Let_def subject_entries_def dest!: in_set_takeD)

lemma recent_rows_subject: "set (recent_rows db s p n) \<subseteq> set (subject_entries db s (\<lambda>e. True))"
  by (auto simp: recent_rows_def newest_first_def subject_entries_def dest!: in_set_takeD)

lemma procedure_rows_subject: "set (procedure_rows db s p) \<subseteq> set (subject_entries db s (\<lambda>e. True))"
  by (auto simp: procedure_rows_def newest_first_def subject_entries_def dest!: in_set_takeD)

lemma lexical_lane_subject: "set (lexical_lane X db s p) \<subseteq> set (subject_entries db s (\<lambda>e. True))"
  by (auto simp: lexical_lane_def Let_def dest: subsetD [OF fts_hits_subject])

lemma open_rows_subject: "set (take n (open_task_rows db s)) \<subseteq> set (subject_entries db s (\<lambda>e. True))"
  by (auto simp: open_task_rows_def subject_entries_def dest!: in_set_takeD)

lemmas rows_subject = fts_hits_subject recent_rows_subject procedure_rows_subject lexical_lane_subject
  open_rows_subject

lemma maintenance_genuine: "maintenance_entry db s at i = Inr w \<Longrightarrow> genuine db s at w"
  by (auto simp: maintenance_entry_def res_simps genuine_def dest!: memory_get_Inr)

lemma mandatory_genuine:
  assumes "mandatory_lane db s at p = Inr ws"
  shows "\<forall>w \<in> set ws. genuine db s at w"
proof -
  from assms obtain tasks named where ws: "ws = tasks @ named"
    and tasks: "tasks = [] \<or> mapR (\<lambda>e. wire_at db s at (me_body e))
        (take (mp_max_items p + 1) (open_task_rows db s)) = Inr tasks"
    and named: "named = [] \<or> mapR (maintenance_entry db s at) (mp_maintenance_ids p) = Inr named"
    by (auto simp: mandatory_lane_def res_simps split: if_splits)
  have "\<forall>w \<in> set tasks. genuine db s at w"
    using tasks mapR_wire_genuine [OF _ open_rows_subject] by auto
  moreover have "\<forall>w \<in> set named. genuine db s at w"
    using named mapR_mem maintenance_genuine by fastforce
  ultimately show ?thesis by (auto simp: ws)
qed

lemma scored_genuine:
  assumes "scored_lane db s at p f = Inr ws"
  shows "\<forall>w \<in> set ws. genuine db s at w"
  using assms mapR_wire_genuine [OF _ recent_rows_subject]
  by (fastforce simp: scored_lane_def res_simps dest: in_set_takeD)

lemma semantic_genuine:
  assumes "semantic_lane X db s at p b = Inr ws"
  shows "\<forall>w \<in> set ws. genuine db s at w"
proof (cases "ws = []")
  case False
  with assms obtain scored expanded where ws: "ws = scored @ expanded"
    and "scored = [] \<or> (\<exists>f. scored_lane db s at p f = Inr scored)"
    and "expanded = [] \<or> mapR (\<lambda>e. wire_at db s at (me_body e)) (fts_hits X db s
        (expanded_terms (mp_query p) (mp_synonyms p)) (lane_filter db p) (mp_candidate_limit p)) = Inr expanded"
    by (auto simp: semantic_lane_def res_simps Let_def split: if_splits option.splits)
  then show ?thesis
    using scored_genuine mapR_wire_genuine [OF _ fts_hits_subject] by fastforce
qed simp

lemma recent_genuine: "recent_lane db s at p = Inr ws \<Longrightarrow> \<forall>w \<in> set ws. genuine db s at w"
  using mapR_wire_genuine [OF _ recent_rows_subject] by (auto simp: recent_lane_def split: if_splits)

lemma interleave_entries:
  "c_entry ` set (interleave strategy a b c d) \<subseteq> set a \<union> set b \<union> set c \<union> set d"
  by (auto simp: interleave_def lane_at_def split: if_splits)

lemma memory_candidates_Inr:
  assumes "memory_candidates X db (Some at) s p = Inr ca"
  obtains mandatory where "mandatory_lane db s at p = Inr mandatory"
    and "\<forall>w \<in> set mandatory. w_id w \<in> set (candidate_ids (filter c_required (ca_entries ca)))"
    and "\<forall>c \<in> set (ca_entries ca). genuine db s at (c_entry c)"
    and "distinct (candidate_ids (ca_entries ca))"
proof -
  from assms obtain mandatory lexical sem proc recent where
    m: "mandatory_lane db s at p = Inr mandatory"
    and l: "mapR (\<lambda>e. wire_at db s at (me_body e)) (lexical_lane X db s p) = Inr lexical"
    and sm: "semantic_lane X db s at p (lexical = []) = Inr sem"
    and pr: "mapR (\<lambda>e. wire_at db s at (me_body e)) (procedure_rows db s p) = Inr proc"
    and r: "recent_lane db s at p = Inr recent"
    and ca: "ca_entries ca = foldl add_candidate []
            (map (\<lambda>x. \<lparr>c_entry = x, c_required = True, c_lane = ''open_task''\<rparr>) mandatory @
             interleave (mp_strategy p) lexical sem proc recent)"
    by (auto simp: memory_candidates_def res_simps assemble_def)
  define req where "req = map (\<lambda>x. \<lparr>c_entry = x, c_required = True, c_lane = ''open_task''\<rparr>) mandatory"
  define rest where "rest = interleave (mp_strategy p) lexical sem proc recent"
  define first where "first = foldl add_candidate [] req"
  have f: "distinct (candidate_ids first)" "set (candidate_ids first) = set (candidate_ids req)" "set first \<subseteq> set req"
    using add_candidates [of "[]" req] by (simp_all add: first_def candidate_ids_def)
  have ca': "ca_entries ca = foldl add_candidate first rest"
    by (simp add: ca first_def req_def rest_def)
  note all = add_candidates [OF f(1), of rest, folded ca']
  have "\<forall>w \<in> set mandatory. w_id w \<in> set (candidate_ids (filter c_required (ca_entries ca)))"
  proof
    fix w assume "w \<in> set mandatory"
    then have "w_id w \<in> set (candidate_ids req)" by (force simp: candidate_ids_def req_def)
    with f(2) obtain c where "c \<in> set first" "w_id (c_entry c) = w_id w"
      by (force simp: candidate_ids_def)
    moreover from this f(3) have "c_required c" by (auto simp: req_def)
    moreover have "set first \<subseteq> set (ca_entries ca)" using all by blast
    ultimately show "w_id w \<in> set (candidate_ids (filter c_required (ca_entries ca)))"
      by (auto simp: candidate_ids_def intro!: image_eqI [of _ _ c])
  qed
  moreover have "\<forall>c \<in> set (ca_entries ca). genuine db s at (c_entry c)"
  proof
    fix c assume "c \<in> set (ca_entries ca)"
    with all f(3) have "c \<in> set req \<union> set rest" by blast
    then have "c_entry c \<in> set mandatory \<union> set lexical \<union> set sem \<union> set proc \<union> set recent"
      using interleave_entries [of "mp_strategy p" lexical sem proc recent] by (auto simp: req_def rest_def)
    then show "genuine db s at (c_entry c)"
      using mandatory_genuine [OF m] semantic_genuine [OF sm] recent_genuine [OF r]
        mapR_wire_genuine [OF l lexical_lane_subject] mapR_wire_genuine [OF pr procedure_rows_subject] by fastforce
  qed
  ultimately show thesis using that m all by blast
qed

section \<open>Capacity of a committed state\<close>

definition no_budget :: budget where
  "no_budget = \<lparr>bg_used = 0, bg_limit = 0, bg_period_ms = 0, bg_through_seq = 0, bg_floor_at = 0,
     bg_quota_at = 0, bg_eligible_at = 0\<rparr>"

definition no_temporal :: temporal where
  "no_temporal = \<lparr>te_clock = JNull, te_coordinate = 0,
     te_admission = \<lparr>sc_status = [], sc_eligible_at = None, sc_occasion = None,
       sc_wall_observed_at = 0, sc_accounting_at = 0, sc_wall_rollback_ms = 0, sc_budget = no_budget,
       sc_head = [], sc_tick = 0, sc_wake_at = None\<rparr>,
     te_previous_wake = No_Previous, te_wake_lateness_ms = None\<rparr>"

definition memory_capacity :: "ext \<Rightarrow> memory_db \<Rightarrow> int option \<Rightarrow> snapshot \<Rightarrow> admission \<Rightarrow> unit res" where
  "memory_capacity X db head_tick snap a =
     (case ad_capacity a of None \<Rightarrow> Inr ()
      | Some (max_items, max_bytes) \<Rightarrow>
          let policy = default_policy\<lparr>mp_max_items := max_items, mp_max_bytes := max_bytes,
                mp_candidate_limit := max (mp_candidate_limit default_policy) max_items\<rparr>;
              present = \<lparr>pr_state = snap,
                pr_occasion = \<lparr>o_id = [], o_kind = ''external'', o_payload = JObj []\<rparr>,
                pr_prior_unsettled = False, pr_temporal = no_temporal, pr_working_memory = None,
                pr_memory_view = None, pr_inputs = JArr []\<rparr>
          in bindR (memory_candidates X db head_tick (sn_subject snap) policy) (\<lambda>ca.
             bindR (project_memory X present ca policy None) (\<lambda>_. Inr ())))"


section \<open>What the executor is shown\<close>

lemma projection_inv_budget:
  assumes "projection_inv (projection_valid X policy fits p) entries legacy v0 (working, view)"
  shows "length working + length (mv_items view) \<le> mp_max_items policy"
    and "length (x_dump X (context_json (working, view))) \<le> mp_max_bytes policy"
    and "fits = Some f \<Longrightarrow> f (with_memory p working view)"
    and "set working \<subseteq> set legacy" and "obj_sorted working"
    and "set (mv_items view) \<subseteq> c_entry ` set entries"
    and "view = v0\<lparr>mv_items := mv_items view\<rparr>"
  using assms by (simp_all add: projection_inv_def projection_valid_def projection_bytes_def)

text \<open>
  C18. A projection is within every budget at once: the working state and the deposits it
  shows are together at most \<open>max_items\<close>, their serialised form is at most \<open>max_bytes\<close>
  bytes, the backend's own capacity test accepts the result, the working state shown is a
  part of the subject's, and the rest of the present is untouched.
\<close>

theorem projection_within_budget:
  assumes "project_memory X p ca policy fits = Inr p'"
  shows "\<exists>working view. p' = p\<lparr>pr_working_memory := Some working, pr_memory_view := Some view\<rparr> \<and>
    length working + length (mv_items view) \<le> mp_max_items policy \<and>
    length (x_dump X (context_json (working, view))) \<le> mp_max_bytes policy \<and>
    (\<forall>f. fits = Some f \<longrightarrow> f p') \<and> set working \<subseteq> set (sn_memory (pr_state p)) \<and>
    mv_head view = sn_head (pr_state p)"
proof -
  from project_memory_Inr [OF assms] obtain working view where p': "p' = with_memory p working view"
    and inv: "projection_inv (projection_valid X policy fits p) (ca_entries ca) (sn_memory (pr_state p))
           (initial_view (pr_state p) ca policy) (working, view)" by blast
  note b = projection_inv_budget [OF inv]
  have "mv_head view = sn_head (pr_state p)" by (subst b(7)) (simp add: initial_view_def)
  with b p' show ?thesis by (intro exI [of _ working] exI [of _ view]) (auto simp: with_memory_def)
qed

definition is_open_task :: "entry_row \<Rightarrow> bool" where
  "is_open_task e \<longleftrightarrow> n_type (de_note (me_body e)) = ''task'' \<and> n_status (de_note (me_body e)) = ''open''"

lemma open_task_mandatory:
  assumes "mandatory_lane db s at p = Inr ws" and "protects_tasks p"
    and "e \<in> set (md_entries db)" and "me_subject e = s" and "me_current e" and "is_open_task e"
  shows "\<exists>w \<in> set ws. wire_at db s at (me_body e) = Inr w"
proof -
  from assms(1,2) obtain tasks where
    tasks: "mapR (\<lambda>e. wire_at db s at (me_body e)) (take (mp_max_items p + 1) (open_task_rows db s)) = Inr tasks"
    and len: "length tasks \<le> mp_max_items p" and sub: "set tasks \<subseteq> set ws"
    by (auto simp: mandatory_lane_def res_simps)
  have "length tasks = length (take (mp_max_items p + 1) (open_task_rows db s))"
    by (rule mapR_length [OF tasks])
  with len have "take (mp_max_items p + 1) (open_task_rows db s) = open_task_rows db s" by simp
  moreover have "e \<in> set (open_task_rows db s)"
    using assms(3-6) by (simp add: open_task_rows_def subject_entries_def current_filter_def is_open_task_def)
  ultimately show ?thesis using mapR_mem_ex [OF tasks] sub by fastforce
qed

text \<open>
  C19. No open obligation is hidden: under the \<open>balanced\<close>, \<open>hybrid\<close> and \<open>semantic\<close>
  strategies, if candidates are collected and projected at all (otherwise a
  \<open>ContextOverflow\<close> is raised), every current open task of the subject is among the items
  the executor sees.
\<close>

theorem open_tasks_visible:
  assumes "memory_inv db" and "memory_candidates X db (Some at) s policy = Inr ca"
    and "project_memory X p ca policy fits = Inr p'" and "protects_tasks policy"
    and "e \<in> set (md_entries db)" and "me_subject e = s" and "me_current e" and "is_open_task e"
  shows "\<exists>view. pr_memory_view p' = Some view \<and> me_id e \<in> w_id ` set (mv_items view)"
proof -
  obtain mandatory where m: "mandatory_lane db s at policy = Inr mandatory"
    and req: "\<forall>w \<in> set mandatory. w_id w \<in> set (candidate_ids (filter c_required (ca_entries ca)))"
    and "\<forall>c \<in> set (ca_entries ca). genuine db s at (c_entry c)"
    and "distinct (candidate_ids (ca_entries ca))"
    by (rule memory_candidates_Inr [OF assms(2)])
  from open_task_mandatory [OF m assms(4-8)] obtain w where "w \<in> set mandatory"
    and w: "wire_at db s at (me_body e) = Inr w" by blast
  with req obtain c where c: "c \<in> set (ca_entries ca)" "c_required c" "w_id (c_entry c) = w_id w"
    by (auto simp: candidate_ids_def)
  from project_memory_Inr [OF assms(3)] obtain working view where p': "p' = with_memory p working view"
    and items: "\<forall>c \<in> set (ca_entries ca). c_required c \<longrightarrow> c_entry c \<in> set (mv_items view)" by blast
  have "w_id w = me_id e"
    using wire_at_Inr [OF w] assms(1,5) by (simp add: memory_inv_def row_ok_def)
  with items c have "me_id e \<in> w_id ` set (mv_items view)" by (intro image_eqI [of _ _ "c_entry c"]) auto
  with p' show ?thesis by (simp add: with_memory_def)
qed

text \<open>
  What is shown is genuine: every item of a projected view is exactly what \<open>wire_at\<close>
  computes, at the subject's tick, for a deposit of that same subject in the index. The
  ranking lanes, the full-text index and the semantic scorer only choose among them.
\<close>

lemma view_items_genuine:
  assumes "memory_candidates X db (Some at) s policy = Inr ca"
    and "project_memory X p ca policy fits = Inr p'" and "pr_memory_view p' = Some view"
    and "w \<in> set (mv_items view)"
  shows "\<exists>e \<in> set (md_entries db). me_subject e = s \<and> wire_at db s at (me_body e) = Inr w"
proof -
  from memory_candidates_Inr [OF assms(1)] have
    gen: "\<forall>c \<in> set (ca_entries ca). genuine db s at (c_entry c)" by blast
  from project_memory_Inr [OF assms(2)] obtain working v where "p' = with_memory p working v"
    and "projection_inv (projection_valid X policy fits p) (ca_entries ca) (sn_memory (pr_state p))
           (initial_view (pr_state p) ca policy) (working, v)" by blast
  with assms(3,4) projection_inv_budget(6) have "w \<in> c_entry ` set (ca_entries ca)"
    by (fastforce simp: with_memory_def)
  with gen show ?thesis by (auto simp: genuine_def)
qed

section \<open>The hypotheses can hold\<close>

definition sample_wire :: wire where
  "sample_wire = \<lparr>w_note = sample_task ''open'', w_id = sample_id 1, w_commit = ''c'', w_tick = 1,
     w_current = True, w_summary_stale = False\<rparr>"

definition sample_candidates :: candidates where
  "sample_candidates = \<lparr>ca_entries = [\<lparr>c_entry = sample_wire, c_required = True, c_lane = ''open_task''\<rparr>],
     ca_total_deposits = 1, ca_candidate_limit = 64\<rparr>"

lemma sample_wire_at: "wire_at sample_memory ''s'' 1 (me_body (sample_entry 1 [] ''open'' True)) = Inr sample_wire"
  by (simp add: wire_at_def sample_memory_def sample_entry_def sample_task_def sample_wire_def
      current_at_def latest_version_def Let_def)

lemma sample_candidates_ok: "memory_candidates sample_ext sample_memory (Some 1) ''s'' default_policy = Inr sample_candidates"
proof -
  define E where "E = sample_entry 1 [] ''open'' True"
  have md: "md_entries sample_memory = [E]" by (simp add: sample_memory_def E_def)
  have e: "me_subject E = ''s''" "me_current E"
    "de_note (me_body E) = sample_task ''open''"
    "me_id E = sample_id 1"
    by (simp_all add: E_def sample_entry_def)
  have t: "n_type (sample_task ''open'') = ''task''" "n_status (sample_task ''open'') = ''open''"
    by (simp_all add: sample_task_def)
  note wire = sample_wire_at [folded E_def]
  have links: "md_links sample_memory = []" by (simp add: sample_memory_def)
  have cur: "current_filter sample_memory E"
     "uncovered_filter sample_memory E"
    by (simp_all add: current_filter_def uncovered_filter_def links e t)
  have m: "mandatory_lane sample_memory ''s'' 1 default_policy = Inr [sample_wire]"
    by (simp add: mandatory_lane_def protects_tasks_def open_task_rows_def subject_entries_def md e t cur
       wire default_policy_def)
  have l: "lexical_lane sample_ext sample_memory ''s'' default_policy = []"
    by (simp add: lexical_lane_def Let_def default_policy_def) code_simp
  have x: "expanded_terms [] [] = []" by code_simp
  have sm: "semantic_lane sample_ext sample_memory ''s'' 1 default_policy True = Inr []"
    by (simp add: semantic_lane_def Let_def default_policy_def x)
  have pr: "procedure_rows sample_memory ''s'' default_policy = []"
    by (simp add: procedure_rows_def protects_tasks_def default_policy_def newest_first_def subject_entries_def md e t)
  have r: "recent_lane sample_memory ''s'' 1 default_policy = Inr [sample_wire]"
    by (simp add: recent_lane_def recent_rows_def newest_first_def subject_entries_def md e t cur wire default_policy_def)
  have p: "policy_ok default_policy = Inr ()" by (simp add: policy_ok_def default_policy_def)
  have en: "subject_entries sample_memory ''s'' (\<lambda>e. True) = [E]"
    by (simp add: subject_entries_def md e)
  show ?thesis
    by (simp add: memory_candidates_def p m l sm pr r assemble_def en sample_candidates_def interleave_def lane_at_def add_candidate_def)
      (simp add: default_policy_def)
qed

definition sample_present :: present where
  "sample_present = \<lparr>pr_state = \<lparr>sn_subject = ''s'', sn_tick = 1, sn_head = ''c'', sn_memory = [(''k'', JNull)],
       sn_wake_at = None, sn_lifecycle = ''waiting_external''\<rparr>,
     pr_occasion = \<lparr>o_id = ''o'', o_kind = ''external'', o_payload = JNull\<rparr>, pr_prior_unsettled = False,
     pr_temporal = no_temporal, pr_working_memory = None, pr_memory_view = None, pr_inputs = JArr []\<rparr>"

lemma sample_context_dump: "sample_dump (context_json c) = []"
  by (simp add: sample_dump_def context_json_def jat_mk_obj)

lemma sample_projection:
  "project_memory sample_ext sample_present sample_candidates default_policy None =
     Inr (sample_present\<lparr>pr_working_memory := Some [(''k'', JNull)], pr_memory_view := Some
       ((initial_view (pr_state sample_present) sample_candidates default_policy)\<lparr>mv_items := [sample_wire]\<rparr>)\<rparr>)"
proof -
  have p: "policy_ok default_policy = Inr ()" by (simp add: policy_ok_def default_policy_def)
  have v: "projection_valid sample_ext default_policy None q t \<longleftrightarrow>
      length (fst t) + length (mv_items (snd t)) \<le> 16" for q t
    by (simp add: projection_valid_def projection_bytes_def sample_context_dump) (simp add: default_policy_def)
  have "mp_strategy default_policy \<noteq> ''task_maintenance''" by (simp add: default_policy_def)
  then show ?thesis
    by (simp add: project_memory_def Let_def p sample_candidates_def fill_step_def try_push_def push_item_def
        push_key_def v initial_view_def with_memory_def sample_present_def)
qed

theorem projection_within_budget_witness:
  "\<exists>p' working view. project_memory sample_ext sample_present sample_candidates default_policy None = Inr p' \<and>
     p' = sample_present\<lparr>pr_working_memory := Some working, pr_memory_view := Some view\<rparr> \<and>
     length working + length (mv_items view) \<le> mp_max_items default_policy"
  using projection_within_budget [OF sample_projection] sample_projection by fast

theorem open_tasks_visible_witness:
  "\<exists>p' view. project_memory sample_ext sample_present sample_candidates default_policy None = Inr p' \<and>
     pr_memory_view p' = Some view \<and> me_id (sample_entry 1 [] ''open'' True) \<in> w_id ` set (mv_items view)"
  using open_tasks_visible [OF sample_memory_inv sample_candidates_ok sample_projection,
      where e = "sample_entry 1 [] ''open'' True"] sample_projection
  by (fastforce simp: protects_tasks_def default_policy_def sample_memory_def sample_entry_def sample_task_def
      is_open_task_def)

theorem view_items_genuine_witness:
  "\<exists>e \<in> set (md_entries sample_memory). me_subject e = ''s'' \<and>
     wire_at sample_memory ''s'' 1 (me_body e) = Inr sample_wire"
  using view_items_genuine [OF sample_candidates_ok sample_projection, of _ sample_wire] by simp

end
