(* ===== verification/Cogg_Outcome.thy ===== *)
theory Cogg_Outcome
  imports Cogg_Store
begin

text \<open>
  Untrusted data at the boundary: \<^verbatim>\<open>src/outcome.cpp\<close> (outcomes of an executor, host
  inputs with their provenance, admission contexts) and the execution and emission
  envelopes of \<^verbatim>\<open>src/routing.cpp\<close>. Main results: parsing a printed outcome gives it
  back, accepted inputs form an acyclic provenance graph over content hashes, and the
  emission a host makes is the one the commit accepts.
\<close>

section \<open>Outcomes\<close>

definition bounded :: "json \<Rightarrow> nat \<Rightarrow> bool \<Rightarrow> bool" where
  "bounded v mx blank = (case v of
     JStr s \<Rightarrow> (blank \<or> s \<noteq> []) \<and> length s \<le> mx \<and> CHR 0x00 \<notin> set s | _ \<Rightarrow> False)"

definition digest :: "json \<Rightarrow> bool" where
  "digest v \<longleftrightarrow> bounded v 64 False \<and> (case v of JStr s \<Rightarrow> digest_string s | _ \<Rightarrow> False)"

definition reasons :: "string list" where
  "reasons = [''missing_input'', ''unsupported'', ''uncertain'', ''refused'']"

definition parse_outcome :: "ext \<Rightarrow> json \<Rightarrow> outcome res" where
  "parse_outcome X v =
     bindR (if is_object v then bindR (jvalue_string v ''kind'' []) (\<lambda>k. Inr (k = ''abstain'')) else Inr False)
       (\<lambda>abstains.
     if \<not> abstains then bindR (parse_proposal X v) (\<lambda>p. Inr (Participates p))
     else require (jsize v = 3 \<and> jcontains v ''reason'' \<and> jcontains v ''detail'') ''invalid abstention shape'' (
       bindR (jat v ''reason'') (\<lambda>r.
       require (r \<in> set (map JStr reasons)) ''invalid abstention reason'' (
       bindR (jat v ''detail'') (\<lambda>d.
       require (bounded d 512 True) ''invalid abstention detail'' (
       bindR (get_string r) (\<lambda>reason. bindR (get_string d) (\<lambda>detail.
       Inr (Abstains \<lparr>a_reason = reason, a_detail = detail\<rparr>)))))))))"

definition abstention_enc :: "abstention \<Rightarrow> json" where
  "abstention_enc a = mk_obj [(''kind'', JStr ''abstain''), (''reason'', JStr (a_reason a)),
     (''detail'', JStr (a_detail a))]"

fun outcome_json :: "ext \<Rightarrow> outcome \<Rightarrow> json res" where
  "outcome_json X (Participates p) = proposal_json X p"
| "outcome_json X (Abstains a) =
     bindR (parse_outcome X (abstention_enc a)) (\<lambda>_. Inr (abstention_enc a))"

text \<open>\<open>catch (const Error&)\<close> also catches the three classes derived from it.\<close>

fun is_error :: "error \<Rightarrow> bool" where
  "is_error (Error _) = True"
| "is_error (ContextOverflow _) = True"
| "is_error (Conflict _) = True"
| "is_error (BackendFailure _ _) = True"
| "is_error _ = False"

definition validate_backend_outcome :: "ext \<Rightarrow> outcome \<Rightarrow> unit res" where
  "validate_backend_outcome X v = (case outcome_json X v of
     Inr _ \<Rightarrow> Inr ()
   | Inl e \<Rightarrow> if is_error e \<or> e = JsonException
              then Inl (BackendFailure Invalid_Output ''invalid backend outcome'') else Inl e)"

section \<open>Host inputs\<close>

definition make_input :: "ext \<Rightarrow> string \<Rightarrow> string \<Rightarrow> json \<Rightarrow> string list \<Rightarrow> json" where
  "make_input X kind producer content sources =
     (let body = mk_obj [(''schema'', JStr ''cogg:input/v1''), (''kind'', JStr kind),
        (''producer'', JStr producer), (''content'', content), (''sources'', JArr (map JStr sources))]
      in mk_obj [(''id'', JStr (hash X body)), (''body'', body)])"

fun text_of :: "json \<Rightarrow> string" where
  "text_of (JStr s) = s"
| "text_of _ = []"

fun check_links :: "string list \<Rightarrow> string list \<Rightarrow> json list \<Rightarrow> unit res" where
  "check_links seen links [] = Inr ()"
| "check_links seen links (source # rest) =
     require (digest source) ''invalid input source'' (
     require (text_of source \<in> set seen \<and> text_of source \<notin> set links)
       ''missing, forward or duplicate input source''
       (check_links seen (text_of source # links) rest))"

definition check_input_body :: "string list \<Rightarrow> json \<Rightarrow> unit res" where
  "check_input_body seen b =
     require (is_object b \<and> jsize b = 5) ''invalid input body'' (
     bindR (jvalue_string b ''schema'' []) (\<lambda>schema.
     require (schema = ''cogg:input/v1'' \<and> jcontains b ''producer'') ''invalid input body'' (
     bindR (jat b ''producer'') (\<lambda>producer.
     require (bounded producer 200 False \<and> jcontains b ''content'' \<and> jcontains b ''sources'') ''invalid input body'' (
     bindR (jat b ''sources'') (\<lambda>sources.
     require (is_array sources) ''invalid input body'' (
     bindR (jat b ''kind'') (\<lambda>kind.
     require (kind = JStr ''observation'' \<or> kind = JStr ''inference'') ''invalid input kind'' (
     require ((kind = JStr ''observation'') = jempty sources) ''input provenance required'' (
     check_links seen [] (elements sources)))))))))))"

definition check_input :: "ext \<Rightarrow> string list \<Rightarrow> json \<Rightarrow> string res" where
  "check_input X seen input =
     require (is_object input \<and> jsize input = 2 \<and> jcontains input ''id'' \<and> jcontains input ''body'')
       ''invalid input envelope'' (
     bindR (jat input ''body'') (\<lambda>b.
     bindR (check_input_body seen b) (\<lambda>_.
     bindR (jat input ''id'') (\<lambda>i.
     require (digest i \<and> i = JStr (hash X b) \<and> text_of i \<notin> set seen) ''input hash mismatch or duplicate'' (
     Inr (text_of i))))))"

fun check_inputs :: "ext \<Rightarrow> string list \<Rightarrow> json list \<Rightarrow> unit res" where
  "check_inputs X seen [] = Inr ()"
| "check_inputs X seen (input # rest) =
     bindR (check_input X seen input) (\<lambda>i. check_inputs X (i # seen) rest)"

definition validate_inputs :: "ext \<Rightarrow> json \<Rightarrow> unit res" where
  "validate_inputs X inputs =
     require (is_array inputs \<and> jsize inputs \<le> 16 \<and> length (x_dump X inputs) \<le> 32768)
       ''input budget exceeded'' (check_inputs X [] (elements inputs))"

definition validate_admission_context :: "ext \<Rightarrow> json \<Rightarrow> unit res" where
  "validate_admission_context X c =
     (if c = JNull then Inr ()
      else require (is_object c \<and> jsize c = 3 \<and> jcontains c ''head'' \<and> jcontains c ''occasion'' \<and>
             (\<exists>h. jat c ''head'' = Inr h \<and> digest h) \<and>
             (\<exists>q. jat c ''occasion'' = Inr q \<and> (digest q \<or> q = JNull)) \<and> jcontains c ''inputs'')
             ''invalid admission context'' (
           bindR (jat c ''inputs'') (validate_inputs X)))"

section \<open>Execution and emission envelopes\<close>

definition text_field :: "json \<Rightarrow> string \<Rightarrow> nat \<Rightarrow> bool" where
  "text_field j key limit \<longleftrightarrow>
     (case jat j key of Inr (JStr s) \<Rightarrow> s \<noteq> [] \<and> length s \<le> limit \<and> CHR 0x00 \<notin> set s | _ \<Rightarrow> False)"

record capabilities =
  cap_remote :: bool
  cap_exact_tokens :: bool
  cap_checkpoint :: bool
  cap_cancellation :: bool

definition capabilities_json :: "capabilities \<Rightarrow> json" where
  "capabilities_json c = mk_obj [(''remote'', JBool (cap_remote c)),
     (''exact_tokens'', JBool (cap_exact_tokens c)), (''checkpoint'', JBool (cap_checkpoint c)),
     (''cancellation'', JBool (cap_cancellation c))]"

definition is_flag :: "json \<Rightarrow> string \<Rightarrow> bool" where
  "is_flag c k \<longleftrightarrow> (case jat c k of Inr v \<Rightarrow> is_boolean v | Inl _ \<Rightarrow> False)"

definition validate_execution :: "json \<Rightarrow> unit res" where
  "validate_execution e =
     (if e = JNull then Inr ()
      else require (is_object e \<and> jsize e = 5) ''invalid execution descriptor'' (
        bindR (jvalue_string e ''schema'' []) (\<lambda>schema.
        require (schema = ''cogg:execution/v1'' \<and> text_field e ''executor'' 64 \<and> text_field e ''backend'' 200 \<and>
                 text_field e ''session'' 64 \<and> jcontains e ''capabilities'') ''invalid execution descriptor'' (
        bindR (jat e ''capabilities'') (\<lambda>c.
        require (is_object c \<and> jsize c = 4) ''invalid capabilities'' (
        require (\<forall>k \<in> {''remote'', ''exact_tokens'', ''checkpoint'', ''cancellation''}. is_flag c k)
          ''invalid capability'' (Inr ())))))))"

text \<open>\<open>jfield_is j k v\<close> is \<open>j.at(k) == v\<close>: a missing key throws.\<close>

definition jfield_is :: "json \<Rightarrow> string \<Rightarrow> json \<Rightarrow> string \<Rightarrow> unit res" where
  "jfield_is j k v msg = bindR (jat j k) (\<lambda>x. require (x = v) msg (Inr ()))"

definition validate_emission :: "ext \<Rightarrow> json \<Rightarrow> string \<Rightarrow> admission \<Rightarrow> json \<Rightarrow> unit res" where
  "validate_emission X e i a proposal =
     bindR (validate_execution (ad_execution a)) (\<lambda>_.
     if ad_execution a = JNull then require (e = JNull) ''emission without routed admission'' (Inr ())
     else let m = ''emission admission binding mismatch''
       in require (is_object e \<and> jsize e = 8) m (
          bindR (jvalue_string e ''schema'' []) (\<lambda>schema.
          require (schema = ''cogg:emission/v1'') m (
          bindR (jvalue_string e ''attempt'' []) (\<lambda>attempt.
          require (attempt = i) m (
          bindR (jfield_is e ''subject'' (JStr (ad_subject a)) m) (\<lambda>_.
          bindR (jfield_is e ''parent'' (JStr (ad_parent a)) m) (\<lambda>_.
          bindR (jfield_is e ''occasion'' (JStr (ad_occasion a)) m) (\<lambda>_.
          bindR (jfield_is e ''execution'' (ad_execution a) m) (\<lambda>_.
          bindR (jfield_is e ''proposal'' proposal m) (\<lambda>_.
          bindR (jat e ''provider'') (\<lambda>provider.
          require (is_object provider \<and> length (x_dump X provider) \<le> 8192) ''invalid provider receipt''
            (Inr ())))))))))))))"

definition make_emission :: "ext \<Rightarrow> attempt \<Rightarrow> json \<Rightarrow> proposal \<Rightarrow> json \<Rightarrow> json res" where
  "make_emission X a execution p provider =
     bindR (proposal_json X p) (\<lambda>pj. Inr (mk_obj
       [(''schema'', JStr ''cogg:emission/v1''), (''attempt'', JStr (att_id a)),
        (''subject'', JStr (sn_subject (pr_state (att_present a)))),
        (''parent'', JStr (sn_head (pr_state (att_present a)))),
        (''occasion'', JStr (o_id (pr_occasion (att_present a)))), (''execution'', execution),
        (''proposal'', pj), (''provider'', provider)]))"

section \<open>Round trips\<close>

definition abstention_ok :: "abstention \<Rightarrow> bool" where
  "abstention_ok a \<longleftrightarrow> a_reason a \<in> set reasons \<and> length (a_detail a) \<le> 512 \<and> CHR 0x00 \<notin> set (a_detail a)"

fun outcome_ok :: "ext \<Rightarrow> outcome \<Rightarrow> bool" where
  "outcome_ok X (Participates p) = proposal_ok X p"
| "outcome_ok X (Abstains a) = abstention_ok a"

fun outcome_enc :: "outcome \<Rightarrow> json" where
  "outcome_enc (Participates p) = proposal_enc p"
| "outcome_enc (Abstains a) = abstention_enc a"

lemma parse_abstention_enc:
  "parse_outcome X (abstention_enc a) = Inr v \<longleftrightarrow> abstention_ok a \<and> v = Abstains a"
proof -
  have "is_object (abstention_enc a)" "jsize (abstention_enc a) = 3"
    "jvalue_string (abstention_enc a) ''kind'' [] = Inr ''abstain''"
    "jcontains (abstention_enc a) ''reason''" "jcontains (abstention_enc a) ''detail''"
    "jat (abstention_enc a) ''reason'' = Inr (JStr (a_reason a))"
    "jat (abstention_enc a) ''detail'' = Inr (JStr (a_detail a))"
    by (simp_all add: abstention_enc_def mk_obj_access)
  then show ?thesis
    by (auto simp: parse_outcome_def res_simps bounded_def abstention_ok_def)
qed

lemma proposal_not_abstain: "proposal_ok X p \<Longrightarrow> p_kind p \<noteq> ''abstain''"
  by (auto simp: proposal_ok_def)

lemma parse_outcome_proposal:
  assumes "proposal_ok X p"
  shows "parse_outcome X (proposal_enc p) = Inr (Participates p)"
proof -
  have "is_object (proposal_enc p)" "jvalue_string (proposal_enc p) ''kind'' [] = Inr (p_kind p)"
    by (simp_all add: proposal_enc_def mk_obj_access)
  with proposal_not_abstain [OF assms] show ?thesis
    by (simp add: parse_outcome_def parse_proposal_enc [OF assms])
qed

lemma outcome_json_Inr: "outcome_json X v = Inr j \<longleftrightarrow> outcome_ok X v \<and> j = outcome_enc v"
  by (cases v) (auto simp: res_simps parse_abstention_enc)

text \<open>
  Round trip of an outcome: what an executor returned, participation or abstention,
  is what a reader of the printed outcome parses; a printed abstention is never read as a
  transition nor a transition as an abstention.
\<close>

lemma outcome_roundtrip:
  assumes "outcome_json X v = Inr j"
  shows "parse_outcome X j = Inr v"
  using assms by (cases v) (auto simp: outcome_json_Inr parse_abstention_enc parse_outcome_proposal
      simp del: outcome_json.simps)

lemma jfield_is_Inr [res_simps]: "(jfield_is j k v m = Inr u) = (jat j k = Inr v)"
  by (auto simp: jfield_is_def res_simps)

text \<open>
  The emission a host builds for an admitted attempt is the one the commit accepts:
  \<open>make_emission\<close> on the attempt that \<open>admit\<close> returned passes \<open>validate_emission\<close>
  against that attempt's stored admission, when the execution descriptor and the
  provider's receipt are well formed; and \<open>validate_emission\<close> accepts nothing that names
  another attempt, subject, parent, occasion, execution or proposal.
\<close>

lemma emission_binding:
  assumes "validate_execution (ad_execution a) = Inr ()" and "ad_execution a \<noteq> JNull"
    and "ad_subject a = sn_subject (pr_state (att_present t))"
    and "ad_parent a = sn_head (pr_state (att_present t))"
    and "ad_occasion a = o_id (pr_occasion (att_present t))"
    and "proposal_ok X p" and "is_object provider" and "length (x_dump X provider) \<le> 8192"
  shows "\<exists>e. make_emission X t (ad_execution a) p provider = Inr e \<and>
    validate_emission X e (att_id t) a (proposal_enc p) = Inr () \<and>
    (\<forall>i b q. validate_emission X e i b q = Inr () \<longrightarrow> i = att_id t \<and> ad_subject b = ad_subject a \<and>
       ad_parent b = ad_parent a \<and> ad_occasion b = ad_occasion a \<and>
       ad_execution b = ad_execution a \<and> q = proposal_enc p)"
proof -
  define e where "e = mk_obj
       [(''schema'', JStr ''cogg:emission/v1''), (''attempt'', JStr (att_id t)),
        (''subject'', JStr (ad_subject a)), (''parent'', JStr (ad_parent a)),
        (''occasion'', JStr (ad_occasion a)), (''execution'', ad_execution a),
        (''proposal'', proposal_enc p), (''provider'', provider)]"
  have acc: "is_object e" "jsize e = 8" "jvalue_string e ''schema'' [] = Inr ''cogg:emission/v1''"
    "jvalue_string e ''attempt'' [] = Inr (att_id t)" "jat e ''subject'' = Inr (JStr (ad_subject a))"
    "jat e ''parent'' = Inr (JStr (ad_parent a))" "jat e ''occasion'' = Inr (JStr (ad_occasion a))"
    "jat e ''execution'' = Inr (ad_execution a)" "jat e ''proposal'' = Inr (proposal_enc p)"
    "jat e ''provider'' = Inr provider"
    by (simp_all add: e_def mk_obj_access)
  have "make_emission X t (ad_execution a) p provider = Inr e"
    using assms by (simp add: make_emission_def proposal_json_def e_def)
  moreover have "validate_emission X e (att_id t) a (proposal_enc p) = Inr ()"
    using assms by (simp add: validate_emission_def Let_def acc jfield_is_def)
  moreover have "i = att_id t \<and> ad_subject b = ad_subject a \<and> ad_parent b = ad_parent a \<and>
      ad_occasion b = ad_occasion a \<and> ad_execution b = ad_execution a \<and> q = proposal_enc p"
    if "validate_emission X e i b q = Inr ()" for i b q
  proof (cases "ad_execution b = JNull")
    case True
    with that have "e = JNull" by (auto simp: validate_emission_def res_simps)
    then show ?thesis using acc by simp
  next
    case False
    with that show ?thesis by (simp add: validate_emission_def Let_def res_simps acc)
  qed
  ultimately show ?thesis by blast
qed

section \<open>Provenance of inputs\<close>

definition field :: "json \<Rightarrow> string \<Rightarrow> json" where
  "field j k = (case jat j k of Inr v \<Rightarrow> v | Inl _ \<Rightarrow> JNull)"

definition input_id :: "json \<Rightarrow> string" where
  "input_id j = text_of (field j ''id'')"

definition input_sources :: "json \<Rightarrow> string list" where
  "input_sources j = map text_of (elements (field (field j ''body'') ''sources''))"

definition is_observation :: "json \<Rightarrow> bool" where
  "is_observation j \<longleftrightarrow> field (field j ''body'') ''kind'' = JStr ''observation''"

interpretation links_loop:
  seen_loop text_of "\<lambda>v. digest v \<and> text_of v \<in> set seen" "\<lambda>links vs. check_links seen links vs = Inr ()" for seen
  by unfold_locales (auto simp: res_simps)

lemma jat_field: "jat j k = Inr v \<Longrightarrow> field j k = v"
  by (simp add: field_def)

lemma array_empty: "is_array v \<Longrightarrow> (jsize v = 0) = (elements v = [])"
  by (cases v) simp_all

lemma check_input_Inr:
  assumes "check_input X seen j = Inr i"
  shows "i = input_id j \<and> i = hash X (field j ''body'') \<and> i \<notin> set seen \<and>
    set (input_sources j) \<subseteq> set seen \<and> distinct (input_sources j) \<and>
    is_observation j = (input_sources j = [])"
proof -
  from assms obtain b v where b: "jat j ''body'' = Inr b" and body: "check_input_body seen b = Inr ()"
    and v: "jat j ''id'' = Inr v" "v = JStr (hash X b)" "text_of v \<notin> set seen" "i = text_of v"
    by (auto simp: check_input_def res_simps)
  from body obtain sources kind where src: "jat b ''sources'' = Inr sources" "is_array sources"
    and kind: "jat b ''kind'' = Inr kind" "(kind = JStr ''observation'') = jempty sources"
    and links: "check_links seen [] (elements sources) = Inr ()"
    unfolding check_input_body_def res_simps by blast
  have srcs: "input_sources j = map text_of (elements sources)"
    by (simp add: input_sources_def jat_field [OF b] jat_field [OF src(1)])
  have "distinct (input_sources j)" and "set (input_sources j) \<subseteq> set seen"
    using links unfolding links_loop.accepts_iff srcs by auto
  moreover have "is_observation j = (input_sources j = [])"
    using kind by (simp add: is_observation_def jat_field [OF b] jat_field [OF kind(1)] srcs array_empty [OF src(2)])
  ultimately show ?thesis
    using v by (simp add: input_id_def jat_field [OF b] jat_field [OF v(1)])
qed

lemma check_inputs_Inr:
  "check_inputs X seen js = Inr () \<Longrightarrow>
    distinct (map input_id js) \<and> input_id ` set js \<inter> set seen = {} \<and>
    (\<forall>k < length js. input_id (js ! k) = hash X (field (js ! k) ''body'') \<and>
       set (input_sources (js ! k)) \<subseteq> set seen \<union> input_id ` set (take k js) \<and>
       is_observation (js ! k) = (input_sources (js ! k) = []))"
proof (induction js arbitrary: seen)
  case (Cons j js)
  then obtain i where i: "check_input X seen j = Inr i" and rest: "check_inputs X (i # seen) js = Inr ()"
    by (auto simp: res_simps)
  note h = check_input_Inr [OF i]
  note IH = Cons.IH [OF rest]
  have "input_id ((j # js) ! k) = hash X (field ((j # js) ! k) ''body'') \<and>
      set (input_sources ((j # js) ! k)) \<subseteq> set seen \<union> input_id ` set (take k (j # js)) \<and>
      is_observation ((j # js) ! k) = (input_sources ((j # js) ! k) = [])" if "k < length (j # js)" for k
  proof (cases k)
    case 0
    with h show ?thesis by auto
  next
    case (Suc n)
    with that have "n < length js" by simp
    with IH have "input_id (js ! n) = hash X (field (js ! n) ''body'')"
      "set (input_sources (js ! n)) \<subseteq> set (i # seen) \<union> input_id ` set (take n js)"
      "is_observation (js ! n) = (input_sources (js ! n) = [])" by blast+
    moreover have "set (i # seen) \<union> input_id ` set (take n js) = set seen \<union> input_id ` set (take k (j # js))"
      using h Suc by auto
    ultimately show ?thesis using Suc by simp
  qed
  moreover have "distinct (map input_id (j # js))" and "input_id ` set (j # js) \<inter> set seen = {}"
    using IH h by auto
  ultimately show ?case by blast
qed simp

text \<open>
  Accepted host inputs form an acyclic provenance graph over content hashes: IDs are
  pairwise distinct and each is the hash of its body; every cited source is the ID of an
  earlier input of the same list; and exactly the observations cite nothing.
\<close>

lemma inputs_acyclic:
  assumes "validate_inputs X (JArr js) = Inr ()"
  shows "length js \<le> 16 \<and> distinct (map input_id js) \<and>
    (\<forall>k < length js. input_id (js ! k) = hash X (field (js ! k) ''body'') \<and>
       set (input_sources (js ! k)) \<subseteq> input_id ` set (take k js) \<and>
       is_observation (js ! k) = (input_sources (js ! k) = []))"
proof -
  from assms have "length js \<le> 16" and "check_inputs X [] js = Inr ()"
    by (simp_all add: validate_inputs_def res_simps)
  with check_inputs_Inr [OF this(2)] show ?thesis by simp
qed

lemma digest_JStr: "digest_string s \<Longrightarrow> digest (JStr s)"
proof -
  assume d: "digest_string s"
  have "CHR 0x00 \<notin> set ''0123456789abcdef''" by simp
  with d have "CHR 0x00 \<notin> set s" unfolding digest_string_def hex_string_def list_all_iff by metis
  with d show ?thesis by (auto simp: digest_def bounded_def digest_string_def)
qed

lemma make_input_checked:
  assumes "kind \<in> {''observation'', ''inference''}" and "(kind = ''observation'') = (sources = [])"
    and "key_ok 200 producer" and "distinct sources" and "set sources \<subseteq> set seen" and "list_all digest_string sources"
    and "length (x_sha256 X (x_dump X (field (make_input X kind producer content sources) ''body''))) = 32"
    and "input_id (make_input X kind producer content sources) \<notin> set seen"
  shows "check_input X seen (make_input X kind producer content sources) =
    Inr (input_id (make_input X kind producer content sources))"
proof -
  define j where "j = make_input X kind producer content sources"
  define b where "b = mk_obj [(''schema'', JStr ''cogg:input/v1''), (''kind'', JStr kind),
        (''producer'', JStr producer), (''content'', content), (''sources'', JArr (map JStr sources))]"
  have acc: "is_object b" "jsize b = 5" "jvalue_string b ''schema'' [] = Inr ''cogg:input/v1''"
    "jcontains b ''producer''" "jat b ''producer'' = Inr (JStr producer)" "jcontains b ''content''"
    "jcontains b ''sources''" "jat b ''sources'' = Inr (JArr (map JStr sources))"
    "jat b ''kind'' = Inr (JStr kind)"
    by (simp_all add: b_def mk_obj_access)
  have j: "is_object j" "jsize j = 2" "jcontains j ''id''" "jcontains j ''body''"
    "jat j ''body'' = Inr b" "jat j ''id'' = Inr (JStr (hash X b))"
    by (simp_all add: j_def make_input_def Let_def mk_obj_access flip: b_def)
  have i: "input_id j = hash X b" by (simp add: input_id_def jat_field [OF j(6)])
  have "length (x_sha256 X (x_dump X b)) = 32"
    using assms(7) by (simp add: jat_field [OF j(5)] flip: j_def)
  then have d: "digest (JStr (hash X b))" by (intro digest_JStr hash_digest)
  have "map text_of (map JStr sources) = sources" by (induction sources) simp_all
  then have "check_links seen [] (map JStr sources) = Inr ()"
    unfolding links_loop.accepts_iff using assms(4-6) by (auto simp: list_all_iff digest_JStr)
  moreover have "bounded (JStr producer) 200 False" using assms(3) by (simp add: bounded_def key_ok_def)
  ultimately have "check_input_body seen b = Inr ()"
    using assms(1,2) by (auto simp: check_input_body_def acc)
  with d assms(8) show ?thesis by (simp add: check_input_def j i flip: j_def)
qed

lemma check_inputs_append:
  "check_inputs X seen (js @ [j]) = Inr () \<longleftrightarrow> check_inputs X seen js = Inr () \<and>
     (\<exists>i. check_input X (rev (map input_id js) @ seen) j = Inr i)"
proof (induction js arbitrary: seen)
  case (Cons a js)
  show ?case
  proof (cases "check_input X seen a")
    case (Inr i)
    from check_input_Inr [OF Inr] have "i = input_id a" by blast
    with Inr Cons.IH [of "i # seen"] show ?thesis by simp
  qed simp
qed (auto simp: res_simps)

text \<open>
  The constructor and the validator agree: adding to a list of accepted inputs one
  made by \<open>make_input\<close>, an observation without sources or an inference that cites
  accepted inputs, keeps the list accepted, within the input budget and with a digest of
  32 bytes that does not collide with an accepted input.
\<close>

lemma make_input_accepted:
  assumes "validate_inputs X (JArr js) = Inr ()"
    and "kind \<in> {''observation'', ''inference''}" and "(kind = ''observation'') = (sources = [])"
    and "key_ok 200 producer" and "distinct sources" and "set sources \<subseteq> input_id ` set js"
    and "\<forall>v. length (x_sha256 X (x_dump X v)) = 32"
    and "input_id (make_input X kind producer content sources) \<notin> input_id ` set js"
    and "length js < 16"
    and "length (x_dump X (JArr (js @ [make_input X kind producer content sources]))) \<le> 32768"
  shows "validate_inputs X (JArr (js @ [make_input X kind producer content sources])) = Inr ()"
proof -
  have js: "check_inputs X [] js = Inr ()" using assms(1) by (simp add: validate_inputs_def res_simps)
  have "digest_string i" if "i \<in> input_id ` set js" for i
    using that check_inputs_Inr [OF js] assms(7) by (auto simp: in_set_conv_nth hash_digest)
  with assms(6) have "list_all digest_string sources" by (auto simp: list_all_iff)
  then have "check_input X (rev (map input_id js)) (make_input X kind producer content sources) =
      Inr (input_id (make_input X kind producer content sources))"
    using assms by (intro make_input_checked) auto
  with js assms(9,10) show ?thesis by (simp add: validate_inputs_def check_inputs_append)
qed

section \<open>The hypotheses can hold\<close>

theorem outcome_roundtrip_witness:
  "parse_outcome sample_ext (abstention_enc \<lparr>a_reason = ''refused'', a_detail = []\<rparr>) =
     Inr (Abstains \<lparr>a_reason = ''refused'', a_detail = []\<rparr>)"
  by (rule outcome_roundtrip)
    (simp only: outcome_json_Inr outcome_ok.simps outcome_enc.simps, simp add: abstention_ok_def reasons_def)

definition sample_input :: "string \<Rightarrow> string list \<Rightarrow> json" where
  "sample_input kind sources = make_input sample_ext kind ''host'' JNull sources"

lemma sample_dump_input: "sample_dump (field (make_input sample_ext k p c ss) ''body'') = []"
  by (simp add: sample_dump_def make_input_def Let_def field_def jat_mk_obj)

lemma sample_input_accepted: "validate_inputs sample_ext (JArr [sample_input ''observation'' []]) = Inr ()"
proof -
  have "check_input sample_ext [] (sample_input ''observation'' []) = Inr (input_id (sample_input ''observation'' []))"
    unfolding sample_input_def
    by (rule make_input_checked) (simp_all add: key_ok_def, simp add: sample_ext_def)
  then show ?thesis by (simp add: validate_inputs_def) (simp add: sample_dump_def)
qed

theorem inputs_acyclic_witness:
  "is_observation (sample_input ''observation'' []) = (input_sources (sample_input ''observation'' []) = [])"
  using inputs_acyclic [OF sample_input_accepted] by simp

theorem make_input_accepted_witness:
  "validate_inputs sample_ext (JArr ([] @ [make_input sample_ext ''observation'' ''host'' JNull []])) = Inr ()"
  by (rule make_input_accepted)
    (simp_all add: validate_inputs_def key_ok_def, simp_all add: sample_ext_def sample_dump_def)

end
