(* ===== verification/Cogg_Kernel.thy ===== *)
theory Cogg_Kernel
  imports Cogg_View Cogg_Outcome
begin

text \<open>
  The operations of \<open>Store\<close> (\<^verbatim>\<open>src/kernel.cpp\<close>) that change the ledger: \<open>create\<close>,
  \<open>submit\<close>, \<open>schedule\<close>, \<open>admit\<close>, \<open>commit_locked\<close>, \<open>commit\<close>, \<open>abstain\<close> and both
  \<open>fail\<close>s. An operation runs in one SQLite transaction, so it returns either an error,
  and then the store is the one before, or a result with the new store. Random nonces are
  arguments.
\<close>

type_synonym 'a tx = "('a \<times> store) res"

section \<open>Row updates\<close>

definition update_subject :: "string \<Rightarrow> (subject_row \<Rightarrow> subject_row) \<Rightarrow> store \<Rightarrow> store" where
  "update_subject s f st = st\<lparr>st_subjects := map (\<lambda>r. if su_id r = s then f r else r) (st_subjects st)\<rparr>"

definition update_attempts :: "(attempt_row \<Rightarrow> bool) \<Rightarrow> (attempt_row \<Rightarrow> attempt_row) \<Rightarrow> store \<Rightarrow> store" where
  "update_attempts P f st = st\<lparr>st_attempts := map (\<lambda>r. if P r then f r else r) (st_attempts st)\<rparr>"

definition consume :: "string \<Rightarrow> string \<Rightarrow> store \<Rightarrow> store" where
  "consume oid commit st = st\<lparr>st_occasions := map (\<lambda>r. if oc_id r = oid \<and> oc_consumed r = None
     then r\<lparr>oc_consumed := Some commit\<rparr> else r) (st_occasions st)\<rparr>"

definition insert_commit :: "commit_row \<Rightarrow> store \<Rightarrow> store res" where
  "insert_commit c st =
     require (co_id c \<notin> co_id ` set (st_commits st)) ''UNIQUE constraint failed: commits.id'' (
     require ((co_subject c, co_tick c) \<notin> (\<lambda>r. (co_subject r, co_tick r)) ` set (st_commits st))
       ''UNIQUE constraint failed: commits.subject, commits.tick'' (
     Inr (st\<lparr>st_commits := st_commits st @ [c]\<rparr>)))"

definition mark_failed :: "string \<Rightarrow> string \<Rightarrow> store \<Rightarrow> store" where
  "mark_failed attempt reason = update_attempts (\<lambda>r. at_id r = attempt \<and> at_status r = Reserved)
     (\<lambda>r. r\<lparr>at_status := Failed, at_error := reason\<rparr>)"

section \<open>Occasions\<close>

definition enqueue :: "ext \<Rightarrow> store \<Rightarrow> snapshot \<Rightarrow> string \<Rightarrow> string \<Rightarrow> json \<Rightarrow> millis \<Rightarrow> string tx" where
  "enqueue X st s key kind payload now =
     (case find (\<lambda>r. oc_subject r = sn_subject s \<and> oc_key r = key) (st_occasions st) of
        Some old \<Rightarrow> require (ev_payload (oc_body old) = payload \<and> ev_kind (oc_body old) = kind)
            ''idempotency key reused with different content'' (Inr (oc_id old, st))
      | None \<Rightarrow>
          let body = \<lparr>ev_subject = sn_subject s, ev_key = key, ev_kind = kind, ev_payload = payload,
                      ev_received_at = now, ev_parents = [sn_head s]\<rparr>;
              i = hash X (event_json body);
              row = \<lparr>oc_seq = st_occasion_seq st + 1, oc_id = i, oc_subject = sn_subject s, oc_key = key,
                     oc_kind = kind, oc_parent = sn_head s, oc_body = body, oc_consumed = None\<rparr>
          in require (st_occasion_seq st < max_seq) ''database or disk is full'' (
             require (i \<notin> oc_id ` set (st_occasions st)) ''UNIQUE constraint failed: occasions.id'' (
             Inr (i, st\<lparr>st_occasions := st_occasions st @ [row], st_occasion_seq := st_occasion_seq st + 1\<rparr>))))"

fun object_of :: "json \<Rightarrow> jobject" where
  "object_of (JObj kvs) = kvs"
| "object_of _ = []"

definition create ::
    "ext \<Rightarrow> store \<Rightarrow> string \<Rightarrow> limits \<Rightarrow> millis \<Rightarrow> json \<Rightarrow> string \<Rightarrow> store res" where
  "create X st subject lim now initial nonce =
     require (is_object initial \<and> length (x_dump X initial) \<le> max_state) ''invalid initial memory'' (
     bindR (check_text subject 128 ''subject'') (\<lambda>_.
     bindR (check_time now) (\<lambda>_.
     bindR (limits_json lim) (\<lambda>_.
     let genesis = Genesis \<lparr>ge_schema = 5, ge_subject = subject, ge_created_at = now, ge_nonce = nonce,
           ge_limits = lim, ge_memory = object_of initial\<rparr>;
         i = hash X (commit_json genesis);
         row = \<lparr>su_id = subject, su_tick = 0, su_head = i, su_memory = object_of initial, su_wake = None,
                su_limits = lim, su_accounting_wall = now\<rparr>
     in require (subject \<notin> su_id ` set (st_subjects st)) ''UNIQUE constraint failed: subjects.id'' (
        bindR (insert_commit \<lparr>co_id = i, co_subject = subject, co_tick = 0, co_body = genesis\<rparr>
                 (st\<lparr>st_subjects := st_subjects st @ [row]\<rparr>)) (\<lambda>st1.
        bindR (snapshot st1 subject) (\<lambda>s.
        bindR (enqueue X st1 s ''system:created'' ''created'' (JObj []) now) (\<lambda>(_, st2).
        Inr st2))))))))"

definition submit :: "ext \<Rightarrow> store \<Rightarrow> string \<Rightarrow> string \<Rightarrow> json \<Rightarrow> millis \<Rightarrow> string tx" where
  "submit X st subject key payload now =
     bindR (check_time now) (\<lambda>_.
     bindR (check_text key 200 ''idempotency key'') (\<lambda>_.
     require (length (x_dump X payload) \<le> max_payload) ''occasion payload too large'' (
     bindR (snapshot st subject) (\<lambda>s.
     enqueue X st s (''user:'' @ key) ''external'' payload now))))"

section \<open>Scheduling\<close>

definition accounting_wall :: "store \<Rightarrow> string \<Rightarrow> millis" where
  "accounting_wall st subject = (case find_subject st subject of None \<Rightarrow> 0 | Some r \<Rightarrow> su_accounting_wall r)"

definition deliverable :: "snapshot \<Rightarrow> millis \<Rightarrow> occasion_row \<Rightarrow> bool" where
  "deliverable s observed r \<longleftrightarrow> oc_subject r = sn_subject s \<and> oc_consumed r = None \<and>
     (oc_kind r \<noteq> ''scheduled'' \<or> (oc_parent r = sn_head s \<and>
        observed \<ge> (case sn_wake_at s of Some t \<Rightarrow> t | None \<Rightarrow> max_millis)))"

definition next_occasion :: "ext \<Rightarrow> store \<Rightarrow> snapshot \<Rightarrow> millis \<Rightarrow> pending option res" where
  "next_occasion X st s observed =
     (case find (deliverable s observed) (st_occasions st) of
        Some r \<Rightarrow> bindR (event_of X st (oc_id r)) (\<lambda>e.
          Inr (Some \<lparr>pe_id = Some (oc_id r), pe_kind = oc_kind r, pe_payload = ev_payload e\<rparr>))
      | None \<Rightarrow> Inr (case sn_wake_at s of
          Some t \<Rightarrow> if observed \<ge> t then Some \<lparr>pe_id = None, pe_kind = ''scheduled'',
              pe_payload = mk_obj [(''due_at'', JInt t)]\<rparr> else None
        | None \<Rightarrow> None))"

definition decide :: "snapshot \<Rightarrow> millis \<Rightarrow> millis \<Rightarrow> budget \<Rightarrow> pending option \<Rightarrow> decision" where
  "decide s observed accounting b q =
     \<lparr>sc_status = (case q of
        None \<Rightarrow> if sn_wake_at s \<noteq> None then ''sleeping'' else ''waiting_external''
      | Some _ \<Rightarrow> if bg_quota_at b > accounting then ''budget_exhausted''
                  else if bg_floor_at b > accounting then ''minimum_interval'' else ''ready''),
      sc_eligible_at = (case q of
        None \<Rightarrow> map_option (\<lambda>t. max t (bg_eligible_at b)) (sn_wake_at s)
      | Some _ \<Rightarrow> Some (bg_eligible_at b)),
      sc_occasion = q, sc_wall_observed_at = observed, sc_accounting_at = accounting,
      sc_wall_rollback_ms = accounting - observed, sc_budget = b, sc_head = sn_head s,
      sc_tick = sn_tick s, sc_wake_at = sn_wake_at s\<rparr>"

definition schedule :: "ext \<Rightarrow> store \<Rightarrow> string \<Rightarrow> millis \<Rightarrow> decision res" where
  "schedule X st subject observed =
     bindR (snapshot st subject) (\<lambda>s.
     let accounting = max observed (accounting_wall st subject)
     in bindR (config st subject) (\<lambda>lim.
        bindR (budget st subject lim accounting max_seq) (\<lambda>b.
        bindR (next_occasion X st s observed) (\<lambda>q.
        Inr (decide s observed accounting b q)))))"

definition schedule_at :: "ext \<Rightarrow> store \<Rightarrow> string \<Rightarrow> millis \<Rightarrow> decision res" where
  "schedule_at X st subject now = bindR (check_time now) (\<lambda>_. schedule X st subject now)"

section \<open>Admission\<close>

definition context_current :: "json \<Rightarrow> snapshot \<Rightarrow> decision \<Rightarrow> bool res" where
  "context_current context s d =
     (if context = JNull then Inr True
      else bindR (jat context ''head'') (\<lambda>h.
        if h \<noteq> JStr (sn_head s) then Inr False
        else case sc_occasion d of None \<Rightarrow> Inr False
          | Some q \<Rightarrow> bindR (jat context ''occasion'') (\<lambda>o'.
              Inr (o' = (case pe_id q of None \<Rightarrow> JNull | Some i \<Rightarrow> JStr i)))))"

definition previous_wake_of :: "ext \<Rightarrow> store \<Rightarrow> snapshot \<Rightarrow> previous_wake res" where
  "previous_wake_of X st s =
     (if sn_tick s > 0 then bindR (record_of X st (sn_head s)) (\<lambda>b. Inr (case b of
          Transition t \<Rightarrow> (case tr_wake_plan t of Some w \<Rightarrow> Previous_Plan w | None \<Rightarrow> Previous_V1 (tr_wake_at t))
        | Genesis g \<Rightarrow> Previous_V1 None))
      else Inr No_Previous)"

definition lateness :: "occasion \<Rightarrow> millis \<Rightarrow> millis option res" where
  "lateness q observed =
     (if o_kind q = ''scheduled''
      then bindR (bindR (jat (o_payload q) ''due_at'') get_int) (\<lambda>due. Inr (Some (observed - due)))
      else Inr None)"

definition payload_query :: "json \<Rightarrow> string" where
  "payload_query payload = (case jat payload ''text'' of Inr (JStr t) \<Rightarrow> t | _ \<Rightarrow> [])"

definition admitted_view ::
    "ext \<Rightarrow> store \<Rightarrow> present \<Rightarrow> memory_policy option \<Rightarrow> fits \<Rightarrow>
     (present \<times> (jobject \<times> memory_view) option \<times> (nat \<times> nat) option) res" where
  "admitted_view X st present policy fits =
     (case policy of None \<Rightarrow> Inr (present, None, None)
      | Some p0 \<Rightarrow>
          let p = (if mp_query p0 = [] then p0\<lparr>mp_query := payload_query (o_payload (pr_occasion present))\<rparr> else p0);
              s = pr_state present
          in bindR (memory_candidates X (st_memory st) (Some (sn_tick s)) (sn_subject s) p) (\<lambda>ca.
             bindR (project_memory X present ca p fits) (\<lambda>present'.
             Inr (present',
                  (case (pr_working_memory present', pr_memory_view present') of
                     (Some w, Some v) \<Rightarrow> Some (w, v) | _ \<Rightarrow> None),
                  (if protects_tasks p then Some (mp_max_items p, mp_max_bytes p) else None)))))"

definition admission_body ::
    "string \<Rightarrow> string \<Rightarrow> millis \<Rightarrow> millis \<Rightarrow> json \<Rightarrow> present \<Rightarrow> (jobject \<times> memory_view) option \<Rightarrow>
     (nat \<times> nat) option \<Rightarrow> admission" where
  "admission_body nonce backend now observed execution present ctx capacity =
     \<lparr>ad_schema = 5, ad_nonce = nonce, ad_subject = sn_subject (pr_state present),
      ad_parent = sn_head (pr_state present), ad_tick = sn_tick (pr_state present),
      ad_occasion = o_id (pr_occasion present), ad_backend = backend, ad_admitted_at = now,
      ad_prior_unsettled = pr_prior_unsettled present, ad_wall_observed_at = observed,
      ad_temporal = pr_temporal present, ad_execution = execution, ad_inputs = pr_inputs present,
      ad_context = ctx, ad_capacity = capacity\<rparr>"

definition insert_attempt :: "ext \<Rightarrow> admission \<Rightarrow> store \<Rightarrow> string tx" where
  "insert_attempt X a st =
     (let i = hash X (admission_json a);
          row = \<lparr>at_seq = st_attempt_seq st + 1, at_id = i, at_subject = ad_subject a,
                 at_parent = ad_parent a, at_occasion = ad_occasion a, at_admitted_at = ad_admitted_at a,
                 at_body = a, at_status = Reserved, at_error = []\<rparr>
      in require (st_attempt_seq st < max_seq) ''database or disk is full'' (
         require (i \<notin> at_id ` set (st_attempts st)) ''UNIQUE constraint failed: attempts.id'' (
         require (ad_occasion a \<in> oc_id ` set (st_occasions st)) ''FOREIGN KEY constraint failed'' (
         Inr (i, st\<lparr>st_attempts := st_attempts st @ [row], st_attempt_seq := st_attempt_seq st + 1\<rparr>)))))"

definition selected_id :: "ext \<Rightarrow> store \<Rightarrow> snapshot \<Rightarrow> pending \<Rightarrow> millis \<Rightarrow> string tx" where
  "selected_id X st s q observed = (case pe_id q of Some i \<Rightarrow> Inr (i, st)
     | None \<Rightarrow> enqueue X st s (''wake:'' @ sn_head s) ''scheduled'' (pe_payload q) observed)"

definition admit_ready ::
    "ext \<Rightarrow> store \<Rightarrow> snapshot \<Rightarrow> decision \<Rightarrow> pending \<Rightarrow> string \<Rightarrow> millis \<Rightarrow> memory_policy option \<Rightarrow>
     fits \<Rightarrow> json \<Rightarrow> json \<Rightarrow> string \<Rightarrow> attempt tx" where
  "admit_ready X st s d q backend observed policy fits execution inputs nonce =
     (let now = sc_accounting_at d in
      bindR (selected_id X st s q observed) (\<lambda>(oid, st1).
      let q' = \<lparr>o_id = oid, o_kind = pe_kind q, o_payload = pe_payload q\<rparr> in
      bindR (clock st1 (sn_subject s)) (\<lambda>ck.
      bindR (previous_wake_of X st1 s) (\<lambda>prev.
      bindR (lateness q' observed) (\<lambda>late.
      let unsettled = list_ex (\<lambda>r. at_subject r = sn_subject s \<and> at_status r = Reserved) (st_attempts st1);
          st2 = update_subject (sn_subject s) (\<lambda>r. r\<lparr>su_accounting_wall := now\<rparr>) st1;
          present = \<lparr>pr_state = s, pr_occasion = q', pr_prior_unsettled = unsettled,
            pr_temporal = \<lparr>te_clock = ck, te_coordinate = sn_tick s, te_admission = d,
              te_previous_wake = prev, te_wake_lateness_ms = late\<rparr>,
            pr_working_memory = None, pr_memory_view = None, pr_inputs = inputs\<rparr>
      in bindR (admitted_view X st2 present policy fits) (\<lambda>(present', ctx, capacity).
         raise_unless (case fits of None \<Rightarrow> True | Some f \<Rightarrow> f present')
           (ContextOverflow ''admitted context exceeds backend capacity'') (
         bindR (insert_attempt X (admission_body nonce backend now observed execution present' ctx capacity) st2)
           (\<lambda>(i, st3). Inr (\<lparr>att_id = i, att_present = present'\<rparr>, st3)))))))))"

definition admit ::
    "ext \<Rightarrow> store \<Rightarrow> string \<Rightarrow> string \<Rightarrow> millis \<Rightarrow> memory_policy option \<Rightarrow> fits \<Rightarrow> json \<Rightarrow> json \<Rightarrow>
     string \<Rightarrow> attempt option tx" where
  "admit X st subject backend now policy fits execution context nonce =
     bindR (validate_admission_context X context) (\<lambda>_.
     bindR (validate_execution execution) (\<lambda>_.
     bindR (if execution = JNull then Inr True
            else bindR (jat execution ''backend'') (\<lambda>b. Inr (b = JStr backend))) (\<lambda>same.
     require same ''execution backend mismatch'' (
     bindR (check_time now) (\<lambda>_.
     bindR (check_text backend 200 ''backend'') (\<lambda>_.
     bindR (snapshot st subject) (\<lambda>s.
     bindR (schedule X st subject now) (\<lambda>d.
     bindR (context_current context s d) (\<lambda>current.
     raise_unless current (Conflict ''stale admission context'') (
     case sc_occasion d of
       Some q \<Rightarrow> if sc_status d \<noteq> ''ready'' then Inr (None, st)
         else bindR (if context = JNull then Inr (JArr []) else jat context ''inputs'') (\<lambda>inputs.
              bindR (admit_ready X st s d q backend now policy fits execution inputs nonce) (\<lambda>(a, st').
              Inr (Some a, st')))
     | None \<Rightarrow> Inr (None, st)))))))))))"

section \<open>Settlement\<close>

type_synonym guard = "(string \<Rightarrow> snapshot \<Rightarrow> admission \<Rightarrow> proposal \<Rightarrow> unit res) option"

definition opt_max :: "millis \<Rightarrow> millis \<Rightarrow> millis option \<Rightarrow> millis res" where
  "opt_max now admitted elapsed = (case elapsed of None \<Rightarrow> Inr now
     | Some e \<Rightarrow> bindR (add_time admitted e) (\<lambda>t. Inr (max now t)))"

definition write_memory :: "(string \<times> json) list \<Rightarrow> jobject \<Rightarrow> jobject" where
  "write_memory ws memory = fold (\<lambda>(k, v). obj_put k v) ws memory"

definition set_head :: "string \<Rightarrow> string \<Rightarrow> int \<Rightarrow> string \<Rightarrow> jobject \<Rightarrow> millis option \<Rightarrow> millis \<Rightarrow> store \<Rightarrow> store" where
  "set_head subject old tick i memory wake now =
     update_subject subject (\<lambda>r. if su_head r = old then r\<lparr>su_tick := tick, su_head := i,
       su_memory := memory, su_wake := wake, su_accounting_wall := now\<rparr> else r)"

definition settle_committed :: "string \<Rightarrow> string \<Rightarrow> string \<Rightarrow> store \<Rightarrow> store" where
  "settle_committed attempt subject head st =
     update_attempts (\<lambda>r. at_subject r = subject \<and> at_parent r = head \<and> at_status r = Reserved)
       (\<lambda>r. r\<lparr>at_status := Superseded\<rparr>)
       (update_attempts (\<lambda>r. at_id r = attempt) (\<lambda>r. r\<lparr>at_status := Committed\<rparr>) st)"

text \<open>The second half of \<open>commit_locked\<close>: everything it writes, given the new body.\<close>

definition apply_commit ::
    "ext \<Rightarrow> store \<Rightarrow> snapshot \<Rightarrow> string \<Rightarrow> admission \<Rightarrow> transition \<Rightarrow> snapshot tx" where
  "apply_commit X st s attempt a t =
     (let subject = tr_subject t; i = hash X (commit_json (Transition t)); p = tr_proposal t;
          after = \<lparr>sn_subject = subject, sn_tick = tr_tick t, sn_head = i, sn_memory = tr_memory t,
                   sn_wake_at = tr_wake_at t, sn_lifecycle = []\<rparr>
      in bindR (memory_transition p a) (\<lambda>_.
         bindR (memory_apply X (st_memory st) subject (sn_head s) (tr_tick t) i (p_notes p)) (\<lambda>db.
         bindR (insert_commit \<lparr>co_id = i, co_subject = subject, co_tick = tr_tick t, co_body = Transition t\<rparr>
                  (st\<lparr>st_memory := db\<rparr>)) (\<lambda>st1.
         require (list_ex (\<lambda>r. su_id r = subject \<and> su_head r = sn_head s) (st_subjects st1)) ''head update failed'' (
         let st2 = set_head subject (sn_head s) (tr_tick t) i (tr_memory t) (tr_wake_at t) (tr_committed_at t) st1 in
         bindR (memory_capacity X (st_memory st2) (Some (tr_tick t)) after a) (\<lambda>_.
         require (list_ex (\<lambda>r. oc_id r = tr_occasion t \<and> oc_consumed r = None) (st_occasions st2))
           ''occasion update failed'' (
         Inr (after\<lparr>sn_lifecycle := (if tr_wake_at t \<noteq> None then ''sleeping'' else ''waiting_external'')\<rparr>,
              settle_committed attempt subject (sn_head s) (consume (tr_occasion t) i st2)))))))))"

definition commit_locked ::
    "ext \<Rightarrow> guard \<Rightarrow> store \<Rightarrow> string \<Rightarrow> proposal \<Rightarrow> millis \<Rightarrow> millis option \<Rightarrow> json \<Rightarrow> disposition option \<Rightarrow>
     snapshot tx" where
  "commit_locked X guard st attempt p now elapsed emission dispo =
     bindR (proposal_json X p) (\<lambda>pj.
     case find_attempt st attempt of None \<Rightarrow> Inl (Error ''attempt missing'')
     | Some row \<Rightarrow>
     raise_unless (at_status row = Reserved) (Conflict ''attempt already settled'') (
     let a = at_body row in
     require (hash X (admission_json a) = attempt) ''attempt hash mismatch'' (
     bindR (case dispo of None \<Rightarrow> validate_emission X emission attempt a pj
            | Some _ \<Rightarrow> require (emission = JNull) ''disposition cannot carry a model emission'' (Inr ())) (\<lambda>_.
     let subject = ad_subject a; oid = ad_occasion a in
     bindR (snapshot st subject) (\<lambda>s.
     raise_unless (sn_head s = ad_parent a \<and> sn_tick s = ad_tick a) (Conflict ''stale subject head'') (
     bindR (event_of X st oid) (\<lambda>e.
     require (ev_subject e = subject) ''foreign occasion'' (
     raise_unless (case find_occasion st oid of None \<Rightarrow> False | Some r \<Rightarrow> oc_consumed r = None \<or> oc_consumed r = Some [])
       (Conflict ''occasion already consumed'') (
     bindR (case (dispo, guard) of (None, Some g) \<Rightarrow> g subject s a p | _ \<Rightarrow> Inr ()) (\<lambda>_.
     require (sn_tick s < max_millis) ''tick exhausted'' (
     bindR (opt_max (max now (max (ad_admitted_at a) (accounting_wall st subject))) (ad_admitted_at a) elapsed) (\<lambda>at.
     let memory = write_memory (p_memory p) (sn_memory s) in
     require (length (x_dump X (JObj memory)) \<le> max_state) ''state exceeds phase-0 limit'' (
     bindR (config st subject) (\<lambda>lim.
     bindR (budget st subject lim at max_seq) (\<lambda>b.
     bindR (wake_plan lim (p_wake_after_ms p) at b) (\<lambda>plan.
     apply_commit X st s attempt a
       \<lparr>tr_schema = 5, tr_subject = subject, tr_tick = sn_tick s + 1, tr_parent = sn_head s,
        tr_occasion = oid, tr_attempt = attempt, tr_proposal = p, tr_memory = memory,
        tr_wake_at = wp_granted_at plan, tr_committed_at = at, tr_wall_observed_at = now,
        tr_wake_plan = Some plan, tr_inference_elapsed_ms = elapsed, tr_emission = emission,
        tr_disposition = dispo\<rparr>))))))))))))))))"

datatype commit_point = Before_Sql_Commit | After_Sql_Commit

text \<open>The hook may throw: before the SQL commit that rolls the transaction back, after it
  the transition stands although the caller sees the exception.\<close>

definition commit ::
    "ext \<Rightarrow> guard \<Rightarrow> (commit_point \<Rightarrow> unit res) \<Rightarrow> store \<Rightarrow> string \<Rightarrow> proposal \<Rightarrow> millis \<Rightarrow> millis option \<Rightarrow>
     json \<Rightarrow> snapshot res \<times> store" where
  "commit X guard hook st attempt p now elapsed emission =
     (case bindR (case elapsed of None \<Rightarrow> Inr () | Some e \<Rightarrow> check_time e) (\<lambda>_.
           bindR (check_time now) (\<lambda>_.
           bindR (commit_locked X guard st attempt p now elapsed emission None) (\<lambda>r.
           bindR (hook Before_Sql_Commit) (\<lambda>_. Inr r)))) of
        Inl e \<Rightarrow> (Inl e, st)
      | Inr (result, st') \<Rightarrow> (bindR (hook After_Sql_Commit) (\<lambda>_. Inr result), st'))"

definition abstention_json :: "abstention_body \<Rightarrow> json" where
  "abstention_json b = mk_obj
     [(''schema'', JStr ''cogg:abstention/v1''), (''attempt'', JStr (ab_attempt b)),
      (''subject'', JStr (ab_subject b)), (''parent'', JStr (ab_parent b)),
      (''occasion'', JStr (ab_occasion b)), (''execution'', ab_execution b),
      (''outcome'', abstention_enc (ab_outcome b)), (''provider'', ab_provider b)]"

definition abstain :: "ext \<Rightarrow> store \<Rightarrow> string \<Rightarrow> abstention \<Rightarrow> json \<Rightarrow> string tx" where
  "abstain X st attempt v provider =
     bindR (outcome_json X (Abstains v)) (\<lambda>_.
     require (is_object provider \<and> length (x_dump X provider) \<le> 8192) ''invalid provider receipt'' (
     case find_attempt st attempt of None \<Rightarrow> Inl (Error ''attempt missing'')
     | Some row \<Rightarrow>
     let a = at_body row in
     require (hash X (admission_json a) = attempt) ''attempt hash mismatch'' (
     let body = \<lparr>ab_attempt = attempt, ab_subject = ad_subject a, ab_parent = ad_parent a,
           ab_occasion = ad_occasion a, ab_execution = ad_execution a, ab_outcome = v, ab_provider = provider\<rparr>;
         i = hash X (abstention_json body)
     in case find (\<lambda>r. as_attempt r = attempt) (st_abstentions st) of
          Some old \<Rightarrow> raise_unless (as_id old = i \<and> at_status row = Abstained)
              (Conflict ''different abstention already settled'') (Inr (i, st))
        | None \<Rightarrow>
            bindR (if at_status row \<noteq> Reserved then Inr False
                   else bindR (snapshot st (ad_subject a)) (\<lambda>s. Inr (sn_head s = ad_parent a))) (\<lambda>live.
            raise_unless live (Conflict ''attempt already settled or stale'') (
            require (i \<notin> as_id ` set (st_abstentions st)) ''UNIQUE constraint failed: abstentions.id'' (
            Inr (i, update_attempts (\<lambda>r. at_id r = attempt) (\<lambda>r. r\<lparr>at_status := Abstained\<rparr>)
              (st\<lparr>st_abstentions := st_abstentions st @
                 [\<lparr>as_id = i, as_attempt = attempt, as_body = body\<rparr>]\<rparr>))))))))"

definition fail :: "store \<Rightarrow> string \<Rightarrow> string \<Rightarrow> store" where
  "fail st attempt reason = mark_failed attempt (take 1024 reason) st"

definition insert_failure :: "failure_row \<Rightarrow> store \<Rightarrow> store res" where
  "insert_failure f st =
     require (fa_attempt f \<notin> fa_attempt ` set (st_failures st)) ''UNIQUE constraint failed: occasion_failures.attempt''
       (Inr (st\<lparr>st_failures := st_failures st @ [f]\<rparr>))"

text \<open>The attempts other than \<open>attempt\<close> that failed on an occasion, oldest first.\<close>

definition prior_failures :: "store \<Rightarrow> string \<Rightarrow> string \<Rightarrow> string list" where
  "prior_failures st oid attempt = map at_id (filter (\<lambda>r. at_id r \<noteq> attempt \<and>
     list_ex (\<lambda>f. fa_attempt f = at_id r \<and> fa_occasion f = oid) (st_failures st)) (st_attempts st))"

definition task_maintenance_admission :: "admission \<Rightarrow> bool" where
  "task_maintenance_admission a =
     (case ad_context a of None \<Rightarrow> False | Some (_, view) \<Rightarrow> mv_strategy view = ''task_maintenance'')"

definition null_settlement :: "store \<Rightarrow> snapshot \<Rightarrow> event \<Rightarrow> admission \<Rightarrow> millis \<Rightarrow> proposal" where
  "null_settlement st s e a now = (case sn_wake_at s of
     None \<Rightarrow> default_proposal
   | Some wake \<Rightarrow>
       if ev_kind e \<noteq> ''scheduled'' \<and> \<not> task_maintenance_admission a
       then default_proposal\<lparr>p_wake_after_ms := Some (max 0
              (wake - max now (max (ad_admitted_at a) (accounting_wall st (ad_subject a)))))\<rparr>
       else default_proposal)"

definition dispose ::
    "ext \<Rightarrow> store \<Rightarrow> string \<Rightarrow> admission \<Rightarrow> snapshot \<Rightarrow> int \<Rightarrow> string list \<Rightarrow> string \<Rightarrow> millis \<Rightarrow> snapshot option tx" where
  "dispose X st attempt a s cap failures error now =
     bindR (event_of X st (ad_occasion a)) (\<lambda>e.
     case commit_locked X None st attempt (null_settlement st s e a now) now None JNull
            (Some \<lparr>di_limit = cap, di_failures = failures\<rparr>) of
       Inr (result, st') \<Rightarrow> Inr (Some result, st')
     | Inl (ContextOverflow m) \<Rightarrow> Inr (None, mark_failed attempt error st)
     | Inl err \<Rightarrow> Inl err)"

definition disposition_failures :: "store \<Rightarrow> string \<Rightarrow> string \<Rightarrow> int \<Rightarrow> string list" where
  "disposition_failures st oid attempt cap = take (nat (cap - 1)) (prior_failures st oid attempt) @ [attempt]"

definition may_dispose :: "store \<Rightarrow> snapshot \<Rightarrow> admission \<Rightarrow> int \<Rightarrow> string list \<Rightarrow> bool" where
  "may_dispose st s a cap failures \<longleftrightarrow> cap > 0 \<and> int (length failures) \<ge> cap \<and> sn_head s = ad_parent a \<and>
     (case find_occasion st (ad_occasion a) of None \<Rightarrow> True
      | Some r \<Rightarrow> oc_consumed r = None \<or> oc_consumed r = Some [])"

definition fail_occasion ::
    "ext \<Rightarrow> store \<Rightarrow> string \<Rightarrow> admission \<Rightarrow> int \<Rightarrow> string \<Rightarrow> millis \<Rightarrow> snapshot option tx" where
  "fail_occasion X st attempt a cap error now =
     bindR (insert_failure \<lparr>fa_attempt = attempt, fa_occasion = ad_occasion a, fa_reason = error\<rparr> st) (\<lambda>st1.
     let failures = disposition_failures st1 (ad_occasion a) attempt cap in
     bindR (snapshot st1 (ad_subject a)) (\<lambda>s.
     if may_dispose st1 s a cap failures then dispose X st1 attempt a s cap failures error now
     else Inr (None, mark_failed attempt error st1)))"

definition fail_scoped ::
    "ext \<Rightarrow> store \<Rightarrow> string \<Rightarrow> string \<Rightarrow> failure_scope \<Rightarrow> millis \<Rightarrow> snapshot option tx" where
  "fail_scoped X st attempt reason scope now =
     bindR (check_time now) (\<lambda>_.
     let error = take 1024 reason in
     case find_attempt st attempt of None \<Rightarrow> Inl (Error ''attempt missing'')
     | Some row \<Rightarrow>
     if at_status row \<noteq> Reserved then Inr (None, st) else
     let a = at_body row in
     require (hash X (admission_json a) = attempt) ''attempt hash mismatch'' (
     if scope = Transient then Inr (None, mark_failed attempt error st) else
     bindR (config st (ad_subject a)) (\<lambda>lim.
     if max_occasion_failures lim = 0 then Inr (None, mark_failed attempt error st)
     else fail_occasion X st attempt a (max_occasion_failures lim) error now)))"

end
