(* ===== verification/Cogg_Verify.thy ===== *)
theory Cogg_Verify
  imports Cogg_Kernel
begin

text \<open>
  The verifier: \<open>Store::verify_impl\<close>, \<open>verify_head\<close> and the reads that call them, of
  \<^verbatim>\<open>src/kernel.cpp\<close>, and \<open>memory_verify\<close> of \<^verbatim>\<open>src/memory.cpp\<close>. Nothing
  about the tables is assumed: the verifier is run on any store, also one written by
  another program. \<open>sqlite_ok\<close> stands for the result of \<^verbatim>\<open>PRAGMA integrity_check\<close>,
  which reads the file and not the rows; \<^verbatim>\<open>PRAGMA foreign_key_check\<close> is
  \<open>foreign_keys_ok\<close>. Bodies are records, so a field that every body of a schema has is
  present by construction; the checks of optional fields are kept.
\<close>

section \<open>Loading and database checks\<close>

definition foreign_keys_ok :: "store \<Rightarrow> bool" where
  "foreign_keys_ok st \<longleftrightarrow>
     list_all (\<lambda>r. oc_subject r \<in> su_id ` set (st_subjects st)) (st_occasions st) \<and>
     list_all (\<lambda>r. at_subject r \<in> su_id ` set (st_subjects st) \<and> at_occasion r \<in> oc_id ` set (st_occasions st)) (st_attempts st) \<and>
     list_all (\<lambda>r. co_subject r \<in> su_id ` set (st_subjects st)) (st_commits st) \<and>
     list_all (\<lambda>r. as_attempt r \<in> at_id ` set (st_attempts st)) (st_abstentions st) \<and>
     list_all (\<lambda>r. fa_attempt r \<in> at_id ` set (st_attempts st) \<and> fa_occasion r \<in> oc_id ` set (st_occasions st)) (st_failures st) \<and>
     list_all (\<lambda>e. me_subject e \<in> su_id ` set (st_subjects st)) (md_entries (st_memory st))"

definition attempts_by_seq :: "store \<Rightarrow> string \<Rightarrow> attempt_row list" where
  "attempts_by_seq st subject = sort_key at_seq (subject_attempts st subject)"

fun load_history :: "budget_history \<Rightarrow> attempt_row list \<Rightarrow> budget_history res" where
  "load_history h [] = Inr h"
| "load_history h (r # rs) =
     require (at_admitted_at r \<ge> 0 \<and> (bh_at h = [] \<or> at_admitted_at r \<ge> last (bh_at h)))
       ''nonmonotonic admission clock''
       (load_history \<lparr>bh_seq = bh_seq h @ [at_seq r], bh_at = bh_at h @ [at_admitted_at r]\<rparr> rs)"

section \<open>The commit chain\<close>

record replay =
  vs_memory :: jobject
  vs_wake :: "millis option"
  vs_head :: string
  vs_tick :: int
  vs_chain :: "(string \<times> int) list"
  vs_disposed :: "string list"
  vs_wall :: millis

definition replay_start :: replay where
  "replay_start = \<lparr>vs_memory = [], vs_wake = None, vs_head = [], vs_tick = 0, vs_chain = [],
     vs_disposed = [], vs_wall = 0\<rparr>"

definition in_chain :: "replay \<Rightarrow> string \<Rightarrow> bool" where
  "in_chain v i \<longleftrightarrow> i \<in> fst ` set (vs_chain v)"

definition verify_genesis :: "ext \<Rightarrow> limits \<Rightarrow> genesis \<Rightarrow> replay \<Rightarrow> replay res" where
  "verify_genesis X lim g v =
     bindR (check_time (ge_created_at g)) (\<lambda>_.
     require (length (x_dump X (JObj (ge_memory g))) \<le> max_state) ''invalid genesis memory'' (
     require (ge_limits g = lim) ''genesis mismatch'' (
     Inr (v\<lparr>vs_wall := ge_created_at g, vs_memory := ge_memory g\<rparr>))))"

text \<open>The row an occasion failure joins with the attempt it names.\<close>

definition failure_join :: "store \<Rightarrow> string \<Rightarrow> string \<Rightarrow> (failure_row \<times> attempt_row) option" where
  "failure_join st subject i =
     (case find (\<lambda>f. fa_attempt f = i) (st_failures st) of None \<Rightarrow> None
      | Some f \<Rightarrow> map_option (Pair f) (find (\<lambda>a. at_id a = i \<and> at_subject a = subject) (st_attempts st)))"

fun check_listed :: "store \<Rightarrow> string \<Rightarrow> string \<Rightarrow> string \<Rightarrow> string list \<Rightarrow> string list \<Rightarrow> unit res" where
  "check_listed st subject oid aid seen [] = Inr ()"
| "check_listed st subject oid aid seen (i # is) =
     require (i \<notin> set seen) ''duplicate disposition failure'' (
     require (case failure_join st subject i of None \<Rightarrow> False
              | Some (f, a) \<Rightarrow> at_occasion a = oid \<and> fa_occasion f = oid \<and>
                  at_status a = (if i = aid then Committed else Failed))
       ''disposition failure provenance mismatch'' (
     check_listed st subject oid aid (i # seen) is))"

definition verify_disposition :: "store \<Rightarrow> string \<Rightarrow> limits \<Rightarrow> transition \<Rightarrow> disposition \<Rightarrow> unit res" where
  "verify_disposition st subject lim t d =
     (let cap = max_occasion_failures lim; p = tr_proposal t in
      require (cap > 0 \<and> di_limit d = cap \<and> int (length (di_failures d)) = cap \<and> last (di_failures d) = tr_attempt t)
        ''disposition integrity failure'' (
      require (tr_emission t = JNull \<and> p_kind p = ''null'' \<and> p_memory p = [] \<and> p_notes p = [] \<and>
          tr_inference_elapsed_ms t = None) ''disposition carries transition content'' (
      check_listed st subject (tr_occasion t) (tr_attempt t) [] (di_failures d))))"

definition verify_occasion_link :: "ext \<Rightarrow> store \<Rightarrow> string \<Rightarrow> replay \<Rightarrow> string \<Rightarrow> transition \<Rightarrow> unit res" where
  "verify_occasion_link X st subject v cid t =
     bindR (event_of X st (tr_occasion t)) (\<lambda>e.
     require (ev_subject e = subject \<and> (\<exists>p. ev_parents e = [p]) \<and> in_chain v (hd (ev_parents e)))
       ''unknown event parent'' (
     require (case find_occasion st (tr_occasion t) of None \<Rightarrow> False | Some r \<Rightarrow> oc_consumed r = Some cid)
       ''occasion settlement mismatch'' (Inr ())))"

definition verify_attempt_link :: "ext \<Rightarrow> store \<Rightarrow> string \<Rightarrow> replay \<Rightarrow> transition \<Rightarrow> admission res" where
  "verify_attempt_link X st subject v t =
     (case find_attempt st (tr_attempt t) of None \<Rightarrow> Inl (Error ''missing committed attempt'')
      | Some row \<Rightarrow> let a = at_body row in
          require (hash X (admission_json a) = tr_attempt t \<and> ad_subject a = subject \<and> ad_parent a = vs_head v \<and>
              ad_tick a = vs_tick v - 1 \<and> ad_occasion a = tr_occasion t \<and> at_status row = Committed)
            ''attempt provenance mismatch'' (Inr a))"

definition verify_times :: "replay \<Rightarrow> admission \<Rightarrow> transition \<Rightarrow> unit res" where
  "verify_times v a t =
     require (tr_committed_at t \<ge> ad_admitted_at a \<and> tr_committed_at t \<ge> vs_wall v)
       ''commit precedes admission or predecessor'' (
     case tr_inference_elapsed_ms t of None \<Rightarrow> Inr ()
     | Some e \<Rightarrow> bindR (check_time e) (\<lambda>_. bindR (add_time (ad_admitted_at a) e) (\<lambda>least.
         require (tr_committed_at t \<ge> least) ''inference elapsed mismatch'' (Inr ()))))"

definition verify_wake :: "limits \<Rightarrow> budget_history \<Rightarrow> transition \<Rightarrow> millis option res" where
  "verify_wake lim h t =
     (let at = tr_committed_at t; p = tr_proposal t in
      if tr_schema t = 1
      then (case p_wake_after_ms p of None \<Rightarrow> Inr None
            | Some d \<Rightarrow> bindR (add_time at (max d (min_wake_ms lim))) (\<lambda>w. Inr (Some w)))
      else (case tr_wake_plan t of None \<Rightarrow> Inl JsonException
            | Some saved \<Rightarrow>
                bindR (budget_indexed lim h at (bg_through_seq (wp_budget saved))) (\<lambda>b.
                bindR (wake_plan lim (p_wake_after_ms p) at b) (\<lambda>again.
                require (saved = again) ''wake decision replay mismatch'' (Inr (wp_granted_at again))))))"

definition verify_transition ::
    "ext \<Rightarrow> store \<Rightarrow> string \<Rightarrow> limits \<Rightarrow> budget_history \<Rightarrow> string \<Rightarrow> transition \<Rightarrow> replay \<Rightarrow> replay res" where
  "verify_transition X st subject lim h cid t v =
     require (tr_parent t = vs_head v) ''broken commit parent'' (
     bindR (verify_occasion_link X st subject v cid t) (\<lambda>_.
     bindR (verify_attempt_link X st subject v t) (\<lambda>a.
     bindR (validate X (tr_proposal t)) (\<lambda>_.
     bindR (case tr_disposition t of
              None \<Rightarrow> bindR (validate_emission X (tr_emission t) (tr_attempt t) a (proposal_enc (tr_proposal t))) (\<lambda>_. Inr [])
            | Some d \<Rightarrow> bindR (verify_disposition st subject lim t d) (\<lambda>_. Inr [tr_attempt t])) (\<lambda>disposed.
     let memory = write_memory (p_memory (tr_proposal t)) (vs_memory v) in
     require (tr_memory t = memory) ''memory replay mismatch'' (
     bindR (verify_times v a t) (\<lambda>_.
     bindR (verify_wake lim h t) (\<lambda>wake.
     require (tr_wake_at t = wake) ''wake replay mismatch'' (
     Inr (v\<lparr>vs_memory := memory, vs_wake := wake, vs_disposed := disposed @ vs_disposed v,
           vs_wall := tr_committed_at t\<rparr>))))))))))"

definition verify_commit ::
    "ext \<Rightarrow> store \<Rightarrow> string \<Rightarrow> limits \<Rightarrow> budget_history \<Rightarrow> commit_row \<Rightarrow> replay \<Rightarrow> replay res" where
  "verify_commit X st subject lim h row v =
     (let b = co_body row in
      require (co_tick row = vs_tick v \<and> cb_tick b = vs_tick v \<and> cb_subject b = subject \<and>
          cb_schema b \<in> {1, 2, 3, 4, 5} \<and> hash X (commit_json b) = co_id row) ''commit integrity failure'' (
      bindR (if vs_tick v = 0
             then (case b of Genesis g \<Rightarrow> verify_genesis X lim g v | Transition t \<Rightarrow> Inl JsonException)
             else (case b of Genesis g \<Rightarrow> Inl (Error ''broken commit parent'')
                   | Transition t \<Rightarrow> verify_transition X st subject lim h (co_id row) t v)) (\<lambda>w.
      Inr (w\<lparr>vs_head := co_id row, vs_chain := vs_chain v @ [(co_id row, vs_tick v)], vs_tick := vs_tick v + 1\<rparr>))))"

fun verify_commits ::
    "ext \<Rightarrow> store \<Rightarrow> string \<Rightarrow> limits \<Rightarrow> budget_history \<Rightarrow> commit_row list \<Rightarrow> replay \<Rightarrow> replay res" where
  "verify_commits X st subject lim h [] v = Inr v"
| "verify_commits X st subject lim h (c # cs) v =
     bindR (verify_commit X st subject lim h c v) (verify_commits X st subject lim h cs)"

section \<open>Occasions, attempts, abstentions and failures\<close>

definition verify_occasion :: "ext \<Rightarrow> string \<Rightarrow> replay \<Rightarrow> occasion_row \<Rightarrow> unit res" where
  "verify_occasion X subject v r =
     (let e = oc_body r in
      require (hash X (event_json e) = oc_id r \<and> ev_subject e = subject \<and> ev_key e = oc_key r \<and>
          ev_kind e = oc_kind r \<and> ev_parents e = [oc_parent r] \<and> in_chain v (oc_parent r)) ''occasion index mismatch'' (
      require (case oc_consumed r of None \<Rightarrow> True | Some c \<Rightarrow> c = [] \<or> in_chain v c) ''missing consuming commit'' (Inr ())))"

definition verify_admission_replay ::
    "limits \<Rightarrow> budget_history \<Rightarrow> json \<Rightarrow> replay \<Rightarrow> attempt_row \<Rightarrow> event \<Rightarrow> unit res" where
  "verify_admission_replay lim h ck v r e =
     (let a = at_body r; at = at_admitted_at r in
      bindR (budget_indexed lim h at (at_seq r - 1)) (\<lambda>expected.
      require (expected = sc_budget (te_admission (ad_temporal a)) \<and> bg_eligible_at expected \<le> at)
        ''admission budget replay mismatch'' (
      require (te_clock (ad_temporal a) = ck \<and> te_coordinate (ad_temporal a) = ad_tick a) ''admission clock mismatch'' (
      require (map_of (vs_chain v) (at_parent r) = Some (ad_tick a)) ''admission coordinate mismatch'' (
      if ev_kind e = ''scheduled''
      then bindR (bindR (jat (ev_payload e) ''due_at'') get_int) (\<lambda>due.
           require (ad_wall_observed_at a \<ge> due) ''scheduled wake admitted before physical deadline'' (Inr ()))
      else Inr ())))))"

definition verify_abstention :: "ext \<Rightarrow> store \<Rightarrow> string \<Rightarrow> attempt_row \<Rightarrow> unit res" where
  "verify_abstention X st subject r =
     (let a = at_body r; found = find (\<lambda>o'. as_attempt o' = at_id r) (st_abstentions st) in
      require ((found \<noteq> None) = (at_status r = Abstained)) ''abstention settlement mismatch'' (
      case found of None \<Rightarrow> Inr ()
      | Some o' \<Rightarrow> let b = as_body o' in
          require (hash X (abstention_json b) = as_id o' \<and> ab_attempt b = at_id r \<and> ab_subject b = subject \<and>
              ab_parent b = ad_parent a \<and> ab_occasion b = ad_occasion a \<and> ab_execution b = ad_execution a \<and>
              is_object (ab_provider b) \<and> length (x_dump X (ab_provider b)) \<le> 8192) ''abstention integrity failure'' (
          bindR (parse_outcome X (abstention_enc (ab_outcome b))) (\<lambda>v.
          require (case v of Abstains _ \<Rightarrow> True | Participates _ \<Rightarrow> False) ''abstention integrity failure'' (
          require (\<not> list_ex (\<lambda>c. co_subject c = subject \<and>
              (case co_body c of Transition t \<Rightarrow> tr_attempt t = at_id r | Genesis g \<Rightarrow> False)) (st_commits st))
            ''abstained attempt committed'' (Inr ()))))))"

definition verify_attempt ::
    "ext \<Rightarrow> store \<Rightarrow> string \<Rightarrow> limits \<Rightarrow> budget_history \<Rightarrow> json \<Rightarrow> replay \<Rightarrow> millis \<Rightarrow> attempt_row \<Rightarrow> millis res" where
  "verify_attempt X st subject lim h ck v previous r =
     (let a = at_body r in
      require (hash X (admission_json a) = at_id r \<and> ad_subject a = subject \<and> ad_parent a = at_parent r \<and>
          ad_occasion a = at_occasion r \<and> ad_admitted_at a = at_admitted_at r \<and> in_chain v (at_parent r) \<and>
          at_admitted_at r \<ge> previous) ''admission integrity failure'' (
      require (1 \<le> ad_schema a \<and> ad_schema a \<le> 5) ''unsupported admission schema'' (
      bindR (validate_execution (ad_execution a)) (\<lambda>_.
      bindR (if ad_execution a = JNull then Inr ()
             else bindR (jat (ad_execution a) ''backend'') (\<lambda>b.
                  require (b = JStr (ad_backend a)) ''admission backend mismatch'' (Inr ()))) (\<lambda>_.
      bindR (if ad_schema a \<ge> 5 then validate_inputs X (ad_inputs a) else Inr ()) (\<lambda>_.
      bindR (event_of X st (at_occasion r)) (\<lambda>e.
      require (ev_subject e = subject) ''foreign admitted occasion'' (
      bindR (if ad_schema a \<ge> 2 then verify_admission_replay lim h ck v r e else Inr ()) (\<lambda>_.
      bindR (verify_abstention X st subject r) (\<lambda>_.
      Inr (at_admitted_at r)))))))))))"

fun verify_attempts ::
    "ext \<Rightarrow> store \<Rightarrow> string \<Rightarrow> limits \<Rightarrow> budget_history \<Rightarrow> json \<Rightarrow> replay \<Rightarrow> millis \<Rightarrow> attempt_row list \<Rightarrow> millis res" where
  "verify_attempts X st subject lim h ck v previous [] = Inr previous"
| "verify_attempts X st subject lim h ck v previous (r # rs) =
     bindR (verify_attempt X st subject lim h ck v previous r) (\<lambda>t. verify_attempts X st subject lim h ck v t rs)"

definition verify_failures :: "store \<Rightarrow> string \<Rightarrow> replay \<Rightarrow> bool" where
  "verify_failures st subject v \<longleftrightarrow> list_all (\<lambda>f. list_all (\<lambda>a.
     at_id a = fa_attempt f \<and> at_subject a = subject \<longrightarrow> fa_occasion f = at_occasion a \<and>
       (at_status a = Failed \<or> at_status a = Committed \<and> fa_attempt f \<in> set (vs_disposed v)))
     (st_attempts st)) (st_failures st)"

section \<open>The typed index\<close>

fun memory_replay :: "ext \<Rightarrow> store \<Rightarrow> string \<Rightarrow> memory_db \<Rightarrow> commit_row list \<Rightarrow> memory_db res" where
  "memory_replay X st subject db [] = Inr db"
| "memory_replay X st subject db (c # cs) =
     (case co_body c of
        Genesis g \<Rightarrow> memory_replay X st subject db cs
      | Transition t \<Rightarrow>
          bindR (validate X (tr_proposal t)) (\<lambda>_.
          case find_attempt st (tr_attempt t) of None \<Rightarrow> Inl (Error ''missing memory admission'')
          | Some r \<Rightarrow>
          bindR (memory_transition (tr_proposal t) (at_body r)) (\<lambda>_.
          bindR (memory_apply X db subject (tr_parent t) (tr_tick t) (co_id c) (p_notes (tr_proposal t))) (\<lambda>db'.
          bindR (memory_capacity X db' (Some (tr_tick t)) \<lparr>sn_subject = subject, sn_tick = tr_tick t,
              sn_head = co_id c, sn_memory = tr_memory t, sn_wake_at = None, sn_lifecycle = []\<rparr> (at_body r)) (\<lambda>_.
          memory_replay X st subject db' cs)))))"

definition link_key :: "link_row \<Rightarrow> string \<times> string" where
  "link_key l = (ml_note l, ml_source l)"

definition index_agrees :: "string \<Rightarrow> memory_db \<Rightarrow> memory_db \<Rightarrow> bool" where
  "index_agrees subject db raw \<longleftrightarrow>
     sort_key me_id (filter (\<lambda>e. me_subject e = subject) (md_entries db)) =
       sort_key me_id (filter (\<lambda>e. me_subject e = subject) (md_entries raw)) \<and>
     sort_key link_key (filter (\<lambda>l. ml_subject l = subject) (md_links db)) =
       sort_key link_key (filter (\<lambda>l. ml_subject l = subject) (md_links raw)) \<and>
     sort_key ft_id (filter (\<lambda>f. ft_subject f = subject) (md_fts db)) =
       sort_key ft_id (filter (\<lambda>f. ft_subject f = subject) (md_fts raw))"

fun check_view_items :: "memory_db \<Rightarrow> string \<Rightarrow> int \<Rightarrow> string list \<Rightarrow> wire list \<Rightarrow> unit res" where
  "check_view_items raw subject at seen [] = Inr ()"
| "check_view_items raw subject at seen (w # ws) =
     require (w_id w \<notin> set seen) ''duplicate context source'' (
     bindR (memory_get raw subject (w_id w)) (\<lambda>b.
     require (de_tick b \<le> at) ''context memory source mismatch'' (
     bindR (wire_at raw subject at b) (\<lambda>w'.
     require (w' = w) ''context memory source mismatch'' (
     check_view_items raw subject at (w_id w # seen) ws)))))"

definition verify_context :: "ext \<Rightarrow> store \<Rightarrow> string \<Rightarrow> memory_db \<Rightarrow> attempt_row \<Rightarrow> unit res" where
  "verify_context X st subject raw r =
     (let a = at_body r in case ad_context a of None \<Rightarrow> Inr ()
      | Some (memory, view) \<Rightarrow>
         (case find_commit st (ad_parent a) of None \<Rightarrow> Inl (Error ''missing context parent'')
          | Some c \<Rightarrow>
              require (list_all (\<lambda>(k, x). map_of (cb_memory (co_body c)) k = Some x) memory)
                ''context legacy source mismatch'' (
              require (mv_head view = ad_parent a) ''context head mismatch'' (
              bindR (check_view_items raw subject (ad_tick a) [] (mv_items view)) (\<lambda>_.
              require (length (x_dump X (context_json (memory, view))) \<le> mv_max_bytes view)
                ''context byte budget mismatch'' (
              require (length (mv_items view) + length memory \<le> mv_max_items view)
                ''context item budget mismatch'' (Inr ())))))))"

fun verify_contexts :: "ext \<Rightarrow> store \<Rightarrow> string \<Rightarrow> memory_db \<Rightarrow> attempt_row list \<Rightarrow> unit res" where
  "verify_contexts X st subject raw [] = Inr ()"
| "verify_contexts X st subject raw (r # rs) =
     bindR (verify_context X st subject raw r) (\<lambda>_. verify_contexts X st subject raw rs)"

definition memory_verify :: "ext \<Rightarrow> store \<Rightarrow> string \<Rightarrow> bool \<Rightarrow> unit res" where
  "memory_verify X st subject compare =
     bindR (memory_replay X st subject empty_memory (subject_commits st subject)) (\<lambda>raw.
     require (compare \<longrightarrow> index_agrees subject (st_memory st) raw)
       ''memory index differs from history; rebuild required'' (
     verify_contexts X st subject raw (attempts_by_seq st subject)))"

section \<open>verify, verify_head and the verified reads\<close>

definition verify_rows :: "ext \<Rightarrow> store \<Rightarrow> string \<Rightarrow> limits \<Rightarrow> budget_history \<Rightarrow> replay \<Rightarrow> snapshot \<Rightarrow> unit res" where
  "verify_rows X st subject lim h v s =
     require (vs_tick v > 0 \<and> sn_tick s = vs_tick v - 1 \<and> sn_head s = vs_head v \<and> sn_memory s = vs_memory v \<and>
         sn_wake_at s = vs_wake v) ''subject projection differs from committed history'' (
     bindR (clock st subject) (\<lambda>ck.
     bindR (mapR (verify_occasion X subject v) (filter (\<lambda>r. oc_subject r = subject) (st_occasions st))) (\<lambda>_.
     bindR (verify_attempts X st subject lim h ck v (- 1) (attempts_by_seq st subject)) (\<lambda>previous.
     require (verify_failures st subject v) ''occasion failure index mismatch'' (
     require (accounting_wall st subject = max (vs_wall v) previous) ''accounting projection mismatch'' (Inr ()))))))"

definition verify_impl :: "ext \<Rightarrow> bool \<Rightarrow> store \<Rightarrow> string \<Rightarrow> bool \<Rightarrow> unit res" where
  "verify_impl X sqlite_ok st subject compare =
     require sqlite_ok ''SQLite integrity failure'' (
     require (foreign_keys_ok st) ''foreign key failure'' (
     bindR (snapshot st subject) (\<lambda>s.
     bindR (config st subject) (\<lambda>lim.
     bindR (load_history \<lparr>bh_seq = [], bh_at = []\<rparr> (attempts_by_seq st subject)) (\<lambda>h.
     bindR (verify_commits X st subject lim h (subject_commits st subject) replay_start) (\<lambda>v.
     bindR (verify_rows X st subject lim h v s) (\<lambda>_.
     memory_verify X st subject compare)))))))"

definition verify :: "ext \<Rightarrow> bool \<Rightarrow> store \<Rightarrow> string \<Rightarrow> unit res" where
  "verify X sqlite_ok st subject = verify_impl X sqlite_ok st subject True"

definition head_commit :: "store \<Rightarrow> string \<Rightarrow> string \<Rightarrow> commit_row option" where
  "head_commit st subject i = find (\<lambda>c. co_id c = i \<and> co_subject c = subject) (st_commits st)"

definition verify_head :: "ext \<Rightarrow> store \<Rightarrow> string \<Rightarrow> unit res" where
  "verify_head X st subject =
     bindR (snapshot st subject) (\<lambda>s.
     case head_commit st subject (sn_head s) of None \<Rightarrow> Inl (Error ''head commit missing'')
     | Some c \<Rightarrow> let b = co_body c in
         require (co_tick c = sn_tick s \<and> cb_tick b = sn_tick s \<and> cb_subject b = subject \<and>
             hash X (commit_json b) = sn_head s \<and> cb_memory b = sn_memory s \<and> cb_wake_at b = sn_wake_at s)
           ''head commit projection mismatch'' (
         if sn_tick s > 0
         then (case b of Genesis g \<Rightarrow> Inl JsonException
           | Transition t \<Rightarrow>
               require (case head_commit st subject (tr_parent t) of None \<Rightarrow> False | Some p \<Rightarrow> co_tick p = sn_tick s - 1)
                 ''head parent link mismatch'' (
               require (case find (\<lambda>a. at_id a = tr_attempt t \<and> at_subject a = subject) (st_attempts st) of None \<Rightarrow> False
                        | Some a \<Rightarrow> at_status a = Committed \<and> at_parent a = tr_parent t) ''head attempt mismatch'' (Inr ())))
         else Inr ()))"

definition duration :: "ext \<Rightarrow> bool \<Rightarrow> store \<Rightarrow> string \<Rightarrow> string \<Rightarrow> string \<Rightarrow> int res" where
  "duration X sqlite_ok st subject from to =
     bindR (verify X sqlite_ok st subject) (\<lambda>_.
     bindR (record_of X st from) (\<lambda>a. bindR (record_of X st to) (\<lambda>b.
     require (cb_subject a = subject \<and> cb_subject b = subject) ''foreign clock anchor'' (
     require (cb_tick a \<le> cb_tick b) ''reversed clock window'' (
     bindR (clock st subject) (\<lambda>_. Inr (cb_tick b - cb_tick a)))))))"

definition recall :: "ext \<Rightarrow> bool \<Rightarrow> store \<Rightarrow> string \<Rightarrow> memory_policy \<Rightarrow> present res" where
  "recall X sqlite_ok st subject policy =
     bindR (verify X sqlite_ok st subject) (\<lambda>_.
     bindR (snapshot st subject) (\<lambda>s.
     bindR (memory_candidates X (st_memory st) (Some (sn_tick s)) subject policy) (\<lambda>ca.
     project_memory X \<lparr>pr_state = s, pr_occasion = \<lparr>o_id = [], o_kind = [], o_payload = JNull\<rparr>,
       pr_prior_unsettled = False, pr_temporal = no_temporal, pr_working_memory = None, pr_memory_view = None,
       pr_inputs = JArr []\<rparr> ca policy None)))"

definition memory_record :: "ext \<Rightarrow> bool \<Rightarrow> store \<Rightarrow> string \<Rightarrow> string \<Rightarrow> deposit res" where
  "memory_record X sqlite_ok st subject i =
     bindR (verify X sqlite_ok st subject) (\<lambda>_. memory_get (st_memory st) subject i)"

text \<open>The transaction of the rebuild is committed before the last verification, so its
  effect stands also when that fails.\<close>

definition rebuild_memory :: "ext \<Rightarrow> bool \<Rightarrow> store \<Rightarrow> string \<Rightarrow> unit res \<times> store" where
  "rebuild_memory X sqlite_ok st subject =
     (case verify_impl X sqlite_ok st subject False of Inl e \<Rightarrow> (Inl e, st)
      | Inr _ \<Rightarrow> (case memory_rebuild X st subject of Inl e \<Rightarrow> (Inl e, st)
          | Inr db \<Rightarrow> let st' = st\<lparr>st_memory := db\<rparr> in (verify X sqlite_ok st' subject, st')))"

end
