(* ===== verification/Cogg_Ledger.thy ===== *)
theory Cogg_Ledger
  imports Cogg_Kernel
begin

text \<open>
  The abstract ledger behind \<open>Store\<close>: six kinds of atomic step on the tables, each with
  its full precondition, and the proof that every operation of \<open>Cogg_Kernel\<close> is a sequence
  of such steps. Invariants of the ledger are proved over the steps, once per invariant,
  and hold in every store the operations can reach.
\<close>

section \<open>What the row updates do\<close>

lemma update_subject_simps [simp]:
  "st_subjects (update_subject s f st) = map (\<lambda>r. if su_id r = s then f r else r) (st_subjects st)"
  "st_occasions (update_subject s f st) = st_occasions st"
  "st_occasion_seq (update_subject s f st) = st_occasion_seq st"
  "st_attempts (update_subject s f st) = st_attempts st"
  "st_attempt_seq (update_subject s f st) = st_attempt_seq st"
  "st_commits (update_subject s f st) = st_commits st"
  "st_abstentions (update_subject s f st) = st_abstentions st"
  "st_failures (update_subject s f st) = st_failures st"
  "st_memory (update_subject s f st) = st_memory st"
  by (simp_all add: update_subject_def)

lemma update_attempts_simps [simp]:
  "st_subjects (update_attempts P g st) = st_subjects st"
  "st_occasions (update_attempts P g st) = st_occasions st"
  "st_occasion_seq (update_attempts P g st) = st_occasion_seq st"
  "st_attempts (update_attempts P g st) = map (\<lambda>r. if P r then g r else r) (st_attempts st)"
  "st_attempt_seq (update_attempts P g st) = st_attempt_seq st"
  "st_commits (update_attempts P g st) = st_commits st"
  "st_abstentions (update_attempts P g st) = st_abstentions st"
  "st_failures (update_attempts P g st) = st_failures st"
  "st_memory (update_attempts P g st) = st_memory st"
  by (simp_all add: update_attempts_def)

lemma consume_simps [simp]:
  "st_subjects (consume q c st) = st_subjects st"
  "st_occasions (consume q c st) = map (\<lambda>r. if oc_id r = q \<and> oc_consumed r = None
     then r\<lparr>oc_consumed := Some c\<rparr> else r) (st_occasions st)"
  "st_occasion_seq (consume q c st) = st_occasion_seq st"
  "st_attempts (consume q c st) = st_attempts st"
  "st_attempt_seq (consume q c st) = st_attempt_seq st"
  "st_commits (consume q c st) = st_commits st"
  "st_abstentions (consume q c st) = st_abstentions st"
  "st_failures (consume q c st) = st_failures st"
  "st_memory (consume q c st) = st_memory st"
  by (simp_all add: consume_def)

lemma find_subject_Some: "find_subject st s = Some r \<Longrightarrow> r \<in> set (st_subjects st) \<and> su_id r = s"
  by (simp add: find_subject_def) (drule find_Some_mem, simp)

lemma find_attempt_Some: "find_attempt st i = Some r \<Longrightarrow> r \<in> set (st_attempts st) \<and> at_id r = i"
  by (simp add: find_attempt_def) (drule find_Some_mem, simp)

lemma find_occasion_Some: "find_occasion st i = Some r \<Longrightarrow> r \<in> set (st_occasions st) \<and> oc_id r = i"
  by (simp add: find_occasion_def) (drule find_Some_mem, simp)

lemma row_snapshot_simps [simp]:
  "sn_subject (row_snapshot r) = su_id r" "sn_tick (row_snapshot r) = su_tick r"
  "sn_head (row_snapshot r) = su_head r" "sn_memory (row_snapshot r) = su_memory r"
  "sn_wake_at (row_snapshot r) = su_wake r"
  by (simp_all add: row_snapshot_def)

lemma accounting_wall_Some: "find_subject st s = Some r \<Longrightarrow> accounting_wall st s = su_accounting_wall r"
  by (simp add: accounting_wall_def)

lemma snapshot_Inr [res_simps]:
  "(snapshot st s = Inr sn) = (\<exists>r. find_subject st s = Some r \<and> sn = row_snapshot r)"
  by (auto simp: snapshot_def split: option.splits)

lemma config_Inr [res_simps]: "(config st s = Inr lim) = (\<exists>r. find_subject st s = Some r \<and> lim = su_limits r)"
  by (auto simp: config_def split: option.splits)

lemma event_of_Inr [res_simps]:
  "(event_of X st i = Inr e) = (\<exists>q. find_occasion st i = Some q \<and> hash X (event_json (oc_body q)) = i \<and> e = oc_body q)"
  by (auto simp: event_of_def res_simps split: option.splits)

section \<open>Steps\<close>

definition genesis_row :: "ext \<Rightarrow> genesis \<Rightarrow> commit_row" where
  "genesis_row X g = \<lparr>co_id = hash X (commit_json (Genesis g)), co_subject = ge_subject g, co_tick = 0,
     co_body = Genesis g\<rparr>"

definition transition_row :: "ext \<Rightarrow> transition \<Rightarrow> commit_row" where
  "transition_row X t = \<lparr>co_id = hash X (commit_json (Transition t)), co_subject = tr_subject t,
     co_tick = tr_tick t, co_body = Transition t\<rparr>"

definition initial_subject :: "ext \<Rightarrow> genesis \<Rightarrow> subject_row" where
  "initial_subject X g = \<lparr>su_id = ge_subject g, su_tick = 0, su_head = co_id (genesis_row X g),
     su_memory = ge_memory g, su_wake = None, su_limits = ge_limits g, su_accounting_wall = ge_created_at g\<rparr>"

definition fresh_commit :: "store \<Rightarrow> commit_row \<Rightarrow> bool" where
  "fresh_commit st c \<longleftrightarrow> co_id c \<notin> co_id ` set (st_commits st) \<and>
     (co_subject c, co_tick c) \<notin> (\<lambda>r. (co_subject r, co_tick r)) ` set (st_commits st)"

definition occasion_for :: "ext \<Rightarrow> event \<Rightarrow> string \<Rightarrow> int \<Rightarrow> occasion_row" where
  "occasion_for X e head seq = \<lparr>oc_seq = seq, oc_id = hash X (event_json e), oc_subject = ev_subject e,
     oc_key = ev_key e, oc_kind = ev_kind e, oc_parent = head, oc_body = e, oc_consumed = None\<rparr>"

definition attempt_for :: "ext \<Rightarrow> admission \<Rightarrow> int \<Rightarrow> attempt_row" where
  "attempt_for X a seq = \<lparr>at_seq = seq, at_id = hash X (admission_json a), at_subject = ad_subject a,
     at_parent = ad_parent a, at_occasion = ad_occasion a, at_admitted_at = ad_admitted_at a,
     at_body = a, at_status = Reserved, at_error = []\<rparr>"

text \<open>What makes a transition \<open>t\<close> admissible for the reserved attempt \<open>row\<close> of the subject
  \<open>r\<close> on the occasion \<open>q\<close>, with \<open>db\<close> the memory index it leaves.\<close>

definition transition_ok ::
    "ext \<Rightarrow> store \<Rightarrow> attempt_row \<Rightarrow> subject_row \<Rightarrow> occasion_row \<Rightarrow> transition \<Rightarrow> memory_db \<Rightarrow> bool" where
  "transition_ok X st row r q t db \<longleftrightarrow>
     find_attempt st (at_id row) = Some row \<and> at_status row = Reserved \<and>
     find_subject st (ad_subject (at_body row)) = Some r \<and>
     su_head r = ad_parent (at_body row) \<and> su_tick r = ad_tick (at_body row) \<and>
     find_occasion st (ad_occasion (at_body row)) = Some q \<and> ev_subject (oc_body q) = su_id r \<and>
     list_ex (\<lambda>q'. oc_id q' = oc_id q \<and> oc_consumed q' = None) (st_occasions st) \<and>
     tr_schema t = 5 \<and> tr_subject t = su_id r \<and> tr_tick t = su_tick r + 1 \<and> tr_parent t = su_head r \<and>
     tr_occasion t = oc_id q \<and> tr_attempt t = at_id row \<and> proposal_ok X (tr_proposal t) \<and>
     tr_memory t = write_memory (p_memory (tr_proposal t)) (su_memory r) \<and>
     su_accounting_wall r \<le> tr_committed_at t \<and> ad_admitted_at (at_body row) \<le> tr_committed_at t \<and>
     tr_wall_observed_at t \<le> tr_committed_at t \<and>
     (\<forall>e. tr_inference_elapsed_ms t = Some e \<longrightarrow> ad_admitted_at (at_body row) + e \<le> tr_committed_at t) \<and>
     (\<exists>b w. budget st (su_id r) (su_limits r) (tr_committed_at t) max_seq = Inr b \<and>
        wake_plan (su_limits r) (p_wake_after_ms (tr_proposal t)) (tr_committed_at t) b = Inr w \<and>
        tr_wake_plan t = Some w \<and> tr_wake_at t = wp_granted_at w) \<and>
     (tr_disposition t = None \<longrightarrow> validate_emission X (tr_emission t) (at_id row) (at_body row)
        (proposal_enc (tr_proposal t)) = Inr ()) \<and>
     (tr_disposition t \<noteq> None \<longrightarrow> tr_emission t = JNull) \<and>
     memory_transition (tr_proposal t) (at_body row) = Inr () \<and>
     memory_apply X (st_memory st) (su_id r) (su_head r) (tr_tick t) (co_id (transition_row X t))
       (p_notes (tr_proposal t)) = Inr db \<and>
     memory_capacity X db (Some (tr_tick t)) \<lparr>sn_subject = su_id r, sn_tick = tr_tick t,
       sn_head = co_id (transition_row X t), sn_memory = tr_memory t, sn_wake_at = tr_wake_at t,
       sn_lifecycle = []\<rparr> (at_body row) = Inr () \<and>
     fresh_commit st (transition_row X t) \<and> length (x_dump X (JObj (tr_memory t))) \<le> max_state"

definition committed_store ::
    "ext \<Rightarrow> store \<Rightarrow> transition \<Rightarrow> memory_db \<Rightarrow> failure_row list \<Rightarrow> store" where
  "committed_store X st t db fs =
     settle_committed (tr_attempt t) (tr_subject t) (tr_parent t)
       (consume (tr_occasion t) (co_id (transition_row X t))
         (set_head (tr_subject t) (tr_parent t) (tr_tick t) (co_id (transition_row X t)) (tr_memory t)
            (tr_wake_at t) (tr_committed_at t)
            (st\<lparr>st_memory := db, st_commits := st_commits st @ [transition_row X t],
                st_failures := st_failures st @ fs\<rparr>)))"

definition failures_ok :: "store \<Rightarrow> attempt_row \<Rightarrow> failure_row list \<Rightarrow> bool" where
  "failures_ok st row fs \<longleftrightarrow> fs = [] \<or>
     (\<exists>f. fs = [f] \<and> fa_attempt f = at_id row \<and> fa_occasion f = ad_occasion (at_body row) \<and>
        fa_attempt f \<notin> fa_attempt ` set (st_failures st))"

definition abstention_ok_for :: "ext \<Rightarrow> store \<Rightarrow> attempt_row \<Rightarrow> abstention_row \<Rightarrow> bool" where
  "abstention_ok_for X st row o' \<longleftrightarrow> as_attempt o' = at_id row \<and>
     as_id o' = hash X (abstention_json (as_body o')) \<and> as_id o' \<notin> as_id ` set (st_abstentions st) \<and>
     at_id row \<notin> as_attempt ` set (st_abstentions st) \<and>
     ab_attempt (as_body o') = at_id row \<and> ab_subject (as_body o') = ad_subject (at_body row) \<and>
     ab_parent (as_body o') = ad_parent (at_body row) \<and> ab_occasion (as_body o') = ad_occasion (at_body row) \<and>
     ab_execution (as_body o') = ad_execution (at_body row) \<and> abstention_ok (ab_outcome (as_body o')) \<and>
     is_object (ab_provider (as_body o')) \<and> length (x_dump X (ab_provider (as_body o'))) \<le> 8192"

definition admitted_store :: "ext \<Rightarrow> store \<Rightarrow> admission \<Rightarrow> store" where
  "admitted_store X st a =
     (update_subject (ad_subject a) (\<lambda>r. r\<lparr>su_accounting_wall := ad_admitted_at a\<rparr>) st)
       \<lparr>st_attempts := st_attempts st @ [attempt_for X a (st_attempt_seq st + 1)],
        st_attempt_seq := st_attempt_seq st + 1\<rparr>"

definition abstained_store :: "store \<Rightarrow> string \<Rightarrow> abstention_row \<Rightarrow> store" where
  "abstained_store st i o' = update_attempts (\<lambda>r. at_id r = i) (\<lambda>r. r\<lparr>at_status := Abstained\<rparr>)
     (st\<lparr>st_abstentions := st_abstentions st @ [o']\<rparr>)"

inductive ledger_step :: "ext \<Rightarrow> store \<Rightarrow> store \<Rightarrow> bool" for X where
  new_subject:
    "ge_subject g \<notin> su_id ` set (st_subjects st) \<Longrightarrow> fresh_commit st (genesis_row X g) \<Longrightarrow>
     limits_ok (ge_limits g) \<Longrightarrow> 0 \<le> ge_created_at g \<Longrightarrow> ge_schema g = 5 \<Longrightarrow>
     length (x_dump X (JObj (ge_memory g))) \<le> max_state \<Longrightarrow>
     ledger_step X st (st\<lparr>st_subjects := st_subjects st @ [initial_subject X g],
       st_commits := st_commits st @ [genesis_row X g]\<rparr>)"
| new_occasion:
    "find_subject st (ev_subject e) = Some r \<Longrightarrow> ev_parents e = [su_head r] \<Longrightarrow>
     (ev_subject e, ev_key e) \<notin> (\<lambda>q. (oc_subject q, oc_key q)) ` set (st_occasions st) \<Longrightarrow>
     hash X (event_json e) \<notin> oc_id ` set (st_occasions st) \<Longrightarrow>
     ledger_step X st (st\<lparr>st_occasions := st_occasions st @ [occasion_for X e (su_head r) (st_occasion_seq st + 1)],
       st_occasion_seq := st_occasion_seq st + 1\<rparr>)"
| new_attempt:
    "find_subject st (ad_subject a) = Some r \<Longrightarrow> ad_parent a = su_head r \<Longrightarrow> ad_tick a = su_tick r \<Longrightarrow>
     q \<in> set (st_occasions st) \<Longrightarrow> oc_id q = ad_occasion a \<Longrightarrow> oc_subject q = ad_subject a \<Longrightarrow>
     su_accounting_wall r \<le> ad_admitted_at a \<Longrightarrow> 0 \<le> ad_admitted_at a \<Longrightarrow>
     budget st (ad_subject a) (su_limits r) (ad_admitted_at a) max_seq = Inr b \<Longrightarrow>
     bg_eligible_at b \<le> ad_admitted_at a \<Longrightarrow> ad_schema a = 5 \<Longrightarrow>
     hash X (admission_json a) \<notin> at_id ` set (st_attempts st) \<Longrightarrow>
     st_attempt_seq st < max_seq \<Longrightarrow>
     ledger_step X st (admitted_store X st a)"
| failed:
    "row \<in> set (st_attempts st) \<Longrightarrow> at_status row = Reserved \<Longrightarrow> failures_ok st row fs \<Longrightarrow>
     ledger_step X st (mark_failed (at_id row) reason (st\<lparr>st_failures := st_failures st @ fs\<rparr>))"
| abstained:
    "find_attempt st (at_id row) = Some row \<Longrightarrow> at_status row = Reserved \<Longrightarrow> abstention_ok_for X st row o' \<Longrightarrow>
     find_subject st (ad_subject (at_body row)) = Some r \<Longrightarrow> su_head r = ad_parent (at_body row) \<Longrightarrow>
     ledger_step X st (abstained_store st (at_id row) o')"
| transition:
    "transition_ok X st row r q t db \<Longrightarrow> failures_ok st row fs \<Longrightarrow>
     ledger_step X st (committed_store X st t db fs)"
| rebuilt:
    "memory_rebuild X st s = Inr db \<Longrightarrow> ledger_step X st (st\<lparr>st_memory := db\<rparr>)"

abbreviation ledger_steps :: "ext \<Rightarrow> store \<Rightarrow> store \<Rightarrow> bool" where
  "ledger_steps X \<equiv> (ledger_step X)\<^sup>*\<^sup>*"

section \<open>Every operation is a sequence of steps\<close>

lemma enqueue_Inr:
  assumes "enqueue X st (row_snapshot r) key kind payload now = Inr (i, st')" and "find_subject st (su_id r) = Some r"
  shows "ledger_steps X st st'"
    and "\<exists>q \<in> set (st_occasions st'). oc_id q = i \<and> oc_subject q = su_id r \<and> oc_key q = key"
    and "st_subjects st' = st_subjects st" and "st_attempts st' = st_attempts st"
    and "st_commits st' = st_commits st" and "st_memory st' = st_memory st"
    and "st_attempt_seq st' = st_attempt_seq st"
proof -
  let ?find = "find (\<lambda>q. oc_subject q = su_id r \<and> oc_key q = key) (st_occasions st)"
  have "ledger_steps X st st' \<and>
    (\<exists>q \<in> set (st_occasions st'). oc_id q = i \<and> oc_subject q = su_id r \<and> oc_key q = key) \<and>
    st_subjects st' = st_subjects st \<and> st_attempts st' = st_attempts st \<and> st_commits st' = st_commits st \<and>
    st_memory st' = st_memory st \<and> st_attempt_seq st' = st_attempt_seq st"
  proof (cases ?find)
    case (Some old)
    with find_Some_mem [OF Some] assms(1) show ?thesis
      by (auto simp: enqueue_def row_snapshot_def res_simps)
  next
    case None
    define e where "e = \<lparr>ev_subject = su_id r, ev_key = key, ev_kind = kind, ev_payload = payload,
                      ev_received_at = now, ev_parents = [su_head r]\<rparr>"
    from None assms(1) have fresh: "hash X (event_json e) \<notin> oc_id ` set (st_occasions st)"
      and i: "i = hash X (event_json e)"
      and st': "st' = st\<lparr>st_occasions := st_occasions st @ [occasion_for X e (su_head r) (st_occasion_seq st + 1)],
        st_occasion_seq := st_occasion_seq st + 1\<rparr>"
      by (auto simp: enqueue_def row_snapshot_def res_simps Let_def e_def occasion_for_def)
    have "ledger_step X st st'" unfolding st'
      by (rule new_occasion [where r = r and e = e])
        (use None assms(2) fresh in \<open>auto simp: e_def find_None_iff\<close>)
    then show ?thesis by (auto simp: st' i occasion_for_def e_def)
  qed
  then show "ledger_steps X st st'"
    and "\<exists>q \<in> set (st_occasions st'). oc_id q = i \<and> oc_subject q = su_id r \<and> oc_key q = key"
    and "st_subjects st' = st_subjects st" and "st_attempts st' = st_attempts st"
    and "st_commits st' = st_commits st" and "st_memory st' = st_memory st"
    and "st_attempt_seq st' = st_attempt_seq st" by blast+
qed

lemma submit_steps:
  assumes "submit X st subject key payload now = Inr (i, st')"
  shows "ledger_steps X st st'"
proof -
  from assms obtain r where "find_subject st subject = Some r"
    and "enqueue X st (row_snapshot r) (''user:'' @ key) ''external'' payload now = Inr (i, st')"
    by (auto simp: submit_def res_simps)
  with find_subject_Some [OF this(1)] show ?thesis using enqueue_Inr(1) by fastforce
qed

lemma limits_json_ok: "limits_json l = Inr j \<Longrightarrow> limits_ok l"
  by (simp add: limits_json_def res_simps)

lemma insert_commit_Inr [res_simps]:
  "(insert_commit c st = Inr st') = (fresh_commit st c \<and> st' = st\<lparr>st_commits := st_commits st @ [c]\<rparr>)"
  by (auto simp: insert_commit_def fresh_commit_def res_simps)

lemma create_steps:
  assumes "create X st subject lim now initial nonce = Inr st'"
  shows "ledger_steps X st st'"
proof -
  define g where "g = \<lparr>ge_schema = 5, ge_subject = subject, ge_created_at = now, ge_nonce = nonce,
           ge_limits = lim, ge_memory = object_of initial\<rparr>"
  define st1 where "st1 = st\<lparr>st_subjects := st_subjects st @ [initial_subject X g],
       st_commits := st_commits st @ [genesis_row X g]\<rparr>"
  from assms have new: "subject \<notin> su_id ` set (st_subjects st)" and "limits_ok lim" and "0 \<le> now"
    and fresh: "fresh_commit st (genesis_row X g)" and small: "length (x_dump X (JObj (ge_memory g))) \<le> max_state"
    and enq: "\<exists>r i. find_subject st1 subject = Some r \<and>
      enqueue X st1 (row_snapshot r) ''system:created'' ''created'' (JObj []) now = Inr (i, st')"
    by (auto simp: create_def res_simps Let_def g_def st1_def genesis_row_def initial_subject_def fresh_commit_def
        split: prod.splits dest: limits_json_ok) (cases initial; simp)
  have "ledger_step X st st1" using new fresh small \<open>limits_ok lim\<close> \<open>0 \<le> now\<close>
    unfolding st1_def by (intro new_subject) (simp_all add: g_def)
  moreover have "ledger_steps X st1 st'"
    using enq find_subject_Some enqueue_Inr(1) by fastforce
  ultimately show ?thesis by (rule converse_rtranclp_into_rtranclp)
qed

lemma schedule_Inr:
  assumes "schedule X st subject observed = Inr d"
  shows "\<exists>r b q. find_subject st subject = Some r \<and>
    budget st subject (su_limits r) (max observed (su_accounting_wall r)) max_seq = Inr b \<and>
    next_occasion X st (row_snapshot r) observed = Inr q \<and>
    d = decide (row_snapshot r) observed (max observed (su_accounting_wall r)) b q"
  using assms by (auto simp: schedule_def Let_def res_simps accounting_wall_Some)

lemma next_occasion_Some:
  assumes "next_occasion X st (row_snapshot r) observed = Inr (Some q)" and "pe_id q = Some i"
  shows "\<exists>o' \<in> set (st_occasions st). oc_id o' = i \<and> oc_subject o' = su_id r \<and> oc_consumed o' = None \<and>
    oc_kind o' = pe_kind q"
  using assms
  by (auto simp: next_occasion_def res_simps deliverable_def row_snapshot_def split: option.splits if_splits
      dest!: find_Some_mem)

lemma insert_attempt_Inr:
  "insert_attempt X a st = Inr (i, st') \<Longrightarrow> i = hash X (admission_json a) \<and> st_attempt_seq st < max_seq \<and>
     i \<notin> at_id ` set (st_attempts st) \<and>
     st' = st\<lparr>st_attempts := st_attempts st @ [attempt_for X a (st_attempt_seq st + 1)],
        st_attempt_seq := st_attempt_seq st + 1\<rparr>"
  by (auto simp: insert_attempt_def Let_def res_simps attempt_for_def)

lemma admitted_view_keeps:
  assumes "admitted_view X st p policy fits = Inr (p', ctx, capacity)"
  shows "pr_state p' = pr_state p \<and> pr_occasion p' = pr_occasion p \<and> pr_temporal p' = pr_temporal p \<and>
    pr_inputs p' = pr_inputs p \<and> pr_prior_unsettled p' = pr_prior_unsettled p"
  using assms
  by (auto simp: admitted_view_def Let_def res_simps with_memory_def split: option.splits elim!: project_memory_Inr)

lemma admit_ready_Inr:
  assumes "admit_ready X st (row_snapshot r) d q backend observed policy fits execution inputs nonce = Inr (att, st')"
    and r: "find_subject st (su_id r) = Some r"
    and "pe_id q = None \<or> (\<exists>o' \<in> set (st_occasions st). pe_id q = Some (oc_id o') \<and> oc_subject o' = su_id r)"
  obtains st1 a where "ledger_steps X st st1" and "st_subjects st1 = st_subjects st"
    and "st_attempts st1 = st_attempts st" and "st_attempt_seq st1 = st_attempt_seq st"
    and "\<exists>o' \<in> set (st_occasions st1). oc_id o' = ad_occasion a \<and> oc_subject o' = su_id r"
    and "ad_subject a = su_id r" and "ad_parent a = su_head r" and "ad_tick a = su_tick r"
    and "ad_admitted_at a = sc_accounting_at d" and "ad_schema a = 5" and "ad_execution a = execution"
    and "ad_wall_observed_at a = observed" and "ad_backend a = backend" and "ad_inputs a = inputs"
    and "att_id att = hash X (admission_json a)"
    and "pr_state (att_present att) = row_snapshot r" and "o_id (pr_occasion (att_present att)) = ad_occasion a"
    and "hash X (admission_json a) \<notin> at_id ` set (st_attempts st)" and "st_attempt_seq st < max_seq"
    and "st' = admitted_store X st1 a"
proof -
  from assms(1) obtain oid st1 ck prev late p' ctx capacity unsettled where
    enq: "selected_id X st (row_snapshot r) q observed = Inr (oid, st1)"
    and view: "admitted_view X (update_subject (su_id r) (\<lambda>r. r\<lparr>su_accounting_wall := sc_accounting_at d\<rparr>) st1)
        \<lparr>pr_state = row_snapshot r, pr_occasion = \<lparr>o_id = oid, o_kind = pe_kind q, o_payload = pe_payload q\<rparr>,
          pr_prior_unsettled = unsettled,
          pr_temporal = \<lparr>te_clock = ck, te_coordinate = su_tick r, te_admission = d,
              te_previous_wake = prev, te_wake_lateness_ms = late\<rparr>,
            pr_working_memory = None, pr_memory_view = None, pr_inputs = inputs\<rparr> policy fits = Inr (p', ctx, capacity)"
    and ins: "insert_attempt X (admission_body nonce backend (sc_accounting_at d) observed execution p' ctx capacity)
        (update_subject (su_id r) (\<lambda>r. r\<lparr>su_accounting_wall := sc_accounting_at d\<rparr>) st1) = Inr (att_id att, st')"
    and att: "att_present att = p'"
    unfolding admit_ready_def Let_def by (auto simp: res_simps split: prod.splits)
  define a where "a = admission_body nonce backend (sc_accounting_at d) observed execution p' ctx capacity"
  have st1: "ledger_steps X st st1 \<and> st_subjects st1 = st_subjects st \<and> st_attempts st1 = st_attempts st \<and>
      st_attempt_seq st1 = st_attempt_seq st \<and>
      (\<exists>o' \<in> set (st_occasions st1). oc_id o' = oid \<and> oc_subject o' = su_id r)"
  proof (cases "pe_id q")
    case None
    then have "enqueue X st (row_snapshot r) (''wake:'' @ su_head r) ''scheduled'' (pe_payload q) observed = Inr (oid, st1)"
      using enq by (simp add: selected_id_def)
    from enqueue_Inr [OF this r] show ?thesis by auto
  next
    case (Some i)
    with enq assms(3) show ?thesis by (auto simp: selected_id_def)
  qed
  note keeps = admitted_view_keeps [OF view]
  have a: "ad_subject a = su_id r" "ad_parent a = su_head r" "ad_tick a = su_tick r" "ad_schema a = 5"
    "ad_admitted_at a = sc_accounting_at d" "ad_execution a = execution" "ad_wall_observed_at a = observed"
    "ad_backend a = backend" "ad_inputs a = inputs" "ad_occasion a = oid" "o_id (pr_occasion p') = oid"
    "pr_state p' = row_snapshot r"
    using keeps by (simp_all add: a_def admission_body_def)
  from insert_attempt_Inr [OF ins [folded a_def]] st1 have
    "att_id att = hash X (admission_json a)" "st_attempt_seq st < max_seq"
    "hash X (admission_json a) \<notin> at_id ` set (st_attempts st)"
    "st' = admitted_store X st1 a"
    by (auto simp: a admitted_store_def)
  with st1 a att show thesis by (intro that [of st1 a]) simp_all
qed

lemma decide_ready:
  assumes "sc_status (decide s observed accounting b q) = ''ready''"
  shows "q \<noteq> None \<and> bg_quota_at b \<le> accounting \<and> bg_floor_at b \<le> accounting"
  using assms by (cases q) (auto simp: decide_def split: if_splits)

lemma budget_eligible:
  assumes "budget st s lim now through = Inr b"
  shows "bg_eligible_at b = max (bg_floor_at b) (bg_quota_at b)"
  using assms unfolding budget_def by (rule budget_sql_eligible)

text \<open>Everything an admission establishes.\<close>

lemma admit_Inr:
  assumes "admit X st subject backend now policy fits execution context nonce = Inr (Some att, st')"
  obtains r st1 a b where "find_subject st subject = Some r" and "su_id r = subject"
    and "ledger_steps X st st1" and "st_subjects st1 = st_subjects st"
    and "st_attempts st1 = st_attempts st" and "st_attempt_seq st1 = st_attempt_seq st"
    and "\<exists>o' \<in> set (st_occasions st1). oc_id o' = ad_occasion a \<and> oc_subject o' = subject"
    and "ad_subject a = subject" and "ad_parent a = su_head r" and "ad_tick a = su_tick r"
    and "ad_admitted_at a = max now (su_accounting_wall r)" and "0 \<le> now" and "ad_schema a = 5"
    and "ad_execution a = execution" and "validate_execution execution = Inr ()"
    and "budget st subject (su_limits r) (ad_admitted_at a) max_seq = Inr b"
    and "bg_eligible_at b \<le> ad_admitted_at a"
    and "att_id att = hash X (admission_json a)"
    and "pr_state (att_present att) = row_snapshot r" and "o_id (pr_occasion (att_present att)) = ad_occasion a"
    and "hash X (admission_json a) \<notin> at_id ` set (st_attempts st)" and "st_attempt_seq st < max_seq"
    and "st' = admitted_store X st1 a"
proof -
  from assms obtain r d q inputs where r: "find_subject st subject = Some r"
    and d: "schedule X st subject now = Inr d" and q: "sc_occasion d = Some q" and ready: "sc_status d = ''ready''"
    and adm: "admit_ready X st (row_snapshot r) d q backend now policy fits execution inputs nonce = Inr (att, st')"
    and "0 \<le> now" and ex: "validate_execution execution = Inr ()"
    by (auto simp: admit_def res_simps split: option.splits if_splits prod.splits)
  note id = find_subject_Some [OF r]
  from schedule_Inr [OF d] r obtain b where
    b: "budget st subject (su_limits r) (max now (su_accounting_wall r)) max_seq = Inr b"
    and nq: "next_occasion X st (row_snapshot r) now = Inr (Some q)"
    and dd: "d = decide (row_snapshot r) now (max now (su_accounting_wall r)) b (Some q)"
    using q by (auto simp: decide_def)
  have acc: "sc_accounting_at d = max now (su_accounting_wall r)" by (simp add: dd decide_def)
  have el: "bg_eligible_at b \<le> max now (su_accounting_wall r)"
    using decide_ready [OF ready [unfolded dd]] budget_eligible [OF b] by simp
  have pend: "pe_id q = None \<or> (\<exists>o' \<in> set (st_occasions st). pe_id q = Some (oc_id o') \<and> oc_subject o' = su_id r)"
    using next_occasion_Some [OF nq] by (cases "pe_id q") auto
  show thesis
    by (rule admit_ready_Inr [OF adm _ pend]) (use r id b el ex \<open>0 \<le> now\<close> acc in \<open>auto intro!: that\<close>)
qed

lemma admit_steps:
  assumes "admit X st subject backend now policy fits execution context nonce = Inr (Some att, st')"
  shows "ledger_steps X st st'"
proof (rule admit_Inr [OF assms])
  fix r st1 a b
  assume r: "find_subject st subject = Some r" "su_id r = subject" and steps: "ledger_steps X st st1"
    and same: "st_subjects st1 = st_subjects st" "st_attempts st1 = st_attempts st" "st_attempt_seq st1 = st_attempt_seq st"
    and q: "\<exists>o' \<in> set (st_occasions st1). oc_id o' = ad_occasion a \<and> oc_subject o' = subject"
    and a: "ad_subject a = subject" "ad_parent a = su_head r" "ad_tick a = su_tick r"
      "ad_admitted_at a = max now (su_accounting_wall r)" "0 \<le> now" "ad_schema a = 5"
    and b: "budget st subject (su_limits r) (ad_admitted_at a) max_seq = Inr b" "bg_eligible_at b \<le> ad_admitted_at a"
    and fresh: "hash X (admission_json a) \<notin> at_id ` set (st_attempts st)" "st_attempt_seq st < max_seq"
    and st': "st' = admitted_store X st1 a"
  from q obtain o' where o': "o' \<in> set (st_occasions st1)" "oc_id o' = ad_occasion a" "oc_subject o' = subject"
    by blast
  have "ledger_step X st1 st'"
    unfolding st'
    by (rule new_attempt [where r = r and q = o' and b = b])
      (use r a b fresh same o' in \<open>simp_all add: find_subject_def budget_def admissions_of_def subject_attempts_def\<close>)
  with steps show ?thesis by (rule rtranclp.rtrancl_into_rtrancl)
qed

lemma opt_max_Inr:
  "opt_max now admitted elapsed = Inr at \<Longrightarrow> now \<le> at \<and> (\<forall>e. elapsed = Some e \<longrightarrow> admitted + e \<le> at)"
  by (cases elapsed) (auto simp: opt_max_def res_simps)

lemma apply_commit_Inr:
  assumes "apply_commit X st (row_snapshot r) attempt a t = Inr (sn, st')"
    and "tr_subject t = su_id r" and "tr_parent t = su_head r" and "tr_attempt t = attempt"
  shows "\<exists>db. memory_transition (tr_proposal t) a = Inr () \<and>
     memory_apply X (st_memory st) (su_id r) (su_head r) (tr_tick t) (co_id (transition_row X t))
       (p_notes (tr_proposal t)) = Inr db \<and>
     memory_capacity X db (Some (tr_tick t)) \<lparr>sn_subject = su_id r, sn_tick = tr_tick t,
       sn_head = co_id (transition_row X t), sn_memory = tr_memory t, sn_wake_at = tr_wake_at t,
       sn_lifecycle = []\<rparr> a = Inr () \<and>
     fresh_commit st (transition_row X t) \<and>
     list_ex (\<lambda>q. oc_id q = tr_occasion t \<and> oc_consumed q = None) (st_occasions st) \<and>
     st' = committed_store X st t db [] \<and>
     sn = \<lparr>sn_subject = su_id r, sn_tick = tr_tick t, sn_head = co_id (transition_row X t),
       sn_memory = tr_memory t, sn_wake_at = tr_wake_at t,
       sn_lifecycle = (if tr_wake_at t \<noteq> None then ''sleeping'' else ''waiting_external'')\<rparr>"
  using assms
  by (auto simp: apply_commit_def Let_def res_simps committed_store_def transition_row_def fresh_commit_def set_head_def)

lemma commit_locked_Inr:
  assumes "commit_locked X guard st attempt p now elapsed emission dispo = Inr (sn, st')"
  obtains row r q t db where "transition_ok X st row r q t db" and "at_id row = attempt"
    and "st' = committed_store X st t db []" and "tr_proposal t = p" and "tr_disposition t = dispo"
    and "tr_emission t = emission" and "tr_inference_elapsed_ms t = elapsed" and "tr_wall_observed_at t = now"
    and "hash X (admission_json (at_body row)) = attempt" and "hash X (event_json (oc_body q)) = oc_id q"
    and "sn = \<lparr>sn_subject = su_id r, sn_tick = tr_tick t, sn_head = co_id (transition_row X t),
       sn_memory = tr_memory t, sn_wake_at = tr_wake_at t,
       sn_lifecycle = (if tr_wake_at t \<noteq> None then ''sleeping'' else ''waiting_external'')\<rparr>"
proof -
  from assms obtain row r q at b plan where row: "find_attempt st attempt = Some row" "at_status row = Reserved"
    and h: "hash X (admission_json (at_body row)) = attempt"
    and em: "(case dispo of None \<Rightarrow> validate_emission X emission attempt (at_body row) (proposal_enc p)
            | Some _ \<Rightarrow> require (emission = JNull) ''disposition cannot carry a model emission'' (Inr ())) = Inr ()"
    and r: "find_subject st (ad_subject (at_body row)) = Some r"
      "su_head r = ad_parent (at_body row)" "su_tick r = ad_tick (at_body row)"
    and q: "find_occasion st (ad_occasion (at_body row)) = Some q" "hash X (event_json (oc_body q)) = ad_occasion (at_body row)"
      "ev_subject (oc_body q) = ad_subject (at_body row)"
    and ok: "proposal_ok X p"
    and at: "opt_max (max now (max (ad_admitted_at (at_body row)) (accounting_wall st (ad_subject (at_body row)))))
        (ad_admitted_at (at_body row)) elapsed = Inr at"
    and b: "budget st (ad_subject (at_body row)) (su_limits r) at max_seq = Inr b"
    and plan: "wake_plan (su_limits r) (p_wake_after_ms p) at b = Inr plan"
    and small: "length (x_dump X (JObj (write_memory (p_memory p) (su_memory r)))) \<le> max_state"
    and app: "apply_commit X st (row_snapshot r) attempt (at_body row)
       \<lparr>tr_schema = 5, tr_subject = ad_subject (at_body row), tr_tick = su_tick r + 1, tr_parent = su_head r,
        tr_occasion = ad_occasion (at_body row), tr_attempt = attempt, tr_proposal = p,
        tr_memory = write_memory (p_memory p) (su_memory r),
        tr_wake_at = wp_granted_at plan, tr_committed_at = at, tr_wall_observed_at = now,
        tr_wake_plan = Some plan, tr_inference_elapsed_ms = elapsed, tr_emission = emission,
        tr_disposition = dispo\<rparr> = Inr (sn, st')"
    by (auto simp: commit_locked_def Let_def res_simps split: option.splits)
  define t where "t = \<lparr>tr_schema = 5, tr_subject = ad_subject (at_body row), tr_tick = su_tick r + 1, tr_parent = su_head r,
        tr_occasion = ad_occasion (at_body row), tr_attempt = attempt, tr_proposal = p,
        tr_memory = write_memory (p_memory p) (su_memory r),
        tr_wake_at = wp_granted_at plan, tr_committed_at = at, tr_wall_observed_at = now,
        tr_wake_plan = Some plan, tr_inference_elapsed_ms = elapsed, tr_emission = emission,
        tr_disposition = dispo\<rparr>"
  have t: "tr_subject t = su_id r" "tr_parent t = su_head r" "tr_attempt t = attempt" "tr_schema t = 5"
    "tr_tick t = su_tick r + 1" "tr_occasion t = oc_id q" "tr_proposal t = p" "tr_committed_at t = at"
    "tr_memory t = write_memory (p_memory p) (su_memory r)" "tr_wake_at t = wp_granted_at plan"
    "tr_wall_observed_at t = now" "tr_wake_plan t = Some plan" "tr_inference_elapsed_ms t = elapsed"
    "tr_emission t = emission" "tr_disposition t = dispo"
    using find_subject_Some [OF r(1)] find_occasion_Some [OF q(1)] by (simp_all add: t_def)
  from apply_commit_Inr [OF app [folded t_def] t(1-3)] obtain db where
    db: "memory_transition p (at_body row) = Inr ()"
     "memory_apply X (st_memory st) (su_id r) (su_head r) (tr_tick t) (co_id (transition_row X t)) (p_notes p) = Inr db"
     "memory_capacity X db (Some (tr_tick t)) \<lparr>sn_subject = su_id r, sn_tick = tr_tick t,
       sn_head = co_id (transition_row X t), sn_memory = tr_memory t, sn_wake_at = tr_wake_at t,
       sn_lifecycle = []\<rparr> (at_body row) = Inr ()"
     "fresh_commit st (transition_row X t)"
     "list_ex (\<lambda>q'. oc_id q' = oc_id q \<and> oc_consumed q' = None) (st_occasions st)"
     and st': "st' = committed_store X st t db []"
     and sn: "sn = \<lparr>sn_subject = su_id r, sn_tick = tr_tick t, sn_head = co_id (transition_row X t),
       sn_memory = tr_memory t, sn_wake_at = tr_wake_at t,
       sn_lifecycle = (if tr_wake_at t \<noteq> None then ''sleeping'' else ''waiting_external'')\<rparr>"
    unfolding t(6,7) by blast
  have ids: "at_id row = attempt" "su_id r = ad_subject (at_body row)"
    using find_attempt_Some [OF row(1)] find_subject_Some [OF r(1)] by simp_all
  note at' = opt_max_Inr [OF at] accounting_wall_Some [OF r(1)]
  have "transition_ok X st row r q t db"
    unfolding transition_ok_def
  proof (intro conjI)
    show "\<exists>b w. budget st (su_id r) (su_limits r) (tr_committed_at t) max_seq = Inr b \<and>
        wake_plan (su_limits r) (p_wake_after_ms (tr_proposal t)) (tr_committed_at t) b = Inr w \<and>
        tr_wake_plan t = Some w \<and> tr_wake_at t = wp_granted_at w"
      using b plan by (simp add: t ids)
    show "tr_disposition t = None \<longrightarrow> validate_emission X (tr_emission t) (at_id row) (at_body row)
        (proposal_enc (tr_proposal t)) = Inr ()" "tr_disposition t \<noteq> None \<longrightarrow> tr_emission t = JNull"
      using em by (auto simp: t ids res_simps)
  qed (use row r q ok db at' small in \<open>auto simp: t ids\<close>)
  with ids h q st' sn show thesis
    using find_occasion_Some [OF q(1)] by (intro that [of row r q t db]) (simp_all add: t)
qed

lemma commit_locked_steps:
  assumes "commit_locked X guard st attempt p now elapsed emission dispo = Inr (sn, st')"
  shows "ledger_step X st st'"
  by (rule commit_locked_Inr [OF assms]) (auto intro!: transition simp: failures_ok_def)

lemma commit_steps: "snd (commit X guard hook st attempt p now elapsed emission) = st \<or>
    ledger_step X st (snd (commit X guard hook st attempt p now elapsed emission))"
  by (auto simp: commit_def res_simps split: sum.splits prod.splits dest!: commit_locked_steps)

lemma transition_ok_failures [simp]:
  "transition_ok X (st\<lparr>st_failures := fs\<rparr>) row r q t db = transition_ok X st row r q t db"
  by (simp add: transition_ok_def find_attempt_def find_subject_def find_occasion_def budget_def
      admissions_of_def subject_attempts_def fresh_commit_def)

lemma committed_store_failures:
  "committed_store X (st\<lparr>st_failures := st_failures st @ fs\<rparr>) t db [] = committed_store X st t db fs"
  by (simp add: committed_store_def)

lemma mark_failed_step:
  assumes "find_attempt st attempt = Some row" and "at_status row = Reserved" and "failures_ok st row fs"
  shows "ledger_step X st (mark_failed attempt reason (st\<lparr>st_failures := st_failures st @ fs\<rparr>))"
  using failed [of row st fs X reason] find_attempt_Some [OF assms(1)] assms(2,3) by simp

lemma mark_failed_plain:
  assumes "find_attempt st attempt = Some row" and "at_status row = Reserved"
  shows "ledger_step X st (mark_failed attempt reason st)"
  using mark_failed_step [OF assms, of "[]"] by (simp add: failures_ok_def)

lemma dispose_Inr:
  assumes "dispose X st attempt a s cap failures error now = Inr (out, st')"
  shows "(\<exists>p sn. out = Some sn \<and> commit_locked X None st attempt p now None JNull
      (Some \<lparr>di_limit = cap, di_failures = failures\<rparr>) = Inr (sn, st') \<and>
      p_kind p = ''null'' \<and> p_text p = [] \<and> p_memory p = [] \<and> p_notes p = []) \<or>
    out = None \<and> st' = mark_failed attempt error st"
proof -
  have null: "p_kind (null_settlement st s e a now) = ''null'' \<and> p_text (null_settlement st s e a now) = [] \<and>
      p_memory (null_settlement st s e a now) = [] \<and> p_notes (null_settlement st s e a now) = []" for e
    by (auto simp: null_settlement_def default_proposal_def split: option.splits)
  from assms obtain e where c: "(case commit_locked X None st attempt (null_settlement st s e a now) now None JNull
            (Some \<lparr>di_limit = cap, di_failures = failures\<rparr>) of
       Inr (result, st') \<Rightarrow> Inr (Some result, st')
     | Inl (ContextOverflow m) \<Rightarrow> Inr (None, mark_failed attempt error st)
     | Inl err \<Rightarrow> Inl err) = Inr (out, st')"
    unfolding dispose_def bindR_Inr by blast
  show ?thesis
  proof (cases "commit_locked X None st attempt (null_settlement st s e a now) now None JNull
            (Some \<lparr>di_limit = cap, di_failures = failures\<rparr>)")
    case (Inl err)
    with c show ?thesis by (cases err) simp_all
  next
    case (Inr y)
    with c null [of e] show ?thesis by (cases y) auto
  qed
qed

text \<open>A scoped failure: nothing, a failure recorded or not against the occasion, or a
  disposition.\<close>

definition failure_for :: "attempt_row \<Rightarrow> string \<Rightarrow> failure_row" where
  "failure_for row error =
     \<lparr>fa_attempt = at_id row, fa_occasion = ad_occasion (at_body row), fa_reason = error\<rparr>"

definition with_failure :: "store \<Rightarrow> attempt_row \<Rightarrow> string \<Rightarrow> store" where
  "with_failure st row error = st\<lparr>st_failures := st_failures st @ [failure_for row error]\<rparr>"

lemma fail_occasion_Inr:
  assumes "fail_occasion X st (at_id row) (at_body row) cap error now = Inr (out, st')"
  shows "failures_ok st row [failure_for row error] \<and>
    (out = None \<and> st' = mark_failed (at_id row) error (with_failure st row error) \<or>
     (\<exists>p sn. out = Some sn \<and> 0 < cap \<and>
        cap \<le> int (length (disposition_failures (with_failure st row error) (ad_occasion (at_body row)) (at_id row) cap)) \<and>
        commit_locked X None (with_failure st row error) (at_id row) p now None JNull
          (Some \<lparr>di_limit = cap, di_failures =
            disposition_failures (with_failure st row error) (ad_occasion (at_body row)) (at_id row) cap\<rparr>) = Inr (sn, st') \<and>
        p_kind p = ''null'' \<and> p_text p = [] \<and> p_memory p = [] \<and> p_notes p = []))"
proof -
  let ?st1 = "with_failure st row error"
  let ?fs = "disposition_failures ?st1 (ad_occasion (at_body row)) (at_id row) cap"
  have ins: "insert_failure (failure_for row error) st = Inr y \<longleftrightarrow>
      fa_attempt (failure_for row error) \<notin> fa_attempt ` set (st_failures st) \<and> y = ?st1" for y
    by (auto simp: insert_failure_def with_failure_def res_simps)
  from assms obtain s where f: "fa_attempt (failure_for row error) \<notin> fa_attempt ` set (st_failures st)"
    and rest: "(if may_dispose ?st1 s (at_body row) cap ?fs
      then dispose X ?st1 (at_id row) (at_body row) s cap ?fs error now
      else Inr (None, mark_failed (at_id row) error ?st1)) = Inr (out, st')"
    unfolding fail_occasion_def failure_for_def [symmetric] bindR_Inr ins Let_def by blast
  from f have "failures_ok st row [failure_for row error]" by (simp add: failures_ok_def failure_for_def)
  moreover from rest dispose_Inr [of X ?st1 "at_id row" "at_body row" s cap ?fs error now out st'] have
    "out = None \<and> st' = mark_failed (at_id row) error ?st1 \<or>
     (\<exists>p sn. out = Some sn \<and> 0 < cap \<and> cap \<le> int (length ?fs) \<and>
        commit_locked X None ?st1 (at_id row) p now None JNull
          (Some \<lparr>di_limit = cap, di_failures = ?fs\<rparr>) = Inr (sn, st') \<and>
        p_kind p = ''null'' \<and> p_text p = [] \<and> p_memory p = [] \<and> p_notes p = [])"
    by (auto simp: may_dispose_def split: if_split_asm)
  ultimately show ?thesis by blast
qed

lemma fail_scoped_Inr:
  assumes "fail_scoped X st attempt reason scope now = Inr (out, st')"
  obtains (settled) row where "find_attempt st attempt = Some row" and "at_status row \<noteq> Reserved"
      and "out = None" and "st' = st"
  | (failed) row fs where "find_attempt st attempt = Some row" and "at_status row = Reserved"
      and "failures_ok st row fs" and "out = None" and "scope = Transient \<longrightarrow> fs = []"
      and "st' = mark_failed attempt (take 1024 reason) (st\<lparr>st_failures := st_failures st @ fs\<rparr>)"
  | (disposed) row r p sn cap where "find_attempt st attempt = Some row" and "at_status row = Reserved"
      and "scope = Occasion_Scope" and "find_subject st (ad_subject (at_body row)) = Some r"
      and "cap = max_occasion_failures (su_limits r)" and "0 < cap"
      and "failures_ok st row [failure_for row (take 1024 reason)]" and "out = Some sn"
      and "cap \<le> int (length (disposition_failures (with_failure st row (take 1024 reason))
              (ad_occasion (at_body row)) attempt cap))"
      and "commit_locked X None (with_failure st row (take 1024 reason)) attempt p now None JNull
          (Some \<lparr>di_limit = cap, di_failures =
            disposition_failures (with_failure st row (take 1024 reason)) (ad_occasion (at_body row)) attempt cap\<rparr>)
          = Inr (sn, st')"
      and "p_kind p = ''null'' \<and> p_text p = [] \<and> p_memory p = [] \<and> p_notes p = []"
proof -
  from assms obtain row where row: "find_attempt st attempt = Some row"
    by (auto simp: fail_scoped_def res_simps Let_def split: option.splits)
  have id: "at_id row = attempt" using find_attempt_Some [OF row] by simp
  show thesis
  proof (cases "at_status row = Reserved")
    case False
    with assms row show thesis by (intro settled) (auto simp: fail_scoped_def res_simps Let_def)
  next
    case res: True
    show thesis
    proof (cases "st' = mark_failed attempt (take 1024 reason) st \<and> out = None")
      case True
      then show thesis by (intro failed [OF row res, of "[]"]) (simp_all add: failures_ok_def)
    next
      case plain: False
      with assms row res obtain r where r: "find_subject st (ad_subject (at_body row)) = Some r"
        and scope: "scope \<noteq> Transient"
        and rest: "fail_occasion X st attempt (at_body row) (max_occasion_failures (su_limits r)) (take 1024 reason) now = Inr (out, st')"
        by (auto simp: fail_scoped_def Let_def res_simps split: if_split_asm)
      from scope have sc: "scope = Occasion_Scope" by (cases scope) simp_all
      note h = fail_occasion_Inr [OF rest [folded id], unfolded id]
      from h have fok: "failures_ok st row [failure_for row (take 1024 reason)]" by simp
      from h show thesis
      proof (elim conjE disjE exE)
        assume "out = None" "st' = mark_failed attempt (take 1024 reason) (with_failure st row (take 1024 reason))"
        with sc show thesis by (intro failed [OF row res fok]) (simp_all add: with_failure_def)
      next
        fix p sn
        assume "out = Some sn" and "0 < max_occasion_failures (su_limits r)"
          and "max_occasion_failures (su_limits r) \<le> int (length (disposition_failures (with_failure st row (take 1024 reason))
              (ad_occasion (at_body row)) attempt (max_occasion_failures (su_limits r))))"
          and "commit_locked X None (with_failure st row (take 1024 reason)) attempt p now None JNull
          (Some \<lparr>di_limit = max_occasion_failures (su_limits r), di_failures =
            disposition_failures (with_failure st row (take 1024 reason)) (ad_occasion (at_body row)) attempt
              (max_occasion_failures (su_limits r))\<rparr>) = Inr (sn, st')"
          and "p_kind p = ''null''" "p_text p = []" "p_memory p = []" "p_notes p = []"
        then show thesis by (intro disposed [OF row res sc r refl _ fok]) simp_all
      qed
    qed
  qed
qed

lemma commit_with_failure:
  assumes "commit_locked X guard (with_failure st row error) attempt p now elapsed emission dispo = Inr (sn, st')"
    and "find_attempt st attempt = Some row"
  obtains r q t db where "transition_ok X st row r q t db"
    and "st' = committed_store X st t db [failure_for row error]" and "tr_proposal t = p"
    and "tr_disposition t = dispo" and "tr_emission t = emission" and "tr_inference_elapsed_ms t = elapsed"
    and "sn = \<lparr>sn_subject = su_id r, sn_tick = tr_tick t, sn_head = co_id (transition_row X t),
       sn_memory = tr_memory t, sn_wake_at = tr_wake_at t,
       sn_lifecycle = (if tr_wake_at t \<noteq> None then ''sleeping'' else ''waiting_external'')\<rparr>"
proof (rule commit_locked_Inr [OF assms(1)])
  fix row' r q t db
  assume t: "transition_ok X (with_failure st row error) row' r q t db" "at_id row' = attempt"
    and st': "st' = committed_store X (with_failure st row error) t db []"
    and rest: "tr_proposal t = p" "tr_disposition t = dispo" "tr_emission t = emission" "tr_inference_elapsed_ms t = elapsed"
      "sn = \<lparr>sn_subject = su_id r, sn_tick = tr_tick t, sn_head = co_id (transition_row X t),
       sn_memory = tr_memory t, sn_wake_at = tr_wake_at t,
       sn_lifecycle = (if tr_wake_at t \<noteq> None then ''sleeping'' else ''waiting_external'')\<rparr>"
  have t': "transition_ok X st row' r q t db" using t(1) by (simp add: with_failure_def)
  moreover from t' t(2) assms(2) have "row' = row" by (simp add: transition_ok_def)
  ultimately show thesis
    using st' rest by (intro that [of r q t db]) (simp_all add: with_failure_def committed_store_failures)
qed

lemma fail_scoped_steps:
  assumes "fail_scoped X st attempt reason scope now = Inr (out, st')"
  shows "ledger_steps X st st'"
  by (rule fail_scoped_Inr [OF assms])
    (auto intro!: mark_failed_step transition r_into_rtranclp elim!: commit_with_failure)

lemma fail_steps: "ledger_steps X st (fail st attempt reason)"
proof (cases "\<exists>row \<in> set (st_attempts st). at_id row = attempt \<and> at_status row = Reserved")
  case True
  then obtain row where "row \<in> set (st_attempts st)" "at_status row = Reserved" "at_id row = attempt" by blast
  with failed [of row st "[]" X "take 1024 reason"] show ?thesis
    by (auto simp: fail_def failures_ok_def)
next
  case False
  then have "map (\<lambda>r. if at_id r = attempt \<and> at_status r = Reserved
      then r\<lparr>at_status := Failed, at_error := take 1024 reason\<rparr> else r) (st_attempts st) = st_attempts st"
    by (intro map_idI) auto
  then have "fail st attempt reason = st" by (simp add: fail_def mark_failed_def update_attempts_def)
  then show ?thesis by simp
qed

lemma abstain_Inr:
  assumes "abstain X st attempt v provider = Inr (i, st')"
  obtains (repeated) row old where "find_attempt st attempt = Some row" and "at_status row = Abstained"
      and "old \<in> set (st_abstentions st)" and "as_attempt old = attempt" and "as_id old = i" and "st' = st"
  | (fresh) row o' r where "find_attempt st attempt = Some row" and "at_status row = Reserved"
      and "abstention_ok_for X st row o'" and "as_id o' = i" and "ab_outcome (as_body o') = v"
      and "ab_provider (as_body o') = provider"
      and "find_subject st (ad_subject (at_body row)) = Some r" and "su_head r = ad_parent (at_body row)"
      and "st' = abstained_store st attempt o'"
proof -
  from assms obtain row where row: "find_attempt st attempt = Some row"
    and v: "abstention_ok v" "is_object provider" "length (x_dump X provider) \<le> 8192"
    by (auto simp: abstain_def res_simps parse_abstention_enc split: option.splits)
  define body where "body = \<lparr>ab_attempt = attempt, ab_subject = ad_subject (at_body row), ab_parent = ad_parent (at_body row),
           ab_occasion = ad_occasion (at_body row), ab_execution = ad_execution (at_body row), ab_outcome = v,
           ab_provider = provider\<rparr>"
  note id = find_attempt_Some [OF row]
  show thesis
  proof (cases "find (\<lambda>r. as_attempt r = attempt) (st_abstentions st)")
    case (Some old)
    with assms row find_Some_mem [OF Some] show thesis
      by (intro repeated [of row old]) (auto simp: abstain_def res_simps Let_def)
  next
    case None
    with assms row obtain r where "at_status row = Reserved" "find_subject st (ad_subject (at_body row)) = Some r"
      "su_head r = ad_parent (at_body row)" "i = hash X (abstention_json body)"
      "i \<notin> as_id ` set (st_abstentions st)"
      "st' = update_attempts (\<lambda>r. at_id r = attempt) (\<lambda>r. r\<lparr>at_status := Abstained\<rparr>)
              (st\<lparr>st_abstentions := st_abstentions st @
                 [\<lparr>as_id = i, as_attempt = attempt, as_body = body\<rparr>]\<rparr>)"
      by (auto simp: abstain_def res_simps Let_def body_def split: if_splits)
    with None row v id show thesis
      by (intro fresh [of row "\<lparr>as_id = i, as_attempt = attempt, as_body = body\<rparr>" r])
        (auto simp: abstention_ok_for_def body_def find_None_iff abstained_store_def)
  qed
qed

lemma abstain_steps:
  assumes "abstain X st attempt v provider = Inr (i, st')"
  shows "ledger_steps X st st'"
proof (rule abstain_Inr [OF assms])
  fix row o' r
  assume "find_attempt st attempt = Some row" "at_status row = Reserved" "abstention_ok_for X st row o'"
    "find_subject st (ad_subject (at_body row)) = Some r" "su_head r = ad_parent (at_body row)"
    "st' = abstained_store st attempt o'"
  with abstained [of st row X o' r] find_attempt_Some show ?thesis by fastforce
qed simp

end
