(* ===== verification/Cogg_Invariant.thy ===== *)
theory Cogg_Invariant
  imports Cogg_Ledger
begin

text \<open>
  Invariants of the ledger, in every store the operations can reach: unique keys, rows that
  agree with the bodies they index, one hash-linked chain of commits per subject whose last
  element is the subject's projection, settlement (what is consumed, committed, abstained
  names its counterpart, and only attempts at the current head are reserved), clocks and
  the admission rate, the memory index as a replay of the chain, and the size of the memory.
\<close>

section \<open>Reachable stores\<close>

inductive kernel_step :: "ext \<Rightarrow> store \<Rightarrow> store \<Rightarrow> bool" for X where
  by_create: "create X st subject lim now initial nonce = Inr st' \<Longrightarrow> kernel_step X st st'"
| by_submit: "submit X st subject key payload now = Inr (i, st') \<Longrightarrow> kernel_step X st st'"
| by_admit: "admit X st subject backend now policy fits execution context nonce = Inr (Some a, st') \<Longrightarrow>
    kernel_step X st st'"
| by_commit: "commit X guard hook st attempt p now elapsed emission = (r, st') \<Longrightarrow> kernel_step X st st'"
| by_abstain: "abstain X st attempt v provider = Inr (i, st') \<Longrightarrow> kernel_step X st st'"
| by_fail: "fail st attempt reason = st' \<Longrightarrow> kernel_step X st st'"
| by_fail_scoped: "fail_scoped X st attempt reason scope now = Inr (out, st') \<Longrightarrow> kernel_step X st st'"
| by_rebuild: "memory_rebuild X st s = Inr db \<Longrightarrow> kernel_step X st (st\<lparr>st_memory := db\<rparr>)"

definition reachable :: "ext \<Rightarrow> store \<Rightarrow> bool" where
  "reachable X st \<longleftrightarrow> (kernel_step X)\<^sup>*\<^sup>* empty_store st"

lemma kernel_step_ledger: "kernel_step X st st' \<Longrightarrow> ledger_steps X st st'"
proof (induction rule: kernel_step.induct)
  case (by_commit guard hook st attempt p now elapsed emission r st')
  with commit_steps [of X guard hook st attempt p now elapsed emission] show ?case by auto
qed (auto intro: create_steps submit_steps admit_steps abstain_steps fail_steps fail_scoped_steps rebuilt)

lemma reachable_ledger: "reachable X st \<Longrightarrow> ledger_steps X empty_store st"
  unfolding reachable_def
proof (induction rule: rtranclp_induct)
  case (step y z)
  with kernel_step_ledger show ?case by (meson rtranclp_trans)
qed simp

text \<open>An invariant may rest on others proved before it.\<close>

locale ledger_invariant =
  fixes X :: ext and base :: "store \<Rightarrow> bool" and I :: "store \<Rightarrow> bool"
  assumes base: "ledger_steps X empty_store st \<Longrightarrow> base st"
    and initially: "I empty_store"
    and preserved: "base st \<Longrightarrow> I st \<Longrightarrow> ledger_step X st st' \<Longrightarrow> I st'"
begin

lemma always: "ledger_steps X empty_store st \<Longrightarrow> I st"
proof (induction rule: rtranclp_induct)
  case base
  show ?case by (rule initially)
next
  case (step y z)
  from local.base [OF step.hyps(1)] step.IH step.hyps(2) show ?case by (rule preserved)
qed

lemma reachable: "reachable X st \<Longrightarrow> I st"
  by (rule always) (rule reachable_ledger)

end

section \<open>Effects of a transition, row by row\<close>

definition headed :: "ext \<Rightarrow> transition \<Rightarrow> subject_row \<Rightarrow> subject_row" where
  "headed X t r = (if su_id r = tr_subject t \<and> su_head r = tr_parent t
     then r\<lparr>su_tick := tr_tick t, su_head := co_id (transition_row X t), su_memory := tr_memory t,
        su_wake := tr_wake_at t, su_accounting_wall := tr_committed_at t\<rparr> else r)"

definition settled_row :: "transition \<Rightarrow> attempt_row \<Rightarrow> attempt_row" where
  "settled_row t r = (if at_id r = tr_attempt t then r\<lparr>at_status := Committed\<rparr>
     else if at_subject r = tr_subject t \<and> at_parent r = tr_parent t \<and> at_status r = Reserved
     then r\<lparr>at_status := Superseded\<rparr> else r)"

definition consumed_row :: "ext \<Rightarrow> transition \<Rightarrow> occasion_row \<Rightarrow> occasion_row" where
  "consumed_row X t q = (if oc_id q = tr_occasion t \<and> oc_consumed q = None
     then q\<lparr>oc_consumed := Some (co_id (transition_row X t))\<rparr> else q)"

lemma headed_simps [simp]: "su_id (headed X t r) = su_id r" "su_limits (headed X t r) = su_limits r"
  by (simp_all add: headed_def)

lemma settled_row_simps [simp]:
  "at_id (settled_row t r) = at_id r" "at_seq (settled_row t r) = at_seq r" "at_subject (settled_row t r) = at_subject r"
  "at_parent (settled_row t r) = at_parent r" "at_occasion (settled_row t r) = at_occasion r"
  "at_admitted_at (settled_row t r) = at_admitted_at r" "at_body (settled_row t r) = at_body r"
  by (simp_all add: settled_row_def)

lemma consumed_row_simps [simp]:
  "oc_id (consumed_row X t q) = oc_id q" "oc_seq (consumed_row X t q) = oc_seq q"
  "oc_subject (consumed_row X t q) = oc_subject q" "oc_key (consumed_row X t q) = oc_key q"
  "oc_kind (consumed_row X t q) = oc_kind q" "oc_parent (consumed_row X t q) = oc_parent q"
  "oc_body (consumed_row X t q) = oc_body q"
  by (simp_all add: consumed_row_def)

lemma committed_store_simps [simp]:
  "st_subjects (committed_store X st t db fs) = map (headed X t) (st_subjects st)"
  "st_occasions (committed_store X st t db fs) = map (consumed_row X t) (st_occasions st)"
  "st_occasion_seq (committed_store X st t db fs) = st_occasion_seq st"
  "st_attempts (committed_store X st t db fs) = map (settled_row t) (st_attempts st)"
  "st_attempt_seq (committed_store X st t db fs) = st_attempt_seq st"
  "st_commits (committed_store X st t db fs) = st_commits st @ [transition_row X t]"
  "st_abstentions (committed_store X st t db fs) = st_abstentions st"
  "st_failures (committed_store X st t db fs) = st_failures st @ fs"
  "st_memory (committed_store X st t db fs) = db"
  by (auto simp: committed_store_def settle_committed_def set_head_def headed_def settled_row_def consumed_row_def)

definition failed_row :: "string \<Rightarrow> string \<Rightarrow> attempt_row \<Rightarrow> attempt_row" where
  "failed_row i reason r = (if at_id r = i \<and> at_status r = Reserved
     then r\<lparr>at_status := Failed, at_error := reason\<rparr> else r)"

lemma failed_row_simps [simp]:
  "at_id (failed_row i m r) = at_id r" "at_seq (failed_row i m r) = at_seq r"
  "at_subject (failed_row i m r) = at_subject r" "at_parent (failed_row i m r) = at_parent r"
  "at_occasion (failed_row i m r) = at_occasion r" "at_admitted_at (failed_row i m r) = at_admitted_at r"
  "at_body (failed_row i m r) = at_body r"
  by (simp_all add: failed_row_def)

lemma mark_failed_simps [simp]:
  "st_subjects (mark_failed i m st) = st_subjects st"
  "st_occasions (mark_failed i m st) = st_occasions st"
  "st_occasion_seq (mark_failed i m st) = st_occasion_seq st"
  "st_attempts (mark_failed i m st) = map (failed_row i m) (st_attempts st)"
  "st_attempt_seq (mark_failed i m st) = st_attempt_seq st"
  "st_commits (mark_failed i m st) = st_commits st"
  "st_abstentions (mark_failed i m st) = st_abstentions st"
  "st_failures (mark_failed i m st) = st_failures st"
  "st_memory (mark_failed i m st) = st_memory st"
  by (auto simp: mark_failed_def failed_row_def)

definition walled :: "admission \<Rightarrow> subject_row \<Rightarrow> subject_row" where
  "walled a r = (if su_id r = ad_subject a then r\<lparr>su_accounting_wall := ad_admitted_at a\<rparr> else r)"

lemma walled_simps [simp]:
  "su_id (walled a r) = su_id r" "su_tick (walled a r) = su_tick r" "su_head (walled a r) = su_head r"
  "su_memory (walled a r) = su_memory r" "su_wake (walled a r) = su_wake r" "su_limits (walled a r) = su_limits r"
  by (simp_all add: walled_def)

lemma admitted_store_simps [simp]:
  "st_subjects (admitted_store X st a) = map (walled a) (st_subjects st)"
  "st_occasions (admitted_store X st a) = st_occasions st"
  "st_occasion_seq (admitted_store X st a) = st_occasion_seq st"
  "st_attempts (admitted_store X st a) = st_attempts st @ [attempt_for X a (st_attempt_seq st + 1)]"
  "st_attempt_seq (admitted_store X st a) = st_attempt_seq st + 1"
  "st_commits (admitted_store X st a) = st_commits st"
  "st_abstentions (admitted_store X st a) = st_abstentions st"
  "st_failures (admitted_store X st a) = st_failures st"
  "st_memory (admitted_store X st a) = st_memory st"
  by (auto simp: admitted_store_def walled_def)

definition abstained_row :: "string \<Rightarrow> attempt_row \<Rightarrow> attempt_row" where
  "abstained_row i r = (if at_id r = i then r\<lparr>at_status := Abstained\<rparr> else r)"

lemma abstained_row_simps [simp]:
  "at_id (abstained_row i r) = at_id r" "at_seq (abstained_row i r) = at_seq r"
  "at_subject (abstained_row i r) = at_subject r" "at_parent (abstained_row i r) = at_parent r"
  "at_occasion (abstained_row i r) = at_occasion r" "at_admitted_at (abstained_row i r) = at_admitted_at r"
  "at_body (abstained_row i r) = at_body r"
  by (simp_all add: abstained_row_def)

lemma abstained_store_simps [simp]:
  "st_subjects (abstained_store st i o') = st_subjects st"
  "st_occasions (abstained_store st i o') = st_occasions st"
  "st_occasion_seq (abstained_store st i o') = st_occasion_seq st"
  "st_attempts (abstained_store st i o') = map (abstained_row i) (st_attempts st)"
  "st_attempt_seq (abstained_store st i o') = st_attempt_seq st"
  "st_commits (abstained_store st i o') = st_commits st"
  "st_abstentions (abstained_store st i o') = st_abstentions st @ [o']"
  "st_failures (abstained_store st i o') = st_failures st"
  "st_memory (abstained_store st i o') = st_memory st"
  by (auto simp: abstained_store_def abstained_row_def)

lemma row_field_simps [simp]:
  "su_id (initial_subject X g) = ge_subject g" "su_limits (initial_subject X g) = ge_limits g"
  "su_tick (initial_subject X g) = 0" "su_head (initial_subject X g) = co_id (genesis_row X g)"
  "su_memory (initial_subject X g) = ge_memory g" "su_wake (initial_subject X g) = None"
  "su_accounting_wall (initial_subject X g) = ge_created_at g"
  "co_subject (genesis_row X g) = ge_subject g" "co_tick (genesis_row X g) = 0" "co_body (genesis_row X g) = Genesis g"
  "co_subject (transition_row X t) = tr_subject t" "co_tick (transition_row X t) = tr_tick t"
  "co_body (transition_row X t) = Transition t"
  "oc_seq (occasion_for X e h n) = n" "oc_id (occasion_for X e h n) = hash X (event_json e)"
  "oc_subject (occasion_for X e h n) = ev_subject e" "oc_key (occasion_for X e h n) = ev_key e"
  "oc_kind (occasion_for X e h n) = ev_kind e" "oc_parent (occasion_for X e h n) = h"
  "oc_body (occasion_for X e h n) = e" "oc_consumed (occasion_for X e h n) = None"
  "at_seq (attempt_for X a n) = n" "at_id (attempt_for X a n) = hash X (admission_json a)"
  "at_subject (attempt_for X a n) = ad_subject a" "at_parent (attempt_for X a n) = ad_parent a"
  "at_occasion (attempt_for X a n) = ad_occasion a" "at_admitted_at (attempt_for X a n) = ad_admitted_at a"
  "at_body (attempt_for X a n) = a" "at_status (attempt_for X a n) = Reserved"
  by (simp_all add: initial_subject_def genesis_row_def transition_row_def occasion_for_def attempt_for_def)

section \<open>Unique keys\<close>

definition seqs_ok :: "int list \<Rightarrow> int \<Rightarrow> bool" where
  "seqs_ok xs n \<longleftrightarrow> 0 \<le> n \<and> sorted_wrt (<) xs \<and> (\<forall>x \<in> set xs. 0 < x \<and> x \<le> n)"

lemma seqs_ok_snoc: "seqs_ok xs n \<Longrightarrow> seqs_ok (xs @ [n + 1]) (n + 1)"
  by (fastforce simp: seqs_ok_def sorted_wrt_append)

definition keys_inv :: "store \<Rightarrow> bool" where
  "keys_inv st \<longleftrightarrow> distinct (map su_id (st_subjects st)) \<and> distinct (map oc_id (st_occasions st)) \<and>
     distinct (map (\<lambda>q. (oc_subject q, oc_key q)) (st_occasions st)) \<and>
     distinct (map at_id (st_attempts st)) \<and> distinct (map co_id (st_commits st)) \<and>
     distinct (map (\<lambda>c. (co_subject c, co_tick c)) (st_commits st)) \<and>
     distinct (map as_id (st_abstentions st)) \<and> distinct (map as_attempt (st_abstentions st)) \<and>
     distinct (map fa_attempt (st_failures st)) \<and>
     seqs_ok (map oc_seq (st_occasions st)) (st_occasion_seq st) \<and>
     seqs_ok (map at_seq (st_attempts st)) (st_attempt_seq st)"

lemma failures_distinct:
  "failures_ok st row fs \<Longrightarrow> distinct (map fa_attempt (st_failures st)) \<Longrightarrow>
     distinct (map fa_attempt (st_failures st @ fs))"
  by (auto simp: failures_ok_def image_iff)

lemma transition_ok_fresh: "transition_ok X st row r q t db \<Longrightarrow> fresh_commit st (transition_row X t)"
  by (simp add: transition_ok_def)

lemma abstention_fresh:
  "abstention_ok_for X st row o' \<Longrightarrow> as_id o' \<notin> as_id ` set (st_abstentions st) \<and>
     as_attempt o' \<notin> as_attempt ` set (st_abstentions st)"
  unfolding abstention_ok_for_def by metis

lemma keys_inv_step: "ledger_step X st st' \<Longrightarrow> keys_inv st \<Longrightarrow> keys_inv st'"
proof (induction rule: ledger_step.induct)
  case (transition st row r q t db fs)
  with failures_distinct [OF transition(2)] transition_ok_fresh [OF transition(1)] show ?case
    by (simp add: keys_inv_def comp_def fresh_commit_def)
next
  case (failed row st fs reason)
  with failures_distinct [OF failed(3)] show ?case by (simp add: keys_inv_def comp_def)
next
  case (new_subject g st)
  then show ?case by (simp add: keys_inv_def fresh_commit_def)
next
  case (new_occasion st e r)
  then show ?case by (simp add: keys_inv_def seqs_ok_snoc)
next
  case (new_attempt st a r q b)
  then show ?case by (simp add: keys_inv_def seqs_ok_snoc comp_def)
next
  case (abstained st row o' r)
  with abstention_fresh [OF abstained(3)] show ?case
    by (simp add: keys_inv_def comp_def)
qed (simp add: keys_inv_def)

interpretation keys: ledger_invariant X "\<lambda>st. True" keys_inv for X
proof
  show "keys_inv empty_store" by (simp add: keys_inv_def empty_store_def seqs_ok_def)
qed (auto intro: keys_inv_step)

lemma find_by_key:
  assumes "distinct (map f xs)" and "x \<in> set xs" and "f x = k"
  shows "find (\<lambda>y. f y = k) xs = Some x"
  using distinct_find [OF assms(1,2)] assms(3) by simp

lemma distinct_key_eq: "distinct (map f xs) \<Longrightarrow> x \<in> set xs \<Longrightarrow> y \<in> set xs \<Longrightarrow> f x = f y \<Longrightarrow> x = y"
  by (auto simp: distinct_map inj_on_def)

lemma keys_inv_unique:
  assumes "keys_inv st"
  shows "r \<in> set (st_subjects st) \<Longrightarrow> r' \<in> set (st_subjects st) \<Longrightarrow> su_id r = su_id r' \<Longrightarrow> r = r'"
    and "q \<in> set (st_occasions st) \<Longrightarrow> q' \<in> set (st_occasions st) \<Longrightarrow> oc_id q = oc_id q' \<Longrightarrow> q = q'"
    and "a \<in> set (st_attempts st) \<Longrightarrow> a' \<in> set (st_attempts st) \<Longrightarrow> at_id a = at_id a' \<Longrightarrow> a = a'"
    and "c \<in> set (st_commits st) \<Longrightarrow> c' \<in> set (st_commits st) \<Longrightarrow> co_id c = co_id c' \<Longrightarrow> c = c'"
  using assms by (auto simp: keys_inv_def dest: distinct_key_eq)

lemma keys_inv_find:
  assumes "keys_inv st"
  shows "r \<in> set (st_subjects st) \<Longrightarrow> find_subject st (su_id r) = Some r"
    and "q \<in> set (st_occasions st) \<Longrightarrow> find_occasion st (oc_id q) = Some q"
    and "a \<in> set (st_attempts st) \<Longrightarrow> find_attempt st (at_id a) = Some a"
    and "c \<in> set (st_commits st) \<Longrightarrow> find_commit st (co_id c) = Some c"
  using assms
  by (auto simp: keys_inv_def find_subject_def find_occasion_def find_attempt_def find_commit_def intro: find_by_key)

text \<open>What a transition is, once keys are unique: the attempt, the subject and the occasion
  are rows of the tables, and the occasion was not consumed.\<close>

lemma transition_ok_rows:
  assumes "keys_inv st" and "transition_ok X st row r q t db"
  shows "row \<in> set (st_attempts st)" and "at_status row = Reserved" and "r \<in> set (st_subjects st)"
    and "q \<in> set (st_occasions st)" and "oc_consumed q = None" and "tr_attempt t = at_id row"
    and "tr_subject t = su_id r" and "tr_tick t = su_tick r + 1" and "tr_parent t = su_head r"
    and "tr_occasion t = oc_id q" and "ad_subject (at_body row) = su_id r" and "ad_parent (at_body row) = su_head r"
    and "ad_occasion (at_body row) = oc_id q" and "ad_tick (at_body row) = su_tick r"
    and "ev_subject (oc_body q) = su_id r"
    and "tr_memory t = write_memory (p_memory (tr_proposal t)) (su_memory r)"
proof -
  from assms(2) have f: "find_attempt st (at_id row) = Some row" "find_subject st (ad_subject (at_body row)) = Some r"
    "find_occasion st (ad_occasion (at_body row)) = Some q"
    and q': "list_ex (\<lambda>q'. oc_id q' = oc_id q \<and> oc_consumed q' = None) (st_occasions st)"
    by (simp_all add: transition_ok_def)
  note mem = find_attempt_Some [OF f(1)] find_subject_Some [OF f(2)] find_occasion_Some [OF f(3)]
  then show "row \<in> set (st_attempts st)" and "r \<in> set (st_subjects st)" and "q \<in> set (st_occasions st)"
    and "ad_subject (at_body row) = su_id r" and "ad_occasion (at_body row) = oc_id q" by simp_all
  from q' obtain q' where "q' \<in> set (st_occasions st)" "oc_id q' = oc_id q" "oc_consumed q' = None"
    by (auto simp: list_ex_iff)
  with keys_inv_unique(2) [OF assms(1), of q' q] mem show "oc_consumed q = None" by simp
qed (use assms(2) in \<open>simp_all add: transition_ok_def\<close>)

section \<open>Rows agree with the bodies they index\<close>

definition occasion_ok :: "ext \<Rightarrow> occasion_row \<Rightarrow> bool" where
  "occasion_ok X q \<longleftrightarrow> oc_id q = hash X (event_json (oc_body q)) \<and> oc_subject q = ev_subject (oc_body q) \<and>
     oc_key q = ev_key (oc_body q) \<and> oc_kind q = ev_kind (oc_body q) \<and> ev_parents (oc_body q) = [oc_parent q]"

definition attempt_ok :: "ext \<Rightarrow> attempt_row \<Rightarrow> bool" where
  "attempt_ok X r \<longleftrightarrow> at_id r = hash X (admission_json (at_body r)) \<and> at_subject r = ad_subject (at_body r) \<and>
     at_parent r = ad_parent (at_body r) \<and> at_occasion r = ad_occasion (at_body r) \<and>
     at_admitted_at r = ad_admitted_at (at_body r)"

definition commit_ok :: "ext \<Rightarrow> commit_row \<Rightarrow> bool" where
  "commit_ok X c \<longleftrightarrow> co_id c = hash X (commit_json (co_body c)) \<and> co_subject c = cb_subject (co_body c) \<and>
     co_tick c = cb_tick (co_body c) \<and> cb_schema (co_body c) = 5"

definition rows_inv :: "ext \<Rightarrow> store \<Rightarrow> bool" where
  "rows_inv X st \<longleftrightarrow> (\<forall>q \<in> set (st_occasions st). occasion_ok X q) \<and>
     (\<forall>r \<in> set (st_attempts st). attempt_ok X r) \<and> (\<forall>c \<in> set (st_commits st). commit_ok X c)"

lemma row_ok_simps [simp]:
  "attempt_ok X (settled_row t r) = attempt_ok X r" "attempt_ok X (failed_row i m r) = attempt_ok X r"
  "attempt_ok X (abstained_row i r) = attempt_ok X r"
  "occasion_ok X (consumed_row X' t q) = occasion_ok X q" "attempt_ok X (attempt_for X a n)"
  "commit_ok X (genesis_row X g) = (ge_schema g = 5)" "commit_ok X (transition_row X t) = (tr_schema t = 5)"
  by (simp_all add: attempt_ok_def occasion_ok_def commit_ok_def) (simp_all add: genesis_row_def transition_row_def)

lemma rows_inv_step: "ledger_step X st st' \<Longrightarrow> rows_inv X st \<Longrightarrow> rows_inv X st'"
proof (induction rule: ledger_step.induct)
  case (transition st row r q t db fs)
  then have "tr_schema t = 5" by (simp add: transition_ok_def)
  with transition show ?case by (simp add: rows_inv_def)
next
  case (new_occasion st e r)
  then show ?case by (simp add: rows_inv_def occasion_ok_def)
qed (auto simp: rows_inv_def)

interpretation rows: ledger_invariant X "\<lambda>st. True" "rows_inv X" for X
proof
  show "rows_inv X empty_store" by (simp add: rows_inv_def empty_store_def)
qed (auto intro: rows_inv_step)

section \<open>One hash-linked chain per subject\<close>

definition link_ok :: "commit_row list \<Rightarrow> nat \<Rightarrow> bool" where
  "link_ok cs i \<longleftrightarrow> co_tick (cs ! i) = int i \<and>
     (case i of
        0 \<Rightarrow> \<exists>g. co_body (cs ! i) = Genesis g
      | Suc j \<Rightarrow> \<exists>t. co_body (cs ! i) = Transition t \<and> tr_parent t = co_id (cs ! j) \<and>
          tr_memory t = write_memory (p_memory (tr_proposal t)) (cb_memory (co_body (cs ! j))))"

definition chained :: "commit_row list \<Rightarrow> bool" where
  "chained cs \<longleftrightarrow> (\<forall>i < length cs. link_ok cs i)"

definition commits_of :: "store \<Rightarrow> string \<Rightarrow> commit_row list" where
  "commits_of st s = filter (\<lambda>c. co_subject c = s) (st_commits st)"

text \<open>The subject's row is what its chain says.\<close>

definition projects :: "subject_row \<Rightarrow> commit_row list \<Rightarrow> bool" where
  "projects r cs \<longleftrightarrow> cs \<noteq> [] \<and> chained cs \<and> su_tick r = int (length cs) - 1 \<and>
     su_head r = co_id (last cs) \<and> su_memory r = cb_memory (co_body (last cs)) \<and>
     su_wake r = cb_wake_at (co_body (last cs)) \<and>
     (\<exists>g. co_body (hd cs) = Genesis g \<and> ge_limits g = su_limits r)"

definition chain_inv :: "store \<Rightarrow> bool" where
  "chain_inv st \<longleftrightarrow> (\<forall>r \<in> set (st_subjects st). projects r (commits_of st (su_id r))) \<and>
     (\<forall>c \<in> set (st_commits st). co_subject c \<in> su_id ` set (st_subjects st))"

lemma link_ok_append: "i < length cs \<Longrightarrow> link_ok (cs @ ds) i = link_ok cs i"
  by (cases i) (simp_all add: link_ok_def nth_append)

lemma chained_snoc:
  assumes "chained cs" and "cs \<noteq> []" and "co_tick c = int (length cs)" and "co_body c = Transition t"
    and "tr_parent t = co_id (last cs)"
    and "tr_memory t = write_memory (p_memory (tr_proposal t)) (cb_memory (co_body (last cs)))"
  shows "chained (cs @ [c])"
  unfolding chained_def
proof (intro allI impI)
  fix i assume i: "i < length (cs @ [c])"
  show "link_ok (cs @ [c]) i"
  proof (cases "i < length cs")
    case True
    with assms(1) show ?thesis by (simp add: chained_def link_ok_append)
  next
    case False
    with i have n: "i = length cs" by simp
    with assms(2) obtain j where j: "i = Suc j" "j < length cs" by (cases "length cs") auto
    then have "length cs - 1 = j" using n by simp
    with assms(2) have "cs ! j = last cs" by (simp add: last_conv_nth)
    moreover have "length cs = Suc j" using n j by simp
    ultimately show ?thesis using assms(3-6) by (simp add: link_ok_def nth_append n)
  qed
qed

lemma chained_ticks: "chained cs \<Longrightarrow> map co_tick cs = map int [0..<length cs]"
  by (intro nth_equalityI) (simp_all add: chained_def link_ok_def)

lemma chained_sorted: "chained cs \<Longrightarrow> sorted (map co_tick cs)"
  unfolding chained_ticks by (auto simp: sorted_iff_nth_mono)

lemma projects_snoc:
  assumes "projects r cs" and "co_tick c = su_tick r + 1" and "co_body c = Transition t"
    and "tr_parent t = su_head r" and "tr_memory t = write_memory (p_memory (tr_proposal t)) (su_memory r)"
  shows "projects (r\<lparr>su_tick := co_tick c, su_head := co_id c, su_memory := tr_memory t, su_wake := tr_wake_at t,
    su_accounting_wall := w\<rparr>) (cs @ [c])"
proof -
  have "chained (cs @ [c])"
    using assms by (intro chained_snoc [where t = t]) (simp_all add: projects_def)
  with assms show ?thesis by (simp add: projects_def)
qed

lemma commits_of_snoc:
  "commits_of (committed_store X st t db fs) s = commits_of st s @ (if tr_subject t = s then [transition_row X t] else [])"
  by (simp add: commits_of_def)

lemma chain_inv_step:
  "ledger_step X st st' \<Longrightarrow> keys_inv st \<Longrightarrow> chain_inv st \<Longrightarrow> chain_inv st'"
proof (induction rule: ledger_step.induct)
  case (new_subject g st)
  then have "\<forall>c \<in> set (st_commits st). co_subject c \<noteq> ge_subject g" unfolding chain_inv_def by metis
  then have none: "commits_of st (ge_subject g) = []" by (simp add: commits_of_def filter_empty_conv)
  have one: "projects (initial_subject X g) [genesis_row X g]"
    by (simp add: projects_def chained_def link_ok_def)
  have "projects r (commits_of st (su_id r) @ (if ge_subject g = su_id r then [genesis_row X g] else []))"
    if "r \<in> set (st_subjects st)" for r
    using that new_subject by (auto simp: chain_inv_def)
  with new_subject one none show ?case
    by (auto simp: chain_inv_def commits_of_def)
next
  case (new_attempt st a r q b)
  then show ?case by (simp add: chain_inv_def commits_of_def projects_def image_image)
next
  case (transition st row r q t db fs)
  note rows = transition_ok_rows [OF transition(3,1)]
  have "projects (headed X t r') (commits_of (committed_store X st t db fs) (su_id r'))"
    if r': "r' \<in> set (st_subjects st)" for r'
  proof (cases "su_id r' = su_id r")
    case True
    with keys_inv_unique(1) [OF transition(3) r' rows(3)] have "r' = r" by simp
    moreover have "projects r (commits_of st (su_id r))"
      using transition(4) rows(3) by (simp add: chain_inv_def)
    from projects_snoc [OF this, of "transition_row X t" t "tr_committed_at t"]
    have "projects (headed X t r) (commits_of st (su_id r) @ [transition_row X t])"
      using rows by (simp add: headed_def)
    ultimately show ?thesis using rows by (simp add: commits_of_snoc)
  next
    case False
    with transition(4) r' rows show ?thesis by (simp add: commits_of_snoc headed_def chain_inv_def)
  qed
  with transition(4) rows show ?case by (auto simp: chain_inv_def image_image)
qed (simp_all add: chain_inv_def commits_of_def)

interpretation chain: ledger_invariant X keys_inv chain_inv for X
proof
  show "chain_inv empty_store" by (simp add: chain_inv_def empty_store_def)
qed (auto intro: chain_inv_step keys.always)

lemma subject_commits_chain:
  assumes "chain_inv st" and "r \<in> set (st_subjects st)"
  shows "subject_commits st (su_id r) = commits_of st (su_id r)"
proof -
  have "sorted (map co_tick (commits_of st (su_id r)))"
    using assms by (intro chained_sorted) (simp add: chain_inv_def projects_def)
  then show ?thesis by (simp add: subject_commits_def commits_of_def sort_key_id_if_sorted)
qed

section \<open>Settlement\<close>

text \<open>A reserved attempt was admitted at the subject's current head; a commit, the occasion
  it consumed and the attempt it settled name one another.\<close>

definition commit_settled :: "store \<Rightarrow> commit_row \<Rightarrow> transition \<Rightarrow> bool" where
  "commit_settled st c t \<longleftrightarrow>
     (\<exists>q \<in> set (st_occasions st). oc_id q = tr_occasion t \<and> oc_subject q = tr_subject t \<and> oc_consumed q = Some (co_id c)) \<and>
     (\<exists>r \<in> set (st_attempts st). at_id r = tr_attempt t \<and> at_status r = Committed \<and> at_subject r = tr_subject t \<and>
        at_parent r = tr_parent t \<and> at_occasion r = tr_occasion t)"

definition reserved_at_head :: "store \<Rightarrow> bool" where
  "reserved_at_head st \<longleftrightarrow> (\<forall>a \<in> set (st_attempts st). at_status a = Reserved \<longrightarrow>
     (\<exists>r \<in> set (st_subjects st). su_id r = at_subject a \<and> su_head r = at_parent a))"

definition commits_settled :: "store \<Rightarrow> bool" where
  "commits_settled st \<longleftrightarrow>
     (\<forall>c \<in> set (st_commits st). \<forall>t. co_body c = Transition t \<longrightarrow> commit_settled st c t)"

definition consumed_named :: "store \<Rightarrow> bool" where
  "consumed_named st \<longleftrightarrow> (\<forall>q \<in> set (st_occasions st). \<forall>i. oc_consumed q = Some i \<longrightarrow>
     (\<exists>c \<in> set (st_commits st). \<exists>t. co_id c = i \<and> co_body c = Transition t \<and> tr_occasion t = oc_id q))"

definition committed_named :: "store \<Rightarrow> bool" where
  "committed_named st \<longleftrightarrow> (\<forall>a \<in> set (st_attempts st). at_status a = Committed \<longrightarrow>
     (\<exists>c \<in> set (st_commits st). \<exists>t. co_body c = Transition t \<and> tr_attempt t = at_id a))"

definition abstained_named :: "store \<Rightarrow> bool" where
  "abstained_named st \<longleftrightarrow> as_attempt ` set (st_abstentions st) \<subseteq> at_id ` set (st_attempts st) \<and>
     (\<forall>a \<in> set (st_attempts st). at_status a = Abstained \<longleftrightarrow> at_id a \<in> as_attempt ` set (st_abstentions st))"

definition settled_inv :: "store \<Rightarrow> bool" where
  "settled_inv st \<longleftrightarrow> reserved_at_head st \<and> commits_settled st \<and> consumed_named st \<and> committed_named st \<and>
     abstained_named st"

lemma settled_rowE:
  "at_status (settled_row t a) = Reserved \<Longrightarrow> at_status a = Reserved \<and> at_id a \<noteq> tr_attempt t \<and>
     \<not> (at_subject a = tr_subject t \<and> at_parent a = tr_parent t)"
  "at_status (settled_row t a) = Committed \<Longrightarrow> at_status a = Committed \<or> at_id a = tr_attempt t"
  "at_status (settled_row t a) = Abstained \<longleftrightarrow> at_status a = Abstained \<and> at_id a \<noteq> tr_attempt t"
  by (auto simp: settled_row_def split: if_splits)

lemma failed_rowE:
  "at_status (failed_row i m a) = Reserved \<longleftrightarrow> at_status a = Reserved \<and> at_id a \<noteq> i"
  "at_status (failed_row i m a) = Committed \<longleftrightarrow> at_status a = Committed"
  "at_status (failed_row i m a) = Abstained \<longleftrightarrow> at_status a = Abstained"
  by (auto simp: failed_row_def)

lemma commit_settled_mono:
  assumes "commit_settled st c t"
    and "\<And>q. q \<in> set (st_occasions st) \<Longrightarrow> oc_consumed q \<noteq> None \<Longrightarrow> q \<in> set (st_occasions st')"
    and "\<And>r. r \<in> set (st_attempts st) \<Longrightarrow> at_status r = Committed \<Longrightarrow> r \<in> set (st_attempts st')"
  shows "commit_settled st' c t"
proof -
  from assms(1) obtain q r where "q \<in> set (st_occasions st)" "oc_id q = tr_occasion t" "oc_subject q = tr_subject t"
    "oc_consumed q = Some (co_id c)" "r \<in> set (st_attempts st)" "at_id r = tr_attempt t" "at_status r = Committed"
    "at_subject r = tr_subject t" "at_parent r = tr_parent t" "at_occasion r = tr_occasion t"
    unfolding commit_settled_def by blast
  with assms(2) [of q] assms(3) [of r] show ?thesis unfolding commit_settled_def by auto
qed

lemma abstained_rowE:
  "at_status (abstained_row i a) = Reserved \<longleftrightarrow> at_status a = Reserved \<and> at_id a \<noteq> i"
  "at_status (abstained_row i a) = Committed \<longleftrightarrow> at_status a = Committed \<and> at_id a \<noteq> i"
  "at_status (abstained_row i a) = Abstained \<longleftrightarrow> at_status a = Abstained \<or> at_id a = i"
  by (auto simp: abstained_row_def)

text \<open>Settling a reserved attempt changes no committed row.\<close>

lemma settled_row_other: "at_id a \<noteq> tr_attempt t \<Longrightarrow> at_status a \<noteq> Reserved \<Longrightarrow> settled_row t a = a"
  by (simp add: settled_row_def)

lemma reserved_not_status:
  assumes "keys_inv st" and "row \<in> set (st_attempts st)" and "at_status row = Reserved"
    and "a \<in> set (st_attempts st)" and "at_status a \<noteq> Reserved"
  shows "at_id a \<noteq> at_id row"
  using keys_inv_unique(3) [OF assms(1,4,2)] assms(3,5) by auto

lemma reserved_at_head_transition:
  assumes "keys_inv st" and "transition_ok X st row r q t db" and "reserved_at_head st"
  shows "reserved_at_head (committed_store X st t db fs)"
  unfolding reserved_at_head_def
proof (intro ballI impI)
  note rows = transition_ok_rows [OF assms(1,2)]
  fix a assume "a \<in> set (st_attempts (committed_store X st t db fs))" and res: "at_status a = Reserved"
  then obtain a0 where a0: "a0 \<in> set (st_attempts st)" "a = settled_row t a0" by auto
  note h = settled_rowE(1) [OF res [unfolded a0(2)]]
  with assms(3) a0(1) obtain r0 where r0: "r0 \<in> set (st_subjects st)" "su_id r0 = at_subject a0" "su_head r0 = at_parent a0"
    by (auto simp: reserved_at_head_def)
  have "headed X t r0 = r0"
  proof (cases "su_id r0 = su_id r")
    case True
    with keys_inv_unique(1) [OF assms(1) r0(1) rows(3)] have "r0 = r" by simp
    with h r0 rows show ?thesis by simp
  next
    case False
    with rows show ?thesis by (simp add: headed_def)
  qed
  with r0 show "\<exists>r \<in> set (st_subjects (committed_store X st t db fs)). su_id r = at_subject a \<and> su_head r = at_parent a"
    by (auto simp: a0(2) intro!: bexI [of _ r0])
qed

lemma commits_settled_transition:
  assumes "keys_inv st" and "rows_inv X st" and "transition_ok X st row r q t db" and "commits_settled st"
  shows "commits_settled (committed_store X st t db fs)"
  unfolding commits_settled_def
proof (intro ballI allI impI)
  note rows = transition_ok_rows [OF assms(1,3)]
  fix c t' assume "c \<in> set (st_commits (committed_store X st t db fs))" and c: "co_body c = Transition t'"
  then consider "c \<in> set (st_commits st)" | "c = transition_row X t" by auto
  then show "commit_settled (committed_store X st t db fs) c t'"
  proof cases
    case 1
    with assms(4) c have "commit_settled st c t'" by (simp add: commits_settled_def)
    then show ?thesis
    proof (rule commit_settled_mono)
      fix q' assume "q' \<in> set (st_occasions st)" "oc_consumed q' \<noteq> None"
      moreover from this have "consumed_row X t q' = q'" by (simp add: consumed_row_def)
      ultimately show "q' \<in> set (st_occasions (committed_store X st t db fs))"
        by (auto intro: image_eqI [of _ _ q'])
    next
      fix a assume a: "a \<in> set (st_attempts st)" "at_status a = Committed"
      then have "at_id a \<noteq> tr_attempt t"
        using reserved_not_status [OF assms(1) rows(1,2) a(1)] by (simp add: rows)
      with a have "settled_row t a = a" by (simp add: settled_row_other)
      with a show "a \<in> set (st_attempts (committed_store X st t db fs))" by (auto intro: image_eqI [of _ _ a])
    qed
  next
    case 2
    with c have t': "t' = t" by simp
    have "attempt_ok X row" "occasion_ok X q" using assms(2) rows by (simp_all add: rows_inv_def)
    then have "oc_subject q = tr_subject t" "at_subject row = tr_subject t" "at_parent row = tr_parent t"
      "at_occasion row = tr_occasion t" using rows by (simp_all add: attempt_ok_def occasion_ok_def)
    moreover have "oc_consumed (consumed_row X t q) = Some (co_id c)" "at_status (settled_row t row) = Committed"
      using rows by (simp_all add: consumed_row_def settled_row_def 2)
    ultimately show ?thesis unfolding commit_settled_def t'
      using rows by (intro conjI bexI [of _ "consumed_row X t q"] bexI [of _ "settled_row t row"]) simp_all
  qed
qed

lemma consumed_named_transition:
  assumes "consumed_named st"
  shows "consumed_named (committed_store X st t db fs)"
  using assms by (fastforce simp: consumed_named_def consumed_row_def)

lemma committed_named_transition:
  assumes "keys_inv st" and "transition_ok X st row r q t db" and "committed_named st"
  shows "committed_named (committed_store X st t db fs)"
  using assms(3) transition_ok_rows(6) [OF assms(1,2)]
  by (fastforce simp: committed_named_def dest!: settled_rowE(2))

lemma abstained_named_transition:
  assumes "keys_inv st" and "transition_ok X st row r q t db" and "abstained_named st"
  shows "abstained_named (committed_store X st t db fs)"
proof -
  note rows = transition_ok_rows [OF assms(1,2)]
  have "at_id row \<notin> as_attempt ` set (st_abstentions st)"
    using assms(3) rows(1,2) by (auto simp: abstained_named_def)
  with assms(3) rows(6) show ?thesis by (auto simp: abstained_named_def image_image settled_rowE)
qed

lemma commits_settled_same:
  assumes "commits_settled st" and "st_commits st' = st_commits st" and "st_occasions st' = st_occasions st"
    and "\<And>r. r \<in> set (st_attempts st) \<Longrightarrow> at_status r = Committed \<Longrightarrow> r \<in> set (st_attempts st')"
  shows "commits_settled st'"
  unfolding commits_settled_def
proof (intro ballI allI impI)
  fix c t assume "c \<in> set (st_commits st')" "co_body c = Transition t"
  with assms(1,2) have "commit_settled st c t" by (simp add: commits_settled_def)
  then show "commit_settled st' c t" by (rule commit_settled_mono) (use assms(3,4) in auto)
qed

lemma settled_inv_step:
  "ledger_step X st st' \<Longrightarrow> keys_inv st \<and> rows_inv X st \<Longrightarrow> settled_inv st \<Longrightarrow> settled_inv st'"
proof (induction rule: ledger_step.induct)
  case (new_subject g st)
  then show ?case
    by (fastforce simp: settled_inv_def reserved_at_head_def commits_settled_def consumed_named_def committed_named_def
        abstained_named_def commit_settled_def)
next
  case (new_occasion st e r)
  then show ?case
    by (fastforce simp: settled_inv_def reserved_at_head_def commits_settled_def consumed_named_def committed_named_def
        abstained_named_def commit_settled_def)
next
  case (new_attempt st a r q b)
  have "commits_settled (admitted_store X st a)"
    using new_attempt(15) by (fastforce simp: settled_inv_def commits_settled_def commit_settled_def)
  moreover have "reserved_at_head (admitted_store X st a)"
    using new_attempt find_subject_Some [OF new_attempt(1)]
    by (auto simp: settled_inv_def reserved_at_head_def)
  ultimately show ?case using new_attempt
    by (auto simp: settled_inv_def consumed_named_def committed_named_def abstained_named_def)
next
  case (transition st row r q t db fs)
  then show ?case
    by (auto simp: settled_inv_def intro: reserved_at_head_transition commits_settled_transition
        consumed_named_transition committed_named_transition abstained_named_transition)
next
  case (failed row st fs reason)
  have keep: "failed_row (at_id row) reason a = a" if "at_status a = Committed" for a
    using that by (simp add: failed_row_def)
  have "commits_settled (mark_failed (at_id row) reason (st\<lparr>st_failures := st_failures st @ fs\<rparr>))"
    by (rule commits_settled_same [of st]) (use failed(5) keep in \<open>auto simp: settled_inv_def intro: image_eqI [OF sym]\<close>)
  with failed show ?case
    by (auto simp: settled_inv_def reserved_at_head_def consumed_named_def committed_named_def abstained_named_def
        failed_rowE image_image)
next
  case (abstained st row o' r)
  note mem = find_attempt_Some [OF abstained(1)]
  have keep: "abstained_row (at_id row) a = a" if "a \<in> set (st_attempts st)" "at_status a = Committed" for a
    using reserved_not_status [of st row a] that mem abstained(2,6) by (auto simp: abstained_row_def)
  have "commits_settled (abstained_store st (at_id row) o')"
    by (rule commits_settled_same [of st]) (use abstained(7) keep in \<open>auto simp: settled_inv_def intro: image_eqI [OF sym]\<close>)
  moreover have "as_attempt o' = at_id row" using abstained(3) by (simp add: abstention_ok_for_def)
  ultimately show ?case using abstained mem
    by (auto simp: settled_inv_def reserved_at_head_def consumed_named_def committed_named_def abstained_named_def
        abstained_rowE image_image)
qed (auto simp: settled_inv_def reserved_at_head_def commits_settled_def consumed_named_def committed_named_def
        abstained_named_def commit_settled_def)

interpretation settled: ledger_invariant X "\<lambda>st. keys_inv st \<and> rows_inv X st" settled_inv for X
proof
  show "settled_inv empty_store"
    by (simp add: settled_inv_def reserved_at_head_def commits_settled_def consumed_named_def committed_named_def
        abstained_named_def empty_store_def)
qed (auto intro: settled_inv_step keys.always rows.always)

section \<open>Clocks and the admission rate\<close>

definition clock_ok :: "store \<Rightarrow> subject_row \<Rightarrow> bool" where
  "clock_ok st r \<longleftrightarrow> limits_ok (su_limits r) \<and> 0 \<le> su_accounting_wall r \<and>
     rate_ok (su_limits r) (admissions_of st (su_id r)) \<and>
     (\<forall>(s, a) \<in> set (admissions_of st (su_id r)). 0 \<le> a \<and> a \<le> su_accounting_wall r)"

definition clock_inv :: "store \<Rightarrow> bool" where
  "clock_inv st \<longleftrightarrow> st_attempt_seq st \<le> max_seq \<and> (\<forall>r \<in> set (st_subjects st). clock_ok st r) \<and>
     at_subject ` set (st_attempts st) \<subseteq> su_id ` set (st_subjects st)"

lemma admissions_of_map:
  assumes "st_attempts st' = map f (st_attempts st)"
    and "\<And>r. at_subject (f r) = at_subject r" and "\<And>r. at_seq (f r) = at_seq r"
    and "\<And>r. at_admitted_at (f r) = at_admitted_at r"
  shows "admissions_of st' s = admissions_of st s"
proof -
  have "map (\<lambda>r. (at_seq r, at_admitted_at r)) (filter (\<lambda>r. at_subject r = s) (map f rs)) =
      map (\<lambda>r. (at_seq r, at_admitted_at r)) (filter (\<lambda>r. at_subject r = s) rs)" for rs
    by (induction rs) (simp_all add: assms)
  then show ?thesis by (simp add: admissions_of_def subject_attempts_def assms(1))
qed

lemma admissions_of_simps [simp]:
  "admissions_of (committed_store X st t db fs) s = admissions_of st s"
  "admissions_of (mark_failed i m st) s = admissions_of st s"
  "admissions_of (abstained_store st i o') s = admissions_of st s"
  "admissions_of (st\<lparr>st_failures := fs\<rparr>) s = admissions_of st s"
  "admissions_of (admitted_store X st a) s = admissions_of st s @
     (if ad_subject a = s then [(st_attempt_seq st + 1, ad_admitted_at a)] else [])"
  by (rule admissions_of_map [where f = "settled_row t"], simp_all)
    (rule admissions_of_map [where f = "failed_row i m"], simp_all,
     rule admissions_of_map [where f = "abstained_row i"], simp_all add: admissions_of_def subject_attempts_def)

lemma rate_ok_empty: "rate_ok lim []"
  by (simp add: rate_ok_def)

lemma admissions_seq_bound:
  assumes "keys_inv st" and "(s, a) \<in> set (admissions_of st subject)"
  shows "s \<le> st_attempt_seq st"
  using assms by (auto simp: admissions_of_def subject_attempts_def keys_inv_def seqs_ok_def)

lemma clock_ok_admitted:
  assumes "keys_inv st" and "clock_inv st" and "r \<in> set (st_subjects st)" and "su_id r = ad_subject a"
    and "su_accounting_wall r \<le> ad_admitted_at a"
    and "budget st (ad_subject a) (su_limits r) (ad_admitted_at a) max_seq = Inr b"
    and "bg_eligible_at b \<le> ad_admitted_at a"
  shows "clock_ok (admitted_store X st a) (walled a r)"
proof -
  let ?rows = "admissions_of st (su_id r)" and ?now = "ad_admitted_at a"
  from assms(2,3) have ok: "clock_ok st r" and seq: "st_attempt_seq st \<le> max_seq" by (simp_all add: clock_inv_def)
  then have bounds: "\<forall>(s, x) \<in> set ?rows. 0 \<le> x \<and> x \<le> su_accounting_wall r" by (simp add: clock_ok_def)
  have "rate_ok (su_limits r) (?rows @ [(st_attempt_seq st + 1, ?now)])"
  proof (rule rate_ok_admission)
    show "budget_sql (su_limits r) ?rows ?now max_seq = Inr b"
      using assms(6) by (simp add: budget_def flip: assms(4))
    show "\<forall>(s, x) \<in> set ?rows. s \<le> max_seq \<and> 0 \<le> x \<and> x \<le> ?now"
      using bounds assms(5) admissions_seq_bound [OF assms(1), of _ _ "su_id r"] seq by fastforce
  qed (use ok assms(7) in \<open>simp_all add: clock_ok_def\<close>)
  moreover have "\<forall>(s, x) \<in> set (?rows @ [(st_attempt_seq st + 1, ?now)]). 0 \<le> x \<and> x \<le> ?now"
    using bounds assms(5) ok by (fastforce simp: clock_ok_def)
  ultimately show ?thesis
    using ok assms(4,5) by (simp add: clock_ok_def) (simp add: walled_def)
qed

lemma clock_inv_step: "ledger_step X st st' \<Longrightarrow> keys_inv st \<Longrightarrow> clock_inv st \<Longrightarrow> clock_inv st'"
proof (induction rule: ledger_step.induct)
  case (new_subject g st)
  then have "\<forall>a \<in> set (st_attempts st). at_subject a \<noteq> ge_subject g"
    unfolding clock_inv_def by (metis imageI subsetD)
  then have "admissions_of st (ge_subject g) = []"
    by (simp add: admissions_of_def subject_attempts_def filter_empty_conv)
  moreover have "admissions_of (st\<lparr>st_subjects := ss, st_commits := cs\<rparr>) s = admissions_of st s" for ss cs s
    by (simp add: admissions_of_def subject_attempts_def)
  ultimately show ?case
    using new_subject by (auto simp: clock_inv_def clock_ok_def rate_ok_empty)
next
  case (new_occasion st e r)
  then show ?case by (simp add: clock_inv_def clock_ok_def admissions_of_def subject_attempts_def)
next
  case (new_attempt st a r q b)
  note mem = find_subject_Some [OF new_attempt(1)]
  have "clock_ok (admitted_store X st a) (walled a r')" if r': "r' \<in> set (st_subjects st)" for r'
  proof (cases "su_id r' = ad_subject a")
    case True
    with keys_inv_unique(1) [OF new_attempt(14) r'] mem have "r' = r" by simp
    then show ?thesis using new_attempt mem by (intro clock_ok_admitted) simp_all
  next
    case False
    with new_attempt(15) r' show ?thesis by (simp add: clock_inv_def clock_ok_def) (simp add: walled_def)
  qed
  moreover have "ad_subject a \<in> su_id ` set (st_subjects st)" using mem by (metis imageI)
  ultimately show ?case using new_attempt by (auto simp: clock_inv_def image_image)
next
  case (transition st row r q t db fs)
  note rows = transition_ok_rows [OF transition(3,1)]
  have wall: "su_accounting_wall r \<le> tr_committed_at t" using transition(1) by (simp add: transition_ok_def)
  have "clock_ok (committed_store X st t db fs) (headed X t r')" if r': "r' \<in> set (st_subjects st)" for r'
  proof (cases "su_id r' = su_id r")
    case True
    with keys_inv_unique(1) [OF transition(3) r' rows(3)] have "r' = r" by simp
    with transition(4) r' wall rows show ?thesis
      by (auto simp: clock_inv_def clock_ok_def) (fastforce simp: headed_def)+
  next
    case False
    with transition(4) r' rows show ?thesis by (simp add: clock_inv_def clock_ok_def) (simp add: headed_def)
  qed
  with transition(4) show ?case by (simp add: clock_inv_def image_image)
next
  case (failed row st fs reason)
  then show ?case by (simp add: clock_inv_def clock_ok_def image_image)
next
  case (abstained st row o' r)
  then show ?case by (simp add: clock_inv_def clock_ok_def image_image)
next
  case (rebuilt st s db)
  then show ?case by (simp add: clock_inv_def clock_ok_def admissions_of_def subject_attempts_def)
qed

interpretation clocks: ledger_invariant X keys_inv clock_inv for X
proof
  show "clock_inv empty_store" by (simp add: clock_inv_def empty_store_def max_seq_def max_millis_def)
qed (auto intro: clock_inv_step keys.always)

section \<open>The memory index is the replay of the chain\<close>

definition index_inv :: "ext \<Rightarrow> store \<Rightarrow> bool" where
  "index_inv X st \<longleftrightarrow> memory_inv (st_memory st) \<and>
     (\<forall>r \<in> set (st_subjects st). index_is_replay X (commits_of st (su_id r)) (st_memory st) (su_id r)) \<and>
     (\<forall>s. s \<notin> su_id ` set (st_subjects st) \<longrightarrow> memory_of s (st_memory st) = empty_memory)"

lemma index_is_replay_of: "memory_of s db' = memory_of s db \<Longrightarrow> index_is_replay X cs db' s = index_is_replay X cs db s"
  by (simp add: index_is_replay_def)

lemma memory_of_empty: "memory_of s empty_memory = empty_memory"
  by (simp add: memory_of_def empty_memory_def)

lemma index_inv_transition:
  assumes "keys_inv st" and "transition_ok X st row r q t db" and "index_inv X st"
  shows "index_inv X (committed_store X st t db fs)"
proof -
  note rows = transition_ok_rows [OF assms(1,2)]
  from assms(3) have inv: "memory_inv (st_memory st)" by (simp add: index_inv_def)
  from assms(2) have "memory_apply X (st_memory st) (su_id r) (su_head r) (tr_tick t) (co_id (transition_row X t))
       (p_notes (tr_proposal t)) = Inr db" and ok: "proposal_ok X (tr_proposal t)"
    unfolding transition_ok_def by blast+
  note ap = this(1) [folded rows(9)]
  note other = memory_apply_of(2) [OF inv ap]
  have "index_is_replay X (commits_of (committed_store X st t db fs) (su_id r')) db (su_id r')"
    if r': "r' \<in> set (st_subjects st)" for r'
  proof (cases "su_id r' = su_id r")
    case True
    with assms(3) r' have "index_is_replay X (commits_of st (su_id r)) (st_memory st) (su_id r)"
      by (auto simp: index_inv_def)
    from index_is_replay_step [OF inv this ap row_field_simps(13) ok] show ?thesis
      using True rows by (simp add: commits_of_snoc)
  next
    case False
    with assms(3) r' rows show ?thesis
      by (simp add: commits_of_snoc index_is_replay_of [OF other] index_inv_def)
  qed
  moreover have "memory_of s db = empty_memory" if "s \<notin> su_id ` set (st_subjects st)" for s
    using that other [of s] assms(3) rows(3) by (auto simp: index_inv_def)
  moreover have "memory_inv db" by (rule memory_apply_inv [OF inv ap])
  ultimately show ?thesis by (simp add: index_inv_def image_image)
qed

lemma index_inv_rebuilt:
  assumes "chain_inv st" and "index_inv X st" and "memory_rebuild X st s = Inr db"
  shows "index_inv X (st\<lparr>st_memory := db\<rparr>)"
proof -
  from assms(2) have inv: "memory_inv (st_memory st)" by (simp add: index_inv_def)
  have "index_is_replay X (subject_commits st s) (st_memory st) s"
  proof (cases "s \<in> su_id ` set (st_subjects st)")
    case True
    with assms(2) subject_commits_chain [OF assms(1)] show ?thesis by (auto simp: index_inv_def)
  next
    case False
    with assms(1) have "\<forall>c \<in> set (st_commits st). co_subject c \<noteq> s" by (auto simp: chain_inv_def)
    then have "subject_commits st s = []" by (simp add: subject_commits_def filter_empty_conv)
    with False assms(2) show ?thesis by (simp add: index_is_replay_def index_inv_def)
  qed
  from memory_rebuild_join [OF inv this] assms(3) have
    "db = memory_join (memory_delete s (st_memory st)) (memory_of s (st_memory st))" by simp
  then have "memory_of s' db = memory_of s' (st_memory st)" for s'
    using memory_of_rebuilt by (cases "s' = s") simp_all
  with assms(2) memory_rebuild_inv [OF inv assms(3)] show ?thesis
    by (simp add: index_inv_def commits_of_def index_is_replay_def)
qed

lemma index_inv_step:
  "ledger_step X st st' \<Longrightarrow> keys_inv st \<and> chain_inv st \<Longrightarrow> index_inv X st \<Longrightarrow> index_inv X st'"
proof (induction rule: ledger_step.induct)
  case (new_subject g st)
  then have "\<forall>c \<in> set (st_commits st). co_subject c \<noteq> ge_subject g" unfolding chain_inv_def by metis
  then have none: "commits_of st (ge_subject g) = []" by (simp add: commits_of_def filter_empty_conv)
  have "commits_of (st\<lparr>st_subjects := ss, st_commits := st_commits st @ [genesis_row X g]\<rparr>) s =
      commits_of st s @ (if ge_subject g = s then [genesis_row X g] else [])" for ss s
    by (simp add: commits_of_def)
  moreover have "su_id r \<noteq> ge_subject g" if "r \<in> set (st_subjects st)" for r
    using new_subject(1) that by (metis imageI)
  ultimately show ?case
    using new_subject none by (auto simp: index_inv_def index_is_replay_def)
next
  case (transition st row r q t db fs)
  then show ?case by (auto intro: index_inv_transition)
next
  case (rebuilt st s db)
  then show ?case by (auto intro: index_inv_rebuilt)
qed (simp_all add: index_inv_def commits_of_def image_image)

interpretation index: ledger_invariant X "\<lambda>st. keys_inv st \<and> chain_inv st" "index_inv X" for X
proof
  show "index_inv X empty_store"
    by (simp add: index_inv_def empty_store_def memory_inv_empty memory_of_empty)
qed (auto intro: index_inv_step keys.always chain.always)

section \<open>The committed memory fits\<close>

definition size_inv :: "ext \<Rightarrow> store \<Rightarrow> bool" where
  "size_inv X st \<longleftrightarrow> (\<forall>r \<in> set (st_subjects st). length (x_dump X (JObj (su_memory r))) \<le> max_state)"

lemma size_inv_step: "ledger_step X st st' \<Longrightarrow> size_inv X st \<Longrightarrow> size_inv X st'"
proof (induction rule: ledger_step.induct)
  case (new_subject g st)
  then show ?case by (simp add: size_inv_def)
next
  case (new_attempt st a r q b)
  then show ?case by (auto simp: size_inv_def walled_def)
next
  case (transition st row r q t db fs)
  then have "length (x_dump X (JObj (tr_memory t))) \<le> max_state" unfolding transition_ok_def by blast
  with transition show ?case by (auto simp: size_inv_def headed_def)
qed (simp_all add: size_inv_def)

interpretation sizes: ledger_invariant X "\<lambda>st. True" "size_inv X" for X
proof
  show "size_inv X empty_store" by (simp add: size_inv_def empty_store_def)
qed (auto intro: size_inv_step)

end
