(* ===== verification/Cogg_Run.thy ===== *)
theory Cogg_Run
  imports Cogg_Invariant
begin

text \<open>
  A concrete run of the store, evaluated step by step on the sample printer and digest:
  a subject is created, its first occasion admitted, and a transition committed that writes
  one working-memory key and deposits one open task. The witnesses of the properties about
  reachable stores use it.
\<close>

definition run_genesis :: genesis where
  "run_genesis = \<lparr>ge_schema = 5, ge_subject = ''s'', ge_created_at = 0, ge_nonce = ''n'',
     ge_limits = default_limits, ge_memory = []\<rparr>"

definition run_event :: event where
  "run_event = \<lparr>ev_subject = ''s'', ev_key = ''system:created'', ev_kind = ''created'', ev_payload = JObj [],
     ev_received_at = 0, ev_parents = [sample_id 0]\<rparr>"

definition run_created :: store where
  "run_created = empty_store\<lparr>st_subjects := [initial_subject sample_ext run_genesis],
     st_commits := [genesis_row sample_ext run_genesis],
     st_occasions := [occasion_for sample_ext run_event (sample_id 0) 1], st_occasion_seq := 1\<rparr>"

lemma run_hash_genesis: "hash sample_ext (commit_json (Genesis run_genesis)) = sample_id 0"
  by (simp add: hash_sample sample_dump_def genesis_json_def jat_mk_obj)

lemma sample_hash_event: "hash sample_ext (event_json e) = sample_id (length (ev_key e) - 14)"
  by (simp add: hash_sample sample_dump_def event_json_def jat_mk_obj)

lemma run_hash_event: "hash sample_ext (event_json run_event) = sample_id 0"
  by (simp add: sample_hash_event run_event_def)

lemma run_dump_small: "sample_dump (JObj []) = []"
  by (simp add: sample_dump_def)

lemma default_limits_ok: "limits_ok default_limits"
  by (simp add: limits_ok_def default_limits_def max_delay_def)

lemma run_create: "create sample_ext empty_store ''s'' default_limits 0 (JObj []) ''n'' = Inr run_created"
proof -
  have l: "\<exists>j. limits_json default_limits = Inr j" by (simp add: limits_json_def default_limits_ok)
  then obtain j where j: "limits_json default_limits = Inr j" by blast
  have g: "hash sample_ext (genesis_json run_genesis) = sample_id 0" using run_hash_genesis by simp
  show ?thesis
    by (simp add: create_def run_dump_small check_text_def check_time_def j Let_def insert_commit_def empty_store_def
        snapshot_def find_subject_def enqueue_def run_created_def initial_subject_def genesis_row_def g
        occasion_for_def run_event_def run_hash_event row_snapshot_def max_seq_def max_millis_def
        flip: run_genesis_def)
      (simp add: run_genesis_def)
qed

definition run_budget :: budget where
  "run_budget = \<lparr>bg_used = 0, bg_limit = 20, bg_period_ms = 3600000, bg_through_seq = 0, bg_floor_at = 0,
     bg_quota_at = 0, bg_eligible_at = 0\<rparr>"

definition run_subject :: subject_row where
  "run_subject = initial_subject sample_ext run_genesis"

definition run_pending :: pending where
  "run_pending = \<lparr>pe_id = Some (sample_id 0), pe_kind = ''created'', pe_payload = JObj []\<rparr>"

definition run_decision :: decision where
  "run_decision = decide (row_snapshot run_subject) 0 0 run_budget (Some run_pending)"

definition run_present :: present where
  "run_present = \<lparr>pr_state = row_snapshot run_subject,
     pr_occasion = \<lparr>o_id = sample_id 0, o_kind = ''created'', o_payload = JObj []\<rparr>,
     pr_prior_unsettled = False,
     pr_temporal = \<lparr>te_clock = clock_json (sample_id 0), te_coordinate = 0, te_admission = run_decision,
       te_previous_wake = No_Previous, te_wake_lateness_ms = None\<rparr>,
     pr_working_memory = None, pr_memory_view = None, pr_inputs = JArr []\<rparr>"

definition run_admission :: admission where
  "run_admission = admission_body ''m'' ''backend'' 0 0 JNull run_present None None"

definition run_admitted :: store where
  "run_admitted = admitted_store sample_ext run_created run_admission"

lemma run_subject_simps [simp]:
  "su_id run_subject = ''s''" "su_tick run_subject = 0" "su_head run_subject = sample_id 0" "su_memory run_subject = []"
  "su_wake run_subject = None" "su_limits run_subject = default_limits" "su_accounting_wall run_subject = 0"
  using run_hash_genesis by (simp_all add: run_subject_def initial_subject_def genesis_row_def) (simp_all add: run_genesis_def)

lemma run_created_simps [simp]:
  "st_subjects run_created = [run_subject]" "st_attempts run_created = []" "st_attempt_seq run_created = 0"
  "st_occasions run_created = [occasion_for sample_ext run_event (sample_id 0) 1]"
  "st_commits run_created = [genesis_row sample_ext run_genesis]" "st_memory run_created = empty_memory"
  "st_abstentions run_created = []" "st_failures run_created = []"
  by (simp_all add: run_created_def run_subject_def empty_store_def)

lemma run_event_simps [simp]:
  "ev_subject run_event = ''s''" "ev_kind run_event = ''created''" "ev_payload run_event = JObj []"
  by (simp_all add: run_event_def)

lemma run_find_subject [simp]: "find_subject run_created ''s'' = Some run_subject"
  by (simp add: find_subject_def)

lemma run_budget_0: "budget run_created ''s'' default_limits 0 max_seq = Inr run_budget"
  by (simp add: budget_def admissions_of_def subject_attempts_def budget_sql_def budget_result_def Let_def
      run_budget_def budget_cap_def default_limits_def)

lemma run_next: "next_occasion sample_ext run_created (row_snapshot run_subject) 0 = Inr (Some run_pending)"
  by (simp add: next_occasion_def deliverable_def event_of_def find_occasion_def run_hash_event run_pending_def)

lemma run_schedule: "schedule sample_ext run_created ''s'' 0 = Inr run_decision"
  by (simp add: schedule_def snapshot_def config_def accounting_wall_def run_budget_0 run_next run_decision_def Let_def)

lemma run_decision_simps [simp]:
  "sc_status run_decision = ''ready''" "sc_accounting_at run_decision = 0" "sc_occasion run_decision = Some run_pending"
  by (simp_all add: run_decision_def decide_def run_budget_def)

lemma run_admission_hash: "hash sample_ext (admission_json run_admission) = sample_id 0"
  by (simp add: hash_sample sample_dump_def admission_json_def jat_mk_obj)
    (simp add: run_admission_def admission_body_def run_present_def)

lemma run_admission_simps [simp]:
  "ad_subject run_admission = ''s''" "ad_parent run_admission = sample_id 0" "ad_tick run_admission = 0"
  "ad_occasion run_admission = sample_id 0" "ad_admitted_at run_admission = 0" "ad_execution run_admission = JNull"
  "ad_context run_admission = None" "ad_capacity run_admission = None"
  by (simp_all add: run_admission_def admission_body_def run_present_def)

lemma run_admit_fits:
  assumes "case fits of None \<Rightarrow> True | Some f \<Rightarrow> f run_present"
  shows "admit sample_ext run_created ''s'' ''backend'' 0 None fits JNull JNull ''m'' =
    Inr (Some \<lparr>att_id = sample_id 0, att_present = run_present\<rparr>, run_admitted)"
proof -
  have "clock (update_subject ''s'' f run_created) ''s'' = Inr (clock_json (sample_id 0))" for f
    using run_hash_genesis by (simp add: clock_def update_subject_def genesis_row_def) (simp add: run_genesis_def)
  have ck: "clock run_created ''s'' = Inr (clock_json (sample_id 0))"
    using run_hash_genesis by (simp add: clock_def genesis_row_def) (simp add: run_genesis_def)
  have ins: "insert_attempt sample_ext run_admission (update_subject ''s'' (\<lambda>r. r\<lparr>su_accounting_wall := 0\<rparr>) run_created) =
      Inr (sample_id 0, run_admitted)"
    by (simp add: insert_attempt_def Let_def max_seq_def max_millis_def run_hash_event run_admission_hash
        run_admitted_def admitted_store_def attempt_for_def)
  have sel: "selected_id sample_ext run_created (row_snapshot run_subject) run_pending 0 = Inr (sample_id 0, run_created)"
    by (simp add: selected_id_def run_pending_def)
  have late: "lateness \<lparr>o_id = sample_id 0, o_kind = ''created'', o_payload = JObj []\<rparr> 0 = Inr None"
    by (simp add: lateness_def)
  have prev: "previous_wake_of sample_ext run_created (row_snapshot run_subject) = Inr No_Previous"
    by (simp add: previous_wake_of_def)
  have pend: "pe_kind run_pending = ''created''" "pe_payload run_pending = JObj []" by (simp_all add: run_pending_def)
  have view: "admitted_view sample_ext u q None fits = Inr (q, None, None)" for u q
    by (simp add: admitted_view_def)
  have ready: "admit_ready sample_ext run_created (row_snapshot run_subject) run_decision run_pending ''backend'' 0 None fits JNull (JArr []) ''m'' =
     Inr (\<lparr>att_id = sample_id 0, att_present = run_present\<rparr>, run_admitted)"
    unfolding admit_ready_def Let_def sel bindR_Inr_left prod.case pend late view
    using assms by (cases fits; simp add: ck prev flip: run_present_def; simp add: ins flip: run_admission_def; simp add: run_present_def)
  show ?thesis
    by (simp add: admit_def validate_admission_context_def validate_execution_def check_time_def check_text_def snapshot_def
        run_schedule context_current_def ready)
qed

lemmas run_admit = run_admit_fits [where fits = None, simplified]

definition run_proposal :: proposal where
  "run_proposal = default_proposal\<lparr>p_notes := [sample_task ''open''], p_memory := [(''k'', JNull)]\<rparr>"

definition run_plan :: wake_plan where
  "run_plan = \<lparr>wp_decided_at = 1000, wp_requested_after_ms = None, wp_requested_at = None, wp_granted_at = None,
     wp_granted_after_ms = None, wp_reasons = [''waiting_external''], wp_budget =
       \<lparr>bg_used = 1, bg_limit = 20, bg_period_ms = 3600000, bg_through_seq = 1, bg_floor_at = 30000,
        bg_quota_at = 1000, bg_eligible_at = 30000\<rparr>\<rparr>"

definition run_transition :: transition where
  "run_transition = \<lparr>tr_schema = 5, tr_subject = ''s'', tr_tick = 1, tr_parent = sample_id 0, tr_occasion = sample_id 0,
     tr_attempt = sample_id 0, tr_proposal = run_proposal, tr_memory = [(''k'', JNull)], tr_wake_at = None,
     tr_committed_at = 1000, tr_wall_observed_at = 1000, tr_wake_plan = Some run_plan,
     tr_inference_elapsed_ms = None, tr_emission = JNull, tr_disposition = None\<rparr>"

definition run_entry :: entry_row where
  "run_entry = \<lparr>me_id = sample_id 64, me_subject = ''s'', me_key = ''milk'', me_tick = 1, me_commit = sample_id (Suc 0),
     me_body = \<lparr>de_id = sample_id 64, de_subject = ''s'', de_tick = 1, de_commit = sample_id (Suc 0), de_previous = [],
       de_note = sample_task ''open''\<rparr>, me_current = True\<rparr>"

definition run_memory :: memory_db where
  "run_memory = \<lparr>md_entries = [run_entry], md_links = [], md_fts = [entry_fts run_entry]\<rparr>"

definition run_committed :: store where
  "run_committed = committed_store sample_ext run_admitted run_transition run_memory []"

lemma length_sample_id [simp]: "length (sample_id n) = 64"
  by (simp add: sample_id_def)

lemma run_transition_hash: "hash sample_ext (transition_json run_transition) = sample_id (Suc 0)"
  by (simp add: hash_sample sample_dump_def transition_json_def jat_mk_obj) (simp add: run_transition_def)

lemma run_proposal_ok: "proposal_ok sample_ext run_proposal"
  using sample_task_ok [of "''open''"]
  by (simp add: proposal_ok_def run_proposal_def default_proposal_def key_ok_def out_memory_writes_def note_statuses_def)
    (simp add: sample_dump_def)

lemma run_memory_apply: "memory_apply sample_ext empty_memory ''s'' (sample_id 0) 1 (sample_id (Suc 0)) [sample_task ''open''] = Inr run_memory"
  unfolding memory_apply_def sample_task_valid bindR_Inr_left
  by (simp add: sample_apply_simps empty_memory_def run_memory_def run_entry_def)

definition run_attempt :: attempt_row where
  "run_attempt = attempt_for sample_ext run_admission 1"

lemma run_attempt_simps [simp]:
  "at_id run_attempt = sample_id 0" "at_status run_attempt = Reserved" "at_body run_attempt = run_admission"
  "at_seq run_attempt = 1" "at_subject run_attempt = ''s''" "at_admitted_at run_attempt = 0"
  "at_parent run_attempt = sample_id 0"
  by (simp_all add: run_attempt_def run_admission_hash)

lemma run_walled [simp]: "walled run_admission run_subject = run_subject"
  by (simp add: walled_def)

lemma run_admitted_simps [simp]:
  "st_subjects run_admitted = [run_subject]" "st_attempts run_admitted = [run_attempt]" "st_attempt_seq run_admitted = 1"
  "st_occasions run_admitted = [occasion_for sample_ext run_event (sample_id 0) 1]"
  "st_commits run_admitted = [genesis_row sample_ext run_genesis]" "st_memory run_admitted = empty_memory"
  "st_abstentions run_admitted = []" "st_failures run_admitted = []"
  by (simp_all add: run_admitted_def run_attempt_def)

lemma run_budget_1: "budget run_admitted ''s'' default_limits 1000 max_seq = Inr (wp_budget run_plan)"
  by (simp add: budget_def admissions_of_def subject_attempts_def budget_sql_def budget_result_def Let_def
      run_plan_def budget_cap_def default_limits_def max_seq_def max_millis_def budget_lower_def add_time_def)

lemma run_commit:
  "commit_locked sample_ext None run_admitted (sample_id 0) run_proposal 1000 None JNull None =
     Inr (\<lparr>sn_subject = ''s'', sn_tick = 1, sn_head = sample_id (Suc 0), sn_memory = [(''k'', JNull)],
      sn_wake_at = None, sn_lifecycle = ''waiting_external''\<rparr>, run_committed)"
proof -
  have pj: "proposal_json sample_ext run_proposal = Inr (proposal_enc run_proposal)"
    using run_proposal_ok by (simp add: res_simps)
  have fa: "find_attempt run_admitted (sample_id 0) = Some run_attempt" by (simp add: find_attempt_def)
  have em: "validate_emission sample_ext JNull (sample_id 0) run_admission (proposal_enc run_proposal) = Inr ()"
    by (simp add: validate_emission_def validate_execution_def)
  have sn: "snapshot run_admitted ''s'' = Inr (row_snapshot run_subject)" "config run_admitted ''s'' = Inr default_limits"
    "accounting_wall run_admitted ''s'' = 0"
    by (simp_all add: snapshot_def config_def accounting_wall_def find_subject_def)
  have fo: "find_occasion run_admitted (sample_id 0) = Some (occasion_for sample_ext run_event (sample_id 0) 1)"
    by (simp add: find_occasion_def run_hash_event)
  have ev: "event_of sample_ext run_admitted (sample_id 0) = Inr run_event"
    by (simp add: event_of_def fo run_hash_event)
  have om: "opt_max 1000 0 None = Inr 1000" by (simp add: opt_max_def)
  have wm: "write_memory (p_memory run_proposal) [] = [(''k'', JNull)]"
    by (simp add: write_memory_def run_proposal_def)
  have sz: "length (sample_dump (JObj [(''k'', JNull)])) \<le> max_state" by (simp add: sample_dump_def)
  have wp: "wake_plan default_limits (p_wake_after_ms run_proposal) 1000 (wp_budget run_plan) = Inr run_plan"
    by (simp add: wake_plan_def run_proposal_def default_proposal_def) (simp add: run_plan_def)
  have gr: "co_id (genesis_row sample_ext run_genesis) = sample_id 0" "ge_subject run_genesis = ''s''"
    using run_hash_genesis by (simp_all add: genesis_row_def) (simp_all add: run_genesis_def)
  have app: "apply_commit sample_ext run_admitted (row_snapshot run_subject) (sample_id 0) run_admission run_transition =
     Inr (\<lparr>sn_subject = ''s'', sn_tick = 1, sn_head = sample_id (Suc 0), sn_memory = [(''k'', JNull)],
      sn_wake_at = None, sn_lifecycle = ''waiting_external''\<rparr>, run_committed)"
  proof -
    have t: "tr_subject run_transition = ''s''" "tr_tick run_transition = 1" "tr_memory run_transition = [(''k'', JNull)]"
      "tr_proposal run_transition = run_proposal" "tr_wake_at run_transition = None" "tr_occasion run_transition = sample_id 0"
      "tr_committed_at run_transition = 1000" "tr_attempt run_transition = sample_id 0" "tr_parent run_transition = sample_id 0"
      by (simp_all add: run_transition_def)
    have n: "p_notes run_proposal = [sample_task ''open'']" by (simp add: run_proposal_def)
    have nf: "run_admitted\<lparr>st_memory := m, st_commits := c, st_failures := []\<rparr> = run_admitted\<lparr>st_memory := m, st_commits := c\<rparr>" for m c
      using run_admitted_simps(8) by (cases run_admitted) simp
    show ?thesis
      by (simp add: nf apply_commit_def Let_def t n run_transition_hash memory_transition_def run_memory_apply insert_commit_def gr
          sample_id_inject memory_capacity_def run_hash_event run_committed_def committed_store_def transition_row_def
          set_head_def flip: transition_json_def)
  qed
  have wg: "wp_granted_at run_plan = None" by (simp add: run_plan_def)
  show ?thesis
    unfolding commit_locked_def pj bindR_Inr_left fa option.case
    by (simp add: run_admission_hash em sn fo ev om wm sz run_budget_1 wp wg Let_def max_millis_def
        app [unfolded run_transition_def, simplified])
qed

definition run_snapshot :: snapshot where
  "run_snapshot = \<lparr>sn_subject = ''s'', sn_tick = 1, sn_head = sample_id (Suc 0), sn_memory = [(''k'', JNull)],
      sn_wake_at = None, sn_lifecycle = ''waiting_external''\<rparr>"

lemma run_commit_hook:
  "commit sample_ext None (\<lambda>_. Inr ()) run_admitted (sample_id 0) run_proposal 1000 None JNull =
     (Inr run_snapshot, run_committed)"
  by (simp add: commit_def check_time_def run_commit run_snapshot_def)

lemma run_reachable_created: "reachable sample_ext run_created"
  unfolding reachable_def using by_create [OF run_create] by blast

lemma run_reachable_admitted: "reachable sample_ext run_admitted"
  using run_reachable_created by_admit [OF run_admit] unfolding reachable_def by (rule rtranclp.rtrancl_into_rtrancl)

lemma run_reachable: "reachable sample_ext run_committed"
  using run_reachable_admitted by_commit [OF run_commit_hook] unfolding reachable_def
  by (rule rtranclp.rtrancl_into_rtrancl)

definition run_final_subject :: subject_row where
  "run_final_subject = headed sample_ext run_transition run_subject"

lemma run_committed_simps [simp]:
  "st_subjects run_committed = [run_final_subject]"
  "st_commits run_committed = [genesis_row sample_ext run_genesis, transition_row sample_ext run_transition]"
  "st_attempts run_committed = [settled_row run_transition run_attempt]"
  "st_occasions run_committed = [consumed_row sample_ext run_transition (occasion_for sample_ext run_event (sample_id 0) 1)]"
  "st_memory run_committed = run_memory" "st_abstentions run_committed = []" "st_failures run_committed = []"
  by (simp_all add: run_committed_def run_final_subject_def)

end
