(* ===== verification/Cogg_Contract.thy ===== *)
theory Cogg_Contract
  imports Cogg_Run
begin

text \<open>
  What \<open>Store\<close> promises its callers, operation by operation and over any history: the
  properties of \<open>Cogg_Kernel\<close> that rest on the invariants of \<open>Cogg_Invariant\<close>.
\<close>

section \<open>Settlement is final\<close>

lemma settled_status_step:
  assumes "ledger_step X st st'" and "keys_inv st" and "a \<in> set (st_attempts st)" and "at_status a \<noteq> Reserved"
  shows "a \<in> set (st_attempts st')"
  using assms
proof (induction rule: ledger_step.induct)
  case (failed row st fs reason)
  then have "failed_row (at_id row) reason a = a" by (simp add: failed_row_def)
  with failed show ?case by (auto intro: image_eqI [of _ _ a])
next
  case (abstained st row o' r)
  note mem = find_attempt_Some [OF abstained(1)]
  from reserved_not_status [OF abstained(6) _ abstained(2) abstained(7,8)] mem
  have "abstained_row (at_id row) a = a" by (simp add: abstained_row_def)
  with abstained show ?case by (auto intro: image_eqI [of _ _ a])
next
  case (transition st row r q t db fs)
  note rows = transition_ok_rows [OF transition(3,1)]
  from reserved_not_status [OF transition(3) rows(1,2) transition(4,5)] rows(6)
  have "settled_row t a = a" using transition(5) by (simp add: settled_row_other)
  with transition show ?case by (auto intro: image_eqI [of _ _ a])
qed simp_all

lemma occasion_step:
  assumes "ledger_step X st st'" and "q \<in> set (st_occasions st)"
  shows "\<exists>q' \<in> set (st_occasions st'). oc_id q' = oc_id q \<and> oc_subject q' = oc_subject q \<and> oc_key q' = oc_key q \<and>
    oc_kind q' = oc_kind q \<and> oc_parent q' = oc_parent q \<and> oc_body q' = oc_body q \<and>
    (oc_consumed q \<noteq> None \<longrightarrow> oc_consumed q' = oc_consumed q)"
  using assms
proof (induction rule: ledger_step.induct)
  case (transition st row r q' t db fs)
  then show ?case by (intro bexI [of _ "consumed_row X t q"]) (auto simp: consumed_row_def)
qed auto

lemma commits_step: "ledger_step X st st' \<Longrightarrow> \<exists>cs. st_commits st' = st_commits st @ cs"
  by (induction rule: ledger_step.induct) simp_all

text \<open>Facts that only grow are kept by any continuation.\<close>

lemma steps_keep:
  assumes "ledger_steps X st st'" and "keys_inv st" and "P st"
    and "\<And>u v. keys_inv u \<Longrightarrow> P u \<Longrightarrow> ledger_step X u v \<Longrightarrow> P v"
  shows "P st'"
proof -
  have "keys_inv st' \<and> P st'" using assms(1)
  proof (induction rule: rtranclp_induct)
    case (step y z)
    with assms(4) keys_inv_step show ?case by blast
  qed (use assms(2,3) in simp)
  then show ?thesis by simp
qed

definition later :: "ext \<Rightarrow> store \<Rightarrow> store \<Rightarrow> bool" where
  "later X = (kernel_step X)\<^sup>*\<^sup>*"

lemma later_ledger: "later X st st' \<Longrightarrow> ledger_steps X st st'"
  unfolding later_def
proof (induction rule: rtranclp_induct)
  case (step y z)
  with kernel_step_ledger show ?case by (meson rtranclp_trans)
qed simp

lemma reachable_later: "reachable X st \<Longrightarrow> later X st st' \<Longrightarrow> reachable X st'"
  by (simp add: reachable_def later_def)

lemma settled_later:
  assumes "reachable X st" and "later X st st'" and "a \<in> set (st_attempts st)" and "at_status a \<noteq> Reserved"
  shows "find_attempt st' (at_id a) = Some a"
proof -
  have "a \<in> set (st_attempts st')"
    using later_ledger [OF assms(2)] keys.reachable [OF assms(1)] assms(3)
    by (rule steps_keep [where P = "\<lambda>u. a \<in> set (st_attempts u)"]) (use settled_status_step assms(4) in blast)
  then show ?thesis
    using keys_inv_find(3) keys.reachable [OF reachable_later [OF assms(1,2)]] by blast
qed

text \<open>
  C1. Every operation of the store is a sequence of ledger steps: whatever \<open>create\<close>,
  \<open>submit\<close>, \<open>admit\<close>, \<open>commit\<close> with any fault hook, \<open>abstain\<close>, both \<open>fail\<close>s or a rebuild
  of the index does to the tables, it does by inserting a fresh subject, occasion or
  attempt, settling a reserved attempt, or one complete transition, each under its full
  precondition; an operation that raises leaves the tables as they were.
\<close>

theorem kernel_refines_ledger:
  assumes "kernel_step X st st'"
  shows "(ledger_step X)\<^sup>*\<^sup>* st st'"
  using assms by (rule kernel_step_ledger)

text \<open>
  C3. One history per subject: in every reachable store the subject's commits are ticks
  \<open>0, 1, 2, ...\<close> without gap, the first is the genesis that fixes its limits, each later
  one is a transition whose parent is the ID of the one before and whose working memory is
  the predecessor's with the proposal's writes applied, every ID is the hash of its body,
  and the subject's row is exactly what the last commit says.
\<close>

theorem reachable_history:
  assumes "reachable X st" and "r \<in> set (st_subjects st)"
  shows "\<exists>cs. subject_commits st (su_id r) = cs \<and> cs \<noteq> [] \<and>
    (\<forall>i < length cs. co_tick (cs ! i) = int i \<and> co_id (cs ! i) = hash X (commit_json (co_body (cs ! i)))) \<and>
    (\<exists>g. co_body (cs ! 0) = Genesis g \<and> ge_limits g = su_limits r) \<and>
    (\<forall>i. Suc i < length cs \<longrightarrow> (\<exists>t. co_body (cs ! Suc i) = Transition t \<and> tr_parent t = co_id (cs ! i) \<and>
       tr_memory t = write_memory (p_memory (tr_proposal t)) (cb_memory (co_body (cs ! i))))) \<and>
    su_tick r = int (length cs) - 1 \<and> su_head r = co_id (last cs) \<and>
    su_memory r = cb_memory (co_body (last cs)) \<and> su_wake r = cb_wake_at (co_body (last cs))"
proof -
  note inv = chain.reachable [OF assms(1)]
  define cs where "cs = commits_of st (su_id r)"
  have eq: "subject_commits st (su_id r) = cs" unfolding cs_def by (rule subject_commits_chain [OF inv assms(2)])
  from inv assms(2) have pr: "projects r cs" by (simp add: chain_inv_def cs_def)
  then have ch: "chained cs" and ne: "cs \<noteq> []" by (simp_all add: projects_def)
  have ids: "co_id c = hash X (commit_json (co_body c))" if "c \<in> set cs" for c
    using that rows.reachable [OF assms(1)] by (auto simp: rows_inv_def commit_ok_def cs_def commits_of_def)
  have "co_tick (cs ! i) = int i \<and> co_id (cs ! i) = hash X (commit_json (co_body (cs ! i)))" if "i < length cs" for i
    using that ch ids by (simp add: chained_def link_ok_def)
  moreover have "\<exists>t. co_body (cs ! Suc i) = Transition t \<and> tr_parent t = co_id (cs ! i) \<and>
       tr_memory t = write_memory (p_memory (tr_proposal t)) (cb_memory (co_body (cs ! i)))" if "Suc i < length cs" for i
    using that ch by (force simp: chained_def link_ok_def)
  ultimately show ?thesis
    using eq ne pr by (intro exI [of _ cs]) (auto simp: projects_def hd_conv_nth)
qed

text \<open>
  C2. Exactly-once delivery: in every reachable store each transition names one occasion of
  its subject that is marked consumed by it, and one attempt marked committed that was
  admitted at the transition's parent; and no two transitions of the ledger share an
  occasion or an attempt.
\<close>

theorem exactly_once:
  assumes "reachable X st" and "c \<in> set (st_commits st)" and "co_body c = Transition t"
  shows "(\<exists>q \<in> set (st_occasions st). oc_id q = tr_occasion t \<and> oc_subject q = tr_subject t \<and>
            oc_consumed q = Some (co_id c)) \<and>
    (\<exists>a \<in> set (st_attempts st). at_id a = tr_attempt t \<and> at_status a = Committed \<and> at_parent a = tr_parent t \<and>
       at_occasion a = tr_occasion t) \<and>
    (\<forall>c' \<in> set (st_commits st). \<forall>t'. co_body c' = Transition t' \<longrightarrow>
       tr_occasion t' = tr_occasion t \<or> tr_attempt t' = tr_attempt t \<longrightarrow> c' = c)"
proof -
  note keys = keys.reachable [OF assms(1)] and settled = settled.reachable [OF assms(1)]
  have cs: "commit_settled st c t" if "c \<in> set (st_commits st)" "co_body c = Transition t" for c t
    using settled that by (simp add: settled_inv_def commits_settled_def)
  have "c' = c" if c': "c' \<in> set (st_commits st)" "co_body c' = Transition t'"
    and same: "tr_occasion t' = tr_occasion t \<or> tr_attempt t' = tr_attempt t" for c' t'
  proof -
    from cs [OF c'] cs [OF assms(2,3)] obtain q q' a a' where
      q: "q \<in> set (st_occasions st)" "oc_id q = tr_occasion t" "oc_consumed q = Some (co_id c)"
      and q': "q' \<in> set (st_occasions st)" "oc_id q' = tr_occasion t'" "oc_consumed q' = Some (co_id c')"
      and a: "a \<in> set (st_attempts st)" "at_id a = tr_attempt t" "at_occasion a = tr_occasion t"
      and a': "a' \<in> set (st_attempts st)" "at_id a' = tr_attempt t'" "at_occasion a' = tr_occasion t'"
      unfolding commit_settled_def by metis
    have "tr_occasion t' = tr_occasion t"
      using same keys_inv_unique(3) [OF keys a'(1) a(1)] a a' by auto
    with keys_inv_unique(2) [OF keys q'(1) q(1)] q q' have "co_id c' = co_id c" by simp
    with keys_inv_unique(4) [OF keys c'(1) assms(2)] show ?thesis by simp
  qed
  with cs [OF assms(2,3)] show ?thesis unfolding commit_settled_def by blast
qed

text \<open>
  C4. The attempt budget holds over all histories: in every reachable store the admissions
  of a subject are at least \<open>min_wake_ms\<close> apart, no window of \<open>period_ms\<close> holds more than
  \<open>max_attempts\<close> of them, and none lies after the subject's accounting clock.
\<close>

theorem reachable_rate:
  assumes "reachable X st" and "r \<in> set (st_subjects st)"
  shows "rate_ok (su_limits r) (admissions_of st (su_id r)) \<and>
    (\<forall>(s, a) \<in> set (admissions_of st (su_id r)). 0 \<le> a \<and> a \<le> su_accounting_wall r)"
  using clocks.reachable [OF assms(1)] assms(2) by (simp add: clock_inv_def clock_ok_def)

text \<open>
  C5. The index is derived state: in every reachable store the typed memory is well formed
  (unique deposit IDs, exactly the newest version of each key current, links and full-text
  rows equal to what the entries say, every citation grounded in an earlier deposit of the
  same subject) and each subject's rows are what replaying its commits builds.
\<close>

theorem reachable_index:
  assumes "reachable X st" and "r \<in> set (st_subjects st)"
  shows "memory_inv (st_memory st) \<and>
    replay_commits X (su_id r) empty_memory (subject_commits st (su_id r)) = Inr (memory_of (su_id r) (st_memory st))"
  using index.reachable [OF assms(1)] subject_commits_chain [OF chain.reachable [OF assms(1)] assms(2)] assms(2)
  by (simp add: index_inv_def index_is_replay_def)

section \<open>Committing\<close>

lemma row_of_id: "reachable X st \<Longrightarrow> find_attempt st i = Some row \<Longrightarrow> attempt_ok X row"
  using rows.reachable [of X st] find_attempt_Some [of st i row] by (simp add: rows_inv_def)


text \<open>
  C7. Settlement is final over any history: once an attempt is committed, failed, superseded
  or abstained it keeps its row for ever; no later commit or abstention of a different
  outcome succeeds for it, and a failure report no longer changes anything.
\<close>

theorem settlement_final:
  assumes "reachable X st" and "a \<in> set (st_attempts st)" and "at_status a \<noteq> Reserved" and "later X st st'"
  shows "find_attempt st' (at_id a) = Some a \<and>
    (\<forall>guard p now elapsed emission dispo r. commit_locked X guard st' (at_id a) p now elapsed emission dispo \<noteq> Inr r) \<and>
    (\<forall>guard p now elapsed emission. proposal_ok X p \<longrightarrow>
       commit_locked X guard st' (at_id a) p now elapsed emission None = Inl (Conflict ''attempt already settled'')) \<and>
    (\<forall>v provider i st''. abstain X st' (at_id a) v provider = Inr (i, st'') \<longrightarrow> st'' = st') \<and>
    (\<forall>reason scope now. 0 \<le> now \<longrightarrow> fail_scoped X st' (at_id a) reason scope now = Inr (None, st'))"
proof -
  have f: "find_attempt st' (at_id a) = Some a" by (rule settled_later [OF assms(1,4,2,3)])
  have "commit_locked X guard st' (at_id a) p now elapsed emission dispo \<noteq> Inr r" for guard p now elapsed emission dispo r
    using f assms(3) by (cases r) (auto elim!: commit_locked_Inr simp: transition_ok_def)
  moreover have "commit_locked X guard st' (at_id a) p now elapsed emission None = Inl (Conflict ''attempt already settled'')"
    if "proposal_ok X p" for guard p now elapsed emission
    using f assms(3) that by (simp add: commit_locked_def proposal_json_def)
  moreover have "st'' = st'" if "abstain X st' (at_id a) v provider = Inr (i, st'')" for v provider i st''
    by (rule abstain_Inr [OF that]) (use f assms(3) in auto)
  moreover have "fail_scoped X st' (at_id a) reason scope now = Inr (None, st')" if "0 \<le> now" for reason scope now
    using f assms(3) that by (simp add: fail_scoped_def check_time_def Let_def)
  ultimately show ?thesis using f by blast
qed


section \<open>Occasions\<close>

lemma occasion_later:
  assumes "reachable X st" and "later X st st'" and "q \<in> set (st_occasions st)"
  shows "\<exists>q' \<in> set (st_occasions st'). oc_id q' = oc_id q \<and> oc_subject q' = oc_subject q \<and> oc_key q' = oc_key q \<and>
    oc_body q' = oc_body q"
proof (rule steps_keep [OF later_ledger [OF assms(2)] keys.reachable [OF assms(1)]])
  fix u v
  assume "keys_inv u" and "\<exists>q' \<in> set (st_occasions u). oc_id q' = oc_id q \<and> oc_subject q' = oc_subject q \<and>
      oc_key q' = oc_key q \<and> oc_body q' = oc_body q" and "ledger_step X u v"
  with occasion_step show "\<exists>q' \<in> set (st_occasions v). oc_id q' = oc_id q \<and> oc_subject q' = oc_subject q \<and>
      oc_key q' = oc_key q \<and> oc_body q' = oc_body q" by metis
qed (use assms(3) in blast)

lemma subject_later:
  assumes "reachable X st" and "later X st st'" and "s \<in> su_id ` set (st_subjects st)"
  shows "s \<in> su_id ` set (st_subjects st')"
proof (rule steps_keep [OF later_ledger [OF assms(2)] keys.reachable [OF assms(1)]])
  fix u v assume "s \<in> su_id ` set (st_subjects u)" and "ledger_step X u v"
  from this(2,1) show "s \<in> su_id ` set (st_subjects v)"
    by (induction rule: ledger_step.induct) (auto simp: image_image)
qed (use assms(3) in blast)

lemma enqueue_known:
  assumes "keys_inv st" and "q \<in> set (st_occasions st)" and "oc_subject q = sn_subject s" and "oc_key q = key"
  shows "enqueue X st s key kind payload now =
    (if ev_payload (oc_body q) = payload \<and> ev_kind (oc_body q) = kind then Inr (oc_id q, st)
     else Inl (Error ''idempotency key reused with different content''))"
proof -
  have "distinct (map (\<lambda>q. (oc_subject q, oc_key q)) (st_occasions st))" using assms(1) by (simp add: keys_inv_def)
  from distinct_find [OF this assms(2)] have
    "find (\<lambda>r. oc_subject r = sn_subject s \<and> oc_key r = key) (st_occasions st) = Some q"
    using assms(3,4) by simp
  then show ?thesis by (simp add: enqueue_def require_def)
qed

lemma enqueue_row:
  assumes "enqueue X st (row_snapshot r) key kind payload now = Inr (i, st')"
  shows "\<exists>q \<in> set (st_occasions st'). oc_id q = i \<and> oc_subject q = su_id r \<and> oc_key q = key \<and>
    ev_payload (oc_body q) = payload \<and> ev_kind (oc_body q) = kind"
  using assms
  by (auto simp: enqueue_def res_simps Let_def split: option.splits dest!: find_Some_mem)

text \<open>What a later submission under the same key meets.\<close>

lemma submit_again:
  assumes "reachable X st" and "submit X st subject key payload now = Inr (i, st1)" and "later X st1 st2" and "0 \<le> now'"
  shows "submit X st2 subject key pl now' = (if max_payload < length (x_dump X pl) then Inl (Error ''occasion payload too large'')
    else if payload = pl then Inr (i, st2) else Inl (Error ''idempotency key reused with different content''))"
proof -
  have r1: "reachable X st1"
    using assms(1,2) by_submit unfolding reachable_def by (metis rtranclp.rtrancl_into_rtrancl)
  note keys2 = keys.reachable [OF reachable_later [OF r1 assms(3)]]
  from assms(2) obtain row where row: "find_subject st subject = Some row" and ok: "key_ok 200 key"
    and enq: "enqueue X st (row_snapshot row) (''user:'' @ key) ''external'' payload now = Inr (i, st1)"
    by (auto simp: submit_def res_simps)
  note sub = find_subject_Some [OF row]
  have "find_subject st (su_id row) = Some row" using row sub by simp
  from enqueue_Inr(3) [OF enq this] sub have "subject \<in> su_id ` set (st_subjects st1)" by auto
  from subject_later [OF r1 assms(3) this] keys_inv_find(1) [OF keys2] obtain r2 where
    r2: "find_subject st2 subject = Some r2" "su_id r2 = subject" by auto
  from enqueue_row [OF enq] obtain q where q: "q \<in> set (st_occasions st1)" "oc_id q = i" "oc_subject q = subject"
    "oc_key q = ''user:'' @ key" "ev_payload (oc_body q) = payload" "ev_kind (oc_body q) = ''external''"
    using sub by auto
  from occasion_later [OF r1 assms(3) q(1)] q obtain q2 where q2: "q2 \<in> set (st_occasions st2)" "oc_id q2 = i"
    "oc_subject q2 = subject" "oc_key q2 = ''user:'' @ key" "ev_payload (oc_body q2) = payload" "ev_kind (oc_body q2) = ''external''"
    by auto
  have "enqueue X st2 (row_snapshot r2) (''user:'' @ key) ''external'' pl now' =
      (if payload = pl then Inr (i, st2) else Inl (Error ''idempotency key reused with different content''))"
    using enqueue_known [OF keys2 q2(1), of "row_snapshot r2" "''user:'' @ key" X "''external''" pl now'] q2 r2(2) by simp
  moreover have "check_text key 200 ''idempotency key'' = Inr ()" "check_time now' = Inr ()"
    using ok(1) assms(4) by (simp_all add: res_simps)
  ultimately show ?thesis by (simp add: submit_def snapshot_def r2)
qed

lemma submit_payload_size: "submit X st subject key payload now = Inr r \<Longrightarrow> length (x_dump X payload) \<le> max_payload"
  by (auto simp: submit_def res_simps)


section \<open>Abstention and failure\<close>

definition abstention_for :: "attempt_row \<Rightarrow> abstention \<Rightarrow> json \<Rightarrow> abstention_body" where
  "abstention_for row v provider = \<lparr>ab_attempt = at_id row, ab_subject = ad_subject (at_body row),
     ab_parent = ad_parent (at_body row), ab_occasion = ad_occasion (at_body row),
     ab_execution = ad_execution (at_body row), ab_outcome = v, ab_provider = provider\<rparr>"

lemma abstain_checks:
  assumes "abstain X st attempt v provider = Inr (i, st')" and "find_attempt st attempt = Some row"
  shows "outcome_json X (Abstains v) = Inr (abstention_enc v) \<and> is_object provider \<and>
    length (x_dump X provider) \<le> 8192 \<and> hash X (admission_json (at_body row)) = attempt \<and>
    i = hash X (abstention_json (abstention_for row v provider))"
  using assms find_attempt_Some [OF assms(2)]
  by (auto simp: abstain_def res_simps Let_def parse_abstention_enc abstention_for_def split: option.splits)

lemma abstain_repeat:
  assumes "outcome_json X (Abstains v) = Inr (abstention_enc v)" and "is_object provider"
    and "length (x_dump X provider) \<le> 8192" and "find_attempt st attempt = Some row"
    and "hash X (admission_json (at_body row)) = attempt" and "at_status row = Abstained"
    and "find (\<lambda>r. as_attempt r = attempt) (st_abstentions st) = Some o'"
    and "as_id o' = hash X (abstention_json (abstention_for row v provider))"
  shows "abstain X st attempt v provider = Inr (as_id o', st)"
proof -
  have "at_id row = attempt" using find_attempt_Some [OF assms(4)] by simp
  then show ?thesis using assms
    by (simp add: abstain_def Let_def abstention_for_def del: outcome_json.simps)
qed

text \<open>
  An abstention decides nothing: it leaves every subject, occasion, commit, failure and
  memory row and every other attempt as it was, settles only its own attempt, is recorded
  under the hash of its body, and repeating it with the same outcome and receipt gives the
  same receipt and changes nothing.
\<close>

lemma abstain_preserves:
  assumes "reachable X st" and "abstain X st attempt v provider = Inr (i, st')"
  shows "st_subjects st' = st_subjects st \<and> st_occasions st' = st_occasions st \<and> st_commits st' = st_commits st \<and>
    st_memory st' = st_memory st \<and> st_failures st' = st_failures st \<and>
    (\<forall>b \<in> set (st_attempts st). at_id b \<noteq> attempt \<longrightarrow> b \<in> set (st_attempts st')) \<and>
    (\<exists>a. find_attempt st' attempt = Some a \<and> at_status a = Abstained \<and>
       i = hash X (abstention_json (abstention_for a v provider))) \<and>
    (\<exists>o' \<in> set (st_abstentions st'). as_id o' = i \<and> as_attempt o' = attempt) \<and>
    abstain X st' attempt v provider = Inr (i, st')"
proof (rule abstain_Inr [OF assms(2)])
  fix row old
  assume h: "find_attempt st attempt = Some row" "at_status row = Abstained" "old \<in> set (st_abstentions st)"
    "as_attempt old = attempt" "as_id old = i" "st' = st"
  from abstain_checks [OF assms(2) h(1)] h assms(2) show ?thesis by auto
next
  fix row o' r
  assume h: "find_attempt st attempt = Some row" "at_status row = Reserved" "abstention_ok_for X st row o'"
    "as_id o' = i" "st' = abstained_store st attempt o'"
  note chk = abstain_checks [OF assms(2) h(1)] and mem = find_attempt_Some [OF h(1)]
  have "find (\<lambda>r. at_id r = attempt) (map (abstained_row attempt) xs) =
      map_option (abstained_row attempt) (find (\<lambda>r. at_id r = attempt) xs)" for xs
    by (induction xs) simp_all
  then have row': "find_attempt st' attempt = Some (abstained_row attempt row)"
    using h(1) by (simp add: find_attempt_def h(5))
  have o': "as_attempt o' = attempt" "attempt \<notin> as_attempt ` set (st_abstentions st)"
    using h(3) mem by (simp_all add: abstention_ok_for_def)
  then have "find (\<lambda>r. as_attempt r = attempt) (st_abstentions st) = None"
    unfolding find_None_iff by (metis image_eqI)
  with o' have fo: "find (\<lambda>r. as_attempt r = attempt) (st_abstentions st') = Some o'"
    by (simp add: h(5) find_append)
  have body: "abstention_for (abstained_row attempt row) v provider = abstention_for row v provider"
    by (simp add: abstention_for_def)
  have "abstain X st' attempt v provider = Inr (as_id o', st')"
  proof (rule abstain_repeat [OF _ _ _ row' _ _ fo])
    show "as_id o' = hash X (abstention_json (abstention_for (abstained_row attempt row) v provider))"
      unfolding body using chk h(4) by simp
  qed (use chk mem in \<open>simp_all add: abstained_row_def\<close>)
  moreover have "b \<in> set (st_attempts st')" if "b \<in> set (st_attempts st)" "at_id b \<noteq> attempt" for b
    using that by (auto simp: h(5) abstained_row_def intro!: image_eqI [of _ _ b])
  ultimately show ?thesis
    using row' chk body o' h(4) mem by (auto simp: h(5) abstained_row_def)
qed

lemma disposition_failures_recorded:
  assumes "f \<in> set (disposition_failures (with_failure st row error) (ad_occasion (at_body row)) (at_id row) cap)"
  shows "\<exists>g \<in> set (st_failures (with_failure st row error)). fa_attempt g = f \<and> fa_occasion g = ad_occasion (at_body row)"
  using assms
  by (auto simp: disposition_failures_def prior_failures_def list_ex_iff with_failure_def failure_for_def
      dest!: in_set_takeD)

lemma length_disposition_failures: "0 < cap \<Longrightarrow> int (length (disposition_failures st oid attempt cap)) \<le> cap"
  by (simp add: disposition_failures_def)


section \<open>Scheduling and admission\<close>

text \<open>The scheduled occasion is the oldest deliverable one; only when there is none a due
  wake is offered.\<close>

definition offers :: "store \<Rightarrow> subject_row \<Rightarrow> millis \<Rightarrow> pending option \<Rightarrow> bool" where
  "offers st r now q \<longleftrightarrow> (let able = deliverable (row_snapshot r) now in
     (case q of
        None \<Rightarrow> (\<forall>o' \<in> set (st_occasions st). \<not> able o') \<and> (\<forall>t. su_wake r = Some t \<longrightarrow> now < t)
      | Some p \<Rightarrow> (case pe_id p of
          Some i \<Rightarrow> \<exists>o' \<in> set (st_occasions st). oc_id o' = i \<and> able o' \<and> pe_kind p = oc_kind o' \<and>
            pe_payload p = ev_payload (oc_body o') \<and>
            (\<forall>o2 \<in> set (st_occasions st). able o2 \<longrightarrow> oc_seq o' \<le> oc_seq o2)
        | None \<Rightarrow> (\<forall>o' \<in> set (st_occasions st). \<not> able o') \<and> pe_kind p = ''scheduled'' \<and>
            (\<exists>t. su_wake r = Some t \<and> t \<le> now \<and> pe_payload p = mk_obj [(''due_at'', JInt t)]))))"

lemma find_first_sorted:
  fixes f :: "'a \<Rightarrow> int"
  assumes "find P xs = Some x" and "sorted (map f xs)" and "y \<in> set xs" and "P y"
  shows "f x \<le> f y"
  using assms by (induction xs) (auto split: if_splits)

lemma next_occasion_offers:
  assumes "keys_inv st" and "next_occasion X st (row_snapshot r) now = Inr q"
  shows "offers st r now q"
proof (cases "find (deliverable (row_snapshot r) now) (st_occasions st)")
  case None
  then have "\<forall>o' \<in> set (st_occasions st). \<not> deliverable (row_snapshot r) now o'" by (simp add: find_None_iff)
  with None assms(2) show ?thesis
    by (auto simp: next_occasion_def offers_def Let_def split: option.splits if_splits)
next
  case (Some o')
  note mem = find_Some_mem [OF Some]
  from Some assms(2) obtain e where e: "event_of X st (oc_id o') = Inr e"
    "q = Some \<lparr>pe_id = Some (oc_id o'), pe_kind = oc_kind o', pe_payload = ev_payload e\<rparr>"
    by (auto simp: next_occasion_def res_simps)
  have "find_occasion st (oc_id o') = Some o'" using keys_inv_find(2) [OF assms(1)] mem by blast
  with e(1) have b: "e = oc_body o'" by (simp add: res_simps)
  have "sorted (map oc_seq (st_occasions st))" using assms(1) by (simp add: keys_inv_def seqs_ok_def strict_sorted_iff)
  from find_first_sorted [OF Some this] mem show ?thesis by (auto simp: e(2) b offers_def Let_def)
qed

lemma budget_reachable_exact:
  assumes "reachable X st" and r: "r \<in> set (st_subjects st)" and now: "su_accounting_wall r \<le> now"
    and "budget st (su_id r) (su_limits r) now max_seq = Inr b" and "now \<le> t"
  shows "rate_ok (su_limits r) (admissions_of st (su_id r) @ [(n, t)]) \<longleftrightarrow> bg_eligible_at b \<le> t"
proof (rule eligible_exact [OF _ _ _ _ assms(5)])
  note clocks = clocks.reachable [OF assms(1)]
  then have ok: "clock_ok st r" and seq: "st_attempt_seq st \<le> max_seq" using r by (simp_all add: clock_inv_def)
  then show "limits_ok (su_limits r)" "rate_ok (su_limits r) (admissions_of st (su_id r))"
    by (simp_all add: clock_ok_def)
  show "budget_sql (su_limits r) (admissions_of st (su_id r)) now max_seq = Inr b"
    using assms(4) by (simp add: budget_def)
  show "\<forall>(s, a) \<in> set (admissions_of st (su_id r)). s \<le> max_seq \<and> 0 \<le> a \<and> a \<le> now"
    using ok now seq admissions_seq_bound [OF keys.reachable [OF assms(1)], of _ _ "su_id r"]
    by (fastforce simp: clock_ok_def)
qed


lemma enqueue_keeps:
  "enqueue X st s key kind payload now = Inr (i, st') \<Longrightarrow>
     st_commits st' = st_commits st \<and> st_memory st' = st_memory st \<and> st_failures st' = st_failures st"
  by (auto simp: enqueue_def res_simps Let_def split: option.splits)

lemma admit_keeps:
  assumes "admit X st subject backend now policy fits execution context nonce = Inr (out, st')"
  shows "st_commits st' = st_commits st \<and> st_memory st' = st_memory st \<and> st_failures st' = st_failures st"
proof -
  have "st_commits st' = st_commits st \<and> st_memory st' = st_memory st \<and> st_failures st' = st_failures st"
    if "admit_ready X st s d q backend now policy fits execution inputs nonce = Inr (att, st')" for s d q inputs att
    using that unfolding admit_ready_def Let_def
    by (auto simp: res_simps selected_id_def dest!: insert_attempt_Inr enqueue_keeps split: option.splits prod.splits)
  with assms show ?thesis by (auto simp: admit_def res_simps split: option.splits if_splits prod.splits)
qed

text \<open>
  C14. What an admission does: only a ready subject is admitted; the store keeps every
  subject's head and working memory and every earlier attempt; the new attempt is reserved
  at the subject's current head, at the accounting time, for the offered occasion, and its
  ID is the hash of the stored body; the presented state is the subject's snapshot.
\<close>

theorem admit_effect:
  assumes "reachable X st"
    and "admit X st subject backend now policy fits execution context nonce = Inr (Some att, st')"
  shows "\<exists>r a. find_subject st subject = Some r \<and> pr_state (att_present att) = row_snapshot r \<and>
    find_attempt st' (att_id att) = Some a \<and> at_status a = Reserved \<and> at_parent a = su_head r \<and>
    at_admitted_at a = max now (su_accounting_wall r) \<and> at_id a = hash X (admission_json (at_body a)) \<and>
    at_occasion a = o_id (pr_occasion (att_present att)) \<and>
    (\<exists>q. find_occasion st' (at_occasion a) = Some q \<and> oc_subject q = subject) \<and>
    set (st_attempts st') = insert a (set (st_attempts st)) \<and>
    rate_ok (su_limits r) (admissions_of st' subject) \<and> st_commits st' = st_commits st \<and> st_memory st' = st_memory st \<and>
    (\<forall>s. map_option row_snapshot (find_subject st' s) = map_option row_snapshot (find_subject st s))"
proof (rule admit_Inr [OF assms(2)])
  fix r st1 a b
  assume r: "find_subject st subject = Some r" "su_id r = subject" and steps: "ledger_steps X st st1"
    and same: "st_subjects st1 = st_subjects st" "st_attempts st1 = st_attempts st" "st_attempt_seq st1 = st_attempt_seq st"
    and q: "\<exists>o' \<in> set (st_occasions st1). oc_id o' = ad_occasion a \<and> oc_subject o' = subject"
    and a: "ad_subject a = subject" "ad_parent a = su_head r" "ad_admitted_at a = max now (su_accounting_wall r)"
    and att: "att_id att = hash X (admission_json a)" "pr_state (att_present att) = row_snapshot r"
      "o_id (pr_occasion (att_present att)) = ad_occasion a"
    and st': "st' = admitted_store X st1 a"
  have reach: "reachable X st'"
    using assms(1) by_admit [OF assms(2)] unfolding reachable_def by (rule rtranclp.rtrancl_into_rtrancl)
  note keys = keys.reachable [OF reach]
  let ?row = "attempt_for X a (st_attempt_seq st + 1)"
  have at: "st_attempts st' = st_attempts st @ [?row]" by (simp add: st' admitted_store_def same)
  have fa: "find_attempt st' (att_id att) = Some ?row"
    using keys_inv_find(3) [OF keys, of ?row] by (simp add: at att attempt_for_def)
  have oc: "st_occasions st' = st_occasions st1" by (simp add: st' admitted_store_def)
  from q obtain o' where o': "o' \<in> set (st_occasions st')" "oc_id o' = ad_occasion a" "oc_subject o' = subject"
    unfolding oc by blast
  have fo: "find_occasion st' (ad_occasion a) = Some o'" using keys_inv_find(2) [OF keys o'(1)] o' by simp
  let ?w = "\<lambda>x. if su_id x = subject then x\<lparr>su_accounting_wall := ad_admitted_at a\<rparr> else x"
  have su: "st_subjects st' = map ?w (st_subjects st)" by (simp add: st' admitted_store_def same a)
  have "map_option row_snapshot (find (\<lambda>x. su_id x = s) (map ?w xs)) = map_option row_snapshot (find (\<lambda>x. su_id x = s) xs)" for s xs
    by (induction xs) (simp_all add: row_snapshot_def)
  then have snap: "map_option row_snapshot (find_subject st' s) = map_option row_snapshot (find_subject st s)" for s
    by (simp add: find_subject_def su)
  have "?w r \<in> set (st_subjects st')" using find_subject_Some [OF r(1)] by (auto simp: su)
  with clocks.reachable [OF reach] have "clock_ok st' (?w r)" by (simp add: clock_inv_def)
  then have rate: "rate_ok (su_limits r) (admissions_of st' subject)" using r by (simp add: clock_ok_def)
  have ins: "set (st_attempts st') = insert ?row (set (st_attempts st))" by (simp add: at)
  note keep = admit_keeps [OF assms(2)]
  show ?thesis
  proof (intro exI [of _ r] exI [of _ ?row] conjI)
    show "find_attempt st' (att_id att) = Some ?row" by (rule fa)
    show "\<exists>q. find_occasion st' (at_occasion ?row) = Some q \<and> oc_subject q = subject"
      using fo o' by (simp add: attempt_for_def)
  qed (use r att a keep rate snap ins in \<open>simp_all add: attempt_for_def\<close>)
qed

end
