(* ===== verification/Cogg_Runtime.thy ===== *)
theory Cogg_Runtime
  imports Cogg_Verify Cogg_Contract
begin

text \<open>
  One step of an agent: \<open>execute_attempt\<close> and the class \<open>Runtime\<close> of
  \<^verbatim>\<open>src/kernel.cpp\<close>. The executor is a record of functions that may throw (the
  class \<open>Backend\<close>); what it answers, the clock readings and the cancellation flag are
  arguments. While the executor runs no lock is held, so other connections may change the
  store: \<open>during\<close> is what they do to it. A function that may throw after it has changed
  the store returns both, the error and the store.
\<close>

section \<open>The executor and its environment\<close>

record backend =
  be_name :: string
  be_policy :: "memory_policy option"
  be_fits :: "present \<Rightarrow> bool"
  be_respond :: "attempt \<Rightarrow> millis \<Rightarrow> outcome res"
  be_telemetry :: "json res"
  be_committed :: "present \<Rightarrow> snapshot \<Rightarrow> unit res"

text \<open>What is read from outside during one execution: the elapsed time when the executor
  has answered, the wall clock (or the sum that replaces it) at the commit and at a
  settlement of a failure, the cancellation flag, and the text the JSON library's
  exceptions carry.\<close>

record readings =
  rd_duration :: millis
  rd_commit_wall :: "millis res"
  rd_settle_wall :: "millis res"
  rd_cancelled :: bool
  rd_json_what :: string

definition error_what :: "readings \<Rightarrow> error \<Rightarrow> string" where
  "error_what rd e = (case e of Error m \<Rightarrow> m | ContextOverflow m \<Rightarrow> m | Conflict m \<Rightarrow> m | BackendFailure k m \<Rightarrow> m
     | StdException m \<Rightarrow> m | JsonException \<Rightarrow> rd_json_what rd | UnknownException \<Rightarrow> ''backend failed'')"

record step_result =
  sr_status :: string
  sr_snapshot :: "snapshot option"
  sr_abstention :: "abstention option"
  sr_receipt :: string
  sr_outcome :: json
  sr_attempt :: string
  sr_error :: string
  sr_maintenance :: string
  sr_exception :: "error option"

definition waiting_result :: step_result where
  "waiting_result = \<lparr>sr_status = ''waiting'', sr_snapshot = None, sr_abstention = None, sr_receipt = [], sr_outcome = JNull,
     sr_attempt = [], sr_error = [], sr_maintenance = [], sr_exception = None\<rparr>"

type_synonym 'a run = "'a res \<times> store"

section \<open>Executing one admitted attempt\<close>

definition settle_failure ::
    "ext \<Rightarrow> readings \<Rightarrow> store \<Rightarrow> step_result \<Rightarrow> string \<Rightarrow> failure_scope \<Rightarrow> step_result run" where
  "settle_failure X rd st out reason scope =
     (case bindR (rd_settle_wall rd) (fail_scoped X st (sr_attempt out) reason scope) of
        Inl e \<Rightarrow> (Inl e, st)
      | Inr (None, st') \<Rightarrow> (Inr (out\<lparr>sr_error := reason, sr_status := reason\<rparr>), st')
      | Inr (Some s, st') \<Rightarrow> (Inr (out\<lparr>sr_error := reason, sr_status := ''disposed'', sr_snapshot := Some s\<rparr>), st'))"

text \<open>What the four handlers around the executor's call make of an exception: whom it
  blames and the recorded reason.\<close>

definition classify :: "readings \<Rightarrow> bool \<Rightarrow> error \<Rightarrow> failure_scope \<times> string" where
  "classify rd redact e = (case e of
       BackendFailure k m \<Rightarrow> (failure_scope k, if redact then failure_reason k else m)
     | ContextOverflow m \<Rightarrow> (Transient, if redact then ''memory_pressure'' else m)
     | _ \<Rightarrow> (Transient, if redact then ''backend_failed'' else error_what rd e))"

definition respond :: "ext \<Rightarrow> backend \<Rightarrow> attempt \<Rightarrow> millis \<Rightarrow> outcome res" where
  "respond X be t timeout =
     (if timeout \<le> 0 then Inl (BackendFailure Timeout ''timeout'') else be_respond be t timeout)"

text \<open>After the call: the outcome variable (default constructed when the call threw), the
  recorded failure text (empty for none), its scope and the captured exception.\<close>

definition answered ::
    "ext \<Rightarrow> readings \<Rightarrow> bool \<Rightarrow> backend \<Rightarrow> attempt \<Rightarrow> millis \<Rightarrow> outcome \<times> string \<times> failure_scope \<times> error option" where
  "answered X rd redact be t timeout =
     (case respond X be t timeout of
        Inl e \<Rightarrow> (Participates default_proposal, snd (classify rd redact e), fst (classify rd redact e), Some e)
      | Inr v \<Rightarrow> (case validate_backend_outcome X v of
            Inl e \<Rightarrow> (v, snd (classify rd redact e), fst (classify rd redact e), Some e)
          | Inr _ \<Rightarrow> (v, [], Transient, None)))"

type_synonym proposal_guard = "(proposal \<Rightarrow> string option) option"

text \<open>The settlement of an accepted outcome: the body of the second \<open>try\<close>.\<close>

definition settle_outcome ::
    "ext \<Rightarrow> guard \<Rightarrow> readings \<Rightarrow> backend \<Rightarrow> store \<Rightarrow> attempt \<Rightarrow> json \<Rightarrow> outcome \<Rightarrow> step_result \<Rightarrow> step_result run" where
  "settle_outcome X guard rd be st t execution v out =
     (case v of
        Abstains a \<Rightarrow>
          (case bindR (be_telemetry be) (abstain X st (att_id t) a) of
             Inl e \<Rightarrow> (Inl e, st)
           | Inr (i, st') \<Rightarrow> (Inr (out\<lparr>sr_receipt := i, sr_abstention := Some a, sr_status := ''abstained''\<rparr>), st'))
      | Participates p \<Rightarrow>
          (case bindR (if execution = JNull then Inr JNull
                       else bindR (be_telemetry be) (make_emission X t execution p)) (\<lambda>emission.
                bindR (rd_commit_wall rd) (\<lambda>now. Inr (emission, now))) of
             Inl e \<Rightarrow> (Inl e, st)
           | Inr (emission, now) \<Rightarrow>
               (case commit X guard (\<lambda>_. Inr ()) st (att_id t) p now (Some (rd_duration rd)) emission of
                  (Inl e, st') \<Rightarrow> (Inl e, st')
                | (Inr s, st') \<Rightarrow> (Inr (out\<lparr>sr_snapshot := Some s\<rparr>), st'))))"

text \<open>Its handlers. \<open>rethrow\<close> marks the paths that settle the attempt and throw on.\<close>

definition settle_then ::
    "ext \<Rightarrow> readings \<Rightarrow> store \<Rightarrow> step_result \<Rightarrow> string \<Rightarrow> (step_result \<Rightarrow> step_result res) \<Rightarrow> step_result run" where
  "settle_then X rd st out reason k =
     (case settle_failure X rd st out reason Transient of (Inl e, st') \<Rightarrow> (Inl e, st') | (Inr out', st') \<Rightarrow> (k out', st'))"

definition settle_rejected ::
    "ext \<Rightarrow> readings \<Rightarrow> bool \<Rightarrow> bool \<Rightarrow> store \<Rightarrow> step_result \<Rightarrow> error \<Rightarrow> step_result run" where
  "settle_rejected X rd redact rethrow st out e =
     (case e of
        Conflict m \<Rightarrow>
          if redact then settle_then X rd st out ''conflict'' (\<lambda>o'. Inr (o'\<lparr>sr_status := ''conflict'', sr_error := ''conflict''\<rparr>))
          else (Inr (out\<lparr>sr_status := ''conflict'', sr_error := ''conflict''\<rparr>), fail st (sr_attempt out) ''stale transition'')
      | ContextOverflow m \<Rightarrow>
          if \<not> redact then settle_then X rd st out m (\<lambda>o'. Inr (o'\<lparr>sr_exception := Some e\<rparr>))
          else if rethrow then settle_then X rd st out ''commit_rejected'' (\<lambda>_. Inl e)
          else settle_then X rd st out ''memory_pressure'' Inr
      | _ \<Rightarrow>
          if \<not> redact then settle_then X rd st out (error_what rd e) (\<lambda>o'. Inr (o'\<lparr>sr_exception := Some e\<rparr>))
          else settle_then X rd st out ''commit_rejected'' (\<lambda>_. Inl e))"

definition after_commit :: "readings \<Rightarrow> bool \<Rightarrow> backend \<Rightarrow> attempt \<Rightarrow> step_result \<Rightarrow> step_result" where
  "after_commit rd redact be t out =
     (let done' = out\<lparr>sr_status := ''committed''\<rparr> in
      case sr_snapshot out of None \<Rightarrow> done'
      | Some s \<Rightarrow> (case be_committed be (att_present t) s of Inr _ \<Rightarrow> done'
          | Inl UnknownException \<Rightarrow> done'\<lparr>sr_maintenance := ''backend maintenance failed''\<rparr>
          | Inl e \<Rightarrow> done'\<lparr>sr_maintenance := (if redact then ''backend maintenance failed'' else error_what rd e)\<rparr>))"

definition execute_attempt ::
    "ext \<Rightarrow> guard \<Rightarrow> readings \<Rightarrow> backend \<Rightarrow> store \<Rightarrow> attempt \<Rightarrow> json \<Rightarrow> millis \<Rightarrow> proposal_guard \<Rightarrow> bool \<Rightarrow> bool \<Rightarrow>
     step_result run" where
  "execute_attempt X guard rd be st t execution timeout pguard redact rethrow =
     (let out = waiting_result\<lparr>sr_attempt := att_id t\<rparr> in
      case answered X rd redact be t timeout of (v, failure, scope, captured) \<Rightarrow>
      if rd_cancelled rd then settle_failure X rd st out ''cancelled'' Transient
      else if rd_duration rd \<ge> timeout then settle_failure X rd st out ''timeout'' Transient
      else if failure \<noteq> []
      then (case settle_failure X rd st out failure scope of
              (Inl e, st') \<Rightarrow> (Inl e, st') | (Inr o', st') \<Rightarrow> (Inr (o'\<lparr>sr_exception := captured\<rparr>), st'))
      else (case outcome_json X v of Inl e \<Rightarrow> (Inl e, st)
        | Inr j \<Rightarrow>
            let out1 = out\<lparr>sr_outcome := j\<rparr> in
            (case (v, pguard) of
               (Participates p, Some g) \<Rightarrow>
                 (case g p of Some reason \<Rightarrow> settle_failure X rd st out1 reason Occasion_Scope
                  | None \<Rightarrow>
                    (case settle_outcome X guard rd be st t execution v out1 of
                       (Inl e, st') \<Rightarrow> settle_rejected X rd redact rethrow st' out1 e
                     | (Inr o', st') \<Rightarrow> (Inr (after_commit rd redact be t o'), st')))
             | _ \<Rightarrow>
                 (case settle_outcome X guard rd be st t execution v out1 of
                    (Inl e, st') \<Rightarrow> settle_rejected X rd redact rethrow st' out1 e
                  | (Inr o', st') \<Rightarrow>
                      (Inr (if sr_abstention o' \<noteq> None then o' else after_commit rd redact be t o'), st')))))"

section \<open>The runtime\<close>

record runtime =
  rn_verified :: "string list"
  rn_abstention :: "abstention option"
  rn_disposed :: "snapshot option"
  rn_maintenance :: string

definition new_runtime :: runtime where
  "new_runtime = \<lparr>rn_verified = [], rn_abstention = None, rn_disposed = None, rn_maintenance = []\<rparr>"

definition remember :: "step_result \<Rightarrow> runtime \<Rightarrow> runtime" where
  "remember res rn = rn\<lparr>rn_abstention := sr_abstention res,
     rn_disposed := (if sr_status res = ''disposed'' then sr_snapshot res else rn_disposed rn),
     rn_maintenance := sr_maintenance res\<rparr>"

definition verify_once :: "ext \<Rightarrow> bool \<Rightarrow> store \<Rightarrow> string \<Rightarrow> runtime \<Rightarrow> runtime res" where
  "verify_once X sqlite_ok st subject rn =
     (if subject \<in> set (rn_verified rn) then Inr rn
      else bindR (verify X sqlite_ok st subject) (\<lambda>_. Inr (rn\<lparr>rn_verified := subject # rn_verified rn\<rparr>)))"

text \<open>The common part of \<open>step_result\<close> and \<open>step\<close>: \<open>redact\<close> tells them apart. The
  runtime is an object: its fields keep what they got when the step throws.\<close>

definition run_step ::
    "ext \<Rightarrow> bool \<Rightarrow> guard \<Rightarrow> readings \<Rightarrow> (store \<Rightarrow> store) \<Rightarrow> string \<Rightarrow> backend \<Rightarrow> store \<Rightarrow> runtime \<Rightarrow> string \<Rightarrow> millis \<Rightarrow>
     json \<Rightarrow> millis \<Rightarrow> bool \<Rightarrow> step_result option res \<times> runtime \<times> store" where
  "run_step X sqlite_ok guard rd during nonce be st rn0 subject now context timeout redact =
     (let rn = rn0\<lparr>rn_abstention := None, rn_disposed := None, rn_maintenance := []\<rparr> in
      case verify_once X sqlite_ok st subject rn of Inl e \<Rightarrow> (Inl e, rn, st)
      | Inr rn1 \<Rightarrow>
        (case admit X st subject (be_name be) now (be_policy be) (Some (be_fits be)) JNull context nonce of
           Inl e \<Rightarrow> (Inl e, rn1, st)
         | Inr (None, st') \<Rightarrow> (Inr None, rn1, st')
         | Inr (Some t, st') \<Rightarrow>
             (case execute_attempt X guard rd be (during st') t JNull timeout None redact False of
                (Inl e, st'') \<Rightarrow> (Inl e, rn1, st'')
              | (Inr res, st'') \<Rightarrow> (Inr (Some res), remember res rn1, st''))))"

definition runtime_step_result ::
    "ext \<Rightarrow> bool \<Rightarrow> guard \<Rightarrow> readings \<Rightarrow> (store \<Rightarrow> store) \<Rightarrow> string \<Rightarrow> backend \<Rightarrow> store \<Rightarrow> runtime \<Rightarrow> string \<Rightarrow> millis \<Rightarrow>
     json \<Rightarrow> millis \<Rightarrow> step_result res \<times> runtime \<times> store" where
  "runtime_step_result X sqlite_ok guard rd during nonce be st rn subject now context timeout =
     (case run_step X sqlite_ok guard rd during nonce be st rn subject now context timeout True of
        (r, rn', st') \<Rightarrow> (bindR r (\<lambda>x. Inr (case x of None \<Rightarrow> waiting_result | Some res \<Rightarrow> res)), rn', st'))"

definition runtime_step ::
    "ext \<Rightarrow> bool \<Rightarrow> guard \<Rightarrow> readings \<Rightarrow> (store \<Rightarrow> store) \<Rightarrow> string \<Rightarrow> backend \<Rightarrow> store \<Rightarrow> runtime \<Rightarrow> string \<Rightarrow> millis \<Rightarrow>
     json \<Rightarrow> snapshot option res \<times> runtime \<times> store" where
  "runtime_step X sqlite_ok guard rd during nonce be st rn subject now context =
     (case run_step X sqlite_ok guard rd during nonce be st rn subject now context 3600000 False of
        (r, rn', st') \<Rightarrow>
          (bindR r (\<lambda>x. case x of None \<Rightarrow> Inr None
             | Some res \<Rightarrow> (case sr_exception res of Some e \<Rightarrow> Inl e
                 | None \<Rightarrow> Inr (if sr_status res = ''committed'' then sr_snapshot res else None))), rn', st'))"

section \<open>Settlement\<close>

lemma fail_scoped_later: "fail_scoped X st i reason scope now = Inr (out, st') \<Longrightarrow> later X st st'"
  unfolding later_def using by_fail_scoped by blast

lemma fail_later: "later X st (fail st i reason)"
  unfolding later_def using by_fail by blast

lemma abstain_later: "abstain X st i v provider = Inr (r, st') \<Longrightarrow> later X st st'"
  unfolding later_def using by_abstain by blast

lemma commit_later: "commit X guard hook st i p now elapsed emission = (r, st') \<Longrightarrow> later X st st'"
  unfolding later_def using by_commit by blast

lemma later_refl [simp]: "later X st st" by (simp add: later_def)
lemma later_trans: "later X a b \<Longrightarrow> later X b c \<Longrightarrow> later X a c" by (simp add: later_def)

text \<open>Every settlement of a known attempt leaves it settled.\<close>

definition settled_in :: "store \<Rightarrow> string \<Rightarrow> bool" where
  "settled_in st i \<longleftrightarrow> (\<exists>a. find_attempt st i = Some a \<and> at_status a \<noteq> Reserved)"

definition known_in :: "store \<Rightarrow> string \<Rightarrow> bool" where
  "known_in st i \<longleftrightarrow> find_attempt st i \<noteq> None"

lemma find_attempt_mapped:
  assumes "st_attempts st' = map f (st_attempts st)" and "\<And>r. at_id (f r) = at_id r" and "find_attempt st i = Some a"
  shows "find_attempt st' i = Some (f a)"
proof -
  have "find (\<lambda>r. at_id r = i) (map f xs) = map_option f (find (\<lambda>r. at_id r = i) xs)" for xs
    using assms(2) by (induction xs) simp_all
  with assms(1,3) show ?thesis by (simp add: find_attempt_def)
qed

lemma mark_failed_settles:
  assumes "known_in st i"
  shows "settled_in (mark_failed i reason st) i"
proof -
  from assms obtain a where a: "find_attempt st i = Some a" by (auto simp: known_in_def)
  have "st_attempts (mark_failed i reason st) = map (failed_row i reason) (st_attempts st)"
    by (simp add: mark_failed_def failed_row_def)
  from find_attempt_mapped [OF this _ a] find_attempt_Some [OF a] show ?thesis
    by (auto simp: settled_in_def failed_row_def)
qed

lemma committed_settles:
  assumes "find_attempt st (tr_attempt t) = Some a"
  shows "settled_in (committed_store X st t db fs) (tr_attempt t)"
  using find_attempt_mapped [OF committed_store_simps(4) _ assms] find_attempt_Some [OF assms]
  by (auto simp: settled_in_def settled_row_def)

definition kept :: "store \<Rightarrow> store \<Rightarrow> bool" where
  "kept st st' \<longleftrightarrow> st_subjects st' = st_subjects st \<and> st_occasions st' = st_occasions st \<and>
     st_commits st' = st_commits st \<and> st_memory st' = st_memory st"

definition moved :: "store \<Rightarrow> store \<Rightarrow> snapshot \<Rightarrow> bool" where
  "moved st st' sn \<longleftrightarrow> snapshot st' (sn_subject sn) = Inr sn \<and>
     (\<exists>c. st_commits st' = st_commits st @ [c] \<and> co_id c = sn_head sn)"

lemma kept_refl [simp]: "kept st st" by (simp add: kept_def)

lemma mark_failed_kept: "kept st (mark_failed i reason st)"
  by (simp add: kept_def)

lemma known_failures: "known_in (st\<lparr>st_failures := fs\<rparr>) i = known_in st i"
  by (simp add: known_in_def find_attempt_def)

lemma committed_snapshot:
  assumes "keys_inv st" and "transition_ok X st row r q t db"
  shows "snapshot (committed_store X st t db fs) (su_id r) = Inr
    \<lparr>sn_subject = su_id r, sn_tick = tr_tick t, sn_head = co_id (transition_row X t), sn_memory = tr_memory t,
     sn_wake_at = tr_wake_at t, sn_lifecycle = (if tr_wake_at t \<noteq> None then ''sleeping'' else ''waiting_external'')\<rparr>"
proof -
  note rows = transition_ok_rows [OF assms]
  have "find (\<lambda>x. su_id x = su_id r) (map (headed X t) xs) = map_option (headed X t) (find (\<lambda>x. su_id x = su_id r) xs)" for xs
    by (induction xs) (simp_all add: headed_def)
  moreover have "find_subject st (su_id r) = Some r" using keys_inv_find(1) [OF assms(1) rows(3)] by simp
  ultimately have f: "find_subject (committed_store X st t db fs) (su_id r) = Some (headed X t r)"
    by (simp add: find_subject_def)
  have "su_tick (headed X t r) = tr_tick t" "su_head (headed X t r) = co_id (transition_row X t)"
    "su_memory (headed X t r) = tr_memory t" "su_wake (headed X t r) = tr_wake_at t" "su_id (headed X t r) = su_id r"
    using rows by (simp_all add: headed_def)
  then show ?thesis by (simp add: snapshot_def row_snapshot_def f)
qed

lemma fail_scoped_settles:
  assumes "fail_scoped X st i reason scope now = Inr (out, st')"
  shows "settled_in st' i"
proof (rule fail_scoped_Inr [OF assms])
  fix row fs
  assume "find_attempt st i = Some row"
    and "st' = mark_failed i (take 1024 reason) (st\<lparr>st_failures := st_failures st @ fs\<rparr>)"
  then show ?thesis using mark_failed_settles known_failures by (simp add: known_in_def)
next
  fix row r p sn dispo
  assume row: "find_attempt st i = Some row"
    and c: "commit_locked X None (with_failure st row (take 1024 reason)) i p now None JNull dispo = Inr (sn, st')"
  from commit_with_failure [OF c row] obtain r q t db where t: "transition_ok X st row r q t db"
    and st': "st' = committed_store X st t db [failure_for row (take 1024 reason)]" by metis
  have "tr_attempt t = i" using t find_attempt_Some [OF row] by (simp add: transition_ok_def)
  with row st' show ?thesis using committed_settles [of st t row] by simp
qed (auto simp: settled_in_def)

lemma fail_scoped_None:
  assumes "fail_scoped X st i reason scope now = Inr (None, st')"
  shows "kept st st'" and "scope = Transient \<Longrightarrow> st_failures st' = st_failures st"
  by (rule fail_scoped_Inr [OF assms]; simp add: kept_def)+

lemma fail_scoped_Some:
  assumes "keys_inv st" and "fail_scoped X st i reason scope now = Inr (Some sn, st')"
  shows "scope = Occasion_Scope \<and> moved st st' sn"
proof (rule fail_scoped_Inr [OF assms(2)])
  fix row r p s' cap
  assume scope: "scope = Occasion_Scope" and s: "Some sn = Some s'" and row: "find_attempt st i = Some row"
    and c: "commit_locked X None (with_failure st row (take 1024 reason)) i p now None JNull
      (Some \<lparr>di_limit = cap, di_failures = disposition_failures (with_failure st row (take 1024 reason))
         (ad_occasion (at_body row)) i cap\<rparr>) = Inr (s', st')"
  show ?thesis
  proof (rule commit_with_failure [OF c row])
    fix r' q t db
    assume t: "transition_ok X st row r' q t db"
      and st': "st' = committed_store X st t db [failure_for row (take 1024 reason)]"
      and sn: "s' = \<lparr>sn_subject = su_id r', sn_tick = tr_tick t, sn_head = co_id (transition_row X t),
       sn_memory = tr_memory t, sn_wake_at = tr_wake_at t,
       sn_lifecycle = (if tr_wake_at t \<noteq> None then ''sleeping'' else ''waiting_external'')\<rparr>"
    from s have "sn = s'" by simp
    have "snapshot st' (su_id r') = Inr s'" unfolding st' sn by (rule committed_snapshot [OF assms(1) t])
    moreover have "sn_subject s' = su_id r'" unfolding sn by (rule snapshot.select_convs(1))
    moreover have "st_commits st' = st_commits st @ [transition_row X t]" unfolding st' by simp
    moreover have "sn_head s' = co_id (transition_row X t)" unfolding sn by (rule snapshot.select_convs(3))
    ultimately have "moved st st' s'" by (simp add: moved_def)
    then show ?thesis using scope by (simp only: \<open>sn = s'\<close> simp_thms)
  qed
qed simp_all

section \<open>What a step reports\<close>

text \<open>A report is honest: a step that says it committed or disposed names the subject's
  new snapshot; any other leaves every subject, occasion, commit and memory row alone.\<close>

definition landed :: "step_result \<Rightarrow> bool" where
  "landed res \<longleftrightarrow> sr_status res = ''committed'' \<or> sr_status res = ''disposed''"

definition report_ok :: "store \<Rightarrow> store \<Rightarrow> string \<Rightarrow> step_result \<Rightarrow> bool" where
  "report_ok st st' i res \<longleftrightarrow> settled_in st' i \<and>
     (if landed res then (\<exists>sn. sr_snapshot res = Some sn \<and> moved st st' sn)
      else sr_snapshot res = None \<and> kept st st')"

lemma settle_failure_Inl: "settle_failure X rd st out reason scope = (Inl e, st') \<Longrightarrow> st' = st"
  by (simp add: settle_failure_def split: sum.splits prod.splits option.splits)

lemma settle_failure_Inr:
  assumes "settle_failure X rd st out reason scope = (Inr o', st')"
  obtains (failed) now where "fail_scoped X st (sr_attempt out) reason scope now = Inr (None, st')"
      and "o' = out\<lparr>sr_error := reason, sr_status := reason\<rparr>"
  | (disposed) now s where "fail_scoped X st (sr_attempt out) reason scope now = Inr (Some s, st')"
      and "o' = out\<lparr>sr_error := reason, sr_status := ''disposed'', sr_snapshot := Some s\<rparr>"
  using assms
  by (auto simp: settle_failure_def res_simps split: sum.splits prod.splits option.splits)

lemma settle_failure_later: "settle_failure X rd st out reason scope = (r, st') \<Longrightarrow> later X st st'"
  by (cases r) (auto dest!: settle_failure_Inl elim!: settle_failure_Inr dest: fail_scoped_later)

lemma settle_failure_report:
  assumes "keys_inv st" and "settle_failure X rd st out reason scope = (Inr o', st')"
    and "sr_snapshot out = None" and "reason \<noteq> ''committed''" and "reason \<noteq> ''disposed''"
  shows "report_ok st st' (sr_attempt out) o'" and "scope = Transient \<Longrightarrow> \<not> landed o'"
proof -
  have "report_ok st st' (sr_attempt out) o' \<and> (scope = Transient \<longrightarrow> \<not> landed o')"
  proof (rule settle_failure_Inr [OF assms(2)])
    fix now
    assume f: "fail_scoped X st (sr_attempt out) reason scope now = Inr (None, st')"
      and o': "o' = out\<lparr>sr_error := reason, sr_status := reason\<rparr>"
    have "\<not> landed o'" using assms(4,5) by (simp add: landed_def o')
    moreover have "sr_snapshot o' = None" using assms(3) by (simp add: o')
    ultimately show ?thesis using fail_scoped_settles [OF f] fail_scoped_None(1) [OF f] by (simp only: report_ok_def) simp
  next
    fix now s
    assume f: "fail_scoped X st (sr_attempt out) reason scope now = Inr (Some s, st')"
      and o': "o' = out\<lparr>sr_error := reason, sr_status := ''disposed'', sr_snapshot := Some s\<rparr>"
    have "landed o'" by (simp add: landed_def o')
    moreover have "sr_snapshot o' = Some s" by (simp add: o')
    ultimately show ?thesis using fail_scoped_settles [OF f] fail_scoped_Some [OF assms(1) f] by (simp only: report_ok_def) simp
  qed
  then show "report_ok st st' (sr_attempt out) o'" and "scope = Transient \<Longrightarrow> \<not> landed o'" by simp_all
qed

lemma commit_plain:
  assumes "commit X guard (\<lambda>_. Inr ()) st i p now elapsed emission = (r, st')"
  shows "case r of Inl e \<Rightarrow> st' = st | Inr s \<Rightarrow> commit_locked X guard st i p now elapsed emission None = Inr (s, st')"
  using assms by (auto simp: commit_def res_simps split: sum.splits prod.splits)

lemma commit_locked_settles:
  assumes "commit_locked X guard st i p now elapsed emission dispo = Inr (s, st')"
  shows "settled_in st' i"
proof (rule commit_locked_Inr [OF assms])
  fix row r q t db
  assume t: "transition_ok X st row r q t db" and i: "at_id row = i" and st': "st' = committed_store X st t db []"
  then have "tr_attempt t = i" "find_attempt st i = Some row" by (simp_all add: transition_ok_def)
  then show ?thesis unfolding st' using committed_settles [of st t row] by simp
qed

lemma commit_locked_report:
  assumes "keys_inv st" and "commit_locked X guard st i p now elapsed emission dispo = Inr (s, st')"
  shows "settled_in st' i \<and> moved st st' s"
proof (rule commit_locked_Inr [OF assms(2)])
  fix row r q t db
  assume t: "transition_ok X st row r q t db" and i: "at_id row = i" and st': "st' = committed_store X st t db []"
    and s: "s = \<lparr>sn_subject = su_id r, sn_tick = tr_tick t, sn_head = co_id (transition_row X t),
       sn_memory = tr_memory t, sn_wake_at = tr_wake_at t,
       sn_lifecycle = (if tr_wake_at t \<noteq> None then ''sleeping'' else ''waiting_external'')\<rparr>"
  have "snapshot st' (su_id r) = Inr s" unfolding st' s by (rule committed_snapshot [OF assms(1) t])
  moreover have "sn_subject s = su_id r" unfolding s by (rule snapshot.select_convs(1))
  moreover have "st_commits st' = st_commits st @ [transition_row X t]" unfolding st' by simp
  moreover have "sn_head s = co_id (transition_row X t)" unfolding s by (rule snapshot.select_convs(3))
  ultimately have "moved st st' s" by (simp add: moved_def)
  then show ?thesis using commit_locked_settles [OF assms(2)] by simp
qed

lemma abstain_report:
  assumes "abstain X st i v provider = Inr (receipt, st')"
  shows "settled_in st' i \<and> kept st st'"
proof (rule abstain_Inr [OF assms])
  fix row o'
  assume row: "find_attempt st i = Some row" and st': "st' = abstained_store st i o'"
  have "st_attempts st' = map (abstained_row i) (st_attempts st)" by (simp add: st')
  from find_attempt_mapped [OF this _ row] find_attempt_Some [OF row] show ?thesis
    by (auto simp: settled_in_def kept_def abstained_row_def st')
qed (auto simp: settled_in_def)

lemma settle_outcome_Inl: "settle_outcome X guard rd be st t execution v out = (Inl e, st') \<Longrightarrow> st' = st"
  by (auto simp: settle_outcome_def split: outcome.splits sum.splits prod.splits dest!: commit_plain)

lemma settle_outcome_Inr:
  assumes "settle_outcome X guard rd be st t execution v out = (Inr o', st')"
  obtains (abstained) a provider i where "v = Abstains a" and "abstain X st (att_id t) a provider = Inr (i, st')"
      and "o' = out\<lparr>sr_receipt := i, sr_abstention := Some a, sr_status := ''abstained''\<rparr>"
  | (committed) p now emission s where "v = Participates p"
      and "commit X guard (\<lambda>_. Inr ()) st (att_id t) p now (Some (rd_duration rd)) emission = (Inr s, st')"
      and "o' = out\<lparr>sr_snapshot := Some s\<rparr>"
  using assms
  by (auto simp: settle_outcome_def res_simps split: outcome.splits sum.splits prod.splits)

lemma settle_then_cases:
  assumes "settle_then X rd st out reason k = (r, st')"
  obtains (threw) e where "settle_failure X rd st out reason Transient = (Inl e, st')" and "r = Inl e"
  | (settled) o' where "settle_failure X rd st out reason Transient = (Inr o', st')" and "r = k o'"
  using assms by (auto simp: settle_then_def split: sum.splits prod.splits)

text \<open>A settlement that blames nobody changes nothing but the attempt, whatever the reason
  text is and whether it throws or not.\<close>

lemma fail_scoped_transient:
  assumes "fail_scoped X st i reason Transient now = Inr (out, st')"
  shows "out = None \<and> kept st st' \<and> st_failures st' = st_failures st"
  by (rule fail_scoped_Inr [OF assms]; simp add: kept_def)

lemma settle_failure_transient:
  assumes "settle_failure X rd st out reason Transient = (r, st')"
  shows "kept st st' \<and> st_failures st' = st_failures st"
proof (cases r)
  case (Inl e)
  with assms have "settle_failure X rd st out reason Transient = (Inl e, st')" by simp
  from settle_failure_Inl [OF this] show ?thesis by simp
next
  case (Inr o')
  with assms have "settle_failure X rd st out reason Transient = (Inr o', st')" by simp
  then show ?thesis by (rule settle_failure_Inr) (auto dest: fail_scoped_transient)
qed

lemma settle_failure_settles:
  "settle_failure X rd st out reason scope = (Inr o', st') \<Longrightarrow> settled_in st' (sr_attempt out)"
  by (erule settle_failure_Inr) (auto dest: fail_scoped_settles)

lemma settle_then_transient:
  assumes "settle_then X rd st out reason k = (r, st')"
  shows "kept st st' \<and> later X st st' \<and> (\<forall>o'. r = Inr o' \<longrightarrow> settled_in st' (sr_attempt out))"
  by (rule settle_then_cases [OF assms])
    (auto dest: settle_failure_transient settle_failure_later settle_failure_settles)

lemma fail_settles: "known_in st i \<Longrightarrow> settled_in (fail st i reason) i"
  by (simp add: fail_def mark_failed_settles)

lemma fail_kept: "kept st (fail st i reason)"
  by (simp add: fail_def mark_failed_kept)

lemma settle_rejected_cases:
  "(\<exists>reason k. settle_rejected X rd redact rethrow st out e = settle_then X rd st out reason k) \<or>
   settle_rejected X rd redact rethrow st out e =
     (Inr (out\<lparr>sr_status := ''conflict'', sr_error := ''conflict''\<rparr>), fail st (sr_attempt out) ''stale transition'')"
  unfolding settle_rejected_def
  by (cases e; cases redact; cases rethrow; simp only: error.case if_True if_False simp_thms not_True_eq_False not_False_eq_True; blast)

lemma settle_rejected_effect:
  assumes "settle_rejected X rd redact rethrow st out e = (r, st')" and "known_in st (sr_attempt out)"
  shows "kept st st' \<and> later X st st' \<and> (\<forall>o'. r = Inr o' \<longrightarrow> settled_in st' (sr_attempt out))"
  using settle_rejected_cases [of X rd redact rethrow st out e]
proof
  assume "\<exists>reason k. settle_rejected X rd redact rethrow st out e = settle_then X rd st out reason k"
  with assms(1) show ?thesis using settle_then_transient by metis
next
  assume "settle_rejected X rd redact rethrow st out e =
     (Inr (out\<lparr>sr_status := ''conflict'', sr_error := ''conflict''\<rparr>), fail st (sr_attempt out) ''stale transition'')"
  with assms(1) have st': "st' = fail st (sr_attempt out) ''stale transition''" by simp
  show ?thesis unfolding st' by (simp add: fail_settles [OF assms(2)] fail_later fail_kept)
qed

lemma settle_rejected_report:
  assumes "settle_rejected X rd True rethrow st out e = (Inr o', st')" and "sr_snapshot out = None"
  shows "sr_snapshot o' = None \<and> \<not> landed o'"
proof -
  have plain: "sr_snapshot o2 = None \<and> sr_status o2 = reason" if "settle_failure X rd st out reason Transient = (Inr o2, st')"
    for o2 reason
    using that by (rule settle_failure_Inr) (auto simp: assms(2) dest: fail_scoped_transient)
  from assms(1) show ?thesis
    unfolding settle_rejected_def
    by (cases e; cases rethrow) (auto simp: landed_def elim!: settle_then_cases dest: plain)
qed

text \<open>The ways through \<open>execute_attempt\<close>: the attempt is settled as a failure; the outcome
  cannot be written down; its settlement is refused; it is accepted.\<close>

definition fresh_report :: "attempt \<Rightarrow> step_result \<Rightarrow> bool" where
  "fresh_report t out \<longleftrightarrow> sr_attempt out = att_id t \<and> sr_snapshot out = None \<and> sr_abstention out = None"

lemma settle_branch:
  assumes "(case settle_outcome X guard rd be st t execution v out of
      (Inl e, st') \<Rightarrow> settle_rejected X rd redact rethrow st' out e
    | (Inr o', st') \<Rightarrow> (Inr (k o'), st')) = (r, st')"
  obtains (rejected) e where "settle_rejected X rd redact rethrow st out e = (r, st')"
  | (accepted) o' where "settle_outcome X guard rd be st t execution v out = (Inr o', st')" and "r = Inr (k o')"
  using assms settle_outcome_Inl by (fastforce split: sum.splits prod.splits)

lemma participates_silent:
  "settle_outcome X guard rd be st t execution (Participates p) out = (Inr o', st') \<Longrightarrow> sr_abstention o' = sr_abstention out"
  by (erule settle_outcome_Inr) simp_all

definition blames :: "readings \<Rightarrow> proposal_guard \<Rightarrow> string \<Rightarrow> failure_scope \<Rightarrow> outcome \<times> string \<times> failure_scope \<times> error option \<Rightarrow> bool" where
  "blames rd pguard reason scope ans \<longleftrightarrow>
     (reason = ''cancelled'' \<or> reason = ''timeout'') \<and> scope = Transient \<or>
     \<not> rd_cancelled rd \<and> reason = fst (snd ans) \<and> reason \<noteq> [] \<and> scope = fst (snd (snd ans)) \<or>
     (\<exists>g p. pguard = Some g \<and> fst ans = Participates p \<and> g p = Some reason) \<and> scope = Occasion_Scope"

lemma execute_cases:
  assumes "execute_attempt X guard rd be st t execution timeout pguard redact rethrow = (r, st')"
  obtains (failed) out reason scope r0 where "fresh_report t out"
      and "blames rd pguard reason scope (answered X rd redact be t timeout)"
      and "settle_failure X rd st out reason scope = (r0, st')"
      and "(\<exists>e. r0 = Inl e \<and> r = Inl e) \<or> (\<exists>o' c. r0 = Inr o' \<and> r = Inr (o'\<lparr>sr_exception := c\<rparr>))"
  | (unread) e where "st' = st" and "r = Inl e"
  | (rejected) out e where "fresh_report t out" and "fst (snd (answered X rd redact be t timeout)) = []"
      and "settle_rejected X rd redact rethrow st out e = (r, st')"
  | (accepted) out v o' where "fresh_report t out" and "fst (snd (answered X rd redact be t timeout)) = []"
      and "v = fst (answered X rd redact be t timeout)"
      and "settle_outcome X guard rd be st t execution v out = (Inr o', st')"
      and "r = Inr (if sr_abstention o' \<noteq> None then o' else after_commit rd redact be t o')"
      and "\<forall>g p. pguard = Some g \<longrightarrow> v = Participates p \<longrightarrow> g p = None"
proof -
  obtain v failure scope captured where ans: "answered X rd redact be t timeout = (v, failure, scope, captured)"
    by (metis prod_cases4)
  let ?out = "waiting_result\<lparr>sr_attempt := att_id t\<rparr>"
  have fresh: "fresh_report t ?out" by (simp add: fresh_report_def waiting_result_def)
  note unf = assms [unfolded execute_attempt_def Let_def ans prod.case]
  have plain: thesis if "settle_failure X rd st out reason sc = (r, st')" "fresh_report t out"
      "blames rd pguard reason sc (v, failure, scope, captured)" for out reason sc
  proof (rule failed [OF that(2) that(3) [folded ans] that(1)])
    show "(\<exists>e. r = Inl e \<and> r = Inl e) \<or> (\<exists>o' c. r = Inr o' \<and> r = Inr (o'\<lparr>sr_exception := c\<rparr>))"
    proof (cases r)
      case (Inr o')
      have "o'\<lparr>sr_exception := sr_exception o'\<rparr> = o'" by simp
      with Inr show ?thesis by metis
    qed simp
  qed
  consider "rd_cancelled rd" | "\<not> rd_cancelled rd" "rd_duration rd \<ge> timeout"
    | "\<not> rd_cancelled rd" "\<not> rd_duration rd \<ge> timeout" "failure \<noteq> []"
    | "\<not> rd_cancelled rd" "\<not> rd_duration rd \<ge> timeout" "failure = []" by blast
  then show thesis
  proof cases
    case 1
    with unf plain [OF _ fresh] show thesis by (simp add: blames_def)
  next
    case 2
    with unf plain [OF _ fresh] show thesis by (simp add: blames_def)
  next
    case 3
    obtain r0 st0 where f: "settle_failure X rd st ?out failure scope = (r0, st0)" by fastforce
    from unf 3 f have st0: "st0 = st'" and
      "(\<exists>e. r0 = Inl e \<and> r = Inl e) \<or> (\<exists>o' c. r0 = Inr o' \<and> r = Inr (o'\<lparr>sr_exception := c\<rparr>))"
      by (auto split: sum.splits)
    with failed [OF fresh _ f [unfolded st0]] 3 show thesis by (simp add: ans blames_def)
  next
    case 4
    have failure_nil: "fst (snd (answered X rd redact be t timeout)) = []" unfolding ans using 4(3) by simp
    show thesis
    proof (cases "outcome_json X v")
      case (Inl e)
      with unf 4 have "st' = st" "r = Inl e" by (simp_all del: outcome_json.simps)
      then show thesis by (rule unread)
    next
      case (Inr j)
      let ?o1 = "?out\<lparr>sr_outcome := j\<rparr>"
      have fresh1: "fresh_report t ?o1" using fresh by (simp add: fresh_report_def)
      show thesis
      proof (cases "\<exists>g p. pguard = Some g \<and> v = Participates p")
        case True
        then obtain g p where gp: "pguard = Some g" "v = Participates p" by blast
        show thesis
        proof (cases "g p")
          case (Some reason)
          with unf 4 Inr gp have "settle_failure X rd st ?o1 reason Occasion_Scope = (r, st')" by (simp del: outcome_json.simps)
          from plain [OF this fresh1] gp Some show thesis by (simp add: blames_def)
        next
          case None
          with unf 4 Inr gp have "(case settle_outcome X guard rd be st t execution (Participates p) ?o1 of
              (Inl e, st') \<Rightarrow> settle_rejected X rd redact rethrow st' ?o1 e
            | (Inr o', st') \<Rightarrow> (Inr (after_commit rd redact be t o'), st')) = (r, st')" by (simp del: outcome_json.simps)
          then show thesis
          proof (cases rule: settle_branch)
            case (accepted o')
            have acc_v: "Participates p = fst (answered X rd redact be t timeout)" unfolding ans using gp(2) by simp
            have "sr_abstention o' = None"
              unfolding participates_silent [OF accepted(1)] using fresh1 by (simp only: fresh_report_def)
            then have "r = Inr (if sr_abstention o' \<noteq> None then o' else after_commit rd redact be t o')"
              by (simp only: accepted(2) if_False simp_thms)
            moreover have "\<forall>g' p'. pguard = Some g' \<longrightarrow> Participates p = Participates p' \<longrightarrow> g' p' = None" using gp(1) None by simp
            ultimately show thesis using fresh1 failure_nil acc_v accepted(1) by (intro that(4))
          qed (rule rejected [OF fresh1 failure_nil])
        qed
      next
        case False
        then consider a where "v = Abstains a" | p where "v = Participates p" "pguard = None"
          by (cases v; cases pguard) auto
        then have "(case settle_outcome X guard rd be st t execution v ?o1 of
            (Inl e, st') \<Rightarrow> settle_rejected X rd redact rethrow st' ?o1 e
          | (Inr o', st') \<Rightarrow> (Inr (if sr_abstention o' \<noteq> None then o' else after_commit rd redact be t o'), st')) = (r, st')"
        proof cases
          case 1
          show ?thesis using unf unfolding 1 using 4 by (simp only: Inr [unfolded 1] if_False simp_thms sum.case prod.case outcome.case Let_def)
        next
          case 2
          show ?thesis using unf unfolding 2 using 4 by (simp only: Inr [unfolded 2] if_False simp_thms sum.case prod.case outcome.case option.case Let_def)
        qed
        then show thesis
        proof (cases rule: settle_branch)
          case (accepted o')
          have acc_v: "v = fst (answered X rd redact be t timeout)" unfolding ans by simp
          have "\<forall>g p. pguard = Some g \<longrightarrow> v = Participates p \<longrightarrow> g p = None" using False by auto
          with fresh1 failure_nil acc_v accepted show thesis by (rule that(4))
        qed (rule rejected [OF fresh1 failure_nil])
      qed
    qed
  qed
qed

lemma settle_outcome_effect:
  assumes "settle_outcome X guard rd be st t execution v out = (Inr o', st')"
  shows "later X st st' \<and> settled_in st' (att_id t)"
  using assms
proof (cases rule: settle_outcome_Inr)
  case (abstained a provider i)
  from abstain_report [OF this(2)] abstain_later [OF this(2)] show ?thesis by blast
next
  case (committed p now emission s)
  from commit_plain [OF this(2)]
  have "commit_locked X guard st (att_id t) p now (Some (rd_duration rd)) emission None = Inr (s, st')" by simp
  from commit_locked_settles [OF this]
  have "settled_in st' (att_id t)" .
  with commit_later [OF committed(2)] show ?thesis by blast
qed

lemma settle_outcome_report:
  assumes "keys_inv st" and "settle_outcome X guard rd be st t execution v out = (Inr o', st')" and "fresh_report t out"
  shows "report_ok st st' (att_id t) (if sr_abstention o' \<noteq> None then o' else after_commit rd redact be t o')"
  using assms(2)
proof (cases rule: settle_outcome_Inr)
  case (abstained a provider i)
  have "\<not> landed o'" "sr_snapshot o' = None" "sr_abstention o' \<noteq> None"
    using assms(3) by (simp_all add: abstained(3) landed_def fresh_report_def)
  with abstain_report [OF abstained(2)] show ?thesis by (simp add: report_ok_def)
next
  case (committed p now emission s)
  from commit_plain [OF this(2)]
  have "commit_locked X guard st (att_id t) p now (Some (rd_duration rd)) emission None = Inr (s, st')" by simp
  note rep = commit_locked_report [OF assms(1) this]
  have "sr_abstention o' = None" "sr_snapshot o' = Some s"
    using assms(3) by (simp_all add: committed(3) fresh_report_def)
  moreover from this(2) have "sr_status (after_commit rd redact be t o') = ''committed''" "sr_snapshot (after_commit rd redact be t o') = Some s"
    by (simp_all add: after_commit_def Let_def split: sum.splits error.splits)
  ultimately show ?thesis using rep by (simp add: report_ok_def landed_def)
qed

lemma execute_later:
  assumes "execute_attempt X guard rd be st t execution timeout pguard redact rethrow = (r, st')"
    and "known_in st (att_id t)"
  shows "later X st st' \<and> (\<forall>res. r = Inr res \<longrightarrow> settled_in st' (att_id t))"
  using assms(1)
proof (cases rule: execute_cases)
  case (failed out reason scope r0)
  have "settled_in st' (att_id t)" if "r0 = Inr o'" for o'
    using settle_failure_settles [OF failed(3) [unfolded that]] failed(1) by (simp add: fresh_report_def)
  with settle_failure_later [OF failed(3)] failed(4) show ?thesis by auto
next
  case (rejected out e)
  from settle_rejected_effect [OF this(3)] this(1) assms(2) show ?thesis by (simp add: fresh_report_def)
next
  case (accepted out v o')
  from settle_outcome_effect [OF this(4)] show ?thesis by simp
qed simp

lemma answered_redacted:
  assumes "fst (snd (answered X rd True be t timeout)) = reason" and "reason \<noteq> []"
  shows "reason \<in> {''transport_failed'', ''timeout'', ''invalid_output'', ''credentials_unavailable'', ''backend_failed'', ''memory_pressure''}"
proof -
  have "snd (classify rd True e) \<in> {''transport_failed'', ''timeout'', ''invalid_output'', ''credentials_unavailable'',
      ''backend_failed'', ''memory_pressure''}" for e
  proof (cases e)
    case (BackendFailure k m)
    then show ?thesis by (cases k) (simp_all add: classify_def)
  qed (simp_all add: classify_def)
  with assms show ?thesis by (auto simp: answered_def split: sum.splits)
qed

lemma blames_redacted:
  assumes "blames rd None reason scope (answered X rd True be t timeout)"
  shows "reason \<noteq> ''committed'' \<and> reason \<noteq> ''disposed''"
proof -
  have "reason \<in> {''cancelled'', ''transport_failed'', ''timeout'', ''invalid_output'', ''credentials_unavailable'',
      ''backend_failed'', ''memory_pressure''}"
    using assms answered_redacted [of X rd be t timeout reason] by (auto simp: blames_def)
  then show ?thesis by auto
qed

text \<open>What a failure before the commit does not touch when nobody is to blame.\<close>

lemma execute_transient:
  assumes "execute_attempt X guard rd be st t execution timeout None True rethrow = (r, st')"
    and "respond X be t timeout = Inl e" and "\<And>m. e \<noteq> BackendFailure Invalid_Output m"
  shows "kept st st' \<and> st_failures st' = st_failures st"
proof -
  have f: "fst (snd (answered X rd True be t timeout)) = snd (classify rd True e)"
    "fst (snd (snd (answered X rd True be t timeout))) = Transient"
    using assms(2,3) by (auto simp: answered_def classify_def failure_scope_def split: error.splits)
  have ne: "snd (classify rd True e) \<noteq> []"
  proof (cases e)
    case (BackendFailure k m)
    then show ?thesis by (cases k) (simp_all add: classify_def)
  qed (simp_all add: classify_def)
  from assms(1) show ?thesis
  proof (cases rule: execute_cases)
    case (failed out reason scope r0)
    from failed(2) f have "scope = Transient" by (auto simp: blames_def)
    with settle_failure_transient failed(3) show ?thesis by blast
  next
  qed (use f ne in simp_all)
qed

lemma execute_redacted:
  assumes "execute_attempt X guard rd be st t execution timeout None True rethrow = (r, st')"
    and "keys_inv st" and "known_in st (att_id t)"
  shows "case r of Inl e \<Rightarrow> kept st st' | Inr res \<Rightarrow> report_ok st st' (att_id t) res"
  using assms(1)
proof (cases rule: execute_cases)
  case (failed out reason scope r0)
  note out = failed(1) [unfolded fresh_report_def] and words = blames_redacted [OF failed(2)]
  show ?thesis
  proof (cases r0)
    case (Inl e)
    from settle_failure_Inl [OF failed(3) [unfolded this]] failed(4) Inl show ?thesis by auto
  next
    case (Inr o')
    with failed(4) obtain c where r: "r = Inr (o'\<lparr>sr_exception := c\<rparr>)" by auto
    have "report_ok st st' (att_id t) o'"
      using settle_failure_report(1) [OF assms(2) failed(3) [unfolded Inr]] out words by simp
    then show ?thesis by (simp add: r report_ok_def landed_def)
  qed
next
  case (rejected out e)
  have out: "sr_attempt out = att_id t" "sr_snapshot out = None" using rejected(1) by (simp_all add: fresh_report_def)
  from settle_rejected_effect [OF rejected(3)] out assms(3)
  have eff: "kept st st'" "\<forall>o'. r = Inr o' \<longrightarrow> settled_in st' (att_id t)" by simp_all
  show ?thesis
  proof (cases r)
    case (Inr o')
    from settle_rejected_report [OF rejected(3) [unfolded Inr] out(2)] eff Inr show ?thesis by (simp add: report_ok_def)
  qed (use eff in simp)
next
  case (accepted out v o')
  from settle_outcome_report [OF assms(2) accepted(4,1)] accepted(5) show ?thesis by simp
qed simp


lemma default_answer: "validate_backend_outcome X (Participates default_proposal) = Inr ()"
proof -
  have "proposal_ok X default_proposal"
    by (simp add: proposal_ok_def default_proposal_def notes_ok_def)
  then show ?thesis by (simp add: validate_backend_outcome_def proposal_json_def res_simps)
qed

lemma admit_later:
  assumes "admit X st subject backend now policy fits execution context nonce = Inr (out, st')"
  shows "later X st st'"
proof (cases out)
  case None
  with assms have "st' = st" by (auto simp: admit_def res_simps split: option.splits if_splits prod.splits)
  then show ?thesis by simp
next
  case (Some a)
  with assms show ?thesis unfolding later_def using by_admit by blast
qed

lemma admit_known:
  assumes "admit X st subject backend now policy fits execution context nonce = Inr (Some t, st')"
  shows "known_in st' (att_id t)"
proof (rule admit_Inr [OF assms])
  fix r st1 a b
  assume same: "st_attempt_seq st1 = st_attempt_seq st" and i: "att_id t = hash X (admission_json a)"
    and st': "st' = admitted_store X st1 a"
  have "\<exists>x \<in> set (st_attempts st'). at_id x = att_id t"
    by (simp add: st' admitted_store_def i attempt_for_def)
  then show ?thesis by (auto simp: known_in_def find_attempt_def find_None_iff)
qed


lemma known_step: "ledger_step X st st' \<Longrightarrow> known_in st i \<Longrightarrow> known_in st' i"
  unfolding known_in_def find_attempt_def find_None_iff
  by (induction rule: ledger_step.induct) (auto simp: image_iff)

lemma known_later: "later X st st' \<Longrightarrow> known_in st i \<Longrightarrow> known_in st' i"
proof -
  have "known_in st' i" if "ledger_steps X st st'" "known_in st i"
    using that by (induction rule: rtranclp_induct) (simp_all add: known_step)
  then show "later X st st' \<Longrightarrow> known_in st i \<Longrightarrow> known_in st' i" using later_ledger by blast
qed

lemma run_step_effect:
  assumes "run_step X sqlite_ok guard rd during nonce be st rn subject now context timeout redact = (r, rn', st')"
    and "\<And>u. later X u (during u)"
  shows "later X st st' \<and> (\<forall>res. r = Inr (Some res) \<longrightarrow>
    (\<exists>t u. admit X st subject (be_name be) now (be_policy be) (Some (be_fits be)) JNull context nonce = Inr (Some t, u) \<and>
       settled_in st' (att_id t)))"
proof -
  let ?admit = "admit X st subject (be_name be) now (be_policy be) (Some (be_fits be)) JNull context nonce"
  let ?rn = "rn\<lparr>rn_abstention := None, rn_disposed := None, rn_maintenance := []\<rparr>"
  note unf = assms(1) [unfolded run_step_def Let_def]
  show ?thesis
  proof (cases "verify_once X sqlite_ok st subject ?rn")
    case (Inl e)
    with unf show ?thesis by auto
  next
    case verified: (Inr rn1)
    show ?thesis
    proof (cases ?admit)
      case (Inl e)
      with unf verified show ?thesis by auto
    next
      case (Inr au)
      obtain out u where au: "au = (out, u)" by (cases au)
      note admit = Inr [unfolded au] and grow = admit_later [OF Inr [unfolded au]]
      show ?thesis
      proof (cases out)
        case None
        with unf verified admit grow show ?thesis by auto
      next
        case (Some t)
        obtain r0 s0 where ex: "execute_attempt X guard rd be (during u) t JNull timeout None redact False = (r0, s0)" by fastforce
        have known: "known_in (during u) (att_id t)" using admit_known admit Some known_later assms(2) by blast
        note eff = execute_later [OF ex known]
        from unf verified admit Some ex have "st' = s0" and r: "r = map_sum id Some r0" by (auto split: sum.splits)
        moreover have "later X st s0" using grow assms(2) eff later_trans by blast
        ultimately show ?thesis using eff admit Some by (cases r0) auto
      qed
    qed
  qed
qed

section \<open>The step's promises\<close>

text \<open>With redacted diagnostics only an answer leaves no failure text.\<close>

lemma answered_silent:
  assumes "fst (snd (answered X rd True be t timeout)) = []"
  shows "respond X be t timeout = Inr (fst (answered X rd True be t timeout))"
proof -
  have ne: "snd (classify rd True e) \<noteq> []" for e
  proof (cases e)
    case (BackendFailure k m)
    then show ?thesis by (cases k) (simp_all add: classify_def)
  qed (simp_all add: classify_def)
  with assms show ?thesis by (auto simp: answered_def split: sum.splits)
qed

text \<open>A report of an execution that carries a new snapshot: what was committed.\<close>

lemma settle_rejected_lands_not:
  assumes "settle_rejected X rd True rethrow st out e = (Inr res, st')" and "sr_snapshot out = None"
  shows "sr_snapshot res = None"
proof -
  have plain: "sr_snapshot o' = None" if "settle_failure X rd st out reason Transient = (Inr o', st'')" for reason o' st''
    using that by (rule settle_failure_Inr) (use assms(2) in \<open>auto dest: fail_scoped_transient\<close>)
  show ?thesis
    using assms(1) unfolding settle_rejected_def
    by (cases e) (auto elim!: settle_then_cases dest: plain split: if_splits)
qed

lemma execute_landed:
  assumes "execute_attempt X guard rd be st t execution timeout pguard True rethrow = (Inr res, st')"
    and "sr_snapshot res = Some sn"
  obtains row r q tr db fs where "transition_ok X st row r q tr db" and "failures_ok st row fs"
    and "st' = committed_store X st tr db fs" and "at_id row = att_id t" and "sn_head sn = co_id (transition_row X tr)"
    and "sr_status res = ''committed'' \<and> fst (answered X rd True be t timeout) = Participates (tr_proposal tr) \<and>
         respond X be t timeout = Inr (Participates (tr_proposal tr)) \<and>
         (\<forall>g. pguard = Some g \<longrightarrow> g (tr_proposal tr) = None) \<or>
       sr_status res = ''disposed'' \<and> p_memory (tr_proposal tr) = [] \<and> p_notes (tr_proposal tr) = []"
  using assms(1)
proof (cases rule: execute_cases)
  case (failed out reason scope r0)
  then obtain o' c where o': "r0 = Inr o'" "res = o'\<lparr>sr_exception := c\<rparr>" by auto
  from failed(3) [unfolded o'] show thesis
  proof (cases rule: settle_failure_Inr)
    case (failed now)
    with o' assms(2) \<open>fresh_report t out\<close> show thesis by (simp add: fresh_report_def)
  next
    case (disposed now s)
    have id: "sr_attempt out = att_id t" using failed(1) by (simp add: fresh_report_def)
    have res: "sr_status res = ''disposed''" "s = sn" using o' disposed(2) assms(2) by simp_all
    from disposed(1) show thesis
    proof (rule fail_scoped_Inr)
      fix row r p sn' cap
      assume row: "find_attempt st (sr_attempt out) = Some row" and "Some s = Some sn'"
        and fok: "failures_ok st row [failure_for row (take 1024 reason)]"
        and c: "commit_locked X None (with_failure st row (take 1024 reason)) (sr_attempt out) p now None JNull
          (Some \<lparr>di_limit = cap, di_failures =
            disposition_failures (with_failure st row (take 1024 reason)) (ad_occasion (at_body row)) (sr_attempt out) cap\<rparr>)
          = Inr (sn', st')"
        and p: "p_kind p = ''null'' \<and> p_text p = [] \<and> p_memory p = [] \<and> p_notes p = []"
      then have sn': "sn' = sn" using res by simp
      from c row show thesis
      proof (rule commit_with_failure)
        fix r q tr db
        assume tr: "transition_ok X st row r q tr db" and st': "st' = committed_store X st tr db [failure_for row (take 1024 reason)]"
          and pr: "tr_proposal tr = p"
          and s: "sn' = \<lparr>sn_subject = su_id r, sn_tick = tr_tick tr, sn_head = co_id (transition_row X tr),
           sn_memory = tr_memory tr, sn_wake_at = tr_wake_at tr,
           sn_lifecycle = (if tr_wake_at tr \<noteq> None then ''sleeping'' else ''waiting_external'')\<rparr>"
        have "at_id row = att_id t" using find_attempt_Some [OF row] id by simp
        moreover have "sn_head sn = co_id (transition_row X tr)" unfolding sn' [symmetric] s by simp
        ultimately show thesis using tr fok st' p pr res(1) by (intro that) auto
      qed
    qed simp_all
  qed
next
  case (rejected out e)
  from rejected(1) have "sr_snapshot out = None" by (simp only: fresh_report_def)
  from settle_rejected_lands_not [OF rejected(3) this] assms(2) show thesis by simp
next
  case (accepted out v o')
  from accepted(4) show thesis
  proof (cases rule: settle_outcome_Inr)
    case (abstained a provider i)
    with accepted(1,5) assms(2) show thesis by (simp add: fresh_report_def)
  next
    case (committed p now emission s)
    have g: "\<forall>g. pguard = Some g \<longrightarrow> g p = None" using accepted(6) committed(1) by simp
    have told: "respond X be t timeout = Inr (Participates p)"
      using answered_silent [OF accepted(2)] accepted(3) committed(1) by simp
    have "sr_abstention o' = None" "sr_snapshot o' = Some s" using committed(3) accepted(1) by (simp_all add: fresh_report_def)
    with accepted(5) have res: "res = after_commit rd True be t o'" by simp
    then have "sr_status res = ''committed''" "sr_snapshot res = Some s"
      using \<open>sr_snapshot o' = Some s\<close> by (simp_all add: after_commit_def Let_def split: sum.splits error.splits)
    moreover from commit_plain [OF committed(2)]
    have "commit_locked X guard st (att_id t) p now (Some (rd_duration rd)) emission None = Inr (s, st')" by simp
    then show thesis
    proof (rule commit_locked_Inr)
      fix row r q tr db
      assume tr: "transition_ok X st row r q tr db" "at_id row = att_id t" "st' = committed_store X st tr db []" "tr_proposal tr = p"
        and s: "s = \<lparr>sn_subject = su_id r, sn_tick = tr_tick tr, sn_head = co_id (transition_row X tr),
           sn_memory = tr_memory tr, sn_wake_at = tr_wake_at tr,
           sn_lifecycle = (if tr_wake_at tr \<noteq> None then ''sleeping'' else ''waiting_external'')\<rparr>"
      have "sn_head sn = co_id (transition_row X tr)" using \<open>sr_snapshot res = Some s\<close> assms(2) s by simp
      with tr show thesis using \<open>sr_status res = ''committed''\<close> accepted(3) committed(1) g told by (intro that) (auto simp: failures_ok_def)
    qed
  qed
qed simp


text \<open>
  An outage costs nothing: when the executor throws anything but an invalid-output
  failure (or the timeout leaves no time to ask it), the execution changes no subject,
  occasion, commit, memory or counted failure, however it ends.
\<close>

lemma outage_preserves:
  assumes "execute_attempt X guard rd be st t execution timeout None True rethrow = (r, st')"
    and "respond X be t timeout = Inl e" and "\<forall>m. e \<noteq> BackendFailure Invalid_Output m"
  shows "st_subjects st' = st_subjects st \<and> st_occasions st' = st_occasions st \<and> st_commits st' = st_commits st \<and>
    st_memory st' = st_memory st \<and> st_failures st' = st_failures st"
  using execute_transient [OF assms(1,2)] assms(3) by (simp add: kept_def)

text \<open>
  A step of the runtime, redacted or not, is a history of store operations however it
  ends, provided other connections only use the store's operations while the executor runs;
  and when it returns a report, the attempt it admitted is settled.
\<close>

lemma runtime_settles:
  assumes "reachable X st" and "\<And>u. later X u (during u)"
    and "run_step X sqlite_ok guard rd during nonce be st rn subject now context timeout redact = (r, rn', st')"
  shows "reachable X st' \<and> later X st st' \<and> (\<forall>res. r = Inr (Some res) \<longrightarrow>
    (\<exists>t u a. admit X st subject (be_name be) now (be_policy be) (Some (be_fits be)) JNull context nonce = Inr (Some t, u) \<and>
       find_attempt st' (att_id t) = Some a \<and> at_status a \<noteq> Reserved))"
  using run_step_effect [OF assms(3,2)] reachable_later [OF assms(1)] by (fastforce simp: settled_in_def)

text \<open>
  With unredacted diagnostics, which is how \<open>Runtime::step\<close> executes, an executor that
  throws a standard exception whose text is empty is taken for one that answered with the
  default proposal: the recorded failure is recognised by its text alone, so the outage is
  committed as a null transition.
\<close>

lemma unnamed_failure_answers:
  assumes "be_respond be t timeout = Inl (StdException [])" and "0 < timeout"
  shows "execute_attempt X guard rd be st t execution timeout pguard False rethrow =
    execute_attempt X guard rd (be\<lparr>be_respond := \<lambda>_ _. Inr (Participates default_proposal)\<rparr>) st t execution timeout pguard False rethrow"
proof -
  let ?be = "be\<lparr>be_respond := \<lambda>_ _. Inr (Participates default_proposal)\<rparr>"
  have "answered X rd False be t timeout = (Participates default_proposal, [], Transient, Some (StdException []))"
    using assms by (simp add: answered_def respond_def classify_def error_what_def)
  moreover have "answered X rd False ?be t timeout = (Participates default_proposal, [], Transient, None)"
    using assms(2) by (simp add: answered_def respond_def default_answer)
  moreover have "settle_outcome X guard rd ?be st t execution v out = settle_outcome X guard rd be st t execution v out" for v out
  proof -
    have "be_telemetry ?be = be_telemetry be" by simp
    then show ?thesis unfolding settle_outcome_def by (simp only:)
  qed
  moreover have "after_commit rd False ?be t out = after_commit rd False be t out" for out
  proof -
    have "be_committed ?be = be_committed be" by simp
    then show ?thesis unfolding after_commit_def by (simp only:)
  qed
  ultimately show ?thesis by (simp only: execute_attempt_def Let_def prod.case simp_thms if_False)
qed

end
