(* ===== verification/Cogg_Routing.thy ===== *)
theory Cogg_Routing
  imports Cogg_Runtime
begin

text \<open>
  The executor registry and the routed runtime: \<open>Registry\<close> and \<open>RoutedRuntime\<close> of
  \<^verbatim>\<open>src/routing.cpp\<close> and \<^verbatim>\<open>routing.hpp\<close>. One turn of the
  route loop reads the clock, the cancellation flag, the factory and the random source, and
  other connections may change the store before the head check, before the admission and
  while the executor runs: all of that is the record \<open>turn\<close>.
\<close>

section \<open>The registry\<close>

record entry =
  en_caps :: capabilities
  en_enabled :: bool

record session =
  ss_backend :: backend
  ss_execution :: json

record registry =
  rg_entries :: "(string \<times> entry) list"
  rg_sessions :: "((string \<times> string) \<times> session) list"
  rg_max_sessions :: nat

definition new_registry :: "nat \<Rightarrow> registry res" where
  "new_registry mx = require (mx > 0 \<and> mx \<le> 1024) ''invalid session limit''
     (Inr \<lparr>rg_entries = [], rg_sessions = [], rg_max_sessions = mx\<rparr>)"

definition executor_char :: "char \<Rightarrow> bool" where
  "executor_char c \<longleftrightarrow> (CHR ''a'' \<le> c \<and> c \<le> CHR ''z'') \<or> (CHR ''A'' \<le> c \<and> c \<le> CHR ''Z'') \<or>
     (CHR ''0'' \<le> c \<and> c \<le> CHR ''9'') \<or> c = CHR ''-'' \<or> c = CHR ''_'' \<or> c = CHR ''.''"

definition executor_id_ok :: "string \<Rightarrow> bool" where
  "executor_id_ok i \<longleftrightarrow> i \<noteq> [] \<and> length i \<le> 64 \<and> list_all executor_char i"

text \<open>\<open>callable\<close> is whether the given factory holds a function.\<close>

definition registry_add :: "registry \<Rightarrow> string \<Rightarrow> capabilities \<Rightarrow> bool \<Rightarrow> registry res" where
  "registry_add rg i caps callable =
     require (executor_id_ok i) ''invalid executor id'' (
     require (callable \<and> length (rg_entries rg) < 128 \<and> i \<notin> fst ` set (rg_entries rg))
       ''duplicate or invalid executor'' (
     Inr (rg\<lparr>rg_entries := rg_entries rg @ [(i, \<lparr>en_caps = caps, en_enabled = True\<rparr>)]\<rparr>)))"

definition registry_enable :: "registry \<Rightarrow> string \<Rightarrow> bool \<Rightarrow> registry res" where
  "registry_enable rg i enabled =
     require (i \<in> fst ` set (rg_entries rg)) ''unknown executor''
       (Inr (rg\<lparr>rg_entries := map (\<lambda>(k, e). (k, if k = i then e\<lparr>en_enabled := enabled\<rparr> else e)) (rg_entries rg)\<rparr>))"

definition registry_evict :: "registry \<Rightarrow> string \<Rightarrow> string \<Rightarrow> registry" where
  "registry_evict rg subject i = rg\<lparr>rg_sessions := filter (\<lambda>(k, _). k \<noteq> (subject, i)) (rg_sessions rg)\<rparr>"

definition registry_describe :: "registry \<Rightarrow> json" where
  "registry_describe rg = mk_obj (map (\<lambda>(i, e). (i, mk_obj [(''enabled'', JBool (en_enabled e)),
     (''capabilities'', capabilities_json (en_caps e))])) (rg_entries rg))"

definition execution_json :: "string \<Rightarrow> entry \<Rightarrow> backend \<Rightarrow> string \<Rightarrow> json" where
  "execution_json i e b sid = mk_obj [(''schema'', JStr ''cogg:execution/v1''), (''executor'', JStr i),
     (''backend'', JStr (be_name b)), (''session'', JStr sid), (''capabilities'', capabilities_json (en_caps e))]"

text \<open>\<open>made\<close> is what the entry's factory returns when it is called, \<open>sid\<close> the session ID drawn
  from the random source.\<close>

definition open_session ::
    "registry \<Rightarrow> string \<Rightarrow> string \<Rightarrow> backend option res \<Rightarrow> string res \<Rightarrow> (session \<times> registry) res" where
  "open_session rg subject i made sid =
     (case map_of (rg_sessions rg) (subject, i) of
        Some s \<Rightarrow> Inr (s, rg)
      | None \<Rightarrow>
          require (length (rg_sessions rg) < rg_max_sessions rg) ''executor session limit; evict an idle session'' (
          case map_of (rg_entries rg) i of None \<Rightarrow> Inl (StdException ''map::at'')
          | Some e \<Rightarrow>
          bindR made (\<lambda>b.
          case b of None \<Rightarrow> Inl (Error ''executor factory returned no backend'')
          | Some b \<Rightarrow>
          bindR sid (\<lambda>sid.
          let s = \<lparr>ss_backend = b, ss_execution = execution_json i e b sid\<rparr> in
          bindR (validate_execution (ss_execution s)) (\<lambda>_.
          Inr (s, rg\<lparr>rg_sessions := rg_sessions rg @ [((subject, i), s)]\<rparr>))))))"

section \<open>Routes\<close>

record route =
  rt_executors :: "string list"
  rt_allow_remote :: bool
  rt_require_exact_tokens :: bool
  rt_require_checkpoint :: bool
  rt_require_cancellation :: bool
  rt_timeout_ms :: millis
  rt_attempt_timeout_ms :: millis
  rt_context :: json

record route_note =
  no_executor :: string
  no_attempt :: "string option"
  no_status :: string
  no_receipt :: "string option"
  no_outcome :: "json option"

record route_result =
  rr_snapshot :: "snapshot option"
  rr_status :: string
  rr_attempts :: "route_note list"
  rr_maintenance :: string

definition finished :: "string \<Rightarrow> route_note list \<Rightarrow> route_result" where
  "finished status notes = \<lparr>rr_snapshot = None, rr_status = status, rr_attempts = notes, rr_maintenance = []\<rparr>"

definition plain_note :: "string \<Rightarrow> string option \<Rightarrow> string \<Rightarrow> route_note" where
  "plain_note i a status = \<lparr>no_executor = i, no_attempt = a, no_status = status, no_receipt = None, no_outcome = None\<rparr>"

record turn =
  tu_cancelled :: bool
  tu_elapsed :: millis
  tu_made :: "backend option res"
  tu_session :: "string res"
  tu_ready_cancelled :: bool
  tu_ready_elapsed :: millis
  tu_before :: "store \<Rightarrow> store"
  tu_between :: "store \<Rightarrow> store"
  tu_admit_wall :: "millis res"
  tu_nonce :: string
  tu_start :: millis
  tu_execute_wall :: "millis res"
  tu_during :: "store \<Rightarrow> store"
  tu_readings :: readings
  tu_after_elapsed :: millis

definition skip_reason :: "route \<Rightarrow> entry \<Rightarrow> string option" where
  "skip_reason rt e = (let c = en_caps e in
     if \<not> en_enabled e then Some ''disabled''
     else if cap_remote c \<and> \<not> rt_allow_remote rt then Some ''remote_denied''
     else if (rt_require_exact_tokens rt \<and> \<not> cap_exact_tokens c) \<or> (rt_require_checkpoint rt \<and> \<not> cap_checkpoint c) \<or>
             (rt_require_cancellation rt \<and> \<not> cap_cancellation c) then Some ''capability_missing''
     else None)"

datatype verdict = Stop route_result | Go "route_note list"

type_synonym 'a routed = "'a res \<times> registry \<times> store"

text \<open>What the loop makes of the report of an execution.\<close>

definition route_report :: "route \<Rightarrow> turn \<Rightarrow> string \<Rightarrow> string \<Rightarrow> step_result \<Rightarrow> route_note list \<Rightarrow> verdict" where
  "route_report rt tu i a o' notes =
     (if sr_status o' = ''committed''
      then Stop ((finished ''committed'' (notes @ [plain_note i (Some a) ''committed'']))
        \<lparr>rr_snapshot := sr_snapshot o', rr_maintenance := sr_maintenance o'\<rparr>)
      else if sr_status o' = ''abstained''
      then Stop (finished ''abstained'' (notes @ [(plain_note i (Some a) ''abstained'')
        \<lparr>no_receipt := Some (sr_receipt o'), no_outcome := Some (sr_outcome o')\<rparr>]))
      else
        let notes' = notes @ [plain_note i (Some a) (sr_error o')] in
        if sr_status o' = ''disposed'' then Stop ((finished ''disposed'' notes')\<lparr>rr_snapshot := sr_snapshot o'\<rparr>)
        else if sr_status o' = ''conflict'' \<or> sr_status o' = ''cancelled'' then Stop (finished (sr_status o') notes')
        else if sr_status o' = ''timeout'' \<and> tu_after_elapsed tu \<ge> rt_timeout_ms rt then Stop (finished ''timeout'' notes')
        else Go notes')"

definition route_execute ::
    "ext \<Rightarrow> guard \<Rightarrow> route \<Rightarrow> turn \<Rightarrow> string \<Rightarrow> session \<Rightarrow> attempt \<Rightarrow> registry \<Rightarrow> store \<Rightarrow> route_note list \<Rightarrow> verdict routed" where
  "route_execute X guard rt tu i s t rg st notes =
     (case tu_execute_wall tu of Inl e \<Rightarrow> (Inl e, rg, st)
      | Inr _ \<Rightarrow>
        (case execute_attempt X guard (tu_readings tu) (ss_backend s) (tu_during tu st) t (ss_execution s)
            (min (rt_attempt_timeout_ms rt) (rt_timeout_ms rt - tu_start tu)) None True True of
           (Inl e, st') \<Rightarrow> (Inl e, rg, st')
         | (Inr o', st') \<Rightarrow> (Inr (route_report rt tu i (att_id t) o' notes), rg, st')))"

definition route_admit ::
    "ext \<Rightarrow> guard \<Rightarrow> string \<Rightarrow> string \<Rightarrow> route \<Rightarrow> turn \<Rightarrow> string \<Rightarrow> session \<Rightarrow> registry \<Rightarrow> store \<Rightarrow> route_note list \<Rightarrow>
     verdict routed" where
  "route_admit X guard subject original rt tu i s rg st notes =
     (let b = ss_backend s in
      case bindR (tu_admit_wall tu) (\<lambda>now. admit X st subject (be_name b) now (be_policy b) (Some (be_fits b))
             (ss_execution s) (rt_context rt) (tu_nonce tu)) of
        Inl (Conflict m) \<Rightarrow> (Inr (Stop (finished ''conflict'' notes)), rg, st)
      | Inl (ContextOverflow m) \<Rightarrow> (Inr (Go (notes @ [plain_note i None ''context_overflow''])), rg, st)
      | Inl e \<Rightarrow> (Inl e, rg, st)
      | Inr (None, st') \<Rightarrow> (Inr (Stop (finished ''waiting'' notes)), rg, st')
      | Inr (Some t, st') \<Rightarrow>
          if sn_head (pr_state (att_present t)) \<noteq> original
          then (Inr (Stop (finished ''conflict'' notes)), rg, fail st' (att_id t) ''route head changed'')
          else route_execute X guard rt tu i s t rg st' notes)"

definition route_ready ::
    "ext \<Rightarrow> guard \<Rightarrow> string \<Rightarrow> string \<Rightarrow> route \<Rightarrow> turn \<Rightarrow> string \<Rightarrow> session \<Rightarrow> registry \<Rightarrow> store \<Rightarrow> route_note list \<Rightarrow>
     verdict routed" where
  "route_ready X guard subject original rt tu i s rg st0 notes =
     (let st = tu_before tu st0 in
      if tu_ready_cancelled tu then (Inr (Stop (finished ''cancelled'' notes)), rg, st)
      else if tu_ready_elapsed tu \<ge> rt_timeout_ms rt then (Inr (Stop (finished ''timeout'' notes)), rg, st)
      else case snapshot st subject of Inl e \<Rightarrow> (Inl e, rg, st)
      | Inr sn \<Rightarrow>
          if sn_head sn \<noteq> original then (Inr (Stop (finished ''conflict'' notes)), rg, st)
          else route_admit X guard subject original rt tu i s rg (tu_between tu st) notes)"

definition route_turn ::
    "ext \<Rightarrow> guard \<Rightarrow> string \<Rightarrow> string \<Rightarrow> route \<Rightarrow> turn \<Rightarrow> string \<Rightarrow> registry \<Rightarrow> store \<Rightarrow> route_note list \<Rightarrow> verdict routed" where
  "route_turn X guard subject original rt tu i rg st notes =
     (if tu_cancelled tu then (Inr (Stop (finished ''cancelled'' notes)), rg, st)
      else if tu_elapsed tu \<ge> rt_timeout_ms rt then (Inr (Stop (finished ''timeout'' notes)), rg, st)
      else case map_of (rg_entries rg) i of None \<Rightarrow> (Inl (StdException ''map::at''), rg, st)
      | Some e \<Rightarrow>
        (case skip_reason rt e of Some why \<Rightarrow> (Inr (Go (notes @ [plain_note i None why])), rg, st)
         | None \<Rightarrow>
           (case open_session rg subject i (tu_made tu) (tu_session tu) of
              Inl UnknownException \<Rightarrow> (Inl UnknownException, rg, st)
            | Inl _ \<Rightarrow> (Inr (Go (notes @ [plain_note i None ''executor_unavailable''])), rg, st)
            | Inr (s, rg') \<Rightarrow> route_ready X guard subject original rt tu i s rg' st notes)))"

fun route_loop ::
    "ext \<Rightarrow> guard \<Rightarrow> string \<Rightarrow> string \<Rightarrow> route \<Rightarrow> (nat \<Rightarrow> turn) \<Rightarrow> millis \<Rightarrow> nat \<Rightarrow> string list \<Rightarrow> registry \<Rightarrow> store \<Rightarrow>
     route_note list \<Rightarrow> route_result routed" where
  "route_loop X guard subject original rt turns at_end k [] rg st notes =
     (Inr (finished (if at_end \<ge> rt_timeout_ms rt then ''timeout'' else ''exhausted'') notes), rg, st)"
| "route_loop X guard subject original rt turns at_end k (i # is) rg st notes =
     (case route_turn X guard subject original rt (turns k) i rg st notes of
        (Inl e, rg', st') \<Rightarrow> (Inl e, rg', st')
      | (Inr (Stop r), rg', st') \<Rightarrow> (Inr r, rg', st')
      | (Inr (Go notes'), rg', st') \<Rightarrow>
          route_loop X guard subject original rt turns at_end (Suc k) is rg' st' notes')"

definition route_limits_ok :: "route \<Rightarrow> millis \<Rightarrow> bool" where
  "route_limits_ok rt now \<longleftrightarrow> now \<ge> 0 \<and> now \<le> max_millis - 3600000 \<and> rt_timeout_ms rt > 0 \<and>
     rt_timeout_ms rt \<le> 3600000 \<and> rt_attempt_timeout_ms rt > 0 \<and> rt_attempt_timeout_ms rt \<le> rt_timeout_ms rt \<and>
     rt_executors rt \<noteq> [] \<and> length (rt_executors rt) \<le> 8"

text \<open>\<open>verified\<close> are the subjects this runtime has verified; it is returned extended.\<close>

definition route_step ::
    "ext \<Rightarrow> bool \<Rightarrow> guard \<Rightarrow> string \<Rightarrow> route \<Rightarrow> millis \<Rightarrow> (nat \<Rightarrow> turn) \<Rightarrow> millis \<Rightarrow> string list \<Rightarrow> registry \<Rightarrow> store \<Rightarrow>
     route_result res \<times> string list \<times> registry \<times> store" where
  "route_step X sqlite_ok guard subject rt now turns at_end verified rg st =
     (case require (route_limits_ok rt now) ''invalid route limits'' (
           bindR (validate_admission_context X (rt_context rt)) (\<lambda>_.
           require (set (rt_executors rt) \<subseteq> fst ` set (rg_entries rg) \<and> distinct (rt_executors rt))
             ''unknown or duplicate route executor'' (
           if subject \<in> set verified then Inr () else verify X sqlite_ok st subject))) of
        Inl e \<Rightarrow> (Inl e, verified, rg, st)
      | Inr _ \<Rightarrow>
        let verified' = List.insert subject verified in
        (case snapshot st subject of Inl e \<Rightarrow> (Inl e, verified', rg, st)
         | Inr s \<Rightarrow>
            let (r, rg', st') = route_loop X guard subject (sn_head s) rt turns at_end 0 (rt_executors rt) rg st []
            in (r, verified', rg', st')))"

section \<open>What one turn does\<close>

text \<open>The notes of a turn.\<close>

definition note_ok :: "route \<Rightarrow> registry \<Rightarrow> string \<Rightarrow> route_note \<Rightarrow> bool" where
  "note_ok rt rg i n \<longleftrightarrow> no_executor n = i \<and> (\<exists>e. map_of (rg_entries rg) i = Some e \<and>
     (\<forall>why. skip_reason rt e = Some why \<longrightarrow> n = plain_note i None why))"

fun verdict_notes :: "verdict \<Rightarrow> route_note list" where
  "verdict_notes (Stop r) = rr_attempts r"
| "verdict_notes (Go ns) = ns"

lemma finished_simps [simp]:
  "rr_snapshot (finished status notes) = None" "rr_status (finished status notes) = status"
  "rr_attempts (finished status notes) = notes" "rr_maintenance (finished status notes) = []"
  by (simp_all add: finished_def)

lemma plain_note_simps [simp]: "no_executor (plain_note i a why) = i" "no_attempt (plain_note i a why) = a"
  by (simp_all add: plain_note_def)

lemma route_report_notes:
  "\<exists>n. verdict_notes (route_report rt tu i a o' notes) = notes @ [n] \<and> no_executor n = i"
  by (simp add: route_report_def Let_def)

definition noted :: "string \<Rightarrow> route_note list \<Rightarrow> verdict \<Rightarrow> bool" where
  "noted i notes v \<longleftrightarrow> (\<exists>n. verdict_notes v = notes @ [n] \<and> no_executor n = i) \<or> (\<exists>r. v = Stop r \<and> rr_attempts r = notes)"

lemma noted_simps [simp]:
  "noted i notes (Stop (finished status notes))" "noted i notes (Go (notes @ [plain_note i a why]))"
  by (simp_all add: noted_def)

lemma noted_report [simp]: "noted i notes (route_report rt tu i a o' notes)"
  by (simp add: noted_def route_report_notes)

lemma route_execute_keeps:
  "route_execute X guard rt tu i s t rg st notes = (r, rg', st') \<Longrightarrow> rg' = rg \<and> (\<forall>v. r = Inr v \<longrightarrow> noted i notes v)"
  by (auto simp: route_execute_def split: sum.splits prod.splits)

lemma route_admit_keeps:
  "route_admit X guard subject original rt tu i s rg st notes = (r, rg', st') \<Longrightarrow> rg' = rg \<and> (\<forall>v. r = Inr v \<longrightarrow> noted i notes v)"
  by (auto simp: route_admit_def Let_def split: sum.splits prod.splits error.splits option.splits if_splits
      dest: route_execute_keeps)

lemma route_ready_keeps:
  "route_ready X guard subject original rt tu i s rg st notes = (r, rg', st') \<Longrightarrow> rg' = rg \<and> (\<forall>v. r = Inr v \<longrightarrow> noted i notes v)"
  by (auto simp: route_ready_def Let_def split: sum.splits if_splits dest: route_admit_keeps)

lemma route_turn_cases:
  assumes "route_turn X guard subject original rt tu i rg st notes = (r, rg', st')"
  obtains (stopped) status where "r = Inr (Stop (finished status notes))" and "status \<in> {''cancelled'', ''timeout''}" and "rg' = rg" and "st' = st"
  | (threw) e where "r = Inl e" and "rg' = rg" and "st' = st"
  | (skipped) e why where "map_of (rg_entries rg) i = Some e" and "skip_reason rt e = Some why"
      and "r = Inr (Go (notes @ [plain_note i None why]))" and "rg' = rg" and "st' = st"
  | (unavailable) e where "map_of (rg_entries rg) i = Some e" and "skip_reason rt e = None"
      and "r = Inr (Go (notes @ [plain_note i None ''executor_unavailable'']))" and "rg' = rg" and "st' = st"
  | (opened) e s where "map_of (rg_entries rg) i = Some e" and "skip_reason rt e = None"
      and "open_session rg subject i (tu_made tu) (tu_session tu) = Inr (s, rg')"
      and "route_ready X guard subject original rt tu i s rg' st notes = (r, rg', st')"
proof -
  note unf = assms [unfolded route_turn_def]
  show thesis
  proof (cases "tu_cancelled tu \<or> tu_elapsed tu \<ge> rt_timeout_ms rt")
    case True
    with unf show thesis using stopped [of "if tu_cancelled tu then ''cancelled'' else ''timeout''"] by (auto split: if_splits)
  next
    case False
    then have go: "\<not> tu_cancelled tu" "\<not> tu_elapsed tu \<ge> rt_timeout_ms rt" by simp_all
    show thesis
    proof (cases "map_of (rg_entries rg) i")
      case None
      with unf go have "r = Inl (StdException ''map::at'')" "rg' = rg" "st' = st" by simp_all
      then show thesis by (rule threw)
    next
      case e: (Some e)
      show thesis
      proof (cases "skip_reason rt e")
        case (Some why)
        with unf go e have "r = Inr (Go (notes @ [plain_note i None why]))" "rg' = rg" "st' = st" by simp_all
        with e Some show thesis by (rule skipped)
      next
        case None
        show thesis
        proof (cases "open_session rg subject i (tu_made tu) (tu_session tu)")
          case (Inl x)
          show thesis
          proof (cases "x = UnknownException")
            case True
            with unf go e None Inl have "r = Inl UnknownException" "rg' = rg" "st' = st" by simp_all
            then show thesis by (rule threw)
          next
            case False
            with unf go e None Inl have "r = Inr (Go (notes @ [plain_note i None ''executor_unavailable'']))" "rg' = rg" "st' = st"
              by (cases x; simp)+
            with e None show thesis by (rule unavailable)
          qed
        next
          case (Inr sr)
          obtain s rg1 where sr: "sr = (s, rg1)" by (cases sr)
          with unf go e None Inr have ready: "route_ready X guard subject original rt tu i s rg1 st notes = (r, rg', st')" by simp
          then have "rg' = rg1" using route_ready_keeps by blast
          with opened [OF e None] Inr sr ready show thesis by simp
        qed
      qed
    qed
  qed
qed

section \<open>The policy of a route\<close>

definition permitted :: "route \<Rightarrow> registry \<Rightarrow> string \<Rightarrow> bool" where
  "permitted rt rg i \<longleftrightarrow> (\<exists>e. map_of (rg_entries rg) i = Some e \<and> skip_reason rt e = None)"

definition sessions_opened :: "route \<Rightarrow> string \<Rightarrow> registry \<Rightarrow> registry \<Rightarrow> string set \<Rightarrow> bool" where
  "sessions_opened rt subject rg rg' is \<longleftrightarrow> rg_entries rg' = rg_entries rg \<and>
     (\<forall>x \<in> set (rg_sessions rg') - set (rg_sessions rg). fst (fst x) = subject \<and> snd (fst x) \<in> is \<and> permitted rt rg (snd (fst x)))"

lemma sessions_opened_refl [simp]: "sessions_opened rt subject rg rg is"
  by (simp add: sessions_opened_def)

lemma sessions_opened_trans:
  "sessions_opened rt subject a b is \<Longrightarrow> sessions_opened rt subject b c js \<Longrightarrow> sessions_opened rt subject a c (is \<union> js)"
  by (simp add: sessions_opened_def permitted_def) blast

lemma open_session_sessions:
  assumes "open_session rg subject i made sid = Inr (s, rg')"
  shows "rg_entries rg' = rg_entries rg \<and> rg_max_sessions rg' = rg_max_sessions rg \<and>
    (rg' = rg \<and> map_of (rg_sessions rg) (subject, i) = Some s \<or>
     map_of (rg_sessions rg) (subject, i) = None \<and> length (rg_sessions rg) < rg_max_sessions rg \<and>
     validate_execution (ss_execution s) = Inr () \<and> rg_sessions rg' = rg_sessions rg @ [((subject, i), s)])"
proof (cases "map_of (rg_sessions rg) (subject, i)")
  case (Some s0)
  with assms show ?thesis by (simp add: open_session_def)
next
  case None
  note unf = assms [unfolded open_session_def None option.case require_Inr]
  then have room: "length (rg_sessions rg) < rg_max_sessions rg" by (rule conjunct1)
  obtain e where e: "map_of (rg_entries rg) i = Some e" using unf by (cases "map_of (rg_entries rg) i") simp_all
  note unf = conjunct2 [OF unf, unfolded e option.case bindR_Inr Let_def]
  then obtain b0 where "(case b0 of None \<Rightarrow> Inl (Error ''executor factory returned no backend'')
      | Some b \<Rightarrow> bindR sid (\<lambda>sid. bindR (validate_execution (ss_execution \<lparr>ss_backend = b, ss_execution = execution_json i e b sid\<rparr>))
         (\<lambda>_. Inr (\<lparr>ss_backend = b, ss_execution = execution_json i e b sid\<rparr>,
            rg\<lparr>rg_sessions := rg_sessions rg @ [((subject, i), \<lparr>ss_backend = b, ss_execution = execution_json i e b sid\<rparr>)]\<rparr>)))) = Inr (s, rg')"
    by blast
  then obtain b x u where v: "validate_execution (ss_execution \<lparr>ss_backend = b, ss_execution = execution_json i e b x\<rparr>) = Inr u"
    and s: "s = \<lparr>ss_backend = b, ss_execution = execution_json i e b x\<rparr>"
    and rg': "rg' = rg\<lparr>rg_sessions := rg_sessions rg @ [((subject, i), s)]\<rparr>"
    by (cases b0) (auto simp: bindR_Inr)
  from v s have "validate_execution (ss_execution s) = Inr ()" by simp
  with None room rg' show ?thesis by simp
qed

lemma route_turn_policy:
  assumes "route_turn X guard subject original rt tu i rg st notes = (r, rg', st')"
  shows "sessions_opened rt subject rg rg' {i} \<and>
    (\<forall>v. r = Inr v \<longrightarrow> (\<exists>n. verdict_notes v = notes @ [n] \<and> note_ok rt rg i n) \<or> (\<exists>res. v = Stop res \<and> rr_attempts res = notes))"
  using assms
proof (cases rule: route_turn_cases)
  case (skipped e why)
  then show ?thesis by (simp add: note_ok_def)
next
  case (unavailable e)
  then show ?thesis by (simp add: note_ok_def)
next
  case (opened e s)
  have "sessions_opened rt subject rg rg' {i}"
    using open_session_sessions [OF opened(3)] opened(1,2) by (auto simp: sessions_opened_def permitted_def)
  moreover have "(\<exists>n. verdict_notes v = notes @ [n] \<and> note_ok rt rg i n) \<or> (\<exists>res. v = Stop res \<and> rr_attempts res = notes)"
    if "r = Inr v" for v
    using route_ready_keeps [OF opened(4)] that opened(1,2) by (auto simp: noted_def note_ok_def)
  ultimately show ?thesis by blast
qed simp_all

lemma note_ok_entries: "rg_entries rg' = rg_entries rg \<Longrightarrow> note_ok rt rg' = note_ok rt rg"
  by (simp add: note_ok_def fun_eq_iff)

lemma route_loop_policy:
  assumes "route_loop X guard subject original rt turns at_end k is rg st notes = (r, rg', st')"
  shows "sessions_opened rt subject rg rg' (set is) \<and>
    (\<forall>res. r = Inr res \<longrightarrow> (\<exists>ns. rr_attempts res = notes @ ns \<and> list_all2 (note_ok rt rg) (take (length ns) is) ns))"
  using assms
proof (induction X guard subject original rt turns at_end k "is" rg st "notes" rule: route_loop.induct)
  case (2 X guard subject original rt turns at_end k i "is" rg st "notes")
  obtain r1 rg1 st1 where t: "route_turn X guard subject original rt (turns k) i rg st notes = (r1, rg1, st1)"
    by (metis prod_cases3)
  note pol = route_turn_policy [OF t]
  have stop: "\<exists>ns. rr_attempts res = notes @ ns \<and> list_all2 (note_ok rt rg) (take (length ns) (i # is)) ns"
    if v: "r1 = Inr (Stop res)" for res
  proof -
    from pol v have "(\<exists>n. rr_attempts res = notes @ [n] \<and> note_ok rt rg i n) \<or> rr_attempts res = notes" by auto
    then show ?thesis
    proof
      assume "\<exists>n. rr_attempts res = notes @ [n] \<and> note_ok rt rg i n"
      then obtain n where "rr_attempts res = notes @ [n]" "note_ok rt rg i n" by blast
      then show ?thesis by (intro exI [of _ "[n]"]) simp
    qed (auto intro: exI [of _ "[]"])
  qed
  have mono: "sessions_opened rt subject rg rg1 (set (i # is))" using pol by (auto simp: sessions_opened_def)
  show ?case
  proof (cases r1)
    case (Inl e)
    with 2(2) t mono show ?thesis by auto
  next
    case (Inr v)
    show ?thesis
    proof (cases v)
      case (Stop res)
      with 2(2) t mono stop Inr show ?thesis by auto
    next
      case (Go ns)
      from pol Inr Go obtain n where n: "ns = notes @ [n]" "note_ok rt rg i n" by auto
      from 2(2) t Inr Go have loop: "route_loop X guard subject original rt turns at_end (Suc k) is rg1 st1 ns = (r, rg', st')" by simp
      have "sessions_opened rt subject rg1 rg' (set is) \<and>
        (\<forall>res. r = Inr res \<longrightarrow> (\<exists>ms. rr_attempts res = ns @ ms \<and> list_all2 (note_ok rt rg1) (take (length ms) is) ms))"
        by (rule 2(1) [OF t [symmetric] Inr Go refl loop])
      moreover from pol have "rg_entries rg1 = rg_entries rg" by (simp add: sessions_opened_def)
      note eq = note_ok_entries [OF this]
      ultimately show ?thesis
        using sessions_opened_trans [of rt subject rg rg1 "{i}" rg' "set is"] pol n
        by (auto simp: eq intro: exI [of _ "n # _"])
    qed
  qed
qed auto

section \<open>The store under a route\<close>

definition turn_grows :: "ext \<Rightarrow> turn \<Rightarrow> bool" where
  "turn_grows X tu \<longleftrightarrow> (\<forall>u. later X u (tu_before tu u)) \<and> (\<forall>u. later X u (tu_between tu u)) \<and> (\<forall>u. later X u (tu_during tu u))"

definition turn_quiet :: "turn \<Rightarrow> bool" where
  "turn_quiet tu \<longleftrightarrow> (\<forall>u. tu_before tu u = u) \<and> (\<forall>u. tu_between tu u = u) \<and> (\<forall>u. tu_during tu u = u)"

lemma quiet_grows: "turn_quiet tu \<Longrightarrow> turn_grows X tu"
  by (simp add: turn_quiet_def turn_grows_def)

lemma route_execute_later:
  assumes "route_execute X guard rt tu i s t rg st notes = (r, rg', st')" and "turn_grows X tu" and "known_in st (att_id t)"
  shows "later X st st'"
proof (cases "tu_execute_wall tu")
  case (Inl e)
  with assms(1) show ?thesis by (simp add: route_execute_def)
next
  case (Inr w)
  obtain r0 s0 where ex: "execute_attempt X guard (tu_readings tu) (ss_backend s) (tu_during tu st) t (ss_execution s)
      (min (rt_attempt_timeout_ms rt) (rt_timeout_ms rt - tu_start tu)) None True True = (r0, s0)" by fastforce
  with assms(1) Inr have "st' = s0" by (auto simp: route_execute_def split: sum.splits)
  moreover have grow: "later X st (tu_during tu st)" using assms(2) by (simp add: turn_grows_def)
  from known_later [OF grow assms(3)] have "later X (tu_during tu st) s0" using execute_later [OF ex] by simp
  ultimately show ?thesis using grow later_trans by blast
qed

lemma route_admit_cases:
  assumes "route_admit X guard subject original rt tu i s rg st notes = (r, rg', st')"
  obtains (conflict) "r = Inr (Stop (finished ''conflict'' notes))" and "st' = st"
  | (overflow) "r = Inr (Go (notes @ [plain_note i None ''context_overflow'']))" and "st' = st"
  | (threw) e where "r = Inl e" and "st' = st"
  | (waiting) now where "admit X st subject (be_name (ss_backend s)) now (be_policy (ss_backend s)) (Some (be_fits (ss_backend s)))
      (ss_execution s) (rt_context rt) (tu_nonce tu) = Inr (None, st')" and "r = Inr (Stop (finished ''waiting'' notes))"
  | (moved) now t st1 where "admit X st subject (be_name (ss_backend s)) now (be_policy (ss_backend s)) (Some (be_fits (ss_backend s)))
      (ss_execution s) (rt_context rt) (tu_nonce tu) = Inr (Some t, st1)" and "r = Inr (Stop (finished ''conflict'' notes))"
      and "st' = fail st1 (att_id t) ''route head changed''"
  | (admitted) now t st1 where "admit X st subject (be_name (ss_backend s)) now (be_policy (ss_backend s)) (Some (be_fits (ss_backend s)))
      (ss_execution s) (rt_context rt) (tu_nonce tu) = Inr (Some t, st1)" and "sn_head (pr_state (att_present t)) = original"
      and "route_execute X guard rt tu i s t rg st1 notes = (r, rg', st')"
proof -
  let ?admit = "\<lambda>now. admit X st subject (be_name (ss_backend s)) now (be_policy (ss_backend s)) (Some (be_fits (ss_backend s)))
      (ss_execution s) (rt_context rt) (tu_nonce tu)"
  note unf = assms [unfolded route_admit_def Let_def]
  show thesis
  proof (cases "bindR (tu_admit_wall tu) ?admit")
    case (Inl e)
    with unf have "st' = st" and "r = Inr (Stop (finished ''conflict'' notes)) \<or>
        r = Inr (Go (notes @ [plain_note i None ''context_overflow''])) \<or> r = Inl e"
      by (cases e; simp)+
    with conflict overflow threw show thesis by blast
  next
    case (Inr os)
    then obtain now where now: "?admit now = Inr os" by (auto simp: bindR_Inr)
    obtain out st1 where os: "os = (out, st1)" by (cases os)
    show thesis
    proof (cases out)
      case None
      with unf Inr os have "r = Inr (Stop (finished ''waiting'' notes))" "st' = st1" by simp_all
      with waiting [of now] now os None show thesis by simp
    next
      case (Some t)
      with unf Inr os show thesis
        using moved [of now t st1] admitted [of now t st1] now by (auto split: if_split_asm)
    qed
  qed
qed

lemma route_admit_later:
  assumes "route_admit X guard subject original rt tu i s rg st notes = (r, rg', st')" and "turn_grows X tu"
  shows "later X st st'"
  using assms(1)
proof (cases rule: route_admit_cases)
  case (waiting now)
  then show ?thesis by (rule_tac admit_later)
next
  case (moved now t st1)
  show ?thesis using admit_later [OF moved(1)] fail_later moved(3) later_trans by blast
next
  case (admitted now t st1)
  show ?thesis
    using later_trans [OF admit_later [OF admitted(1)] route_execute_later [OF admitted(3) assms(2) admit_known [OF admitted(1)]]] .
qed simp_all

lemma route_ready_cases:
  assumes "route_ready X guard subject original rt tu i s rg st notes = (r, rg', st')"
  obtains (stopped) status where "r = Inr (Stop (finished status notes))"
      and "status \<in> {''cancelled'', ''timeout'', ''conflict''}" and "st' = tu_before tu st"
  | (threw) e where "r = Inl e" and "st' = tu_before tu st"
  | (ready) "route_admit X guard subject original rt tu i s rg (tu_between tu (tu_before tu st)) notes = (r, rg', st')"
  using assms unfolding route_ready_def Let_def
  by (auto split: if_split_asm sum.split_asm)

lemma route_turn_later:
  assumes "route_turn X guard subject original rt tu i rg st notes = (r, rg', st')" and "turn_grows X tu"
  shows "later X st st'"
  using assms(1)
proof (cases rule: route_turn_cases)
  case (opened e s)
  have "later X st (tu_before tu st)" "later X (tu_before tu st) (tu_between tu (tu_before tu st))"
    using assms(2) by (simp_all add: turn_grows_def)
  with opened(4) show ?thesis
    by (cases rule: route_ready_cases) (auto dest: route_admit_later [OF _ assms(2)] intro: later_trans)
qed simp_all

lemma route_loop_later:
  assumes "route_loop X guard subject original rt turns at_end k is rg st notes = (r, rg', st')" and "\<And>j. turn_grows X (turns j)"
  shows "later X st st'"
  using assms(1)
proof (induction "is" arbitrary: k rg st "notes")
  case (Cons i "is")
  obtain r1 rg1 st1 where t: "route_turn X guard subject original rt (turns k) i rg st notes = (r1, rg1, st1)"
    by (metis prod_cases3)
  note grow = route_turn_later [OF t assms(2)]
  show ?case
  proof (cases "\<exists>ns. r1 = Inr (Go ns)")
    case True
    with Cons.prems t Cons.IH grow later_trans show ?thesis by auto
  next
    case False
    with Cons.prems t grow show ?thesis by (auto split: sum.splits verdict.splits)
  qed
qed simp

text \<open>With nobody else writing, a route adds the commit it reports and no other.\<close>

definition still :: "store \<Rightarrow> store \<Rightarrow> bool" where
  "still st st' \<longleftrightarrow> st_commits st' = st_commits st \<and> st_memory st' = st_memory st"

lemma still_refl [simp]: "still st st" by (simp add: still_def)
lemma still_trans: "still a b \<Longrightarrow> still b c \<Longrightarrow> still a c" by (simp add: still_def)
lemma kept_still: "kept st st' \<Longrightarrow> still st st'" by (simp add: kept_def still_def)
lemma fail_still: "still st (fail st i reason)" by (rule kept_still [OF fail_kept])

lemma admit_still: "admit X st subject b now policy fits execution context nonce = Inr (out, st') \<Longrightarrow> still st st'"
  using admit_keeps by (simp add: still_def)

lemma still_moved: "still st u \<Longrightarrow> moved u st' sn \<Longrightarrow> moved st st' sn"
  by (simp add: still_def moved_def)

definition result_ok :: "store \<Rightarrow> store \<Rightarrow> route_result \<Rightarrow> bool" where
  "result_ok st st' res \<longleftrightarrow>
     (if rr_status res = ''committed'' \<or> rr_status res = ''disposed''
      then \<exists>sn. rr_snapshot res = Some sn \<and> moved st st' sn
      else rr_snapshot res = None \<and> still st st')"

fun verdict_ok :: "store \<Rightarrow> store \<Rightarrow> verdict res \<Rightarrow> bool" where
  "verdict_ok st st' (Inl e) = still st st'"
| "verdict_ok st st' (Inr (Go ns)) = still st st'"
| "verdict_ok st st' (Inr (Stop res)) = result_ok st st' res"

lemma verdict_ok_trans: "still st u \<Longrightarrow> verdict_ok u st' r \<Longrightarrow> verdict_ok st st' r"
  by (cases "(st, st', r)" rule: verdict_ok.cases)
    (auto simp: result_ok_def split: if_splits intro: still_trans still_moved)

lemma result_ok_finished:
  "status \<noteq> ''committed'' \<Longrightarrow> status \<noteq> ''disposed'' \<Longrightarrow> result_ok st st' (finished status notes) = still st st'"
  by (simp add: result_ok_def)

lemma route_report_ok:
  assumes "report_ok st st' i o'"
  shows "verdict_ok st st' (Inr (route_report rt tu e a o' notes))"
proof (cases "landed o'")
  case True
  with assms show ?thesis by (auto simp: report_ok_def landed_def route_report_def result_ok_def)
next
  case False
  with assms have "still st st'" using kept_still by (simp add: report_ok_def)
  with False show ?thesis by (auto simp: landed_def route_report_def result_ok_def Let_def)
qed

lemma route_execute_ok:
  assumes "route_execute X guard rt tu i s t rg st notes = (r, rg', st')" and "turn_quiet tu"
    and "keys_inv st" and "known_in st (att_id t)"
  shows "verdict_ok st st' r"
proof (cases "tu_execute_wall tu")
  case (Inl e)
  with assms(1) show ?thesis by (auto simp: route_execute_def)
next
  case (Inr w)
  obtain r0 s0 where ex: "execute_attempt X guard (tu_readings tu) (ss_backend s) st t (ss_execution s)
      (min (rt_attempt_timeout_ms rt) (rt_timeout_ms rt - tu_start tu)) None True True = (r0, s0)" by fastforce
  have q: "tu_during tu st = st" using assms(2) by (simp add: turn_quiet_def)
  from execute_redacted [OF ex assms(3,4)] show ?thesis
    using assms(1) Inr ex kept_still route_report_ok
    by (auto simp: route_execute_def q split: sum.splits)
qed

lemma route_admit_ok:
  assumes "route_admit X guard subject original rt tu i s rg st notes = (r, rg', st')" and "turn_quiet tu" and "reachable X st"
  shows "verdict_ok st st' r"
  using assms(1)
proof (cases rule: route_admit_cases)
  case (waiting now)
  with admit_still show ?thesis by (simp add: result_ok_finished)
next
  case (moved now t st1)
  have "still st st'" using admit_still [OF moved(1)] fail_still moved(3) still_trans by blast
  with moved(2) show ?thesis by (simp add: result_ok_finished)
next
  case (admitted now t st1)
  have "keys_inv st1" using keys.reachable reachable_later [OF assms(3) admit_later [OF admitted(1)]] by blast
  from route_execute_ok [OF admitted(3) assms(2) this admit_known [OF admitted(1)]] admit_still [OF admitted(1)]
  show ?thesis by (rule verdict_ok_trans [rotated])
qed (simp_all add: result_ok_finished)

lemma route_turn_ok:
  assumes "route_turn X guard subject original rt tu i rg st notes = (r, rg', st')" and "turn_quiet tu" and "reachable X st"
  shows "verdict_ok st st' r"
  using assms(1)
proof (cases rule: route_turn_cases)
  case (opened e s)
  have q: "tu_before tu st = st" "tu_between tu st = st" using assms(2) by (simp_all add: turn_quiet_def)
  from opened(4) show ?thesis
  proof (cases rule: route_ready_cases)
    case (stopped status)
    then show ?thesis by (auto simp: q result_ok_finished)
  next
    case ready
    from route_admit_ok [OF this [unfolded q] assms(2,3)] show ?thesis .
  qed (simp add: q)
qed (auto simp: result_ok_finished)

lemma route_loop_ok:
  assumes "route_loop X guard subject original rt turns at_end k is rg st notes = (r, rg', st')"
    and "\<And>j. turn_quiet (turns j)" and "reachable X st"
  shows "case r of Inl e \<Rightarrow> still st st' | Inr res \<Rightarrow> result_ok st st' res"
  using assms(1,3)
proof (induction "is" arbitrary: k rg st "notes")
  case Nil
  then show ?case by (auto simp: result_ok_finished)
next
  case (Cons i "is")
  obtain r1 rg1 st1 where t: "route_turn X guard subject original rt (turns k) i rg st notes = (r1, rg1, st1)"
    by (metis prod_cases3)
  note ok = route_turn_ok [OF t assms(2) Cons.prems(2)]
  show ?case
  proof (cases "\<exists>ns. r1 = Inr (Go ns)")
    case True
    then obtain ns where ns: "r1 = Inr (Go ns)" by blast
    have "reachable X st1"
      using reachable_later [OF Cons.prems(2) route_turn_later [OF t quiet_grows [OF assms(2)]]] .
    with Cons.IH [of "Suc k" rg1 st1 ns] Cons.prems(1) t ns
    have "case r of Inl e \<Rightarrow> still st1 st' | Inr res \<Rightarrow> result_ok st1 st' res" by simp
    moreover have "still st st1" using ok ns by simp
    ultimately show ?thesis
      by (auto simp: result_ok_def split: sum.splits if_splits intro: still_trans still_moved)
  next
    case False
    with Cons.prems(1) t ok show ?thesis by (auto split: sum.splits verdict.splits)
  qed
qed

section \<open>The registry's invariant\<close>

definition registry_ok :: "registry \<Rightarrow> bool" where
  "registry_ok rg \<longleftrightarrow> distinct (map fst (rg_entries rg)) \<and> length (rg_entries rg) \<le> 128 \<and>
     (\<forall>i \<in> fst ` set (rg_entries rg). executor_id_ok i) \<and> distinct (map fst (rg_sessions rg)) \<and>
     length (rg_sessions rg) \<le> rg_max_sessions rg \<and>
     (\<forall>(k, s) \<in> set (rg_sessions rg). snd k \<in> fst ` set (rg_entries rg))"

lemma registry_add_ok:
  assumes "registry_ok rg" and "registry_add rg i caps callable = Inr rg'"
  shows "registry_ok rg'"
proof -
  have ok: "executor_id_ok i" "length (rg_entries rg) < 128" "i \<notin> fst ` set (rg_entries rg)"
    and rg': "rg' = rg\<lparr>rg_entries := rg_entries rg @ [(i, \<lparr>en_caps = caps, en_enabled = True\<rparr>)]\<rparr>"
    using assms(2) by (simp_all add: registry_add_def res_simps)
  from assms(1) ok show ?thesis by (auto simp: registry_ok_def rg')
qed

lemma registry_enable_ok:
  assumes "registry_ok rg" and "registry_enable rg i b = Inr rg'"
  shows "registry_ok rg'"
proof -
  have rg': "rg' = rg\<lparr>rg_entries := map (\<lambda>(k, e). (k, if k = i then e\<lparr>en_enabled := b\<rparr> else e)) (rg_entries rg)\<rparr>"
    using assms(2) by (simp add: registry_enable_def res_simps)
  have "map fst (rg_entries rg') = map fst (rg_entries rg)" by (simp add: rg' case_prod_beta' o_def)
  moreover from this have "fst ` set (rg_entries rg') = fst ` set (rg_entries rg)" by (metis set_map)
  moreover have "length (rg_entries rg') = length (rg_entries rg)" "rg_sessions rg' = rg_sessions rg" "rg_max_sessions rg' = rg_max_sessions rg"
    by (simp_all add: rg')
  ultimately show ?thesis using assms(1) unfolding registry_ok_def by simp
qed

lemma registry_evict_ok:
  assumes "registry_ok rg"
  shows "registry_ok (registry_evict rg subject i)"
proof -
  have "length (filter P xs) \<le> n" if "length xs \<le> n" for P n and xs :: "'z list"
    using length_filter_le [of P xs] that by linarith
  with assms show ?thesis by (auto simp: registry_ok_def registry_evict_def distinct_map_filter)
qed

lemma open_session_ok:
  assumes "registry_ok rg" and "open_session rg subject i made sid = Inr (s, rg')" and "i \<in> fst ` set (rg_entries rg)"
  shows "registry_ok rg'"
proof -
  note new = open_session_sessions [OF assms(2)]
  have fresh: "(subject, i) \<notin> fst ` set (rg_sessions rg)" if "map_of (rg_sessions rg) (subject, i) = None"
    using that by (simp add: map_of_eq_None_iff)
  from new show ?thesis
  proof (elim conjE disjE)
    assume n: "map_of (rg_sessions rg) (subject, i) = None" "length (rg_sessions rg) < rg_max_sessions rg"
      "rg_sessions rg' = rg_sessions rg @ [((subject, i), s)]"
      and e: "rg_entries rg' = rg_entries rg" "rg_max_sessions rg' = rg_max_sessions rg"
    show ?thesis using assms(1,3) n(2) fresh [OF n(1)] by (auto simp: registry_ok_def e n(3))
  qed (use assms(1) in simp)
qed

lemma route_turn_registry:
  assumes "route_turn X guard subject original rt tu i rg st notes = (r, rg', st')" and "registry_ok rg"
  shows "registry_ok rg'"
  using assms(1)
proof (cases rule: route_turn_cases)
  case (opened e s)
  from map_of_SomeD [OF opened(1)] have "i \<in> fst ` set (rg_entries rg)" by force
  with open_session_ok [OF assms(2) opened(3)] show ?thesis .
qed (use assms(2) in simp_all)

lemma route_loop_registry:
  assumes "route_loop X guard subject original rt turns at_end k is rg st notes = (r, rg', st')" and "registry_ok rg"
  shows "registry_ok rg'"
  using assms
proof (induction "is" arbitrary: k rg st "notes")
  case (Cons i "is")
  obtain r1 rg1 st1 where t: "route_turn X guard subject original rt (turns k) i rg st notes = (r1, rg1, st1)"
    by (metis prod_cases3)
  note ok = route_turn_registry [OF t Cons.prems(2)]
  show ?case
  proof (cases "\<exists>ns. r1 = Inr (Go ns)")
    case True
    with Cons.prems(1) t Cons.IH ok show ?thesis by auto
  next
    case False
    with Cons.prems(1) t ok show ?thesis by (auto split: sum.splits verdict.splits)
  qed
qed simp

lemma route_step_cases:
  assumes "route_step X sqlite_ok guard subject rt now turns at_end verified rg st = (r, vs, rg', st')"
  obtains (refused) e where "r = Inl e" and "rg' = rg" and "st' = st"
  | (looped) s where "snapshot st subject = Inr s" and "distinct (rt_executors rt)"
      and "subject \<in> set verified \<or> verify X sqlite_ok st subject = Inr ()"
      and "route_loop X guard subject (sn_head s) rt turns at_end 0 (rt_executors rt) rg st [] = (r, rg', st')"
proof -
  let ?pre = "require (route_limits_ok rt now) ''invalid route limits'' (
           bindR (validate_admission_context X (rt_context rt)) (\<lambda>_.
           require (set (rt_executors rt) \<subseteq> fst ` set (rg_entries rg) \<and> distinct (rt_executors rt))
             ''unknown or duplicate route executor'' (
           if subject \<in> set verified then Inr () else verify X sqlite_ok st subject)))"
  show thesis
  proof (cases ?pre)
    case (Inl e)
    with assms have "r = Inl e" "rg' = rg" "st' = st" by (simp_all add: route_step_def)
    then show thesis by (rule refused)
  next
    case (Inr u)
    then have ok: "distinct (rt_executors rt)" "subject \<in> set verified \<or> verify X sqlite_ok st subject = Inr ()"
      by (auto simp: res_simps split: if_split_asm)
    show thesis
    proof (cases "snapshot st subject")
      case (Inl e)
      with assms \<open>?pre = Inr u\<close> have "r = Inl e" "rg' = rg" "st' = st" by (simp_all add: route_step_def Let_def)
      then show thesis by (rule refused)
    next
      case (Inr s)
      with assms \<open>?pre = Inr u\<close> looped [OF Inr ok] show thesis
        by (simp add: route_step_def Let_def split: prod.splits)
    qed
  qed
qed

text \<open>Everything a host can do to a registry.\<close>

inductive registry_history :: "ext \<Rightarrow> registry \<Rightarrow> bool" for X where
  made: "new_registry mx = Inr rg \<Longrightarrow> registry_history X rg"
| added: "registry_history X rg \<Longrightarrow> registry_add rg i caps callable = Inr rg' \<Longrightarrow> registry_history X rg'"
| enabled: "registry_history X rg \<Longrightarrow> registry_enable rg i b = Inr rg' \<Longrightarrow> registry_history X rg'"
| evicted: "registry_history X rg \<Longrightarrow> registry_history X (registry_evict rg subject i)"
| stepped: "registry_history X rg \<Longrightarrow>
    route_step X sqlite_ok guard subject rt now turns at_end verified rg st = (r, vs, rg', st') \<Longrightarrow> registry_history X rg'"

section \<open>The promises of a route\<close>

text \<open>
  A route keeps to the host's policy: the notes of a finished step are, in the route's
  order, one per executor that was tried, without a gap; an executor that is disabled, that
  is remote when the route forbids it, or that lacks a required capability gets exactly the
  note that says so, without an attempt; and a session is opened only for this subject and
  for executors of the route the policy permits.
\<close>

lemma route_respects_policy:
  assumes "route_step X sqlite_ok guard subject rt now turns at_end verified rg st = (r, vs, rg', st')"
  shows "rg_entries rg' = rg_entries rg \<and>
    (\<forall>x \<in> set (rg_sessions rg') - set (rg_sessions rg). fst (fst x) = subject \<and> snd (fst x) \<in> set (rt_executors rt) \<and>
       (\<exists>e. map_of (rg_entries rg) (snd (fst x)) = Some e \<and> skip_reason rt e = None)) \<and>
    (\<forall>res. r = Inr res \<longrightarrow> (let ns = rr_attempts res in
       map no_executor ns = take (length ns) (rt_executors rt) \<and>
       (\<forall>n \<in> set ns. \<exists>e. map_of (rg_entries rg) (no_executor n) = Some e \<and>
          (\<forall>why. skip_reason rt e = Some why \<longrightarrow> n = plain_note (no_executor n) None why))))"
  using assms
proof (cases rule: route_step_cases)
  case (looped s)
  note pol = route_loop_policy [OF looped(4)]
  have "map no_executor ns = take (length ns) is \<and>
      (\<forall>n \<in> set ns. \<exists>e. map_of (rg_entries rg) (no_executor n) = Some e \<and>
        (\<forall>why. skip_reason rt e = Some why \<longrightarrow> n = plain_note (no_executor n) None why))"
    if "list_all2 (note_ok rt rg) (take (length ns) is) ns" for "is" ns
  proof
    have "map no_executor ms = js" if "list_all2 (note_ok rt rg) js ms" for js ms
      using that by induction (simp_all add: note_ok_def)
    then show "map no_executor ns = take (length ns) is" using that by blast
    show "\<forall>n \<in> set ns. \<exists>e. map_of (rg_entries rg) (no_executor n) = Some e \<and>
        (\<forall>why. skip_reason rt e = Some why \<longrightarrow> n = plain_note (no_executor n) None why)"
    proof
      fix n assume "n \<in> set ns"
      with that obtain i where "note_ok rt rg i n" by (metis in_set_conv_nth list_all2_conv_all_nth)
      then show "\<exists>e. map_of (rg_entries rg) (no_executor n) = Some e \<and>
        (\<forall>why. skip_reason rt e = Some why \<longrightarrow> n = plain_note (no_executor n) None why)" by (auto simp: note_ok_def)
    qed
  qed
  with pol show ?thesis by (auto simp: sessions_opened_def permitted_def Let_def)
qed simp_all

text \<open>
  C11. A routed step is one history of store operations, and when nobody else writes it adds
  exactly the commit it reports: under the status \<open>committed\<close> or \<open>disposed\<close> the returned
  snapshot is the subject's and one commit was appended; under any other status, and when
  the step throws, no commit and no deposit was made, however many executors were tried.
\<close>

theorem route_commits_once:
  assumes "reachable X st" and "\<forall>j. turn_quiet (turns j)"
    and "route_step X sqlite_ok guard subject rt now turns at_end verified rg st = (r, vs, rg', st')"
  shows "reachable X st' \<and>
    (case r of
       Inl e \<Rightarrow> st_commits st' = st_commits st \<and> st_memory st' = st_memory st
     | Inr res \<Rightarrow>
         if rr_status res = ''committed'' \<or> rr_status res = ''disposed''
         then \<exists>sn c. rr_snapshot res = Some sn \<and> snapshot st' (sn_subject sn) = Inr sn \<and>
           st_commits st' = st_commits st @ [c] \<and> co_id c = sn_head sn
         else rr_snapshot res = None \<and> st_commits st' = st_commits st \<and> st_memory st' = st_memory st)"
  using assms(3)
proof (cases rule: route_step_cases)
  case (refused e)
  with assms(1) show ?thesis by simp
next
  case (looped s)
  have "later X st st'" using looped(4) by (rule route_loop_later) (use assms(2) quiet_grows in blast)
  with assms(1) have "reachable X st'" by (rule reachable_later)
  moreover have "case r of Inl e \<Rightarrow> still st st' | Inr res \<Rightarrow> result_ok st st' res"
    using looped(4) by (rule route_loop_ok) (use assms in simp_all)
  ultimately show ?thesis by (auto simp: still_def result_ok_def moved_def split: sum.splits if_splits)
qed

text \<open>
  The registry stays well formed under every operation, a routed step included however
  it ends: executor IDs are valid, unique and at most 128, sessions are unique per subject
  and executor, belong to registered executors and never exceed the host's limit.
\<close>

lemma registry_invariant:
  assumes "registry_history X rg"
  shows "registry_ok rg"
  using assms
proof (induction rule: registry_history.induct)
  case (added rg i caps callable rg')
  from registry_add_ok [OF added(3,2)] show ?case .
next
  case (enabled rg i b rg')
  from registry_enable_ok [OF enabled(3,2)] show ?case .
next
  case (evicted rg subject i)
  from registry_evict_ok [OF evicted(2)] show ?case .
next
  case (stepped rg sqlite_ok guard subject rt now turns at_end verified st r vs rg' st')
  from stepped(2) show ?case
  proof (cases rule: route_step_cases)
    case (looped s)
    from route_loop_registry [OF this(4) stepped(3)] show ?thesis .
  qed (use stepped(3) in simp)
qed (auto simp: new_registry_def registry_ok_def res_simps)

end
