(* ===== verification/Cogg_Queries.thy ===== *)
theory Cogg_Queries
  imports Cogg_Kernel Cogg_Invariant
begin

text \<open>
  The read-only queries of \<open>Store\<close>: \<open>timeline\<close>, \<open>request_trace\<close>, \<open>open_tasks\<close> and
  \<open>commits_page\<close> of \<^verbatim>\<open>src/kernel.cpp\<close>. Each runs in one read transaction, so it is
  a function of one store; its JSON result is a record here. Main results: paging through
  the open tasks or the history visits every row exactly once and in order, with any page
  size; a request trace is bounded and counts exactly.
\<close>

section \<open>Timeline\<close>

record timeline_report =
  tl_snapshot :: snapshot
  tl_clock :: json
  tl_commits :: "(string \<times> commit_body) list"
  tl_attempts :: "(string \<times> admission \<times> attempt_status \<times> string) list"
  tl_abstentions :: "(string \<times> abstention_body) list"
  tl_occasions :: "(string \<times> event \<times> string) list"

definition attempt_view :: "attempt_row \<Rightarrow> string \<times> admission \<times> attempt_status \<times> string" where
  "attempt_view a = (at_id a, at_body a, at_status a, at_error a)"

definition occasion_view :: "occasion_row \<Rightarrow> string \<times> event \<times> string" where
  "occasion_view q = (oc_id q, oc_body q, case oc_consumed q of None \<Rightarrow> [] | Some c \<Rightarrow> c)"

definition abstentions_for :: "store \<Rightarrow> attempt_row \<Rightarrow> (string \<times> abstention_body) list" where
  "abstentions_for st a = map (\<lambda>o'. (as_id o', as_body o')) (filter (\<lambda>o'. as_attempt o' = at_id a) (st_abstentions st))"

definition timeline :: "store \<Rightarrow> string \<Rightarrow> timeline_report res" where
  "timeline st subject =
     bindR (snapshot st subject) (\<lambda>s.
     bindR (clock st subject) (\<lambda>ck.
     let attempts = sort_key at_seq (subject_attempts st subject) in
     Inr \<lparr>tl_snapshot = s, tl_clock = ck,
       tl_commits = map (\<lambda>c. (co_id c, co_body c)) (subject_commits st subject),
       tl_attempts = map attempt_view attempts,
       tl_abstentions = concat (map (abstentions_for st) attempts),
       tl_occasions = map occasion_view (sort_key oc_seq (filter (\<lambda>q. oc_subject q = subject) (st_occasions st)))\<rparr>))"

section \<open>One request\<close>

record trace_report =
  rt_head :: string
  rt_tick :: int
  rt_occasions :: "(string \<times> event \<times> string) list"
  rt_attempts :: "(string \<times> admission \<times> attempt_status \<times> string) list"
  rt_commits :: "(string \<times> commit_body) list"
  rt_abstentions :: "(string \<times> abstention_body) list"
  rt_attempt_count :: nat
  rt_truncated :: bool
  rt_schedule :: decision

definition attempts_on :: "store \<Rightarrow> string \<Rightarrow> string \<Rightarrow> attempt_row list" where
  "attempts_on st subject oid = rev (sort_key at_seq
     (filter (\<lambda>a. at_subject a = subject \<and> at_occasion a = oid) (st_attempts st)))"

definition request_trace :: "ext \<Rightarrow> store \<Rightarrow> string \<Rightarrow> string \<Rightarrow> nat \<Rightarrow> millis \<Rightarrow> trace_report res" where
  "request_trace X st subject key limit now =
     require (0 < limit \<and> limit \<le> 256) ''request trace limit must be 1..256'' (
     bindR (snapshot st subject) (\<lambda>s.
     let found = find (\<lambda>q. oc_subject q = subject \<and> oc_key q = ''user:'' @ key) (st_occasions st) in
     bindR (case found of None \<Rightarrow> Inr []
            | Some q \<Rightarrow> (case oc_consumed q of None \<Rightarrow> Inr []
                | Some c \<Rightarrow> if c = [] then Inr [] else bindR (record_of X st c) (\<lambda>b. Inr [(c, b)]))) (\<lambda>commits.
     let all = (case found of None \<Rightarrow> [] | Some q \<Rightarrow> attempts_on st subject (oc_id q));
         shown = take limit all
     in bindR (schedule X st subject now) (\<lambda>d.
        Inr \<lparr>rt_head = sn_head s, rt_tick = sn_tick s,
          rt_occasions = (case found of None \<Rightarrow> [] | Some q \<Rightarrow> [occasion_view q]),
          rt_attempts = map attempt_view shown, rt_commits = commits,
          rt_abstentions = concat (map (\<lambda>a. take 1 (abstentions_for st a)) shown),
          rt_attempt_count = length all, rt_truncated = (length all > limit), rt_schedule = d\<rparr>))))"

section \<open>Open tasks by page\<close>

record task_page =
  tp_head :: string
  tp_items :: "deposit list"
  tp_next :: string
  tp_more :: bool

definition open_entries :: "store \<Rightarrow> string \<Rightarrow> string \<Rightarrow> entry_row list" where
  "open_entries st subject after = sort_key me_key (filter (\<lambda>e. me_subject e = subject \<and> me_current e \<and> after < me_key e \<and>
     n_type (de_note (me_body e)) = ''task'' \<and> n_status (de_note (me_body e)) = ''open'') (md_entries (st_memory st)))"

fun task_loop :: "nat \<Rightarrow> deposit list \<Rightarrow> string \<Rightarrow> entry_row list \<Rightarrow> deposit list \<times> string \<times> bool" where
  "task_loop limit items cursor [] = (items, cursor, False)"
| "task_loop limit items cursor (r # rs) =
     (if length items = limit then (items, cursor, True)
      else task_loop limit (items @ [me_body r]) (me_key r) rs)"

definition open_tasks :: "store \<Rightarrow> string \<Rightarrow> string \<Rightarrow> nat \<Rightarrow> task_page res" where
  "open_tasks st subject after limit =
     require (0 < limit \<and> limit \<le> 256) ''task page limit must be 1..256'' (
     bindR (snapshot st subject) (\<lambda>s.
     case task_loop limit [] after (take (limit + 1) (open_entries st subject after)) of
       (items, cursor, left) \<Rightarrow> Inr \<lparr>tp_head = sn_head s, tp_items = items, tp_next = cursor, tp_more = left\<rparr>))"

section \<open>History by page\<close>

record commit_page =
  cp_head :: string
  cp_items :: "(string \<times> commit_body) list"
  cp_next :: int
  cp_more :: bool

definition commits_page :: "store \<Rightarrow> string \<Rightarrow> int \<Rightarrow> nat \<Rightarrow> string \<Rightarrow> commit_page res" where
  "commits_page st subject after limit expected =
     require (after \<ge> - 1 \<and> 0 < limit \<and> limit \<le> 256) ''invalid history page bounds'' (
     bindR (snapshot st subject) (\<lambda>s.
     raise_unless (expected = [] \<or> sn_head s = expected) (Conflict ''history page head changed'') (
     let rows = take limit (filter (\<lambda>c. co_tick c > after) (subject_commits st subject));
         cursor = (if rows = [] then after else co_tick (last rows))
     in Inr \<lparr>cp_head = sn_head s, cp_items = map (\<lambda>c. (co_id c, co_body c)) rows, cp_next = cursor,
          cp_more = (cursor < sn_tick s)\<rparr>)))"

text \<open>A client that reads page after page, with the cursor of the page before, for at most
  \<open>fuel\<close> pages; it stops at a page that says there is no more.\<close>

fun read_history :: "nat \<Rightarrow> store \<Rightarrow> string \<Rightarrow> int \<Rightarrow> nat \<Rightarrow> string \<Rightarrow> (string \<times> commit_body) list res" where
  "read_history 0 st subject after limit expected = Inl (Error ''out of fuel'')"
| "read_history (Suc fuel) st subject after limit expected =
     bindR (commits_page st subject after limit expected) (\<lambda>p.
     if cp_more p then bindR (read_history fuel st subject (cp_next p) limit expected) (\<lambda>rest. Inr (cp_items p @ rest))
     else Inr (cp_items p))"

fun read_tasks :: "nat \<Rightarrow> store \<Rightarrow> string \<Rightarrow> string \<Rightarrow> nat \<Rightarrow> deposit list res" where
  "read_tasks 0 st subject after limit = Inl (Error ''out of fuel'')"
| "read_tasks (Suc fuel) st subject after limit =
     bindR (open_tasks st subject after limit) (\<lambda>p.
     if tp_more p then bindR (read_tasks fuel st subject (tp_next p) limit) (\<lambda>rest. Inr (tp_items p @ rest))
     else Inr (tp_items p))"

section \<open>Paging is complete\<close>

lemma chained_filter_from: "chained cs \<Longrightarrow> filter (\<lambda>c. co_tick c > int k - 1) cs = drop k cs"
proof (induction cs rule: rev_induct)
  case (snoc c cs)
  have "link_ok (cs @ [c]) (length cs)" using snoc.prems by (simp add: chained_def)
  then have "co_tick c = int (length cs)" by (simp add: link_ok_def)
  moreover have "chained cs" using snoc.prems by (auto simp: chained_def) (metis less_SucI link_ok_append)
  ultimately show ?case using snoc.IH by (auto simp: Suc_diff_le)
qed simp

lemma chained_filter_gt:
  assumes "chained cs" and "- 1 \<le> after"
  shows "filter (\<lambda>c. co_tick c > after) cs = drop (nat (after + 1)) cs"
  using chained_filter_from [OF assms(1), of "nat (after + 1)"] assms(2) by simp

text \<open>One page of a chain: the next \<open>limit\<close> commits, and \<open>has_more\<close> exactly when some are
  left.\<close>

lemma commits_page_chain:
  assumes "find_subject st subject = Some r" and "projects r (subject_commits st subject)"
    and "- 1 \<le> after" and "after \<le> su_tick r" and "0 < limit" and "limit \<le> 256" and "expected \<in> {[], su_head r}"
  shows "\<exists>p. commits_page st subject after limit expected = Inr p \<and>
    cp_items p = map (\<lambda>c. (co_id c, co_body c)) (take limit (drop (nat (after + 1)) (subject_commits st subject))) \<and>
    cp_next p = min (after + int limit) (su_tick r) \<and> cp_more p = (after + int limit < su_tick r)"
proof -
  define cs where "cs = subject_commits st subject"
  have ch: "chained cs" "cs \<noteq> []" "su_tick r = int (length cs) - 1" using assms(2) by (simp_all add: projects_def cs_def)
  define k where "k = nat (after + 1)"
  have after: "after = int k - 1" using assms(3) by (simp add: k_def)
  define rows where "rows = take limit (drop k cs)"
  have filt: "filter (\<lambda>c. co_tick c > after) cs = drop k cs" using chained_filter_gt [OF ch(1) assms(3)] by (simp add: k_def)
  have tick: "(if rows = [] then after else co_tick (last rows)) = min (after + int limit) (su_tick r)"
  proof (cases "k < length cs")
    case True
    then have ne: "rows \<noteq> []" using assms(5) by (simp add: rows_def)
    define m where "m = k + min (length cs - k) limit - 1"
    have m: "m < length cs" using True assms(5) by (simp add: m_def)
    have "last rows = cs ! m"
      using True assms(5) by (simp add: rows_def last_conv_nth m_def)
    moreover have "co_tick (cs ! m) = int m" using ch(1) m by (simp add: chained_def link_ok_def)
    ultimately show ?thesis using ne True assms(5)
      by (cases "length cs - k \<le> limit") (auto simp: m_def after ch(3))
  next
    case False
    then have "rows = []" by (simp add: rows_def)
    then show ?thesis using False assms(4) by (simp add: after ch(3))
  qed
  have "commits_page st subject after limit expected = Inr \<lparr>cp_head = su_head r,
      cp_items = map (\<lambda>c. (co_id c, co_body c)) rows, cp_next = min (after + int limit) (su_tick r),
      cp_more = (min (after + int limit) (su_tick r) < su_tick r)\<rparr>"
    using assms(1,3,5-7)
    by (auto simp: commits_page_def snapshot_def Let_def filt [unfolded cs_def] tick simp flip: rows_def [unfolded cs_def])
  then show ?thesis by (auto simp: rows_def cs_def k_def)
qed

lemma read_history_chain:
  assumes "find_subject st subject = Some r" and "projects r (subject_commits st subject)"
    and "- 1 \<le> after" and "after \<le> su_tick r" and "0 < limit" and "limit \<le> 256" and "expected \<in> {[], su_head r}"
    and "su_tick r - after < int fuel"
  shows "read_history fuel st subject after limit expected =
    Inr (map (\<lambda>c. (co_id c, co_body c)) (drop (nat (after + 1)) (subject_commits st subject)))"
  using assms(3,4,8)
proof (induction fuel arbitrary: after)
  case (Suc fuel)
  from commits_page_chain [OF assms(1,2) Suc.prems(1,2) assms(5,6,7)] obtain p where
    p: "commits_page st subject after limit expected = Inr p"
    "cp_items p = map (\<lambda>c. (co_id c, co_body c)) (take limit (drop (nat (after + 1)) (subject_commits st subject)))"
    "cp_next p = min (after + int limit) (su_tick r)" "cp_more p = (after + int limit < su_tick r)" by blast
  have len: "su_tick r = int (length (subject_commits st subject)) - 1" using assms(2) by (simp add: projects_def)
  show ?case
  proof (cases "cp_more p")
    case True
    then have nxt: "cp_next p = after + int limit" "after + int limit < su_tick r" using p by simp_all
    have "read_history fuel st subject (after + int limit) limit expected =
        Inr (map (\<lambda>c. (co_id c, co_body c)) (drop (nat (after + int limit + 1)) (subject_commits st subject)))"
      using nxt Suc.prems assms(5) by (intro Suc.IH) auto
    moreover have "nat (after + int limit + 1) = limit + nat (after + 1)" using Suc.prems(1) by simp
    ultimately show ?thesis using True p nxt
      by (simp flip: map_append drop_drop)
  next
    case False
    then have "length (drop (nat (after + 1)) (subject_commits st subject)) \<le> limit" using p len Suc.prems(1) by simp
    with False p show ?thesis by simp
  qed
qed simp

text \<open>
  Paging through the history is complete: in every reachable store, reading page after
  page from the start with any allowed page size, pinned to the current head, returns every
  commit of the subject exactly once, in tick order; the number of ticks plus two pages is
  always enough.
\<close>

lemma history_pages_complete:
  assumes "reachable X st" and "find_subject st subject = Some r" and "0 < limit" and "limit \<le> 256"
  shows "read_history (nat (su_tick r) + 2) st subject (- 1) limit (su_head r) =
    Inr (map (\<lambda>c. (co_id c, co_body c)) (subject_commits st subject))"
proof -
  from find_subject_Some [OF assms(2)] have r: "r \<in> set (st_subjects st)" "su_id r = subject" by simp_all
  note inv = chain.reachable [OF assms(1)]
  have p: "projects r (subject_commits st subject)"
    using inv r subject_commits_chain [OF inv r(1)] by (auto simp: chain_inv_def)
  then have "0 \<le> su_tick r" by (cases "subject_commits st subject") (auto simp: projects_def)
  then show ?thesis
    using read_history_chain [OF assms(2) p, of "- 1" limit "su_head r" "nat (su_tick r) + 2"] assms(3,4) by simp
qed

section \<open>The notes in the index were checked\<close>

definition entries_noted :: "memory_db \<Rightarrow> bool" where
  "entries_noted db \<longleftrightarrow> (\<forall>e \<in> set (md_entries db). note_ok (de_note (me_body e)) \<and> me_key e = n_key (de_note (me_body e)))"

definition notes_inv :: "store \<Rightarrow> bool" where
  "notes_inv st \<longleftrightarrow> entries_noted (st_memory st)"

lemma apply_notes_noted:
  "apply_notes X s p t c ws db i ns = Inr db' \<Longrightarrow> entries_noted db \<Longrightarrow> \<forall>n \<in> set ns. note_ok n \<Longrightarrow> entries_noted db'"
proof (induction ns arbitrary: db i)
  case (Cons n ns)
  from Cons.prems(1) obtain d where d: "apply_note X s p t c ws db i n = Inr d" "apply_notes X s p t c ws d (Suc i) ns = Inr db'"
    by (auto simp: res_simps)
  have "entries_noted d"
  proof (rule apply_note_Inr [OF d(1)])
    fix row assume "md_entries d = map (supersede_key s (n_key n)) (md_entries db) @ [row]"
      and "me_key row = n_key n" and "de_note (me_body row) = n"
    with Cons.prems show ?thesis by (simp add: entries_noted_def)
  qed
  with Cons d show ?case by simp
qed simp

lemma memory_apply_noted: "memory_apply X db s p t c ns = Inr db' \<Longrightarrow> entries_noted db \<Longrightarrow> entries_noted db'"
  using apply_notes_noted [of X s p t c "map n_key ns" db 0 ns db'] by (simp add: memory_apply_def res_simps notes_ok_def)

lemma replay_commits_noted: "replay_commits X s db cs = Inr db' \<Longrightarrow> entries_noted db \<Longrightarrow> entries_noted db'"
proof (induction cs arbitrary: db)
  case (Cons c cs)
  then show ?case by (auto simp: res_simps split: commit_body.splits dest: memory_apply_noted)
qed simp

lemma memory_step:
  assumes "ledger_step X st st'"
  shows "st_memory st' = st_memory st \<or> (\<exists>s p t c ns. memory_apply X (st_memory st) s p t c ns = Inr (st_memory st')) \<or>
    (\<exists>s. memory_rebuild X st s = Inr (st_memory st'))"
  using assms
proof (cases rule: ledger_step.cases)
  case (transition row r q t db fs)
  from transition(2) have "memory_apply X (st_memory st) (su_id r) (su_head r) (tr_tick t) (co_id (transition_row X t))
       (p_notes (tr_proposal t)) = Inr db" unfolding transition_ok_def by blast
  moreover have "st_memory st' = db" by (simp add: transition(1))
  ultimately show ?thesis by blast
qed (simp_all add: exI)

lemma notes_inv_step:
  assumes "ledger_step X st st'" and "notes_inv st"
  shows "notes_inv st'"
proof -
  have old: "entries_noted (st_memory st)" using assms(2) by (simp add: notes_inv_def)
  then have "entries_noted (memory_delete s (st_memory st))" for s by (simp add: entries_noted_def memory_delete_def)
  with memory_step [OF assms(1)] old memory_apply_noted replay_commits_noted have "entries_noted (st_memory st')"
    unfolding memory_rebuild_def by metis
  then show ?thesis by (simp add: notes_inv_def)
qed

interpretation noted: ledger_invariant X "\<lambda>st. True" notes_inv for X
proof
  show "notes_inv empty_store" by (simp add: notes_inv_def entries_noted_def empty_store_def empty_memory_def)
qed (auto intro: notes_inv_step)

section \<open>Paging through open tasks\<close>

lemma task_loop_take:
  "length items \<le> limit \<Longrightarrow> task_loop limit items cursor rs =
     (items @ map me_body (take (limit - length items) rs),
      (let shown = take (limit - length items) rs in if shown = [] then cursor else me_key (last shown)),
      limit - length items < length rs)"
proof (induction limit items cursor rs rule: task_loop.induct)
  case (2 limit items cursor r rs)
  show ?case
  proof (cases "length items = limit")
    case False
    with 2(2) obtain n where n: "limit - length items = Suc n" by (metis Suc_diff_Suc le_neq_implies_less)
    then have "limit - Suc (length items) = n" by simp
    with 2 False n show ?thesis by (auto simp: Let_def)
  qed simp
qed simp

lemma sorted_keys_after:
  fixes f :: "'a \<Rightarrow> 'k::linorder"
  assumes "sorted_wrt (<) (map f xs)" and "0 < n" and "n < length xs"
  shows "filter (\<lambda>x. f (last (take n xs)) < f x) xs = drop n xs"
proof -
  have "take n xs \<noteq> []" using assms(2,3) by auto
  then have l: "last (take n xs) = xs ! (n - 1)" using assms(2,3) by (simp add: last_conv_nth)
  have "\<not> f (xs ! (n - 1)) < f x" if "x \<in> set (take n xs)" for x
  proof -
    from that obtain i where "i < n" "x = xs ! i" using assms(3) by (auto simp: in_set_conv_nth)
    moreover from this have "i = n - 1 \<or> i < n - 1" by linarith
    moreover have "f (xs ! j) < f (xs ! (n - 1))" if "j < n - 1" for j
      using that assms(3) sorted_wrt_nth_less [OF assms(1), of j "n - 1"] by simp
    ultimately show ?thesis using order.asym by blast
  qed
  moreover have "f (xs ! (n - 1)) < f x" if "x \<in> set (drop n xs)" for x
  proof -
    from that obtain j where "j < length (drop n xs)" "drop n xs ! j = x" unfolding in_set_conv_nth by blast
    then have "n + j < length xs" "x = xs ! (n + j)" by auto
    with assms(2) sorted_wrt_nth_less [OF assms(1), of "n - 1" "n + j"] show ?thesis by simp
  qed
  ultimately have "filter (\<lambda>x. f (xs ! (n - 1)) < f x) (take n xs) = []"
    and "filter (\<lambda>x. f (xs ! (n - 1)) < f x) (drop n xs) = drop n xs"
    by (auto simp: filter_empty_conv filter_id_conv)
  then have "filter (\<lambda>x. f (xs ! (n - 1)) < f x) (take n xs @ drop n xs) = drop n xs" by (simp only: filter_append append_Nil)
  then show ?thesis by (simp only: l append_take_drop_id)
qed

lemma sort_key_filter: "sort_key f (filter P xs) = filter P (sort_key f xs)"
  by (induction xs) (auto simp: filter_insort_triv filter_insort)

lemma open_entries_after:
  assumes "after \<le> k"
  shows "open_entries st subject k = filter (\<lambda>e. k < me_key e) (open_entries st subject after)"
  unfolding open_entries_def sort_key_filter filter_filter
  by (rule filter_cong) (use assms in auto)

lemma currency_keys:
  "currency es \<Longrightarrow> distinct (map me_key (filter (\<lambda>e. me_subject e = s \<and> me_current e \<and> Q e) es))"
  by (induction es) (auto simp: same_key_def)

lemma open_entries_strict:
  assumes "memory_inv (st_memory st)"
  shows "sorted_wrt (<) (map me_key (open_entries st subject after))"
proof -
  have "currency (md_entries (st_memory st))" using assms by (simp add: memory_inv_def currency_iff)
  from currency_keys [OF this, of subject] have "distinct (map me_key (open_entries st subject after))"
    by (simp add: open_entries_def distinct_map inj_on_def)
  then show ?thesis by (simp add: open_entries_def strict_sorted_iff)
qed

text \<open>One page of open tasks.\<close>

lemma open_tasks_page:
  assumes "find_subject st subject = Some r" and "0 < limit" and "limit \<le> 256"
  shows "\<exists>p. open_tasks st subject after limit = Inr p \<and>
    tp_items p = map me_body (take limit (open_entries st subject after)) \<and>
    tp_more p = (limit < length (open_entries st subject after)) \<and>
    (tp_more p \<longrightarrow> tp_next p = me_key (last (take limit (open_entries st subject after))))"
proof -
  define es where "es = open_entries st subject after"
  have "take limit (take (limit + 1) es) = take limit es" by simp
  then show ?thesis
    using assms by (auto simp: open_tasks_def snapshot_def task_loop_take Let_def simp flip: es_def)
qed

lemma read_tasks_all:
  assumes "find_subject st subject = Some r" and "0 < limit" and "limit \<le> 256" and "memory_inv (st_memory st)"
    and "length (open_entries st subject after) < fuel"
  shows "read_tasks fuel st subject after limit = Inr (map me_body (open_entries st subject after))"
  using assms(5)
proof (induction fuel arbitrary: after)
  case (Suc fuel)
  define es where "es = open_entries st subject after"
  from open_tasks_page [OF assms(1-3), of after] obtain p where p: "open_tasks st subject after limit = Inr p"
    "tp_items p = map me_body (take limit es)" "tp_more p = (limit < length es)"
    "tp_more p \<longrightarrow> tp_next p = me_key (last (take limit es))" unfolding es_def by blast
  show ?case
  proof (cases "tp_more p")
    case True
    then have n: "limit < length es" "tp_next p = me_key (last (take limit es))" using p by simp_all
    have "last (take limit es) \<in> set es" using n(1) assms(2) by (intro in_set_takeD [OF last_in_set]) auto
    then have "after \<le> tp_next p" by (auto simp: n(2) es_def open_entries_def)
    then have rest: "open_entries st subject (tp_next p) = drop limit es"
      using open_entries_after [of after "tp_next p" st subject]
        sorted_keys_after [OF open_entries_strict [OF assms(4)], of limit subject after] n assms(2)
      by (simp flip: es_def)
    have "read_tasks fuel st subject (tp_next p) limit = Inr (map me_body (drop limit es))"
      using Suc.IH [of "tp_next p"] Suc.prems n(1) assms(2) by (simp add: rest flip: es_def)
    with True p show ?thesis by (simp flip: map_append es_def)
  next
    case False
    with p show ?thesis by (simp flip: es_def)
  qed
qed simp

text \<open>
  C21. Paging through the open tasks is complete: in every reachable store, reading page
  after page from the start with any allowed page size returns every open task of the
  subject exactly once, ordered by key.
\<close>

theorem task_pages_complete:
  assumes "reachable X st" and "find_subject st subject = Some r" and "0 < limit" and "limit \<le> 256"
  shows "\<exists>es. read_tasks (Suc (length (md_entries (st_memory st)))) st subject [] limit = Inr (map me_body es) \<and>
    distinct es \<and> sorted_wrt (<) (map me_key es) \<and>
    set es = {e \<in> set (md_entries (st_memory st)). me_subject e = subject \<and> me_current e \<and>
      n_type (de_note (me_body e)) = ''task'' \<and> n_status (de_note (me_body e)) = ''open''}"
proof -
  have inv: "memory_inv (st_memory st)" using index.reachable [OF assms(1)] by (simp add: index_inv_def)
  define es where "es = open_entries st subject []"
  have "length es \<le> length (md_entries (st_memory st))" by (simp add: es_def open_entries_def)
  then have r: "read_tasks (Suc (length (md_entries (st_memory st)))) st subject [] limit = Inr (map me_body es)"
    using read_tasks_all [OF assms(2-4) inv, of "[]" "Suc (length (md_entries (st_memory st)))"] by (simp add: es_def)
  have s: "sorted_wrt (<) (map me_key es)" unfolding es_def by (rule open_entries_strict [OF inv])
  then have d: "distinct es" by (simp add: strict_sorted_iff distinct_map)
  have key: "[] < me_key e" if "e \<in> set (md_entries (st_memory st))" for e
    using noted.reachable [OF assms(1)] that by (cases "me_key e") (auto simp: notes_inv_def entries_noted_def note_ok_def key_ok_def)
  have "set es = {e \<in> set (md_entries (st_memory st)). me_subject e = subject \<and> me_current e \<and>
      n_type (de_note (me_body e)) = ''task'' \<and> n_status (de_note (me_body e)) = ''open''}"
    using key by (auto simp: es_def open_entries_def)
  with r s d show ?thesis by blast
qed

end
