(* ===== verification/Cogg_Audit.thy ===== *)
theory Cogg_Audit
  imports Cogg_Verify Cogg_Invariant
begin

text \<open>
  What a successful \<open>verify\<close> establishes about tables it knows nothing of: a complete
  hash-linked history whose evidence (occasions, attempts, emissions) is in place, tamper
  evidence from the head ID alone, and the consistency of the full and the fast check.
\<close>

section \<open>The replayed chain\<close>

text \<open>What the verifier has seen of the tables for one transition.\<close>

definition evidenced :: "ext \<Rightarrow> store \<Rightarrow> string \<Rightarrow> commit_row \<Rightarrow> transition \<Rightarrow> bool" where
  "evidenced X st subject c t \<longleftrightarrow>
     (\<exists>q. find_occasion st (tr_occasion t) = Some q \<and> oc_consumed q = Some (co_id c) \<and>
        ev_subject (oc_body q) = subject \<and> hash X (event_json (oc_body q)) = tr_occasion t) \<and>
     (\<exists>a. find_attempt st (tr_attempt t) = Some a \<and> at_status a = Committed \<and>
        hash X (admission_json (at_body a)) = tr_attempt t \<and> ad_subject (at_body a) = subject \<and>
        ad_parent (at_body a) = tr_parent t \<and> ad_tick (at_body a) + 1 = tr_tick t \<and>
        ad_occasion (at_body a) = tr_occasion t \<and> ad_admitted_at (at_body a) \<le> tr_committed_at t \<and>
        (tr_disposition t = None \<longrightarrow> validate_emission X (tr_emission t) (tr_attempt t) (at_body a)
           (proposal_enc (tr_proposal t)) = Inr ())) \<and>
     validate X (tr_proposal t) = Inr ()"

definition audited :: "ext \<Rightarrow> store \<Rightarrow> string \<Rightarrow> limits \<Rightarrow> commit_row list \<Rightarrow> replay \<Rightarrow> bool" where
  "audited X st subject lim cs v \<longleftrightarrow>
     vs_tick v = int (length cs) \<and> vs_chain v = map (\<lambda>c. (co_id c, co_tick c)) cs \<and> chained cs \<and>
     (\<forall>c \<in> set cs. co_id c = hash X (commit_json (co_body c)) \<and> cb_tick (co_body c) = co_tick c \<and>
        cb_subject (co_body c) = subject \<and> (\<forall>t. co_body c = Transition t \<longrightarrow> evidenced X st subject c t)) \<and>
     (cs = [] \<longrightarrow> vs_wake v = None) \<and>
     (cs \<noteq> [] \<longrightarrow> vs_head v = co_id (last cs) \<and> vs_memory v = cb_memory (co_body (last cs)) \<and>
        vs_wake v = cb_wake_at (co_body (last cs)) \<and> (\<exists>g. co_body (hd cs) = Genesis g \<and> ge_limits g = lim))"

lemma audited_start: "audited X st subject lim [] replay_start"
  by (simp add: audited_def replay_start_def chained_def)

lemma verify_genesis_Inr:
  "verify_genesis X lim g v = Inr w \<Longrightarrow> ge_limits g = lim \<and> 0 \<le> ge_created_at g \<and>
     w = v\<lparr>vs_wall := ge_created_at g, vs_memory := ge_memory g\<rparr>"
  by (simp add: verify_genesis_def check_time_def res_simps)

lemma verify_transition_Inr:
  assumes "verify_transition X st subject lim h cid t v = Inr w" and "cid = co_id c" and "tr_tick t = vs_tick v"
  shows "tr_parent t = vs_head v \<and> evidenced X st subject c t \<and>
    tr_memory t = write_memory (p_memory (tr_proposal t)) (vs_memory v) \<and> vs_memory w = tr_memory t \<and>
    vs_wake w = tr_wake_at t \<and> vs_wall v \<le> tr_committed_at t \<and> vs_wall w = tr_committed_at t"
proof -
  from assms(1) obtain a disposed wake where parent: "tr_parent t = vs_head v"
    and occ: "verify_occasion_link X st subject v cid t = Inr ()"
    and att: "verify_attempt_link X st subject v t = Inr a" and val: "validate X (tr_proposal t) = Inr ()"
    and em: "(case tr_disposition t of
              None \<Rightarrow> bindR (validate_emission X (tr_emission t) (tr_attempt t) a (proposal_enc (tr_proposal t))) (\<lambda>_. Inr [])
            | Some d \<Rightarrow> bindR (verify_disposition st subject lim t d) (\<lambda>_. Inr [tr_attempt t])) = Inr disposed"
    and mem: "tr_memory t = write_memory (p_memory (tr_proposal t)) (vs_memory v)"
    and times: "verify_times v a t = Inr ()" and wake: "verify_wake lim h t = Inr wake" "tr_wake_at t = wake"
    and w: "w = v\<lparr>vs_memory := tr_memory t, vs_wake := wake, vs_disposed := disposed @ vs_disposed v,
       vs_wall := tr_committed_at t\<rparr>"
    by (auto simp: verify_transition_def Let_def res_simps)
  from occ obtain q where q: "find_occasion st (tr_occasion t) = Some q" "oc_consumed q = Some cid"
    "ev_subject (oc_body q) = subject" "hash X (event_json (oc_body q)) = tr_occasion t"
    by (auto simp: verify_occasion_link_def event_of_def res_simps split: option.splits)
  from att obtain r where r: "find_attempt st (tr_attempt t) = Some r" "at_status r = Committed" "a = at_body r"
    "hash X (admission_json a) = tr_attempt t" "ad_subject a = subject" "ad_parent a = vs_head v"
    "ad_tick a = vs_tick v - 1" "ad_occasion a = tr_occasion t"
    by (auto simp: verify_attempt_link_def Let_def res_simps split: option.splits)
  from times have "ad_admitted_at a \<le> tr_committed_at t" "vs_wall v \<le> tr_committed_at t"
    by (simp_all add: verify_times_def res_simps)
  moreover have "tr_disposition t = None \<Longrightarrow> validate_emission X (tr_emission t) (tr_attempt t) a (proposal_enc (tr_proposal t)) = Inr ()"
    using em by (auto simp: res_simps)
  ultimately have "evidenced X st subject c t"
    using q r val parent assms(2,3) by (simp add: evidenced_def)
  with parent mem w wake \<open>vs_wall v \<le> tr_committed_at t\<close> show ?thesis by simp
qed

lemma chained_single: "co_tick c = 0 \<Longrightarrow> co_body c = Genesis g \<Longrightarrow> chained [c]"
  by (simp add: chained_def link_ok_def)

lemma verify_commit_step:
  assumes "audited X st subject lim cs v" and "verify_commit X st subject lim h c v = Inr w"
  shows "audited X st subject lim (cs @ [c]) w"
proof -
  from assms(2) obtain w0 where hdr: "co_tick c = vs_tick v" "cb_tick (co_body c) = vs_tick v" "cb_subject (co_body c) = subject"
      "hash X (commit_json (co_body c)) = co_id c"
    and w0: "(if vs_tick v = 0
             then (case co_body c of Genesis g \<Rightarrow> verify_genesis X lim g v | Transition t \<Rightarrow> Inl JsonException)
             else (case co_body c of Genesis g \<Rightarrow> Inl (Error ''broken commit parent'')
                   | Transition t \<Rightarrow> verify_transition X st subject lim h (co_id c) t v)) = Inr w0"
    and w: "w = w0\<lparr>vs_head := co_id c, vs_chain := vs_chain v @ [(co_id c, vs_tick v)], vs_tick := vs_tick v + 1\<rparr>"
    by (auto simp: verify_commit_def Let_def res_simps)
  note a = assms(1) [unfolded audited_def]
  show ?thesis
  proof (cases "cs = []")
    case True
    with a w0 obtain g where g: "co_body c = Genesis g" and "verify_genesis X lim g v = Inr w0"
      by (auto split: commit_body.splits if_splits)
    from verify_genesis_Inr [OF this(2)] g True a w hdr show ?thesis
      by (auto simp: audited_def intro: chained_single)
  next
    case False
    with a w0 obtain t where t: "co_body c = Transition t" and vt: "verify_transition X st subject lim h (co_id c) t v = Inr w0"
      by (auto split: commit_body.splits if_splits)
    have "tr_tick t = vs_tick v" using hdr(2) t by simp
    note f = verify_transition_Inr [OF vt refl this]
    have "chained (cs @ [c])"
      using False a f t hdr by (intro chained_snoc [where t = t]) simp_all
    with False a f t hdr w show ?thesis by (auto simp: audited_def)
  qed
qed

lemma verify_commits_audited:
  "verify_commits X st subject lim h ds v = Inr w \<Longrightarrow> audited X st subject lim cs v \<Longrightarrow> audited X st subject lim (cs @ ds) w"
proof (induction ds arbitrary: cs v)
  case (Cons d ds)
  then obtain u where "verify_commit X st subject lim h d v = Inr u" "verify_commits X st subject lim h ds u = Inr w"
    by (auto simp: res_simps)
  with Cons.IH [of u "cs @ [d]"] verify_commit_step Cons.prems(2) show ?case by fastforce
qed simp

lemma verify_impl_Inr:
  assumes "verify_impl X ok st subject cmp = Inr ()"
  obtains r h v where "find_subject st subject = Some r"
    and "load_history \<lparr>bh_seq = [], bh_at = []\<rparr> (attempts_by_seq st subject) = Inr h"
    and "verify_commits X st subject (su_limits r) h (subject_commits st subject) replay_start = Inr v"
    and "verify_rows X st subject (su_limits r) h v (row_snapshot r) = Inr ()"
    and "memory_verify X st subject cmp = Inr ()"
    and "audited X st subject (su_limits r) (subject_commits st subject) v" and "foreign_keys_ok st"
  using assms verify_commits_audited [OF _ audited_start]
  by (auto simp: verify_impl_def res_simps)

lemma verified_projects:
  assumes "verify_impl X ok st subject cmp = Inr ()"
  shows "\<exists>r. find_subject st subject = Some r \<and> projects r (subject_commits st subject) \<and>
    (\<forall>c \<in> set (subject_commits st subject). co_id c = hash X (commit_json (co_body c)) \<and>
       cb_tick (co_body c) = co_tick c \<and> cb_subject (co_body c) = subject \<and>
       (\<forall>t. co_body c = Transition t \<longrightarrow> evidenced X st subject c t))"
proof (rule verify_impl_Inr [OF assms])
  fix r h v
  assume r: "find_subject st subject = Some r" and rows: "verify_rows X st subject (su_limits r) h v (row_snapshot r) = Inr ()"
    and a: "audited X st subject (su_limits r) (subject_commits st subject) v"
  have "vs_tick v > 0 \<and> su_tick r = vs_tick v - 1 \<and> su_head r = vs_head v \<and> su_memory r = vs_memory v \<and> su_wake r = vs_wake v"
    using rows by (simp add: verify_rows_def res_simps)
  with a r show ?thesis by (auto simp: audited_def projects_def)
qed


section \<open>Tamper evidence\<close>

lemma chain_determined:
  assumes "chained cs" and "chained ds" and "cs \<noteq> []" and "ds \<noteq> []" and "co_id (last cs) = co_id (last ds)"
    and "inj_on (\<lambda>b. hash X (commit_json b)) (co_body ` (set cs \<union> set ds))"
    and "\<forall>c \<in> set cs \<union> set ds. co_id c = hash X (commit_json (co_body c)) \<and> cb_tick (co_body c) = co_tick c"
  shows "map co_body cs = map co_body ds"
  using assms
proof (induction cs arbitrary: ds rule: rev_induct)
  case (snoc c cs)
  from snoc.prems(4) obtain es d where ds: "ds = es @ [d]" by (metis rev_exhaust)
  have in_both: "co_body c \<in> co_body ` (set (cs @ [c]) \<union> set ds)" "co_body d \<in> co_body ` (set (cs @ [c]) \<union> set ds)"
    by (simp_all add: ds)
  have mem: "c \<in> set (cs @ [c]) \<union> set ds" "d \<in> set (cs @ [c]) \<union> set ds" by (simp_all add: ds)
  note row = bspec [OF snoc.prems(7) mem(1)] bspec [OF snoc.prems(7) mem(2)]
  have "co_id c = co_id d" using snoc.prems(5) by (simp add: ds)
  with row have "hash X (commit_json (co_body c)) = hash X (commit_json (co_body d))" by metis
  with inj_onD [OF snoc.prems(6) _ in_both] have body: "co_body c = co_body d" by blast
  have "link_ok (cs @ [c]) (length cs)" "link_ok (es @ [d]) (length es)"
    using snoc.prems(1,2) by (simp_all add: chained_def ds)
  then have "co_tick c = int (length cs)" "co_tick d = int (length es)" by (simp_all add: link_ok_def)
  with row body have len: "length cs = length es" by (metis of_nat_eq_iff)
  show ?case
  proof (cases "cs = []")
    case True
    with len body show ?thesis by (simp add: ds)
  next
    case False
    then obtain n where n: "length cs = Suc n" by (cases cs) auto
    have "link_ok (cs @ [c]) (Suc n)" "link_ok (es @ [d]) (Suc n)"
      using snoc.prems(1,2) n len by (auto simp: chained_def ds)
    then obtain t u where "co_body c = Transition t" "tr_parent t = co_id (cs ! n)" "co_body d = Transition u" "tr_parent u = co_id (es ! n)"
      using n len by (auto simp: link_ok_def nth_append)
    moreover have "es \<noteq> []" using n len by auto
    ultimately have "co_id (last cs) = co_id (last es)"
      using body n len False by (simp add: last_conv_nth)
    moreover have "chained cs" "chained es"
      using snoc.prems(1,2) by (simp_all only: chained_def ds length_append) (metis link_ok_append trans_less_add1)+
    moreover have "inj_on (\<lambda>b. hash X (commit_json b)) (co_body ` (set cs \<union> set es))"
      by (rule inj_on_subset [OF snoc.prems(6) image_mono]) (simp add: ds, blast)
    moreover have "set cs \<union> set es \<subseteq> set (cs @ [c]) \<union> set ds" by (auto simp: ds)
    with snoc.prems(7) have "\<forall>c \<in> set cs \<union> set es. co_id c = hash X (commit_json (co_body c)) \<and> cb_tick (co_body c) = co_tick c"
      by (meson subsetD)
    ultimately have "map co_body cs = map co_body es" using snoc.IH False \<open>es \<noteq> []\<close> by blast
    with body show ?thesis by (simp add: ds)
  qed
qed simp

lemma same_history:
  assumes "verify X ok st subject = Inr ()" and "verify X ok' st' subject = Inr ()"
    and "map_option su_head (find_subject st subject) = map_option su_head (find_subject st' subject)"
    and "inj_on (\<lambda>b. hash X (commit_json b))
       (co_body ` (set (subject_commits st subject) \<union> set (subject_commits st' subject)))"
  shows "map co_body (subject_commits st subject) = map co_body (subject_commits st' subject)"
proof -
  from verified_projects [OF assms(1) [unfolded verify_def]] obtain r where r: "find_subject st subject = Some r"
    "projects r (subject_commits st subject)"
    "\<forall>c \<in> set (subject_commits st subject). co_id c = hash X (commit_json (co_body c)) \<and> cb_tick (co_body c) = co_tick c" by blast
  from verified_projects [OF assms(2) [unfolded verify_def]] obtain r' where r': "find_subject st' subject = Some r'"
    "projects r' (subject_commits st' subject)"
    "\<forall>c \<in> set (subject_commits st' subject). co_id c = hash X (commit_json (co_body c)) \<and> cb_tick (co_body c) = co_tick c" by blast
  show ?thesis
    by (rule chain_determined [OF _ _ _ _ _ assms(4)]) (use r r' assms(3) in \<open>auto simp: projects_def\<close>)
qed


section \<open>The full check implies the fast one\<close>

lemma find_key_unique:
  assumes "distinct (map f xs)" and "x \<in> set xs" and "f x = k" and "P x"
  shows "find (\<lambda>y. f y = k \<and> P y) xs = Some x"
  using assms by (induction xs) (auto simp: image_iff)

lemma projects_last_transition:
  assumes "projects r cs" and "0 < su_tick r"
  shows "\<exists>t p. co_body (last cs) = Transition t \<and> p \<in> set cs \<and> co_id p = tr_parent t \<and> co_tick p = su_tick r - 1"
proof -
  obtain n where n: "length cs = Suc (Suc n)"
    using assms by (cases cs; cases "tl cs") (auto simp: projects_def)
  then have "link_ok cs (Suc n)" "link_ok cs n" using assms(1) by (auto simp: projects_def chained_def)
  moreover have "last cs = cs ! Suc n" using n by (cases cs) (auto simp: last_conv_nth)
  moreover have "cs ! n \<in> set cs" "su_tick r = int (Suc n)" using n assms(1) by (auto simp: projects_def)
  ultimately show ?thesis by (auto simp: link_ok_def intro!: bexI [of _ "cs ! n"])
qed

lemma subject_commits_mem: "c \<in> set (subject_commits st s) \<Longrightarrow> c \<in> set (st_commits st) \<and> co_subject c = s"
  by (simp add: subject_commits_def)

text \<open>
  The two checks are consistent: whatever passes the full verification passes the fast
  check of the head, provided the primary keys of the tables are unique and the columns of
  the attempts table repeat what the bodies say.
\<close>

lemma verify_implies_head:
  assumes "verify X ok st subject = Inr ()"
    and "distinct (map co_id (st_commits st))" and "distinct (map at_id (st_attempts st))"
    and "\<forall>a \<in> set (st_attempts st). attempt_ok X a"
  shows "verify_head X st subject = Inr ()"
proof -
  from verified_projects [OF assms(1) [unfolded verify_def]] obtain r where r: "find_subject st subject = Some r"
    and p: "projects r (subject_commits st subject)"
    and all: "\<forall>c \<in> set (subject_commits st subject). co_id c = hash X (commit_json (co_body c)) \<and>
       cb_tick (co_body c) = co_tick c \<and> cb_subject (co_body c) = subject \<and>
       (\<forall>t. co_body c = Transition t \<longrightarrow> evidenced X st subject c t)" by blast
  have row: "head_commit st subject (co_id c) = Some c" if "c \<in> set (subject_commits st subject)" for c
    unfolding head_commit_def
    using subject_commits_mem [OF that] by (intro find_key_unique [OF assms(2)]) auto
  define c where "c = last (subject_commits st subject)"
  have c: "c \<in> set (subject_commits st subject)" using p by (simp add: projects_def c_def)
  have head: "su_head r = co_id c" "su_memory r = cb_memory (co_body c)" "su_wake r = cb_wake_at (co_body c)"
    using p by (simp_all add: projects_def c_def)
  have tick: "co_tick c = su_tick r"
  proof -
    have "link_ok (subject_commits st subject) (length (subject_commits st subject) - 1)"
      using p by (simp add: projects_def chained_def)
    moreover have "0 < length (subject_commits st subject)" using p by (simp add: projects_def)
    ultimately show ?thesis using p by (simp add: link_ok_def projects_def c_def last_conv_nth of_nat_diff)
  qed
  note ok = bspec [OF all c]
  show ?thesis
  proof (cases "0 < su_tick r")
    case False
    then show ?thesis using r row [OF c] head tick ok
      by (simp add: verify_head_def snapshot_def Let_def)
  next
    case True
    from projects_last_transition [OF p True] obtain t q where t: "co_body c = Transition t"
      and q: "q \<in> set (subject_commits st subject)" "co_id q = tr_parent t" "co_tick q = su_tick r - 1"
      unfolding c_def by blast
    from ok t have ev: "evidenced X st subject c t" by blast
    then obtain a where a: "find_attempt st (tr_attempt t) = Some a" "at_status a = Committed"
      "ad_subject (at_body a) = subject" "ad_parent (at_body a) = tr_parent t"
      unfolding evidenced_def by blast
    note mem = find_attempt_Some [OF a(1)]
    have cols: "at_subject a = subject" "at_parent a = tr_parent t"
      using assms(4) mem a by (auto simp: attempt_ok_def)
    have "find (\<lambda>a. at_id a = tr_attempt t \<and> at_subject a = subject) (st_attempts st) = Some a"
      using mem cols by (intro find_key_unique [OF assms(3)]) auto
    then show ?thesis using True r row [OF c] row [OF q(1)] q head tick ok t a cols
      by (simp add: verify_head_def snapshot_def Let_def)
  qed
qed

section \<open>What is read after a verification\<close>

lemma memory_replay_commits: "memory_replay X st subject db cs = Inr raw \<Longrightarrow> replay_commits X subject db cs = Inr raw"
  by (induction cs arbitrary: db) (auto simp: res_simps split: commit_body.splits option.splits)

lemma replay_commits_cong:
  "map co_body cs = map co_body ds \<Longrightarrow> map co_id cs = map co_id ds \<Longrightarrow>
     replay_commits X subject db cs = replay_commits X subject db ds"
proof (induction cs arbitrary: ds db)
  case (Cons c cs)
  then obtain d ds' where d: "ds = d # ds'" "co_body c = co_body d" "co_id c = co_id d"
    "map co_body cs = map co_body ds'" "map co_id cs = map co_id ds'" by (cases ds) auto
  from Cons.IH [OF d(4,5)] show ?case
    by (auto simp: d(1-3) split: commit_body.splits cong: bindR_full_cong)
qed simp

lemma memory_get_of_set:
  assumes "distinct (map me_id (md_entries db))" and "distinct (map me_id (md_entries db'))"
    and "\<forall>e. me_subject e = subject \<longrightarrow> e \<in> set (md_entries db) \<longleftrightarrow> e \<in> set (md_entries db')"
  shows "memory_get db subject i = memory_get db' subject i"
proof -
  have flip: "(\<lambda>e. me_subject e = subject \<and> me_id e = i) = (\<lambda>e. me_id e = i \<and> me_subject e = subject)" by auto
  have one: "find (\<lambda>e. me_id e = i \<and> me_subject e = subject) (md_entries d) = Some e"
    if "find (\<lambda>e. me_id e = i \<and> me_subject e = subject) (md_entries d') = Some e" "distinct (map me_id (md_entries d))"
      and "\<And>e. me_subject e = subject \<Longrightarrow> e \<in> set (md_entries d') \<Longrightarrow> e \<in> set (md_entries d)" for d d' e
  proof -
    from find_Some_mem [OF that(1)] that(3) have "e \<in> set (md_entries d)" "me_id e = i" "me_subject e = subject" by blast+
    then show ?thesis by (intro find_key_unique [OF that(2)])
  qed
  have "find (\<lambda>e. me_id e = i \<and> me_subject e = subject) (md_entries db) = find (\<lambda>e. me_id e = i \<and> me_subject e = subject) (md_entries db')"
    using one [of db' _ db] one [of db _ db'] assms
    by (cases "find (\<lambda>e. me_id e = i \<and> me_subject e = subject) (md_entries db)";
        cases "find (\<lambda>e. me_id e = i \<and> me_subject e = subject) (md_entries db')") auto
  then show ?thesis by (simp add: memory_get_def flip)
qed

lemma verified_index:
  assumes "verify X ok st subject = Inr ()"
  obtains raw where "replay_commits X subject empty_memory (subject_commits st subject) = Inr raw"
    and "index_agrees subject (st_memory st) raw"
  using assms memory_replay_commits
  by (auto simp: verify_def memory_verify_def res_simps elim!: verify_impl_Inr)

text \<open>
  A verified read depends on the head alone: in two databases that both verify for a
  subject with the same head and without a hash collision, \<open>memory_record\<close> returns the
  same deposit for every ID, whatever else the databases hold.
\<close>

lemma verified_reads_agree:
  assumes "verify X ok st subject = Inr ()" and "verify X ok' st' subject = Inr ()"
    and "map_option su_head (find_subject st subject) = map_option su_head (find_subject st' subject)"
    and "inj_on (\<lambda>b. hash X (commit_json b))
       (co_body ` (set (subject_commits st subject) \<union> set (subject_commits st' subject)))"
    and "distinct (map me_id (md_entries (st_memory st)))" and "distinct (map me_id (md_entries (st_memory st')))"
  shows "memory_record X ok st subject i = memory_record X ok' st' subject i"
proof -
  have bodies: "map co_body (subject_commits st subject) = map co_body (subject_commits st' subject)"
    by (rule same_history [OF assms(1-4)])
  have "co_id c = hash X (commit_json (co_body c))"
    if "c \<in> set (subject_commits st subject) \<or> c \<in> set (subject_commits st' subject)" for c
    using that verified_projects [OF assms(1) [unfolded verify_def]] verified_projects [OF assms(2) [unfolded verify_def]] by blast
  then have "map co_id cs = map (\<lambda>b. hash X (commit_json b)) (map co_body cs)"
    if "cs = subject_commits st subject \<or> cs = subject_commits st' subject" for cs
    using that by auto
  with bodies have ids: "map co_id (subject_commits st subject) = map co_id (subject_commits st' subject)" by metis
  obtain raw where raw: "replay_commits X subject empty_memory (subject_commits st subject) = Inr raw"
    "index_agrees subject (st_memory st) raw" by (rule verified_index [OF assms(1)])
  obtain raw' where raw': "replay_commits X subject empty_memory (subject_commits st' subject) = Inr raw'"
    "index_agrees subject (st_memory st') raw'" by (rule verified_index [OF assms(2)])
  have "raw = raw'" using raw(1) raw'(1) replay_commits_cong [OF bodies ids] by simp
  then have "set (sort_key me_id (filter (\<lambda>e. me_subject e = subject) (md_entries (st_memory st)))) =
      set (sort_key me_id (filter (\<lambda>e. me_subject e = subject) (md_entries (st_memory st'))))"
    using raw(2) raw'(2) by (simp only: index_agrees_def)
  then have "\<forall>e. me_subject e = subject \<longrightarrow> e \<in> set (md_entries (st_memory st)) \<longleftrightarrow> e \<in> set (md_entries (st_memory st'))"
    by (auto simp: set_eq_iff)
  from memory_get_of_set [OF assms(5,6) this] assms(1,2) show ?thesis by (simp add: memory_record_def)
qed

section \<open>Rate\<close>

lemma load_history_Inr:
  assumes "load_history h rs = Inr h'"
  shows "bh_seq h' = bh_seq h @ map at_seq rs \<and> bh_at h' = bh_at h @ map at_admitted_at rs \<and>
    (\<forall>r \<in> set rs. 0 \<le> at_admitted_at r) \<and> (sorted (bh_at h) \<longrightarrow> sorted (bh_at h'))"
  using assms
proof (induction rs arbitrary: h)
  case (Cons r rs)
  let ?h = "\<lparr>bh_seq = bh_seq h @ [at_seq r], bh_at = bh_at h @ [at_admitted_at r]\<rparr>"
  from Cons.prems have "load_history ?h rs = Inr h'" and r: "0 \<le> at_admitted_at r"
    "bh_at h = [] \<or> last (bh_at h) \<le> at_admitted_at r" by (auto simp: res_simps)
  note ih = Cons.IH [OF this(1), simplified]
  have "sorted (bh_at h @ [at_admitted_at r])" if "sorted (bh_at h)"
  proof (rule sorted_snoc [OF that], rule ballI)
    fix y assume y: "y \<in> set (bh_at h)"
    then obtain i where "i < length (bh_at h)" "bh_at h ! i = y" by (auto simp: in_set_conv_nth)
    moreover from this have "bh_at h ! i \<le> bh_at h ! (length (bh_at h) - 1)" using that by (intro sorted_nth_mono) auto
    ultimately have "y \<le> last (bh_at h)" using y by (cases "bh_at h = []") (auto simp: last_conv_nth)
    with r(2) y show "y \<le> at_admitted_at r" by auto
  qed
  with ih r show ?case by force
qed simp

lemma verify_attempt_budget:
  assumes "verify_attempt X st subject lim h ck v previous r = Inr t" and "2 \<le> ad_schema (at_body r)"
  shows "\<exists>b. budget_indexed lim h (at_admitted_at r) (at_seq r - 1) = Inr b \<and> bg_eligible_at b \<le> at_admitted_at r"
  using assms by (auto simp: verify_attempt_def verify_admission_replay_def Let_def res_simps)

lemma verify_attempts_each:
  "verify_attempts X st subject lim h ck v previous rs = Inr t \<Longrightarrow> r \<in> set rs \<Longrightarrow>
     \<exists>p u. verify_attempt X st subject lim h ck v p r = Inr u"
  by (induction rs arbitrary: previous) (auto simp: res_simps)

lemma budgets_rate:
  assumes "sorted_wrt (<) (map fst rows)" and "sorted (map snd rows)" and "limits_ok lim" and "\<forall>(s, a) \<in> set rows. 0 \<le> a"
    and "\<forall>(s, a) \<in> set rows. \<exists>b. budget_sql lim rows a (s - 1) = Inr b \<and> bg_eligible_at b \<le> a"
  shows "rate_ok lim rows"
  using assms
proof (induction rows rule: rev_induct)
  case (snoc x xs)
  obtain s a where x: "x = (s, a)" by fastforce
  have later: "\<forall>y \<in> set xs. fst y < s" and times: "\<forall>y \<in> set xs. snd y \<le> a"
    using snoc.prems(1,2) by (auto simp: x sorted_wrt_append)
  have same: "budget_sql lim (xs @ [x]) u (s' - 1) = budget_sql lim xs u (s' - 1)" if "s' \<le> s" for u s'
    by (rule budget_sql_visible_cong) (use that in \<open>simp add: x\<close>)
  have "rate_ok lim xs"
  proof (rule snoc.IH)
    show "\<forall>(s', a') \<in> set xs. \<exists>b. budget_sql lim xs a' (s' - 1) = Inr b \<and> bg_eligible_at b \<le> a'"
      using snoc.prems(5) later same by fastforce
  qed (use snoc.prems in \<open>auto simp: sorted_wrt_append\<close>)
  moreover obtain b where "budget_sql lim xs a (s - 1) = Inr b" "bg_eligible_at b \<le> a"
    using snoc.prems(5) same [of s] by (auto simp: x)
  moreover have "\<forall>(s', a') \<in> set xs. s' \<le> s - 1 \<and> 0 \<le> a' \<and> a' \<le> a"
    using later times snoc.prems(4) by fastforce
  ultimately show ?case unfolding x by (intro rate_ok_admission snoc.prems(3))
qed (simp add: rate_ok_def)

text \<open>
  A verified subject kept its budget: if \<open>verify\<close> succeeds, the stored limits are valid
  and every admission is of a schema that records its budget, then the admissions in the
  table respect the host's interval and quota, whoever wrote them.
\<close>

lemma verified_rate:
  assumes "verify X ok st subject = Inr ()" and "find_subject st subject = Some r" and "limits_ok (su_limits r)"
    and "distinct (map at_seq (subject_attempts st subject))"
    and "\<forall>a \<in> set (subject_attempts st subject). 2 \<le> ad_schema (at_body a)"
  shows "rate_ok (su_limits r) (map (\<lambda>a. (at_seq a, at_admitted_at a)) (attempts_by_seq st subject))"
proof (rule verify_impl_Inr [OF assms(1) [unfolded verify_def]])
  let ?rs = "attempts_by_seq st subject"
  let ?rows = "map (\<lambda>a. (at_seq a, at_admitted_at a)) ?rs"
  fix r' h v
  assume r': "find_subject st subject = Some r'" and "load_history \<lparr>bh_seq = [], bh_at = []\<rparr> ?rs = Inr h"
    and rows: "verify_rows X st subject (su_limits r') h v (row_snapshot r') = Inr ()"
  from load_history_Inr [OF this(2)] have h: "h = \<lparr>bh_seq = map fst ?rows, bh_at = map snd ?rows\<rparr>"
    and pos: "\<forall>a \<in> set ?rs. 0 \<le> at_admitted_at a" and "sorted (bh_at h)"
    by (cases h, simp add: comp_def, simp, metis sorted_wrt.simps(1) budget_history.select_convs(2))
  then have sorted: "sorted (map snd ?rows)" by simp
  have "r' = r" using r' assms(2) by simp
  from rows obtain ck t where "verify_attempts X st subject (su_limits r) h ck v (- 1) ?rs = Inr t"
    by (auto simp: verify_rows_def res_simps \<open>r' = r\<close>)
  from verify_attempts_each [OF this] verify_attempt_budget assms(5)
  have b: "\<exists>b. budget_indexed (su_limits r) h (at_admitted_at a) (at_seq a - 1) = Inr b \<and> bg_eligible_at b \<le> at_admitted_at a"
    if "a \<in> set ?rs" for a using that unfolding attempts_by_seq_def by (metis set_sort)
  have seqs: "sorted_wrt (<) (map fst ?rows)"
    using assms(4) by (simp add: attempts_by_seq_def comp_def strict_sorted_iff distinct_map inj_on_def)
  have "0 < max_attempts (su_limits r)" using assms(3) by (simp add: limits_ok_def)
  from budget_indexed_sql [OF _ sorted this] seqs
  have "budget_indexed (su_limits r) h now through = budget_sql (su_limits r) ?rows now through" for now through
    by (simp add: h strict_sorted_iff)
  with b pos show ?thesis
    by (intro budgets_rate [OF seqs sorted assms(3)]) auto
qed

end
