(* ===== verification/Cogg_Examples.thy ===== *)
theory Cogg_Examples
  imports Cogg_Contract
begin

text \<open>
  The properties of \<open>Cogg_Contract\<close> on the concrete run of \<open>Cogg_Run\<close>, extended by a
  submission, an abstention and failures: their hypotheses hold on real histories, and each
  conclusion is read off at one of them.
\<close>

section \<open>History\<close>

theorem kernel_refines_ledger_witness: "(ledger_step sample_ext)\<^sup>*\<^sup>* empty_store run_created"
  by (rule kernel_refines_ledger [OF by_create [OF run_create]])

lemma run_final_mem: "run_final_subject \<in> set (st_subjects run_committed)"
  by simp

lemma run_final_simps [simp]: "su_id run_final_subject = ''s''" "su_tick run_final_subject = 1"
  "su_limits run_final_subject = default_limits" "su_memory run_final_subject = [(''k'', JNull)]"
  by (simp_all add: run_final_subject_def headed_def) (simp_all add: run_transition_def)

theorem reachable_history_witness:
  "\<exists>cs g. subject_commits run_committed ''s'' = cs \<and> length cs = 2 \<and> co_body (cs ! 0) = Genesis g \<and> ge_limits g = default_limits"
  using reachable_history [OF run_reachable run_final_mem] by auto

lemma run_transition_row: "transition_row sample_ext run_transition \<in> set (st_commits run_committed)"
  by simp

lemma run_transition_body: "co_body (transition_row sample_ext run_transition) = Transition run_transition"
  by (simp add: transition_row_def)

theorem exactly_once_witness:
  "\<exists>a \<in> set (st_attempts run_committed). at_status a = Committed \<and> at_id a = sample_id 0"
  using exactly_once [OF run_reachable run_transition_row run_transition_body] by (auto simp: run_transition_def)

theorem reachable_rate_witness: "rate_ok default_limits (admissions_of run_committed ''s'')"
  using reachable_rate [OF run_reachable run_final_mem] by simp

theorem reachable_index_witness:
  "replay_commits sample_ext ''s'' empty_memory (subject_commits run_committed ''s'') = Inr (memory_of ''s'' run_memory)"
  using reachable_index [OF run_reachable run_final_mem] by simp

section \<open>Settlement\<close>



lemma run_settled: "settled_row run_transition run_attempt \<in> set (st_attempts run_committed)"
  "at_status (settled_row run_transition run_attempt) = Committed" "at_id (settled_row run_transition run_attempt) = sample_id 0"
  by (simp_all add: settled_row_def) (simp_all add: run_transition_def)

theorem settlement_final_witness:
  "fail_scoped sample_ext run_committed (sample_id 0) ''late'' Occasion_Scope 5 = Inr (None, run_committed)"
proof -
  have "later sample_ext run_committed run_committed" by (simp add: later_def)
  from settlement_final [OF run_reachable run_settled(1) _ this] run_settled show ?thesis by simp
qed

theorem admit_effect_witness: "\<exists>a. find_attempt run_admitted (sample_id 0) = Some a \<and> at_parent a = sample_id 0 \<and> at_admitted_at a = 0"
  using admit_effect [OF run_reachable_created run_admit] by auto

section \<open>Submission and scheduling\<close>

definition run_user_event :: event where
  "run_user_event = \<lparr>ev_subject = ''s'', ev_key = ''user:0123456789'', ev_kind = ''external'', ev_payload = JStr ''hi'',
     ev_received_at = 7, ev_parents = [sample_id 0]\<rparr>"

definition run_submitted :: store where
  "run_submitted = run_created\<lparr>st_occasions := st_occasions run_created @ [occasion_for sample_ext run_user_event (sample_id 0) 2],
     st_occasion_seq := 2\<rparr>"

lemma run_submit: "submit sample_ext run_created ''s'' ''0123456789'' (JStr ''hi'') 7 = Inr (sample_id 1, run_submitted)"
proof -
  have "hash sample_ext (event_json run_user_event) = sample_id 1"
    by (simp add: sample_hash_event run_user_event_def)
  moreover have "st_occasion_seq run_created = 1" by (simp add: run_created_def)
  moreover have "ev_key run_event = ''system:created''" "oc_seq (occasion_for sample_ext run_event h n) = n" for h n
    by (simp_all add: run_event_def occasion_for_def)
  ultimately show ?thesis
    by (simp add: submit_def check_time_def check_text_def sample_dump_def snapshot_def enqueue_def Let_def
        max_seq_def max_millis_def run_hash_event sample_id_inject run_submitted_def max_payload_def
        flip: run_user_event_def) (simp add: run_user_event_def occasion_for_def)
qed



section \<open>Abstention, failure and emission\<close>

lemma run_find_attempt: "find_attempt run_admitted (sample_id 0) = Some run_attempt"
  by (simp add: find_attempt_def)

definition run_refusal :: abstention where
  "run_refusal = \<lparr>a_reason = ''refused'', a_detail = []\<rparr>"

lemma run_abstain: "\<exists>i st'. abstain sample_ext run_admitted (sample_id 0) run_refusal (JObj []) = Inr (i, st')"
proof -
  have "abstention_ok run_refusal" by (simp add: abstention_ok_def run_refusal_def reasons_def)
  then have "outcome_json sample_ext (Abstains run_refusal) = Inr (abstention_enc run_refusal)"
    by (simp add: parse_abstention_enc res_simps)
  then show ?thesis
    by (simp add: abstain_def run_dump_small run_find_attempt run_admission_hash Let_def snapshot_def find_subject_def
        del: outcome_json.simps)
qed

theorem abstain_preserves_witness:
  "\<exists>st'. st_commits st' = st_commits run_admitted \<and>
     (\<exists>a. find_attempt st' (sample_id 0) = Some a \<and> at_status a = Abstained)"
proof -
  obtain i st' where "abstain sample_ext run_admitted (sample_id 0) run_refusal (JObj []) = Inr (i, st')"
    using run_abstain by blast
  from abstain_preserves [OF run_reachable_admitted this] show ?thesis by blast
qed

lemma run_fail: "fail_scoped sample_ext run_admitted (sample_id 0) ''down'' Transient 5 =
    Inr (None, mark_failed (sample_id 0) ''down'' run_admitted)"
  by (simp add: fail_scoped_def check_time_def run_find_attempt run_admission_hash)


definition run_execution :: json where
  "run_execution = mk_obj [(''schema'', JStr ''cogg:execution/v1''), (''executor'', JStr ''e''), (''backend'', JStr ''b''),
     (''session'', JStr ''x''), (''capabilities'', mk_obj [(''remote'', JBool True), (''exact_tokens'', JBool True),
       (''checkpoint'', JBool False), (''cancellation'', JBool False)])]"

lemma run_execution_ok: "validate_execution run_execution = Inr ()" "run_execution \<noteq> JNull"
proof -
  have "is_object run_execution" "jsize run_execution = 5" by (simp_all add: run_execution_def mk_obj_access)
  then show "run_execution \<noteq> JNull" by auto
  with \<open>is_object run_execution\<close> \<open>jsize run_execution = 5\<close> show "validate_execution run_execution = Inr ()"
    by (auto simp: validate_execution_def run_execution_def mk_obj_access text_field_def is_flag_def)
qed

definition run_routed :: admission where
  "run_routed = run_admission\<lparr>ad_execution := run_execution\<rparr>"

theorem emission_binding_witness:
  "\<exists>e. make_emission sample_ext \<lparr>att_id = sample_id 0, att_present = run_present\<rparr> run_execution run_proposal (JObj []) = Inr e \<and>
     validate_emission sample_ext e (sample_id 0) run_routed (proposal_enc run_proposal) = Inr ()"
  using emission_binding [of run_routed "\<lparr>att_id = sample_id 0, att_present = run_present\<rparr>" sample_ext run_proposal "JObj []"]
  by (simp add: run_routed_def run_execution_ok run_present_def run_proposal_ok run_dump_small) blast

end
