(* ===== verification/Cogg_Audit_Run.thy ===== *)
theory Cogg_Audit_Run
  imports Cogg_Audit Cogg_Examples
begin

text \<open>
  The verifier on the concrete run of \<open>Cogg_Run\<close>, evaluated check by check, and the
  properties of \<open>Cogg_Audit\<close> there.
\<close>

definition run_history :: budget_history where
  "run_history = \<lparr>bh_seq = [1], bh_at = [0]\<rparr>"

abbreviation run_attempt_row :: attempt_row where
  "run_attempt_row \<equiv> settled_row run_transition run_attempt"

abbreviation run_occasion_row :: occasion_row where
  "run_occasion_row \<equiv> consumed_row sample_ext run_transition (occasion_for sample_ext run_event (sample_id 0) 1)"

abbreviation run_commits :: "commit_row list" where
  "run_commits \<equiv> [genesis_row sample_ext run_genesis, transition_row sample_ext run_transition]"

declare run_hash_event [simp]

lemma run_genesis_simps [simp]:
  "ge_subject run_genesis = ''s''" "ge_limits run_genesis = default_limits" "ge_memory run_genesis = []"
  "ge_created_at run_genesis = 0" "ge_schema run_genesis = 5"
  by (simp_all add: run_genesis_def)

lemma run_event_more [simp]: "ev_parents run_event = [sample_id 0]" "ev_key run_event = ''system:created''"
  by (simp_all add: run_event_def)

lemma run_attempt_occasion [simp]: "at_occasion run_attempt = sample_id 0"
  by (simp add: run_attempt_def attempt_for_def)

lemma run_transition_simps [simp]:
  "tr_subject run_transition = ''s''" "tr_tick run_transition = 1" "tr_memory run_transition = [(''k'', JNull)]"
  "tr_proposal run_transition = run_proposal" "tr_wake_at run_transition = None" "tr_occasion run_transition = sample_id 0"
  "tr_committed_at run_transition = 1000" "tr_attempt run_transition = sample_id 0" "tr_parent run_transition = sample_id 0"
  "tr_schema run_transition = 5" "tr_disposition run_transition = None" "tr_emission run_transition = JNull"
  "tr_inference_elapsed_ms run_transition = None" "tr_wake_plan run_transition = Some run_plan"
  by (simp_all add: run_transition_def)

lemma run_row_simps [simp]:
  "co_id (transition_row sample_ext run_transition) = sample_id (Suc 0)" "co_tick (transition_row sample_ext run_transition) = 1"
  "co_subject (transition_row sample_ext run_transition) = ''s''"
  "co_body (transition_row sample_ext run_transition) = Transition run_transition"
  "co_id (genesis_row sample_ext run_genesis) = sample_id 0" "co_tick (genesis_row sample_ext run_genesis) = 0"
  "co_subject (genesis_row sample_ext run_genesis) = ''s''" "co_body (genesis_row sample_ext run_genesis) = Genesis run_genesis"
  using run_hash_genesis run_transition_hash
  by (simp_all add: transition_row_def genesis_row_def)

lemma run_attempt_row_simps [simp]:
  "at_id run_attempt_row = sample_id 0" "at_status run_attempt_row = Committed" "at_body run_attempt_row = run_admission"
  "at_seq run_attempt_row = 1" "at_subject run_attempt_row = ''s''" "at_admitted_at run_attempt_row = 0"
  "at_parent run_attempt_row = sample_id 0" "at_occasion run_attempt_row = sample_id 0"
  by (simp_all add: settled_row_def)

lemma run_occasion_row_simps [simp]:
  "oc_id run_occasion_row = sample_id 0" "oc_subject run_occasion_row = ''s''" "oc_body run_occasion_row = run_event"
  "oc_key run_occasion_row = ev_key run_event" "oc_kind run_occasion_row = ''created''" "oc_parent run_occasion_row = sample_id 0"
  "oc_consumed run_occasion_row = Some (sample_id (Suc 0))"
  by (simp_all add: consumed_row_def occasion_for_def run_hash_event) 

lemma run_subject_commits: "subject_commits run_committed ''s'' = run_commits"
  by (simp add: subject_commits_def)

lemma run_attempts_by_seq: "attempts_by_seq run_committed ''s'' = [run_attempt_row]"
  by (simp add: attempts_by_seq_def subject_attempts_def)

lemma run_find_rows: "find_attempt run_committed (sample_id 0) = Some run_attempt_row"
  "find_occasion run_committed (sample_id 0) = Some run_occasion_row" "find_subject run_committed ''s'' = Some run_final_subject"
  by (simp_all add: find_attempt_def find_occasion_def find_subject_def)

lemma run_event_of: "event_of sample_ext run_committed (sample_id 0) = Inr run_event"
  by (simp add: event_of_def run_find_rows run_hash_event)

lemma run_budget_indexed:
  "budget_indexed default_limits run_history 1000 1 = Inr (wp_budget run_plan)"
  "budget_indexed default_limits run_history 0 0 = Inr run_budget"
  by (simp_all add: budget_indexed_def run_history_def upper_bound_def budget_lower_def budget_cap_def default_limits_def
      budget_result_def add_time_def max_millis_def run_plan_def run_budget_def)

definition run_replay0 :: replay where
  "run_replay0 = replay_start\<lparr>vs_head := sample_id 0, vs_chain := [(sample_id 0, 0)], vs_tick := 1\<rparr>"

definition run_replay1 :: replay where
  "run_replay1 = \<lparr>vs_memory = [(''k'', JNull)], vs_wake = None, vs_head = sample_id (Suc 0), vs_tick = 2,
     vs_chain = [(sample_id 0, 0), (sample_id (Suc 0), 1)], vs_disposed = [], vs_wall = 1000\<rparr>"

lemma run_in_chain [simp]: "in_chain run_replay0 (sample_id 0)" "in_chain run_replay1 (sample_id 0)"
  "in_chain run_replay1 (sample_id (Suc 0))"
  by (simp_all add: in_chain_def run_replay0_def run_replay1_def)

lemma run_validate: "validate sample_ext run_proposal = Inr ()"
  using run_proposal_ok by (simp add: res_simps)

lemma run_verify_genesis:
  "verify_commit sample_ext run_committed ''s'' default_limits run_history (genesis_row sample_ext run_genesis) replay_start =
     Inr run_replay0"
proof -
  have "verify_genesis sample_ext default_limits run_genesis replay_start = Inr replay_start"
    by (simp add: verify_genesis_def check_time_def sample_dump_def) (simp add: replay_start_def)
  moreover have "vs_tick replay_start = 0" "vs_chain replay_start = []" by (simp_all add: replay_start_def)
  ultimately show ?thesis
    using run_hash_genesis by (simp add: verify_commit_def run_replay0_def)
qed

lemma run_verify_transition:
  "verify_commit sample_ext run_committed ''s'' default_limits run_history (transition_row sample_ext run_transition) run_replay0 =
     Inr run_replay1"
proof -
  have wm: "write_memory (p_memory run_proposal) [] = [(''k'', JNull)]"
    by (simp add: write_memory_def run_proposal_def)
  have wp: "wake_plan default_limits (p_wake_after_ms run_proposal) 1000 (wp_budget run_plan) = Inr run_plan"
    by (simp add: wake_plan_def run_proposal_def default_proposal_def) (simp add: run_plan_def)
  have wk: "verify_wake default_limits run_history run_transition = Inr None"
    using run_budget_indexed(1) wp by (simp add: verify_wake_def) (simp add: run_plan_def)
  have em: "validate_emission sample_ext JNull (sample_id 0) run_admission j = Inr ()" for j
    by (simp add: validate_emission_def validate_execution_def)
  have ol: "verify_occasion_link sample_ext run_committed ''s'' run_replay0 (sample_id (Suc 0)) run_transition = Inr ()"
    by (simp add: verify_occasion_link_def run_event_of run_find_rows)
  have al: "verify_attempt_link sample_ext run_committed ''s'' run_replay0 run_transition = Inr run_admission"
    by (simp add: verify_attempt_link_def run_find_rows run_admission_hash run_replay0_def)
  have tm: "verify_times run_replay0 run_admission run_transition = Inr ()"
    by (simp add: verify_times_def run_replay0_def replay_start_def)
  have v: "vs_head run_replay0 = sample_id 0" "vs_tick run_replay0 = 1" "vs_memory run_replay0 = []" "vs_disposed run_replay0 = []"
    "vs_chain run_replay0 = [(sample_id 0, 0)]"
    by (simp_all add: run_replay0_def replay_start_def)
  show ?thesis
    using run_transition_hash
    by (simp add: verify_commit_def Let_def verify_transition_def v ol al run_validate em wm tm wk)
      (simp add: run_replay0_def replay_start_def run_replay1_def)
qed

lemma run_foreign_keys: "foreign_keys_ok run_committed"
  by (simp add: foreign_keys_ok_def run_memory_def run_entry_def)

lemma run_verify_occasion: "verify_occasion sample_ext ''s'' run_replay1 run_occasion_row = Inr ()"
  by (simp add: verify_occasion_def)

lemma run_verify_attempt:
  "verify_attempt sample_ext run_committed ''s'' default_limits run_history (clock_json (sample_id 0)) run_replay1 (- 1) run_attempt_row = Inr 0"
proof -
  have a: "ad_schema run_admission = 5" "ad_inputs run_admission = JArr []" "te_clock (ad_temporal run_admission) = clock_json (sample_id 0)"
    "te_coordinate (ad_temporal run_admission) = 0" "sc_budget (te_admission (ad_temporal run_admission)) = run_budget"
    by (simp_all add: run_admission_def admission_body_def run_present_def run_decision_def decide_def)
  have i: "validate_inputs sample_ext (JArr []) = Inr ()" by (simp add: validate_inputs_def sample_dump_def)
  have b: "bg_eligible_at run_budget = 0" by (simp add: run_budget_def)
  have ab: "verify_abstention sample_ext run_committed ''s'' run_attempt_row = Inr ()"
    by (simp add: verify_abstention_def)
  have rp: "verify_admission_replay default_limits run_history (clock_json (sample_id 0)) run_replay1 run_attempt_row run_event = Inr ()"
    by (simp add: verify_admission_replay_def Let_def a run_budget_indexed b) (simp add: run_replay1_def)
  show ?thesis
    by (simp add: verify_attempt_def Let_def run_admission_hash validate_execution_def a i run_event_of ab rp)
qed

lemma run_memory_verify: "memory_verify sample_ext run_committed ''s'' True = Inr ()"
proof -
  have n: "p_notes run_proposal = [sample_task ''open'']" by (simp add: run_proposal_def)
  have "memory_replay sample_ext run_committed ''s'' empty_memory run_commits = Inr run_memory"
    by (simp add: run_validate run_find_rows memory_transition_def n run_memory_apply memory_capacity_def)
  then show ?thesis
    by (simp add: memory_verify_def run_subject_commits run_attempts_by_seq index_agrees_def verify_context_def)
qed

lemma run_verify: "verify sample_ext True run_committed ''s'' = Inr ()"
proof -
  have h: "load_history \<lparr>bh_seq = [], bh_at = []\<rparr> [run_attempt_row] = Inr run_history"
    by (simp add: run_history_def)
  have f: "su_head run_final_subject = sample_id (Suc 0)" "su_wake run_final_subject = None" "su_accounting_wall run_final_subject = 1000"
    by (simp_all add: run_final_subject_def headed_def)
  have ck: "clock run_committed ''s'' = Inr (clock_json (sample_id 0))" by (simp add: clock_def)
  have v: "vs_tick run_replay1 = 2" "vs_head run_replay1 = sample_id (Suc 0)" "vs_memory run_replay1 = [(''k'', JNull)]"
    "vs_wake run_replay1 = None" "vs_wall run_replay1 = 1000" by (simp_all add: run_replay1_def)
  have rows: "verify_rows sample_ext run_committed ''s'' default_limits run_history run_replay1 (row_snapshot run_final_subject) = Inr ()"
    by (simp add: verify_rows_def v f ck run_verify_occasion run_attempts_by_seq run_verify_attempt verify_failures_def
        accounting_wall_def run_find_rows)
  show ?thesis
    by (simp add: verify_def verify_impl_def run_foreign_keys snapshot_def config_def run_find_rows run_attempts_by_seq h
        run_subject_commits run_verify_genesis run_verify_transition rows run_memory_verify flip: run_history_def)
qed


lemma run_ids_differ [simp]: "sample_id 0 \<noteq> sample_id (Suc 0)" "sample_id (Suc 0) \<noteq> sample_id 0"
  using sample_id_inject [of 0 "Suc 0"] by auto

lemma run_body_hashes: "hash sample_ext (genesis_json run_genesis) = sample_id 0"
  "hash sample_ext (transition_json run_transition) = sample_id (Suc 0)"
  using run_hash_genesis run_transition_hash by simp_all


theorem verify_implies_head_witness: "verify_head sample_ext run_committed ''s'' = Inr ()"
proof (rule verify_implies_head [OF run_verify])
  show "distinct (map co_id (st_commits run_committed))" "distinct (map at_id (st_attempts run_committed))"
    by simp_all
  show "\<forall>a \<in> set (st_attempts run_committed). attempt_ok sample_ext a"
    using rows.reachable [OF run_reachable] by (simp add: rows_inv_def)
qed

theorem verified_reads_agree_witness:
  "memory_record sample_ext True run_committed ''s'' (sample_id 64) = memory_record sample_ext True run_committed ''s'' (sample_id 64)"
  by (rule verified_reads_agree [OF run_verify run_verify refl])
    (simp_all add: run_subject_commits run_body_hashes, simp_all add: run_memory_def)

theorem verified_rate_witness: "rate_ok default_limits [(1, 0)]"
proof -
  have "limits_ok (su_limits run_final_subject)" by (simp add: default_limits_ok)
  from verified_rate [OF run_verify run_find_rows(3) this] show ?thesis
    by (simp add: run_attempts_by_seq subject_attempts_def) (simp add: run_admission_def admission_body_def)
qed

end
