(* ===== verification/Cogg_Runtime_Run.thy ===== *)
theory Cogg_Runtime_Run
  imports Cogg_Runtime Cogg_Queries Cogg_Audit_Run
begin

text \<open>
  The properties of \<open>Cogg_Runtime\<close> and \<open>Cogg_Queries\<close> on the concrete run of \<open>Cogg_Run\<close>:
  a step whose executor is unreachable, and the pages of the committed history.
\<close>

section \<open>An outage\<close>

definition run_down :: backend where
  "run_down = \<lparr>be_name = ''backend'', be_policy = None, be_fits = \<lambda>_. True,
     be_respond = \<lambda>_ _. Inl (BackendFailure Transport ''unreachable''), be_telemetry = Inr (JObj []),
     be_committed = \<lambda>_ _. Inr ()\<rparr>"

definition run_readings :: readings where
  "run_readings = \<lparr>rd_duration = 5, rd_commit_wall = Inr 1000, rd_settle_wall = Inr 5, rd_cancelled = False,
     rd_json_what = ''json''\<rparr>"

definition run_offer :: attempt where
  "run_offer = \<lparr>att_id = sample_id 0, att_present = run_present\<rparr>"

definition run_failed :: store where
  "run_failed = mark_failed (sample_id 0) ''transport_failed'' run_admitted"

definition run_report :: step_result where
  "run_report = waiting_result\<lparr>sr_attempt := sample_id 0, sr_error := ''transport_failed'', sr_status := ''transport_failed'',
     sr_exception := Some (BackendFailure Transport ''unreachable'')\<rparr>"

lemma run_respond: "respond sample_ext run_down run_offer 1000 = Inl (BackendFailure Transport ''unreachable'')"
  by (simp add: respond_def run_down_def)

lemma run_outage: "execute_attempt sample_ext None run_readings run_down run_admitted run_offer JNull 1000 None True False =
    (Inr run_report, run_failed)"
proof -
  have a: "answered sample_ext run_readings True run_down run_offer 1000 =
      (Participates default_proposal, ''transport_failed'', Transient, Some (BackendFailure Transport ''unreachable''))"
    by (simp add: answered_def run_respond classify_def failure_scope_def)
  have f: "fail_scoped sample_ext run_admitted (sample_id 0) ''transport_failed'' Transient 5 = Inr (None, run_failed)"
    by (simp add: fail_scoped_def check_time_def run_find_attempt run_admission_hash run_failed_def)
  have "settle_failure sample_ext run_readings run_admitted (waiting_result\<lparr>sr_attempt := sample_id 0\<rparr>) ''transport_failed'' Transient =
      (Inr (waiting_result\<lparr>sr_attempt := sample_id 0, sr_error := ''transport_failed'', sr_status := ''transport_failed''\<rparr>), run_failed)"
    by (simp add: settle_failure_def run_readings_def f)
  with a show ?thesis
    by (simp add: execute_attempt_def) (simp add: run_readings_def run_offer_def run_report_def)
qed


theorem outage_preserves_witness: "st_occasions run_failed = st_occasions run_admitted \<and> st_failures run_failed = []"
  using outage_preserves [OF run_outage run_respond] by simp

definition run_runtime :: runtime where
  "run_runtime = new_runtime\<lparr>rn_verified := [''s'']\<rparr>"

lemma run_run_step: "run_step sample_ext True None run_readings (\<lambda>u. u) ''m'' run_down run_created run_runtime ''s'' 0 JNull 1000 True =
    (Inr (Some run_report), remember run_report run_runtime, run_failed)"
proof -
  have admit: "admit sample_ext run_created ''s'' (be_name run_down) 0 (be_policy run_down) (Some (be_fits run_down)) JNull JNull ''m'' =
      Inr (Some run_offer, run_admitted)"
    using run_admit_fits [of "Some (\<lambda>_. True)"] by (simp add: run_down_def run_offer_def)
  have "verify_once sample_ext True run_created ''s'' (run_runtime\<lparr>rn_abstention := None, rn_disposed := None, rn_maintenance := []\<rparr>) = Inr run_runtime"
    by (simp add: verify_once_def run_runtime_def new_runtime_def)
  with admit show ?thesis by (simp add: run_step_def run_outage)
qed

theorem runtime_settles_witness: "\<exists>a. find_attempt run_failed (sample_id 0) = Some a \<and> at_status a \<noteq> Reserved"
proof -
  have "admit sample_ext run_created ''s'' (be_name run_down) 0 (be_policy run_down) (Some (be_fits run_down)) JNull JNull ''m'' =
      Inr (Some run_offer, run_admitted)"
    using run_admit_fits [of "Some (\<lambda>_. True)"] by (simp add: run_down_def run_offer_def)
  with runtime_settles [OF run_reachable_created later_refl run_run_step] show ?thesis by (auto simp: run_offer_def)
qed

theorem unnamed_failure_answers_witness:
  "execute_attempt sample_ext None run_readings (run_down\<lparr>be_respond := \<lambda>_ _. Inl (StdException [])\<rparr>) run_admitted run_offer JNull 1000 None False False =
   execute_attempt sample_ext None run_readings (run_down\<lparr>be_respond := \<lambda>_ _. Inr (Participates default_proposal)\<rparr>) run_admitted run_offer JNull 1000 None False False"
  using unnamed_failure_answers [of "run_down\<lparr>be_respond := \<lambda>_ _. Inl (StdException [])\<rparr>" run_offer 1000 sample_ext] by simp

section \<open>Pages\<close>


theorem history_pages_complete_witness:
  "read_history 3 run_committed ''s'' (- 1) 1 (su_head run_final_subject) =
     Inr [(sample_id 0, Genesis run_genesis), (sample_id (Suc 0), Transition run_transition)]"
proof -
  have "read_history (nat (su_tick run_final_subject) + 2) run_committed ''s'' (- 1) 1 (su_head run_final_subject) =
      Inr (map (\<lambda>c. (co_id c, co_body c)) (subject_commits run_committed ''s''))"
    by (rule history_pages_complete [OF run_reachable run_find_rows(3)]) simp_all
  moreover have "nat (su_tick run_final_subject) + 2 = 3" by simp
  ultimately show ?thesis by (simp only: run_subject_commits list.map run_row_simps)
qed

theorem task_pages_complete_witness:
  "\<exists>es. read_tasks 2 run_committed ''s'' [] 1 = Inr (map me_body es) \<and> set es = {run_entry}"
proof -
  have t: "{e \<in> set (md_entries (st_memory run_committed)). me_subject e = ''s'' \<and> me_current e \<and>
      n_type (de_note (me_body e)) = ''task'' \<and> n_status (de_note (me_body e)) = ''open''} = {run_entry}"
    by (auto simp: run_memory_def run_entry_def sample_task_def)
  have n: "Suc (length (md_entries (st_memory run_committed))) = 2" by (simp add: run_memory_def)
  from task_pages_complete [OF run_reachable run_find_rows(3), of 1] show ?thesis unfolding t n by auto
qed

end
