(* ===== verification/Cogg_Routing_Run.thy ===== *)
theory Cogg_Routing_Run
  imports Cogg_Routing Cogg_Runtime_Run
begin

text \<open>
  The properties of \<open>Cogg_Routing\<close> on a concrete registry: a route over a disabled
  executor and one whose factory fails.
\<close>

definition no_caps :: capabilities where
  "no_caps = \<lparr>cap_remote = False, cap_exact_tokens = False, cap_checkpoint = False, cap_cancellation = False\<rparr>"

definition run_registry :: registry where
  "run_registry = \<lparr>rg_entries = [(''d'', \<lparr>en_caps = no_caps, en_enabled = False\<rparr>), (''e'', \<lparr>en_caps = no_caps, en_enabled = True\<rparr>)],
     rg_sessions = [], rg_max_sessions = 4\<rparr>"

definition run_route :: route where
  "run_route = \<lparr>rt_executors = [''d'', ''e''], rt_allow_remote = False, rt_require_exact_tokens = False,
     rt_require_checkpoint = False, rt_require_cancellation = False, rt_timeout_ms = 60000, rt_attempt_timeout_ms = 30000,
     rt_context = JNull\<rparr>"

definition run_turn :: turn where
  "run_turn = \<lparr>tu_cancelled = False, tu_elapsed = 1, tu_made = Inl (Error ''no model file''), tu_session = Inr (sample_id 7),
     tu_ready_cancelled = False, tu_ready_elapsed = 2, tu_before = \<lambda>u. u, tu_between = \<lambda>u. u, tu_admit_wall = Inr 0,
     tu_nonce = ''m'', tu_start = 3, tu_execute_wall = Inr 0, tu_during = \<lambda>u. u, tu_readings = run_readings,
     tu_after_elapsed = 9\<rparr>"

definition run_result :: route_result where
  "run_result = finished ''exhausted'' [plain_note ''d'' None ''disabled'', plain_note ''e'' None ''executor_unavailable'']"

lemma run_route_step:
  "route_step sample_ext True None ''s'' run_route 0 (\<lambda>_. run_turn) 10 [''s''] run_registry run_created =
     (Inr run_result, [''s''], run_registry, run_created)"
proof -
  have d: "route_turn sample_ext None ''s'' h run_route run_turn ''d'' run_registry run_created [] =
      (Inr (Go [plain_note ''d'' None ''disabled'']), run_registry, run_created)" for h
    by (simp add: route_turn_def run_turn_def run_route_def run_registry_def skip_reason_def)
  have e: "route_turn sample_ext None ''s'' h run_route run_turn ''e'' run_registry run_created ns =
      (Inr (Go (ns @ [plain_note ''e'' None ''executor_unavailable''])), run_registry, run_created)" for h ns
    by (simp add: route_turn_def run_turn_def run_route_def run_registry_def skip_reason_def no_caps_def open_session_def)
  have l: "route_limits_ok run_route 0" "rt_executors run_route = [''d'', ''e'']" "rt_context run_route = JNull" "rt_timeout_ms run_route = 60000"
    "fst ` set (rg_entries run_registry) = {''d'', ''e''}"
    by (simp_all add: route_limits_ok_def run_route_def max_millis_def run_registry_def)
  have s: "snapshot run_created ''s'' = Inr (row_snapshot run_subject)" by (simp add: snapshot_def)
  have v: "validate_admission_context sample_ext JNull = Inr ()" by (simp add: validate_admission_context_def)
  show ?thesis
    unfolding route_step_def l v by (simp add: l s d e Let_def run_result_def)
qed

theorem route_respects_policy_witness:
  "map no_executor (rr_attempts run_result) = take 2 [''d'', ''e'']"
proof -
  have "length (rr_attempts run_result) = 2" by (simp add: run_result_def)
  with route_respects_policy [OF run_route_step] show ?thesis by (simp add: run_route_def Let_def)
qed

theorem route_commits_once_witness: "rr_snapshot run_result = None"
proof -
  have "\<forall>j::nat. turn_quiet ((\<lambda>_. run_turn) j)" by (simp add: turn_quiet_def run_turn_def)
  from route_commits_once [OF run_reachable_created this run_route_step] show ?thesis by (simp add: run_result_def)
qed

theorem registry_invariant_witness:
  "\<exists>rg. registry_add \<lparr>rg_entries = [], rg_sessions = [], rg_max_sessions = 4\<rparr> ''e'' no_caps True = Inr rg \<and> registry_ok rg"
proof -
  let ?rg0 = "\<lparr>rg_entries = [], rg_sessions = [], rg_max_sessions = 4\<rparr>"
  have "new_registry 4 = Inr ?rg0" by (simp add: new_registry_def)
  then have "registry_history sample_ext ?rg0" by (rule made)
  moreover have "executor_id_ok ''e''" by (simp add: executor_id_ok_def executor_char_def less_eq_char_def)
  then obtain rg where rg: "registry_add ?rg0 ''e'' no_caps True = Inr rg" by (simp add: registry_add_def)
  ultimately have "registry_history sample_ext rg" by (rule_tac added)
  from registry_invariant [OF this] rg show ?thesis by blast
qed

end
