(* ===== verification/Cogg_Checkpoint.thy ===== *)
theory Cogg_Checkpoint
  imports Cogg_Types
begin

unbundle bit_operations_syntax

text \<open>
  The checkpoint file of \<^verbatim>\<open>src/checkpoint.cpp\<close>: the framed, checksummed format and
  the protocol that replaces the file atomically. The file system is a map from paths to
  nodes; the outcome of every system call and of every call of the hook is an argument, and
  writing returns all the states the disk goes through, so that a crash is a choice of one
  of them. The JSON parser is the argument \<open>parse\<close>.
\<close>

section \<open>Bytes and integers\<close>

type_synonym octets = "8 word list"

definition octets :: "string \<Rightarrow> octets" where
  "octets s = map (\<lambda>c. word_of_nat (of_char c)) s"

definition text_of_octets :: "octets \<Rightarrow> string" where
  "text_of_octets b = map (\<lambda>w. char_of (unat w)) b"

definition put_u64 :: "64 word \<Rightarrow> octets" where
  "put_u64 v = map (\<lambda>i. ucast (drop_bit (8 * i) v)) [0..<8]"

definition get_u64 :: "octets \<Rightarrow> 64 word" where
  "get_u64 bs = foldl (\<lambda>r i. r OR push_bit (8 * i) (ucast (bs ! i))) 0 [0..<8]"

section \<open>The format\<close>

record checkpoint =
  cp_metadata :: json
  cp_state :: octets

definition max_metadata :: nat where
  "max_metadata = 1048576"

definition magic :: octets where
  "magic = [0x43, 0x4F, 0x47, 0x47, 0x4B, 0x56, 0, 1]"

definition prefix_size :: nat where
  "prefix_size = 88"

definition digest_of :: "ext \<Rightarrow> octets \<Rightarrow> octets res" where
  "digest_of X b = (let d = x_sha256 X (text_of_octets b) in
     require (length d = 32) ''checkpoint hashing failed'' (Inr d))"

definition prefix_of :: "octets \<Rightarrow> octets \<Rightarrow> octets \<Rightarrow> octets \<Rightarrow> octets" where
  "prefix_of header state mh sh =
     magic @ put_u64 (word_of_nat (length header)) @ put_u64 (word_of_nat (length state)) @ mh @ sh"

definition decode_checkpoint :: "(string \<Rightarrow> json res) \<Rightarrow> ext \<Rightarrow> octets \<Rightarrow> nat \<Rightarrow> checkpoint res" where
  "decode_checkpoint parse X b mx =
     require (length b \<ge> prefix_size) ''truncated checkpoint header'' (
     require (take 8 b = magic) ''unsupported checkpoint format'' (
     let header_size = unat (get_u64 (take 8 (drop 8 b))); state_size = unat (get_u64 (take 8 (drop 16 b))) in
     require (mx \<le> 4294967296 \<and> state_size > 0 \<and> state_size \<le> mx) ''checkpoint state exceeds byte limit'' (
     require (header_size > 0 \<and> header_size \<le> max_metadata) ''checkpoint metadata exceeds byte limit'' (
     require (length b = prefix_size + header_size + state_size) ''checkpoint length mismatch'' (
     let header = take header_size (drop prefix_size b); state = drop (prefix_size + header_size) b in
     bindR (digest_of X header) (\<lambda>mh.
     require (take 32 (drop 24 b) = mh) ''checkpoint metadata checksum mismatch'' (
     bindR (parse (text_of_octets header)) (\<lambda>m.
     require (is_object m) ''invalid checkpoint metadata'' (
     bindR (digest_of X state) (\<lambda>sh.
     require (take 32 (drop 56 b) = sh) ''checkpoint state checksum mismatch''
       (Inr \<lparr>cp_metadata = m, cp_state = state\<rparr>)))))))))))"

section \<open>The file system\<close>

datatype node = Regular octets | Symbolic_Link | Other_Node

type_synonym disk = "string \<Rightarrow> node option"

definition read_checkpoint :: "(string \<Rightarrow> json res) \<Rightarrow> ext \<Rightarrow> disk \<Rightarrow> string \<Rightarrow> nat \<Rightarrow> checkpoint option res" where
  "read_checkpoint parse X d path mx =
     (case d path of
        None \<Rightarrow> Inr None
      | Some Symbolic_Link \<Rightarrow> Inl (Error ''checkpoint open failed'')
      | Some Other_Node \<Rightarrow> Inl (Error ''checkpoint is not a regular file'')
      | Some (Regular b) \<Rightarrow> bindR (decode_checkpoint parse X b mx) (\<lambda>c. Inr (Some c)))"

datatype checkpoint_point = After_Header | After_File_Sync | After_Rename | After_Directory_Sync

datatype action = Open_Directory | Make_Temporary | Set_Close_On_Exec | Write_Bytes octets | At checkpoint_point |
  Sync_File | Rename_File | Sync_Directory

text \<open>The states the disk passes through during an action; a write may stop after any
  number of bytes.\<close>

fun content :: "node option \<Rightarrow> octets" where
  "content (Some (Regular b)) = b"
| "content _ = []"

fun visit :: "string \<Rightarrow> string \<Rightarrow> action \<Rightarrow> disk \<Rightarrow> disk list" where
  "visit tmp path Make_Temporary d = [d(tmp \<mapsto> Regular [])]"
| "visit tmp path (Write_Bytes bs) d = map (\<lambda>k. d(tmp \<mapsto> Regular (content (d tmp) @ take k bs))) [0..<Suc (length bs)]"
| "visit tmp path Rename_File d = [d(path := d tmp, tmp := None)]"
| "visit tmp path _ d = [d]"

text \<open>\<open>fault a\<close> is the exception raised at action \<open>a\<close>, if any. The result is that exception,
  whether the rename has happened, and the states visited.\<close>

fun perform :: "(action \<Rightarrow> error option) \<Rightarrow> string \<Rightarrow> string \<Rightarrow> action list \<Rightarrow> disk \<Rightarrow> bool \<Rightarrow> error option \<times> bool \<times> disk list" where
  "perform fault tmp path [] d renamed = (None, renamed, [d])"
| "perform fault tmp path (a # as) d renamed =
     (case fault a of
        Some e \<Rightarrow> (Some e, renamed, (case a of Write_Bytes bs \<Rightarrow> visit tmp path a d | _ \<Rightarrow> [d]))
      | None \<Rightarrow>
          (case perform fault tmp path as (last (visit tmp path a d)) (renamed \<or> a = Rename_File) of
             (r, renamed', ds) \<Rightarrow> (r, renamed', d # visit tmp path a d @ ds)))"

definition write_checkpoint ::
    "ext \<Rightarrow> (action \<Rightarrow> error option) \<Rightarrow> string \<Rightarrow> disk \<Rightarrow> string \<Rightarrow> checkpoint \<Rightarrow> nat \<Rightarrow> unit res \<times> disk list" where
  "write_checkpoint X fault tmp d path cp mx =
     (case require (mx \<le> 4294967296 \<and> cp_state cp \<noteq> [] \<and> length (cp_state cp) \<le> mx) ''checkpoint state exceeds byte limit'' (
           require (is_object (cp_metadata cp)) ''invalid checkpoint metadata'' (
           let header = octets (x_dump X (cp_metadata cp)) in
           require (header \<noteq> [] \<and> length header \<le> max_metadata) ''checkpoint metadata exceeds byte limit'' (
           bindR (digest_of X header) (\<lambda>mh. bindR (digest_of X (cp_state cp)) (\<lambda>sh. Inr (header, mh, sh)))))) of
        Inl e \<Rightarrow> (Inl e, [d])
      | Inr (header, mh, sh) \<Rightarrow>
        (case fault Open_Directory of Some e \<Rightarrow> (Inl e, [d]) | None \<Rightarrow>
        (case fault Make_Temporary of Some e \<Rightarrow> (Inl e, [d]) | None \<Rightarrow>
         let d1 = d(tmp \<mapsto> Regular []) in
         (case perform fault tmp path [Set_Close_On_Exec, Write_Bytes (prefix_of header (cp_state cp) mh sh), Write_Bytes header,
              At After_Header, Write_Bytes (cp_state cp), Sync_File, At After_File_Sync, Rename_File, At After_Rename,
              Sync_Directory, At After_Directory_Sync] d1 False of
            (None, _, ds) \<Rightarrow> (Inr (), d # ds)
          | (Some e, True, ds) \<Rightarrow> (Inl e, d # ds)
          | (Some e, False, ds) \<Rightarrow> (Inl e, d # ds @ [(last ds)(tmp := None)])))))"

section \<open>Paths\<close>

definition join_path :: "string \<Rightarrow> string \<Rightarrow> string" where
  "join_path dir name = (if dir = [] \<or> last dir = CHR ''/'' then dir @ name else dir @ ''/'' @ name)"

definition checkpoint_path :: "ext \<Rightarrow> string \<Rightarrow> string \<Rightarrow> string res" where
  "checkpoint_path X dir subject =
     bindR (digest_of X (octets subject)) (\<lambda>d. Inr (join_path dir (hex d @ ''.coggkv'')))"

definition namespaced_path :: "ext \<Rightarrow> string \<Rightarrow> string \<Rightarrow> string \<Rightarrow> string \<Rightarrow> string res" where
  "namespaced_path X dir subject origin executor =
     require (origin \<noteq> [] \<and> executor \<noteq> []) ''checkpoint namespace requires origin and executor''
       (checkpoint_path X dir (x_dump X (JArr [JStr ''cogg-cache/v2'', JStr subject, JStr origin, JStr executor])))"

section \<open>Codecs\<close>

lemma octets_length [simp]: "length (octets s) = length s" "length (text_of_octets b) = length b"
  by (simp_all add: octets_def text_of_octets_def)

lemma text_of_octets_octets [simp]: "text_of_octets (octets s) = s"
proof -
  have "char_of (unat (word_of_nat (of_char c) :: 8 word)) = c" for c
  proof -
    have "unat (word_of_nat (of_char c) :: 8 word) = of_char c" by (simp add: unsigned_of_nat take_bit_eq_mod)
    then show ?thesis by simp
  qed
  then show ?thesis by (induction s) (simp_all add: octets_def text_of_octets_def)
qed

lemma octets_text_of_octets [simp]: "octets (text_of_octets b) = b"
proof -
  have "word_of_nat (of_char (char_of (unat w) :: char)) = w" for w :: "8 word"
  proof -
    have "unat w < 256" using unsigned_less [of w] by simp
    then show ?thesis by simp
  qed
  then show ?thesis by (induction b) (simp_all add: octets_def text_of_octets_def)
qed

lemma put_u64_length [simp]: "length (put_u64 v) = 8"
  by (simp add: put_u64_def)

lemma bit_piece:
  fixes b :: "8 word"
  assumes "q < 8" and "i < 8" and "r < 8"
  shows "bit (push_bit (8 * i) (ucast b :: 64 word)) (8 * q + r) \<longleftrightarrow> i = q \<and> bit b r"
proof -
  have b: "bit b k \<Longrightarrow> k < 8" for k using bit_imp_le_length [of b k] by simp
  have "bit (push_bit (8 * i) (ucast b :: 64 word)) (8 * q + r) \<longleftrightarrow> i \<le> q \<and> bit b (8 * (q - i) + r)"
    using assms b [of "8 * (q - i) + r"] by (cases "i \<le> q") (auto simp: bit_simps diff_mult_distrib2)
  also have "\<dots> \<longleftrightarrow> i = q \<and> bit b r" using b [of "8 * (q - i) + r"] by (cases "i = q") auto
  finally show ?thesis .
qed

lemma bit_get_u64:
  assumes "q < 8" and "r < 8"
  shows "bit (get_u64 bs) (8 * q + r) \<longleftrightarrow> bit (bs ! q) r"
proof -
  have "bit (foldl (\<lambda>v i. v OR push_bit (8 * i) (ucast (bs ! i))) v is) (8 * q + r) \<longleftrightarrow>
      bit v (8 * q + r) \<or> q \<in> set is \<and> bit (bs ! q) r" if "set is \<subseteq> {0..<8}" for v :: "64 word" and "is"
    using that by (induction "is" arbitrary: v) (auto simp: bit_or_iff bit_piece assms)
  from this [of "[0..<8]" 0] assms show ?thesis by (simp add: get_u64_def)
qed

lemma get_put_u64 [simp]: "get_u64 (put_u64 v) = v"
proof (rule bit_word_eqI)
  fix n assume "n < LENGTH(64)"
  then have q: "n div 8 < 8" "n mod 8 < 8" "8 * (n div 8) + n mod 8 = n" by simp_all
  have "put_u64 v ! (n div 8) = ucast (drop_bit (8 * (n div 8)) v)" using q by (simp add: put_u64_def)
  with bit_get_u64 [OF q(1,2), of "put_u64 v"] q show "bit (get_u64 (put_u64 v)) n = bit v n"
    by (simp add: bit_simps)
qed

lemma put_get_u64: "length bs = 8 \<Longrightarrow> put_u64 (get_u64 bs) = bs"
proof (rule nth_equalityI)
  fix i assume len: "length bs = 8" and "i < length (put_u64 (get_u64 bs))"
  then have i: "i < 8" by simp
  have "(ucast (drop_bit (8 * i) (get_u64 bs)) :: 8 word) = bs ! i"
  proof (rule bit_word_eqI)
    fix n assume "n < LENGTH(8)"
    with bit_get_u64 [OF i, of n bs] show "bit (ucast (drop_bit (8 * i) (get_u64 bs)) :: 8 word) n = bit (bs ! i) n"
      by (simp add: bit_simps)
  qed
  with i show "put_u64 (get_u64 bs) ! i = bs ! i" by (simp add: put_u64_def)
qed simp

section \<open>Framing\<close>

text \<open>The whole file for a header text and a state.\<close>

definition frame :: "ext \<Rightarrow> string \<Rightarrow> octets \<Rightarrow> octets" where
  "frame X h state = prefix_of (octets h) state (x_sha256 X h) (x_sha256 X (text_of_octets state)) @ octets h @ state"

lemma digest_of_Inr [res_simps]: "(digest_of X b = Inr d) = (length d = 32 \<and> d = x_sha256 X (text_of_octets b))"
  by (auto simp: digest_of_def Let_def require_def)

lemma length_word [simp]: "n \<le> 4294967296 \<Longrightarrow> unat (word_of_nat n :: 64 word) = n"
  by (simp add: unsigned_of_nat take_bit_nat_eq_self)

lemma magic_length [simp]: "length magic = 8"
  by (simp add: magic_def)

text \<open>A frame, cut at the offsets the reader uses.\<close>

lemma frame_parts:
  assumes "length (x_sha256 X h) = 32" and "length (x_sha256 X (text_of_octets state)) = 32"
  shows "length (frame X h state) = 88 + length h + length state" and "take 8 (frame X h state) = magic"
    and "take 8 (drop 8 (frame X h state)) = put_u64 (word_of_nat (length h))"
    and "take 8 (drop 16 (frame X h state)) = put_u64 (word_of_nat (length state))"
    and "take 32 (drop 24 (frame X h state)) = x_sha256 X h"
    and "take 32 (drop 56 (frame X h state)) = x_sha256 X (text_of_octets state)"
    and "take (length h) (drop 88 (frame X h state)) = octets h"
    and "drop (88 + length h) (frame X h state) = state"
  using assms by (simp_all add: frame_def prefix_of_def)

lemma decode_frame:
  assumes "length (x_sha256 X h) = 32" and "length (x_sha256 X (text_of_octets state)) = 32"
    and "0 < length h" and "length h \<le> max_metadata" and "0 < length state" and "length state \<le> mx" and "mx \<le> 4294967296"
    and "parse h = Inr m" and "is_object m"
  shows "decode_checkpoint parse X (frame X h state) mx = Inr \<lparr>cp_metadata = m, cp_state = state\<rparr>"
proof -
  have h: "length h \<le> 4294967296" using assms(4) by (simp add: max_metadata_def)
  have len: "length state \<le> 4294967296" using assms(6,7) by simp
  note parts = frame_parts [OF assms(1,2)]
  have d: "digest_of X (octets h) = Inr (x_sha256 X h)" "digest_of X state = Inr (x_sha256 X (text_of_octets state))"
    using assms(1,2) by (simp_all add: digest_of_def)
  show ?thesis
    unfolding decode_checkpoint_def prefix_size_def parts get_put_u64 length_word [OF h] length_word [OF len] Let_def
    using assms by (simp add: d)
qed

text \<open>Conversely, only frames are accepted.\<close>

lemma nine_parts:
  assumes "length b = 88 + n + m"
  shows "b = take 8 b @ take 8 (drop 8 b) @ take 8 (drop 16 b) @ take 32 (drop 24 b) @ take 32 (drop 56 b) @
    take n (drop 88 b) @ drop (88 + n) b"
proof -
  have cut: "drop i b = take k (drop i b) @ drop (i + k) b" for i k
    by (metis add.commute append_take_drop_id drop_drop)
  have "b = take 8 b @ drop 8 b" by simp
  also have "drop 8 b = take 8 (drop 8 b) @ drop 16 b" using cut [of 8 8] by simp
  also have "drop 16 b = take 8 (drop 16 b) @ drop 24 b" using cut [of 16 8] by simp
  also have "drop 24 b = take 32 (drop 24 b) @ drop 56 b" using cut [of 24 32] by simp
  also have "drop 56 b = take 32 (drop 56 b) @ drop 88 b" using cut [of 56 32] by simp
  also have "drop 88 b = take n (drop 88 b) @ drop (88 + n) b" using cut [of 88 n] by simp
  finally show ?thesis .
qed

lemma decode_only_frames:
  assumes "decode_checkpoint parse X b mx = Inr cp"
  shows "\<exists>h. b = frame X h (cp_state cp) \<and> parse h = Inr (cp_metadata cp) \<and> is_object (cp_metadata cp) \<and>
    h \<noteq> [] \<and> length h \<le> max_metadata \<and> cp_state cp \<noteq> [] \<and> length (cp_state cp) \<le> mx \<and>
    length (x_sha256 X h) = 32 \<and> length (x_sha256 X (text_of_octets (cp_state cp))) = 32"
proof -
  define n where "n = unat (get_u64 (take 8 (drop 8 b)))"
  define m where "m = unat (get_u64 (take 8 (drop 16 b)))"
  define h where "h = text_of_octets (take n (drop 88 b))"
  define state where "state = drop (88 + n) b"
  from assms obtain meta where
    chk: "take 8 b = magic" "mx \<le> 4294967296" "0 < m" "m \<le> mx" "0 < n" "n \<le> max_metadata" "length b = 88 + n + m"
      "take 32 (drop 24 b) = x_sha256 X h" "parse h = Inr meta" "is_object meta"
      "take 32 (drop 56 b) = x_sha256 X (text_of_octets state)"
      "length (x_sha256 X h) = 32" "length (x_sha256 X (text_of_octets state)) = 32"
    and cp: "cp = \<lparr>cp_metadata = meta, cp_state = state\<rparr>"
    unfolding decode_checkpoint_def Let_def prefix_size_def n_def [symmetric] m_def [symmetric]
    by (auto simp: res_simps h_def state_def)
  have len: "length h = n" "length state = m" using chk(7) by (simp_all add: h_def state_def)
  have eight: "length (take 8 (drop 8 b)) = 8" "length (take 8 (drop 16 b)) = 8" using chk(7) by simp_all
  have nw: "word_of_nat n = get_u64 (take 8 (drop 8 b))" "word_of_nat m = get_u64 (take 8 (drop 16 b))"
    by (simp_all add: n_def m_def)
  have "b = frame X h state"
  proof -
    have "frame X h state = magic @ take 8 (drop 8 b) @ take 8 (drop 16 b) @ x_sha256 X h @ x_sha256 X (text_of_octets state) @
        take n (drop 88 b) @ state"
      unfolding frame_def prefix_of_def octets_length len nw put_get_u64 [OF eight(1)] put_get_u64 [OF eight(2)]
      by (simp add: h_def)
    also have "\<dots> = b"
      unfolding chk(1) [symmetric] chk(8) [symmetric] chk(11) [symmetric]
      unfolding state_def using nine_parts [OF chk(7)] by simp
    finally show ?thesis by simp
  qed
  with chk len show ?thesis by (intro exI [of _ h]) (auto simp: cp)
qed

section \<open>Replacing the file\<close>

text \<open>While the temporary file is written the destination does not change; afterwards it is
  the complete file.\<close>

definition elsewhere :: "string \<Rightarrow> disk \<Rightarrow> disk \<Rightarrow> bool" where
  "elsewhere tmp d d' \<longleftrightarrow> (\<forall>p. p \<noteq> tmp \<longrightarrow> d' p = d p)"

lemma elsewhere_refl [simp]: "elsewhere tmp d d" by (simp add: elsewhere_def)
lemma elsewhere_trans: "elsewhere tmp a b \<Longrightarrow> elsewhere tmp b c \<Longrightarrow> elsewhere tmp a c" by (simp add: elsewhere_def)
lemma elsewhere_update [simp]: "elsewhere tmp d (d(tmp := x))" by (simp add: elsewhere_def)

lemma visit_elsewhere: "a \<noteq> Rename_File \<Longrightarrow> d' \<in> set (visit tmp path a d) \<Longrightarrow> elsewhere tmp d d'"
  by (cases a) auto

lemma visit_nonempty: "visit tmp path a d \<noteq> []"
  by (cases a) simp_all

lemma perform_nonempty: "snd (snd (perform fault tmp path as d renamed)) \<noteq> []"
  by (cases as) (auto simp: visit_nonempty split: option.splits prod.splits action.splits)

lemma last_visit_write: "last (visit tmp path (Write_Bytes bs) d) = d(tmp \<mapsto> Regular (content (d tmp) @ bs))"
  by (simp add: last_map)

text \<open>Before the rename.\<close>

lemma perform_before:
  assumes "perform fault tmp path as d False = (r, renamed, ds)" and "Rename_File \<notin> set as"
  shows "\<not> renamed \<and> (\<forall>d' \<in> set ds. elsewhere tmp d d')"
  using assms
proof (induction as arbitrary: d ds)
  case (Cons a as)
  note el = visit_elsewhere [of a _ tmp path d]
  show ?case
  proof (cases "fault a")
    case None
    obtain r1 n1 ds1 where rec: "perform fault tmp path as (last (visit tmp path a d)) False = (r1, n1, ds1)"
      by (metis prod_cases3)
    with Cons.prems None have eq: "ds = d # visit tmp path a d @ ds1" "renamed = n1" "r1 = r" by auto
    have l: "elsewhere tmp d (last (visit tmp path a d))"
      using el last_in_set [OF visit_nonempty] Cons.prems(2) by auto
    from Cons.IH [of "last (visit tmp path a d)" ds1] rec eq Cons.prems(2)
    have "\<not> renamed \<and> (\<forall>d' \<in> set ds1. elsewhere tmp (last (visit tmp path a d)) d')" by simp
    then have "\<not> renamed" "\<forall>d' \<in> set ds1. elsewhere tmp d d'" using elsewhere_trans [OF l] by blast+
    moreover have "\<forall>d' \<in> set (visit tmp path a d). elsewhere tmp d d'" using el Cons.prems(2) by auto
    ultimately show ?thesis by (simp add: eq(1) ball_Un)
  next
    case (Some e)
    have "\<forall>d' \<in> set (visit tmp path a d). elsewhere tmp d d'" using el Cons.prems(2) by auto
    moreover have "\<not> renamed \<and> (ds = [d] \<or> ds = visit tmp path a d)"
      using Cons.prems(1) Some by (cases a) auto
    ultimately show ?thesis by auto
  qed
qed simp

lemma perform_append:
  "perform fault tmp path (as @ bs) d renamed =
    (case perform fault tmp path as d renamed of
       (Some e, n, ds) \<Rightarrow> (Some e, n, ds)
     | (None, n, ds) \<Rightarrow> (case perform fault tmp path bs (last ds) n of (r, n', es) \<Rightarrow> (r, n', butlast ds @ es)))"
proof (induction as arbitrary: d renamed)
  case Nil
  then show ?case by (simp split: prod.splits)
next
  case (Cons a as)
  show ?case
  proof (cases "fault a")
    case None
    obtain r1 n1 ds1 where rec: "perform fault tmp path as (last (visit tmp path a d)) (renamed \<or> a = Rename_File) = (r1, n1, ds1)"
      by (metis prod_cases3)
    with perform_nonempty [of fault tmp path as "last (visit tmp path a d)" "renamed \<or> a = Rename_File"]
    have "ds1 \<noteq> []" by simp
    with None rec Cons.IH show ?thesis
      by (cases r1) (auto split: prod.splits simp: butlast_append)
  qed simp
qed

lemma perform_last:
  "perform fault tmp path as d renamed = (None, n, ds) \<Longrightarrow> last ds = fold (\<lambda>a u. last (visit tmp path a u)) as d"
proof (induction as arbitrary: d renamed ds)
  case (Cons a as)
  obtain r1 n1 ds1 where rec: "perform fault tmp path as (last (visit tmp path a d)) (renamed \<or> a = Rename_File) = (r1, n1, ds1)"
    by (metis prod_cases3)
  with perform_nonempty [of fault tmp path as "last (visit tmp path a d)" "renamed \<or> a = Rename_File"]
  have "ds1 \<noteq> []" by simp
  moreover from Cons.prems have "fault a = None" by (cases "fault a") simp_all
  ultimately show ?case using Cons rec by auto
qed simp

definition before_rename :: "octets \<Rightarrow> octets \<Rightarrow> octets \<Rightarrow> action list" where
  "before_rename pre header state = [Set_Close_On_Exec, Write_Bytes pre, Write_Bytes header, At After_Header,
     Write_Bytes state, Sync_File, At After_File_Sync]"

definition from_rename :: "action list" where
  "from_rename = [Rename_File, At After_Rename, Sync_Directory, At After_Directory_Sync]"

lemma before_rename_disk:
  "d tmp = Some (Regular []) \<Longrightarrow>
     fold (\<lambda>a u. last (visit tmp path a u)) (before_rename pre header state) d = d(tmp \<mapsto> Regular (pre @ header @ state))"
  by (simp only: before_rename_def fold_simps last_visit_write visit.simps(3-8) last.simps if_True if_False content.simps
      fun_upd_same fun_upd_upd append_Nil append_assoc simp_thms)

lemma perform_from_rename:
  assumes "perform fault tmp path from_rename d False = (r, n, ds)"
  shows "if n then set ds \<subseteq> {d, d(path := d tmp, tmp := None)} \<and> last ds = d(path := d tmp, tmp := None)
    else r \<noteq> None \<and> ds = [d]"
proof (cases "fault Rename_File")
  case None
  with assms show ?thesis by (auto simp: from_rename_def split: option.splits)
next
  case (Some e)
  with assms have "r = Some e" "\<not> n" "ds = [d]" by (auto simp: from_rename_def)
  then show ?thesis by simp
qed

lemma write_checkpoint_cases:
  assumes "write_checkpoint X fault tmp d path cp mx = (r, ds)"
  obtains (refused) e where "r = Inl e" and "ds = [d]"
  | (performed) r0 n es where "perform fault tmp path (before_rename (prefix_of (octets (x_dump X (cp_metadata cp))) (cp_state cp)
         (x_sha256 X (x_dump X (cp_metadata cp))) (x_sha256 X (text_of_octets (cp_state cp))))
         (octets (x_dump X (cp_metadata cp))) (cp_state cp) @ from_rename) (d(tmp \<mapsto> Regular [])) False = (r0, n, es)"
      and "length (x_sha256 X (x_dump X (cp_metadata cp))) = 32" and "length (x_sha256 X (text_of_octets (cp_state cp))) = 32"
      and "is_object (cp_metadata cp)" and "x_dump X (cp_metadata cp) \<noteq> []" and "length (x_dump X (cp_metadata cp)) \<le> max_metadata"
      and "cp_state cp \<noteq> []" and "length (cp_state cp) \<le> mx" and "mx \<le> 4294967296"
      and "r = (case r0 of None \<Rightarrow> Inr () | Some e \<Rightarrow> Inl e)"
      and "ds = d # es @ (if r0 = None \<or> n then [] else [(last es)(tmp := None)])"
proof -
  let ?h = "octets (x_dump X (cp_metadata cp))"
  let ?pre = "require (mx \<le> 4294967296 \<and> cp_state cp \<noteq> [] \<and> length (cp_state cp) \<le> mx) ''checkpoint state exceeds byte limit'' (
           require (is_object (cp_metadata cp)) ''invalid checkpoint metadata'' (
           let header = ?h in
           require (header \<noteq> [] \<and> length header \<le> max_metadata) ''checkpoint metadata exceeds byte limit'' (
           bindR (digest_of X header) (\<lambda>mh. bindR (digest_of X (cp_state cp)) (\<lambda>sh. Inr (header, mh, sh))))))"
  show thesis
  proof (cases ?pre)
    case (Inl e)
    with assms have "r = Inl e" "ds = [d]" by (simp_all add: write_checkpoint_def)
    then show thesis by (rule refused)
  next
    case (Inr hms)
    then have ok: "hms = (?h, x_sha256 X (x_dump X (cp_metadata cp)), x_sha256 X (text_of_octets (cp_state cp)))"
      "length (x_sha256 X (x_dump X (cp_metadata cp))) = 32" "length (x_sha256 X (text_of_octets (cp_state cp))) = 32"
      "is_object (cp_metadata cp)" "?h \<noteq> []" "length (x_dump X (cp_metadata cp)) \<le> max_metadata"
      "cp_state cp \<noteq> []" "length (cp_state cp) \<le> mx" "mx \<le> 4294967296"
      by (auto simp: res_simps Let_def)
    from ok(5) have ne: "x_dump X (cp_metadata cp) \<noteq> []" by (auto simp: octets_def)
    show thesis
    proof (cases "fault Open_Directory = None \<and> fault Make_Temporary = None")
      case False
      then have "\<exists>e. r = Inl e \<and> ds = [d]"
        using assms Inr ok(1) by (auto simp: write_checkpoint_def split: option.splits)
      with refused show thesis by blast
    next
      case True
      let ?as = "before_rename (prefix_of ?h (cp_state cp) (x_sha256 X (x_dump X (cp_metadata cp)))
        (x_sha256 X (text_of_octets (cp_state cp)))) ?h (cp_state cp) @ from_rename"
      obtain r0 n es where p: "perform fault tmp path ?as (d(tmp \<mapsto> Regular [])) False = (r0, n, es)" by (metis prod_cases3)
      have as: "?as = [Set_Close_On_Exec, Write_Bytes (prefix_of ?h (cp_state cp) (x_sha256 X (x_dump X (cp_metadata cp)))
          (x_sha256 X (text_of_octets (cp_state cp)))), Write_Bytes ?h, At After_Header, Write_Bytes (cp_state cp), Sync_File,
          At After_File_Sync, Rename_File, At After_Rename, Sync_Directory, At After_Directory_Sync]"
        by (simp add: before_rename_def from_rename_def)
      have "(r, ds) = (case (r0, n, es) of
            (None, _, ds) \<Rightarrow> (Inr (), d # ds)
          | (Some e, True, ds) \<Rightarrow> (Inl e, d # ds)
          | (Some e, False, ds) \<Rightarrow> (Inl e, d # ds @ [(last ds)(tmp := None)]))"
        using assms Inr True p [unfolded as]
        by (simp only: write_checkpoint_def ok(1) sum.case prod.case option.case Let_def)
      then have "r = (case r0 of None \<Rightarrow> Inr () | Some e \<Rightarrow> Inl e)"
        "ds = d # es @ (if r0 = None \<or> n then [] else [(last es)(tmp := None)])"
        by (cases r0; cases n; simp)+
      with performed [OF p ok(2-4) ne ok(6-9)] show thesis by blast
    qed
  qed
qed

lemma write_checkpoint_disk:
  assumes "write_checkpoint X fault tmp d path cp mx = (r, ds)" and "tmp \<noteq> path" and "d tmp = None"
  defines "final \<equiv> d(path \<mapsto> Regular (frame X (x_dump X (cp_metadata cp)) (cp_state cp)))"
  shows "(\<forall>d' \<in> set ds. elsewhere tmp d d' \<or> elsewhere tmp final d') \<and> (r = Inr () \<longrightarrow> last ds = final) \<and>
    (last ds = d \<or> last ds = final)"
  using assms(1)
proof (cases rule: write_checkpoint_cases)
  case (performed r0 n es)
  let ?h = "octets (x_dump X (cp_metadata cp))"
  let ?pre = "prefix_of ?h (cp_state cp) (x_sha256 X (x_dump X (cp_metadata cp))) (x_sha256 X (text_of_octets (cp_state cp)))"
  let ?d1 = "d(tmp \<mapsto> Regular [])" and ?as = "before_rename ?pre ?h (cp_state cp)"
  let ?d2 = "d(tmp \<mapsto> Regular (?pre @ ?h @ cp_state cp))"
  have d1: "elsewhere tmp d ?d1" by simp
  obtain r1 n1 ds1 where p1: "perform fault tmp path ?as ?d1 False = (r1, n1, ds1)" by (metis prod_cases3)
  have before: "\<not> n1" "\<forall>d' \<in> set ds1. elsewhere tmp d d'"
    using perform_before [OF p1] elsewhere_trans [OF d1] by (simp_all add: before_rename_def)
  have ne1: "ds1 \<noteq> []" using perform_nonempty [of fault tmp path ?as ?d1 False] p1 by simp
  have undo: "(last ds1)(tmp := None) = d"
    using before(2) last_in_set [OF ne1] assms(3) by (auto simp: elsewhere_def fun_eq_iff)
  show ?thesis
  proof (cases r1)
    case (Some e)
    then have "r0 = Some e" "\<not> n" "es = ds1" using performed(1) p1 before(1) by (auto simp: perform_append)
    with performed(10,11) undo before(2) show ?thesis by auto
  next
    case None
    have l1: "last ds1 = ?d2"
      using perform_last [OF p1 [unfolded None]] before_rename_disk [of ?d1 tmp path ?pre ?h "cp_state cp"] by simp
    obtain r2 n2 ds2 where p2: "perform fault tmp path from_rename ?d2 False = (r2, n2, ds2)" by (metis prod_cases3)
    have "(r0, n, es) = (r2, n2, butlast ds1 @ ds2)"
      using performed(1) p1 before(1) None by (simp add: perform_append l1 p2)
    then have eq: "r0 = r2" "n = n2" "es = butlast ds1 @ ds2" by simp_all
    have ne2: "ds2 \<noteq> []" using perform_nonempty [of fault tmp path from_rename ?d2 False] p2 by simp
    have fin: "?d2(path := ?d2 tmp, tmp := None) = final"
      using assms(2,3) by (auto simp: final_def frame_def fun_eq_iff)
    note after = perform_from_rename [OF p2, unfolded fin]
    have d2: "elsewhere tmp d ?d2" by simp
    have front: "\<forall>d' \<in> set (butlast ds1). elsewhere tmp d d'" using before(2) by (auto dest: in_set_butlastD)
    show ?thesis
    proof (cases n)
      case True
      with after eq have ds2: "set ds2 \<subseteq> {?d2, final}" "last ds2 = final" by simp_all
      with d2 front performed(10,11) True eq ne2 show ?thesis by auto
    next
      case False
      with after eq have ds2: "r0 \<noteq> None" "ds2 = [?d2]" by simp_all
      have "last es = ?d2" by (simp add: eq ds2)
      moreover have "?d2(tmp := None) = d" using assms(3) by (auto simp: fun_eq_iff)
      ultimately show ?thesis using d2 front performed(10,11) False ds2 eq by (auto split: option.splits)
    qed
  qed
qed simp


text \<open>
  C23. Reading returns what was written: after a successful write under a size limit, reading
  the path under the same limit gives the checkpoint back, provided the parser reads back
  the printed metadata.
\<close>

theorem checkpoint_roundtrip:
  assumes "write_checkpoint X fault tmp d path cp mx = (Inr (), ds)" and "tmp \<noteq> path" and "d tmp = None"
    and "parse (x_dump X (cp_metadata cp)) = Inr (cp_metadata cp)"
  shows "read_checkpoint parse X (last ds) path mx = Inr (Some cp)"
proof -
  have new: "last ds path = Some (Regular (frame X (x_dump X (cp_metadata cp)) (cp_state cp)))"
    using write_checkpoint_disk [OF assms(1-3)] by simp
  from assms(1) show ?thesis
  proof (cases rule: write_checkpoint_cases)
    case (performed r0 n es)
    have "decode_checkpoint parse X (frame X (x_dump X (cp_metadata cp)) (cp_state cp)) mx =
        Inr \<lparr>cp_metadata = cp_metadata cp, cp_state = cp_state cp\<rparr>"
      using performed(2-9) assms(4) by (intro decode_frame) simp_all
    with new show ?thesis by (simp add: read_checkpoint_def)
  qed simp
qed

text \<open>
  Nothing but a whole checkpoint is accepted: if a file decodes, it is exactly the frame
  of some header text and the returned state, with both checksums right, both lengths
  within their limits and the metadata the parse of that text. Hence two accepted files
  with the same first 88 bytes are equal, or hold a collision of the digest.
\<close>

lemma checkpoint_authentic:
  assumes "decode_checkpoint parse X b mx = Inr cp"
  shows "(\<exists>h. b = frame X h (cp_state cp) \<and> parse h = Inr (cp_metadata cp) \<and> is_object (cp_metadata cp) \<and>
      h \<noteq> [] \<and> length h \<le> max_metadata \<and> cp_state cp \<noteq> [] \<and> length (cp_state cp) \<le> mx) \<and>
    (\<forall>b' cp'. decode_checkpoint parse X b' mx = Inr cp' \<longrightarrow> take 88 b' = take 88 b \<longrightarrow>
       b' = b \<or> (\<exists>s s'. s \<noteq> s' \<and> x_sha256 X s = x_sha256 X s'))"
proof -
  from decode_only_frames [OF assms] obtain h where b: "b = frame X h (cp_state cp)"
    and rest: "parse h = Inr (cp_metadata cp) \<and> is_object (cp_metadata cp) \<and>
      h \<noteq> [] \<and> length h \<le> max_metadata \<and> cp_state cp \<noteq> [] \<and> length (cp_state cp) \<le> mx"
    and sha: "length (x_sha256 X h) = 32" "length (x_sha256 X (text_of_octets (cp_state cp))) = 32" by blast
  have "b' = b \<or> (\<exists>s s'. s \<noteq> s' \<and> x_sha256 X s = x_sha256 X s')"
    if d: "decode_checkpoint parse X b' mx = Inr cp'" and same: "take 88 b' = take 88 b" for b' cp'
  proof -
    from decode_only_frames [OF d] obtain h' where b': "b' = frame X h' (cp_state cp')"
      and sha': "length (x_sha256 X h') = 32" "length (x_sha256 X (text_of_octets (cp_state cp'))) = 32" by blast
    have cut: "take k (drop i b') = take k (drop i b)" if "i + k \<le> 88" for i k
    proof -
      have "take k (drop i (take 88 c)) = take k (drop i c)" for c :: octets
        using that by (simp add: take_drop min_def)
      with same show ?thesis by metis
    qed
    have "x_sha256 X h' = x_sha256 X h"
      using cut [of 24 32] frame_parts(5) [OF sha] frame_parts(5) [OF sha'] by (simp add: b b')
    moreover have "x_sha256 X (text_of_octets (cp_state cp')) = x_sha256 X (text_of_octets (cp_state cp))"
      using cut [of 56 32] frame_parts(6) [OF sha] frame_parts(6) [OF sha'] by (simp add: b b')
    moreover have "b' = b" if "h' = h" "text_of_octets (cp_state cp') = text_of_octets (cp_state cp)"
    proof -
      have "cp_state cp' = cp_state cp" using that(2) by (metis octets_text_of_octets)
      with that(1) show ?thesis by (simp add: b b')
    qed
    ultimately show ?thesis by blast
  qed
  with b rest show ?thesis by blast
qed

section \<open>A concrete file\<close>

definition sample_checkpoint :: checkpoint where
  "sample_checkpoint = \<lparr>cp_metadata = mk_obj [(''tick'', JInt 3)], cp_state = [7, 8]\<rparr>"

definition sample_parse :: "string \<Rightarrow> json res" where
  "sample_parse s = (if s = ''xxx'' then Inr (mk_obj [(''tick'', JInt 3)]) else Inl JsonException)"

definition sample_frame :: octets where
  "sample_frame = frame sample_ext ''xxx'' [7, 8]"

lemma sample_write:
  "\<exists>ds. write_checkpoint sample_ext (\<lambda>_. None) ''t'' (\<lambda>_. None) ''p'' sample_checkpoint 100 = (Inr (), ds)"
proof -
  have d: "sample_dump (mk_obj [(''tick'', JInt 3)]) = ''xxx''" by (simp add: sample_dump_def jat_mk_obj numeral_3_eq_3)
  have o: "is_object (mk_obj [(''tick'', JInt 3)])" by (simp add: mk_obj_access)
  have n: "length (x_sha256 sample_ext s) = 32" for s by (simp add: sample_ext_def)
  show ?thesis
    by (simp add: write_checkpoint_def sample_checkpoint_def d o digest_of_def n Let_def max_metadata_def octets_def
        split: prod.splits)
qed


lemma sample_parses: "sample_parse (x_dump sample_ext (cp_metadata sample_checkpoint)) = Inr (cp_metadata sample_checkpoint)"
  by (simp add: sample_parse_def sample_checkpoint_def sample_dump_def jat_mk_obj numeral_3_eq_3)

theorem checkpoint_roundtrip_witness:
  "\<exists>ds. read_checkpoint sample_parse sample_ext (last ds) ''p'' 100 = Inr (Some sample_checkpoint)"
proof -
  obtain ds where w: "write_checkpoint sample_ext (\<lambda>_. None) ''t'' (\<lambda>_. None) ''p'' sample_checkpoint 100 = (Inr (), ds)"
    using sample_write by blast
  from checkpoint_roundtrip [where parse = sample_parse, OF w _ _ sample_parses] show ?thesis by auto
qed

lemma sample_decode: "decode_checkpoint sample_parse sample_ext sample_frame 100 = Inr sample_checkpoint"
  unfolding sample_frame_def sample_checkpoint_def
  by (rule decode_frame) (simp_all add: sample_ext_def max_metadata_def sample_parse_def mk_obj_access)

theorem checkpoint_authentic_witness: "\<exists>h. sample_frame = frame sample_ext h [7, 8]"
  using checkpoint_authentic [OF sample_decode] by (auto simp: sample_checkpoint_def)

end
