(* ===== verification/Cogg_Protocol.thy ===== *)
theory Cogg_Protocol
  imports Cogg_Types
begin

text \<open>
  The local protocol between the terminal program and its host, and the text filters of the
  terminal, of \<^verbatim>\<open>tools/tui/protocol.cpp\<close>. What each call of \<^verbatim>\<open>send\<close> and
  \<^verbatim>\<open>recv\<close> returns is an argument; the JSON parser is the argument \<open>parse\<close>.
\<close>

section \<open>Frames\<close>

definition frame_limit :: nat where
  "frame_limit = 2097152"

definition newline :: char where
  "newline = CHR 0x0A"

datatype sent = Sent nat | Send_Interrupted | Send_Failed

text \<open>The loop of \<open>send_frame\<close>: the bytes delivered and how it ends.\<close>

fun send_loop :: "string \<Rightarrow> sent list \<Rightarrow> unit res \<times> string" where
  "send_loop [] rs = (Inr (), [])"
| "send_loop (b # bs) [] = (Inl (StdException ''host connection lost while sending''), [])"
| "send_loop (b # bs) (Send_Interrupted # rs) = send_loop (b # bs) rs"
| "send_loop (b # bs) (Send_Failed # rs) = (Inl (StdException ''host connection lost while sending''), [])"
| "send_loop (b # bs) (Sent n # rs) =
     (if n = 0 then (Inl (StdException ''host connection lost while sending''), [])
      else (case send_loop (drop n (b # bs)) rs of (r, out) \<Rightarrow> (r, take n (b # bs) @ out)))"

definition send_frame :: "ext \<Rightarrow> json \<Rightarrow> sent list \<Rightarrow> unit res \<times> string" where
  "send_frame X j rs = (let bytes = x_dump X j @ [newline] in
     if length bytes > frame_limit then (Inl (StdException ''response exceeds protocol limit''), [])
     else send_loop bytes rs)"

datatype received = Chunk string | Receive_Interrupted | Receive_Closed

fun receive_loop :: "(string \<Rightarrow> json res) \<Rightarrow> nat \<Rightarrow> string \<Rightarrow> received list \<Rightarrow> json res" where
  "receive_loop parse limit bytes [] =
     (if length bytes < limit then Inl (StdException ''host disconnected or timed out'')
      else Inl (StdException ''protocol frame too large''))"
| "receive_loop parse limit bytes (r # rs) =
     (if length bytes < limit
      then (case r of
          Receive_Interrupted \<Rightarrow> receive_loop parse limit bytes rs
        | Receive_Closed \<Rightarrow> Inl (StdException ''host disconnected or timed out'')
        | Chunk c \<Rightarrow>
            let bytes' = bytes @ c in
            if c = [] then Inl (StdException ''host disconnected or timed out'')
            else if newline \<in> set bytes' then parse (takeWhile (\<lambda>x. x \<noteq> newline) bytes')
            else receive_loop parse limit bytes' rs)
      else Inl (StdException ''protocol frame too large''))"

definition receive_frame :: "(string \<Rightarrow> json res) \<Rightarrow> nat \<Rightarrow> received list \<Rightarrow> json res" where
  "receive_frame parse limit rs = receive_loop parse limit [] rs"

text \<open>A chunk is what one call of \<^verbatim>\<open>recv\<close> stored in its buffer, at most 4096 bytes and
  never more than the loop still accepts; a chunk of no bytes is the end of the stream.\<close>

text \<open>What \<open>request\<close> makes of the reply.\<close>

fun jvalue_bool :: "json \<Rightarrow> string \<Rightarrow> bool \<Rightarrow> bool res" where
  "jvalue_bool (JObj kvs) k d = (case map_of kvs k of None \<Rightarrow> Inr d | Some (JBool b) \<Rightarrow> Inr b | Some _ \<Rightarrow> Inl JsonException)"
| "jvalue_bool _ k d = Inl JsonException"

definition read_reply :: "json \<Rightarrow> json res" where
  "read_reply reply =
     bindR (jvalue_string reply ''protocol'' []) (\<lambda>p.
     raise_unless (p = ''cogg:host/v1'') (StdException ''unsupported host protocol'') (
     bindR (jvalue_bool reply ''ok'' False) (\<lambda>ok.
     if \<not> ok then bindR (jvalue_string reply ''error'' ''host rejected request'') (\<lambda>m. Inl (StdException m))
     else jat reply ''data'')))"

section \<open>Text for the terminal\<close>

definition byte :: "char \<Rightarrow> nat" where
  "byte c = of_char c"

definition continuation :: "char \<Rightarrow> bool" where
  "continuation c \<longleftrightarrow> byte c div 64 = 2"

fun cut_at :: "string \<Rightarrow> nat \<Rightarrow> nat" where
  "cut_at s 0 = 0"
| "cut_at s (Suc n) = (if continuation (s ! Suc n) then cut_at s n else Suc n)"

definition ellipsis :: string where
  "ellipsis = [CHR '' '', CHR 0xE2, CHR 0x80, CHR 0xA6] @ '' [truncated]''"

definition excerpt :: "string \<Rightarrow> nat \<Rightarrow> string" where
  "excerpt s n = (if length s \<le> n then s else take (cut_at s n) s @ ellipsis)"

definition c1 :: "char \<Rightarrow> bool" where
  "c1 c \<longleftrightarrow> 128 \<le> byte c \<and> byte c \<le> 159"

definition shown :: "char \<Rightarrow> char" where
  "shown c = (if byte c < 32 \<or> byte c = 127 then (if c = newline then newline else CHR '' '') else c)"

fun display_text :: "string \<Rightarrow> string" where
  "display_text [] = []"
| "display_text [c] = [shown c]"
| "display_text (c # d # s) =
     (if byte c = 194 \<and> c1 d then CHR ''?'' # display_text s else shown c # display_text (d # s))"

section \<open>The promises\<close>

lemma send_loop_all: "send_loop bytes rs = (Inr (), out) \<Longrightarrow> out = bytes"
  by (induction bytes rs arbitrary: out rule: send_loop.induct) (auto split: if_splits prod.splits)

fun arrived :: "received list \<Rightarrow> string" where
  "arrived [] = []"
| "arrived (Chunk c # rs) = c @ arrived rs"
| "arrived (_ # rs) = arrived rs"

lemma before_newline: "newline \<notin> set u \<Longrightarrow> takeWhile (\<lambda>x. x \<noteq> newline) (u @ newline # v) = u"
  by (induction u) auto

lemma receive_loop_line:
  assumes "bytes @ arrived rs = line @ [newline]" and "newline \<notin> set line" and "newline \<notin> set bytes"
    and "Receive_Closed \<notin> set rs" and "Chunk [] \<notin> set rs" and "length line < limit"
  shows "receive_loop parse limit bytes rs = parse line"
  using assms
proof (induction rs arbitrary: bytes)
  case Nil
  then show ?case by auto
next
  case (Cons r rs)
  have short: "length bytes < limit"
  proof -
    have "takeWhile (\<lambda>x. x \<noteq> newline) (bytes @ arrived (r # rs)) = takeWhile (\<lambda>x. x \<noteq> newline) (line @ [newline])"
      by (simp only: Cons.prems(1))
    moreover have "takeWhile (\<lambda>x. x \<noteq> newline) (line @ [newline]) = line"
      by (rule before_newline [OF Cons.prems(2)])
    moreover have "takeWhile (\<lambda>x. x \<noteq> newline) (bytes @ ys) = bytes @ takeWhile (\<lambda>x. x \<noteq> newline) ys" for ys
      using Cons.prems(3) by (intro takeWhile_append2) auto
    ultimately have "length bytes \<le> length line" by (metis length_append le_add1)
    with Cons.prems(6) show ?thesis by simp
  qed
  show ?case
  proof (cases r)
    case (Chunk c)
    have ne: "c \<noteq> []" using Cons.prems(5) Chunk by auto
    show ?thesis
    proof (cases "newline \<in> set (bytes @ c)")
      case True
      then obtain u v where uv: "bytes @ c = u @ newline # v" "newline \<notin> set u" by (metis split_list_first)
      have "(bytes @ c) @ arrived rs = line @ newline # []" using Cons.prems(1) Chunk by simp
      then have "u @ newline # (v @ arrived rs) = line @ newline # []" unfolding uv(1) by simp
      then have "u = line" using before_newline [OF uv(2)] before_newline [OF Cons.prems(2)] by metis
      with uv short True Chunk ne show ?thesis by (simp add: takeWhile_append)
    next
      case False
      with Cons.IH [of "bytes @ c"] Cons.prems Chunk short ne show ?thesis by simp
    qed
  next
    case Receive_Interrupted
    with Cons.IH [of bytes] Cons.prems short show ?thesis by simp
  next
    case Receive_Closed
    with Cons.prems(4) show ?thesis by simp
  qed
qed

text \<open>
  C24. A frame survives any fragmentation: what a successful \<open>send_frame\<close> delivered,
  however the sending was split, is parsed back as the printed value by \<open>receive_frame\<close>
  however the bytes arrive, as long as the connection is not closed and the printed text,
  like all JSON text without indentation, contains no line feed.
\<close>

theorem frame_roundtrip:
  assumes "send_frame X j ss = (Inr (), out)" and "arrived rs = out" and "Receive_Closed \<notin> set rs" and "Chunk [] \<notin> set rs"
    and "newline \<notin> set (x_dump X j)" and "parse (x_dump X j) = Inr j"
  shows "receive_frame parse frame_limit rs = Inr j"
proof -
  have len: "length (x_dump X j) < frame_limit" and "send_loop (x_dump X j @ [newline]) ss = (Inr (), out)"
    using assms(1) by (auto simp: send_frame_def Let_def split: if_splits)
  then have "arrived rs = x_dump X j @ [newline]" using send_loop_all assms(2) by metis
  then show ?thesis
    unfolding receive_frame_def using receive_loop_line [of "[]" rs "x_dump X j" frame_limit parse] assms(3-6) len by simp
qed

text \<open>No control reaches the terminal.\<close>

lemma shown_safe: "byte (shown c) \<ge> 32 \<and> byte (shown c) \<noteq> 127 \<or> shown c = newline"
  by (auto simp: shown_def byte_def)

lemma shown_c1 [simp]: "c1 (shown c) = c1 c"
  by (auto simp: shown_def c1_def byte_def newline_def)

lemma shown_lead [simp]: "byte (shown c) = 194 \<longleftrightarrow> byte c = 194"
  by (auto simp: shown_def byte_def newline_def)

lemma question_plain [simp]: "\<not> c1 (CHR ''?'')" "byte (CHR ''?'') = 63" "\<not> c1 newline" "byte newline = 10"
  by (simp_all add: c1_def byte_def newline_def)

lemma display_text_head: "c1 (hd (display_text (c # s))) \<Longrightarrow> c1 c"
  by (cases s) (auto split: if_splits)

lemma display_text_chars: "c \<in> set (display_text s) \<Longrightarrow> byte c \<ge> 32 \<and> byte c \<noteq> 127 \<or> c = newline"
  by (induction s rule: display_text.induct) (use shown_safe in \<open>auto split: if_splits\<close>)

definition no_c1_pair :: "char \<Rightarrow> char \<Rightarrow> bool" where
  "no_c1_pair c d \<longleftrightarrow> \<not> (byte c = 194 \<and> c1 d)"

lemma display_text_pairs: "successively no_c1_pair (display_text s)"
proof (induction s rule: display_text.induct)
  case (3 c d s)
  show ?case
  proof (cases "byte c = 194 \<and> c1 d")
    case True
    with 3 show ?thesis by (simp add: successively_Cons no_c1_pair_def)
  next
    case False
    then have "no_c1_pair (shown c) (hd (display_text (d # s)))"
      using display_text_head [of d s] by (auto simp: no_c1_pair_def)
    moreover have "display_text (c # d # s) = shown c # display_text (d # s)" using False by auto
    moreover have "successively no_c1_pair (display_text (d # s))" using 3(2) False by blast
    ultimately show ?thesis by (simp only: successively_Cons simp_thms)
  qed
qed simp_all

lemma display_text_length: "length (display_text s) \<le> length s"
  by (induction s rule: display_text.induct) auto

lemma shown_same: "byte c \<ge> 32 \<and> byte c \<noteq> 127 \<or> c = newline \<Longrightarrow> shown c = c"
  by (auto simp: shown_def)

lemma display_text_same:
  "\<forall>c \<in> set s. byte c \<ge> 32 \<and> byte c \<noteq> 127 \<or> c = newline \<Longrightarrow> successively no_c1_pair s \<Longrightarrow> display_text s = s"
  by (induction s rule: display_text.induct) (auto simp: shown_same no_c1_pair_def)

text \<open>
  Whatever bytes a model or a user produced, the text given to the terminal contains no
  C0 control but the line feed, no DEL, and no UTF-8 encoded C1 control; the filter never
  makes the text longer, and text without such controls is unchanged.
\<close>

lemma display_text_safe:
  shows "(\<forall>c \<in> set (display_text s). byte c \<ge> 32 \<and> byte c \<noteq> 127 \<or> c = newline) \<and>
    (\<forall>i. Suc i < length (display_text s) \<longrightarrow> byte (display_text s ! i) = 194 \<longrightarrow> \<not> c1 (display_text s ! Suc i)) \<and>
    length (display_text s) \<le> length s \<and>
    ((\<forall>c \<in> set s. byte c \<ge> 32 \<and> byte c \<noteq> 127 \<or> c = newline) \<longrightarrow>
     (\<forall>i. Suc i < length s \<longrightarrow> byte (s ! i) = 194 \<longrightarrow> \<not> c1 (s ! Suc i)) \<longrightarrow> display_text s = s)"
proof -
  have pairs: "(\<forall>i. Suc i < length u \<longrightarrow> byte (u ! i) = 194 \<longrightarrow> \<not> c1 (u ! Suc i)) \<longleftrightarrow> successively no_c1_pair u" for u
    by (auto simp: successively_conv_nth no_c1_pair_def)
  show ?thesis
    unfolding pairs using display_text_chars display_text_pairs display_text_length display_text_same by blast
qed

lemma cut_at_le: "cut_at s n \<le> n"
  by (induction n) auto

lemma cut_at_boundary: "cut_at s n \<noteq> 0 \<Longrightarrow> \<not> continuation (s ! cut_at s n)"
  by (induction n) (auto split: if_splits)

text \<open>
  An excerpt is the text itself when it fits, and otherwise a proper prefix of at most
  the given number of bytes, cut in front of a byte that does not continue a UTF-8
  character (or empty), with the mark that says so.
\<close>

lemma excerpt_boundary:
  assumes "n < length s"
  shows "\<exists>k \<le> n. excerpt s n = take k s @ ellipsis \<and> (k = 0 \<or> \<not> continuation (s ! k))"
  using assms cut_at_le [of s n] cut_at_boundary [of s n] by (auto simp: excerpt_def)

section \<open>Concrete text\<close>

theorem frame_roundtrip_witness:
  "receive_frame (\<lambda>s. if s = ''xx'' then Inr (mk_obj [(''tick'', JInt 2)]) else Inl JsonException) frame_limit
     [Chunk ''x'', Receive_Interrupted, Chunk [CHR ''x'', newline]] = Inr (mk_obj [(''tick'', JInt 2)])"
proof -
  have d: "sample_dump (mk_obj [(''tick'', JInt 2)]) = ''xx''" by (simp add: sample_dump_def jat_mk_obj numeral_2_eq_2)
  have "send_frame sample_ext (mk_obj [(''tick'', JInt 2)]) [Sent 1, Sent 2] = (Inr (), [CHR ''x'', CHR ''x'', newline])"
    by (simp add: send_frame_def d frame_limit_def)
  from frame_roundtrip [OF this] show ?thesis by (simp add: d newline_def)
qed

theorem display_text_safe_witness: "display_text (CHR 0x1B # ''[2J'') = '' [2J'' \<and> display_text ''ok'' = ''ok''"
proof -
  have "\<forall>c \<in> set ''ok''. byte c \<ge> 32 \<and> byte c \<noteq> 127 \<or> c = newline" by (simp add: byte_def)
  moreover have "\<forall>i. Suc i < length ''ok'' \<longrightarrow> byte (''ok'' ! i) = 194 \<longrightarrow> \<not> c1 (''ok'' ! Suc i)"
    by (auto simp: byte_def less_Suc_eq)
  ultimately have "display_text ''ok'' = ''ok''" using display_text_safe [of "''ok''"] by blast
  then show ?thesis by (simp add: shown_def byte_def newline_def)
qed

theorem excerpt_boundary_witness: "\<exists>k \<le> 2. excerpt ''abcd'' 2 = take k ''abcd'' @ ellipsis"
  using excerpt_boundary [of 2 "''abcd''"] by auto

end
