(* ===== verification/Cogg_Self.thy ===== *)
theory Cogg_Self
  imports Cogg_Runtime Cogg_Queries
begin

text \<open>
  The durable self state of \<^verbatim>\<open>src/self_state.cpp\<close>: profile and commitments kept in
  ordinary memory under \<^verbatim>\<open>self.\<close> keys, the grants that permit their changes, the
  replay of a history, the guard for the kernel's commit and the runtime that caches the
  replayed state. A \<^verbatim>\<open>std::map\<close> of tasks is a key-sorted association list, as a JSON
  object is.
\<close>

section \<open>Keys, profiles and grants\<close>

definition producer :: string where
  "producer = ''cogg:self/v1''"

definition commitment_prefix :: string where
  "commitment_prefix = ''self.commitment.''"

definition contract :: string where
  "contract = ''Self state is host-verified application data, independent of the current model. '' @
     ''Read profile and open commitments below on every attempt. Grants are permissions, not commands. '' @
     ''To accept a create grant, emit a notes entry with its exact key/text, type task, status open. '' @
     ''Commitment keys belong ONLY in notes; NEVER copy them into memory. Use memory:[] unless updating other allowed keys. '' @
     ''To settle, emit the same key and ORIGINAL text, type task, and the granted status. '' @
     ''Never change terms, reuse settled IDs, or mutate self.* without the matching grant. '' @
     ''Profile changes use memory key self.profile, schema cogg:self/v1, revision + 1, and exact granted data. '' @
     ''Use empty sources/covers for commitment notes. Without grants, answer using kind speech and no self writes. '' @
     ''A closed status records authorized settlement; it does not prove a physical action occurred.''"

fun has_fields :: "json \<Rightarrow> string list \<Rightarrow> unit res" where
  "has_fields j [] = Inr ()"
| "has_fields j (k # ks) = require (jcontains j k) ''missing self field'' (has_fields j ks)"

definition self_fields :: "json \<Rightarrow> string list \<Rightarrow> unit res" where
  "self_fields j ks = require (is_object j \<and> jsize j = length ks) ''invalid self object fields'' (has_fields j ks)"

definition reserved :: "string \<Rightarrow> bool" where
  "reserved k \<longleftrightarrow> take 5 k = ''self.''"

definition id_char :: "char \<Rightarrow> bool" where
  "id_char c \<longleftrightarrow> (CHR ''a'' \<le> c \<and> c \<le> CHR ''z'') \<or> (CHR ''A'' \<le> c \<and> c \<le> CHR ''Z'') \<or>
     (CHR ''0'' \<le> c \<and> c \<le> CHR ''9'') \<or> c = CHR ''_'' \<or> c = CHR ''-''"

definition commitment :: "string \<Rightarrow> bool" where
  "commitment k \<longleftrightarrow> take (length commitment_prefix) k = commitment_prefix \<and> length commitment_prefix < length k \<and>
     length k \<le> 128 \<and> list_all id_char (drop (length commitment_prefix) k)"

definition data_valid :: "ext \<Rightarrow> json \<Rightarrow> unit res" where
  "data_valid X d = require (is_object d \<and> length (x_dump X d) \<le> 4096)
     ''self profile data must be an object of at most 4096 bytes'' (Inr ())"

fun revision_ok :: "json \<Rightarrow> bool" where
  "revision_ok (JInt i) = (0 \<le> i \<and> i < 9223372036854775807)"
| "revision_ok _ = False"

definition profile_valid :: "ext \<Rightarrow> json \<Rightarrow> unit res" where
  "profile_valid X p =
     bindR (self_fields p [''schema'', ''revision'', ''data'']) (\<lambda>_.
     bindR (jat p ''schema'') (\<lambda>schema. bindR (jat p ''revision'') (\<lambda>revision.
     require (schema = JStr producer \<and> is_number_integer revision) ''invalid self profile schema/revision'' (
     require (revision_ok revision) ''self profile revision out of range'' (
     bindR (jat p ''data'') (data_valid X))))))"

record self_state =
  ss_profile :: json
  ss_version :: string
  ss_tasks :: jobject

text \<open>\<open>item["key"] = key\<close>: a null becomes an object, any other non-object throws.\<close>

fun jput :: "string \<Rightarrow> json \<Rightarrow> json \<Rightarrow> json res" where
  "jput k v (JObj kvs) = Inr (JObj (obj_put k v kvs))"
| "jput k v JNull = Inr (JObj [(k, v)])"
| "jput k v _ = Inl JsonException"

fun open_items :: "jobject \<Rightarrow> json list res" where
  "open_items [] = Inr []"
| "open_items ((k, task) # rest) =
     bindR (jat task ''status'') (\<lambda>status.
     if status = JStr ''open''
     then bindR (jput ''key'' (JStr k) task) (\<lambda>item. bindR (open_items rest) (\<lambda>items. Inr (item # items)))
     else open_items rest)"

definition view_enc :: "self_state \<Rightarrow> string \<Rightarrow> string \<Rightarrow> json list \<Rightarrow> json" where
  "view_enc s subject head items = mk_obj
     [(''schema'', JStr ''cogg:self-view/v1''), (''subject'', JStr subject), (''head'', JStr head),
      (''profile'', ss_profile s), (''profile_version'', JStr (ss_version s)), (''open'', JArr items),
      (''settled_count'', JInt (int (length (ss_tasks s)) - int (length items)))]"

definition view_of :: "ext \<Rightarrow> self_state \<Rightarrow> string \<Rightarrow> string \<Rightarrow> json res" where
  "view_of X s subject head =
     bindR (open_items (ss_tasks s)) (\<lambda>items.
     require (length items \<le> 16) ''too many open self commitments'' (
     let view = view_enc s subject head items in
     require (length (x_dump X view) \<le> 12288) ''self view exceeds 12288 bytes'' (Inr view)))"

fun check_creates :: "json \<Rightarrow> jobject \<Rightarrow> unit res" where
  "check_creates settle [] = Inr ()"
| "check_creates settle ((k, v) # rest) =
     require (commitment k \<and> is_string v \<and> text_of v \<noteq> [] \<and> length (text_of v) \<le> 2048 \<and> CHR 0x00 \<notin> set (text_of v) \<and>
         \<not> jcontains settle k) ''invalid commitment create grant'' (check_creates settle rest)"

fun find_open :: "string \<Rightarrow> json \<Rightarrow> bool \<Rightarrow> json list \<Rightarrow> bool res" where
  "find_open k version found [] = Inr found"
| "find_open k version found (task # rest) =
     bindR (jat task ''key'') (\<lambda>key.
     if key = JStr k
     then bindR (jat task ''version'') (\<lambda>v. require (version = v) ''stale commitment version'' (find_open k version True rest))
     else find_open k version found rest)"

fun check_settles :: "json \<Rightarrow> jobject \<Rightarrow> unit res" where
  "check_settles view [] = Inr ()"
| "check_settles view ((k, v) # rest) =
     require (commitment k) ''invalid commitment key'' (
     bindR (self_fields v [''version'', ''status'']) (\<lambda>_.
     bindR (jat v ''status'') (\<lambda>status.
     require (status = JStr ''closed'' \<or> status = JStr ''retracted'') ''invalid settlement status'' (
     bindR (jat view ''open'') (\<lambda>items.
     bindR (jat v ''version'') (\<lambda>version.
     bindR (find_open k version False (elements items)) (\<lambda>found.
     require found ''settlement requires an open commitment'' (check_settles view rest))))))))"

definition grant_valid :: "ext \<Rightarrow> json \<Rightarrow> json \<Rightarrow> json \<Rightarrow> unit res" where
  "grant_valid X g view occ =
     bindR (self_fields g [''schema'', ''subject'', ''head'', ''occasion'', ''create'', ''settle'', ''profile'']) (\<lambda>_.
     bindR (jat g ''schema'') (\<lambda>schema.
     require (schema = JStr ''cogg:self-grant/v1'') ''stale or foreign self grant'' (
     bindR (jat g ''subject'') (\<lambda>gs. bindR (jat view ''subject'') (\<lambda>vs.
     require (gs = vs) ''stale or foreign self grant'' (
     bindR (jat g ''head'') (\<lambda>gh. bindR (jat view ''head'') (\<lambda>vh.
     require (gh = vh) ''stale or foreign self grant'' (
     bindR (jat g ''occasion'') (\<lambda>go.
     require (go = occ) ''stale or foreign self grant'' (
     bindR (validate_admission_context X (mk_obj [(''head'', gh), (''occasion'', occ), (''inputs'', JArr [])])) (\<lambda>_.
     bindR (jat g ''create'') (\<lambda>create. bindR (jat g ''settle'') (\<lambda>settle.
     require (is_object create \<and> is_object settle \<and> jsize create + jsize settle \<le> 8) ''invalid self grant size'' (
     bindR (check_creates settle (members create)) (\<lambda>_.
     bindR (check_settles view (members settle)) (\<lambda>_.
     bindR (jat g ''profile'') (\<lambda>profile.
     bindR (if profile \<noteq> JNull then data_valid X profile else Inr ()) (\<lambda>_.
     require (length (x_dump X g) \<le> 16384) ''self grant too large'' (Inr ()))))))))))))))))))))"

definition grant_unused_ids :: "self_state \<Rightarrow> json \<Rightarrow> unit res" where
  "grant_unused_ids s g =
     bindR (jat g ''create'') (\<lambda>create.
     require (list_all (\<lambda>(k, v). \<not> obj_has (ss_tasks s) k) (members create)) ''commitment ID already used'' (Inr ()))"

definition protected_write :: "proposal \<Rightarrow> bool" where
  "protected_write p \<longleftrightarrow> list_ex (\<lambda>w. reserved (fst w)) (p_memory p) \<or> list_ex (\<lambda>n. reserved (n_key n)) (p_notes p)"

section \<open>Applying a proposal under a grant\<close>

definition self_write :: "ext \<Rightarrow> json \<Rightarrow> string \<Rightarrow> self_state \<Rightarrow> string \<times> json \<Rightarrow> self_state res" where
  "self_write X g version s w = (case w of (k, v) \<Rightarrow>
     if \<not> reserved k then Inr s
     else require (k = ''self.profile'') ''reserved self memory key'' (
       bindR (jat g ''profile'') (\<lambda>granted.
       require (granted \<noteq> JNull) ''profile change not granted'' (
       bindR (profile_valid X v) (\<lambda>_.
       bindR (jat v ''data'') (\<lambda>data.
       require (data = granted) ''profile change differs from grant'' (
       bindR (jat v ''revision'') (\<lambda>revision.
       bindR (bindR (jat (ss_profile s) ''revision'') get_int) (\<lambda>r0.
       require (revision = JInt (r0 + 1)) ''profile change differs from grant''
         (Inr (s\<lparr>ss_profile := v, ss_version := version\<rparr>)))))))))))"

definition task_json :: "json \<Rightarrow> json \<Rightarrow> json \<Rightarrow> json" where
  "task_json txt status version = mk_obj [(''text'', txt), (''status'', status), (''version'', version)]"

definition self_note :: "json \<Rightarrow> string \<Rightarrow> self_state \<Rightarrow> memory_note \<Rightarrow> self_state res" where
  "self_note g version s n =
     (if \<not> reserved (n_key n) then Inr s
      else require (commitment (n_key n) \<and> n_type n = ''task'' \<and> n_sources n = [] \<and> n_covers n = [])
          ''invalid self commitment note'' (
        bindR (case map_of (ss_tasks s) (n_key n) of
            None \<Rightarrow>
              require (n_status n = ''open'') ''commitment creation not granted'' (
              bindR (jat g ''create'') (\<lambda>create.
              require (jcontains create (n_key n)) ''commitment creation not granted'' (
              bindR (jat create (n_key n)) (\<lambda>txt.
              require (txt = JStr (n_text n)) ''commitment creation not granted'' (Inr ())))))
          | Some old \<Rightarrow>
              bindR (jat old ''status'') (\<lambda>status.
              require (status = JStr ''open'') ''commitment terms immutable or ID settled'' (
              bindR (jat old ''text'') (\<lambda>txt.
              require (txt = JStr (n_text n)) ''commitment terms immutable or ID settled'' (
              bindR (jat g ''settle'') (\<lambda>settle.
              require (jcontains settle (n_key n)) ''commitment settlement not granted'' (
              bindR (jat settle (n_key n)) (\<lambda>permit.
              bindR (jat permit ''status'') (\<lambda>st.
              require (st = JStr (n_status n)) ''commitment settlement not granted'' (
              bindR (jat permit ''version'') (\<lambda>pv. bindR (jat old ''version'') (\<lambda>ov.
              require (pv = ov) ''commitment settlement not granted'' (Inr ())))))))))))))
          (\<lambda>_. Inr (s\<lparr>ss_tasks := obj_put (n_key n) (task_json (JStr (n_text n)) (JStr (n_status n)) (JStr version)) (ss_tasks s)\<rparr>))))"

fun foldR :: "('s \<Rightarrow> 'a \<Rightarrow> 's res) \<Rightarrow> 's \<Rightarrow> 'a list \<Rightarrow> 's res" where
  "foldR f s [] = Inr s"
| "foldR f s (x # xs) = bindR (f s x) (\<lambda>s'. foldR f s' xs)"

definition self_apply :: "ext \<Rightarrow> self_state \<Rightarrow> proposal \<Rightarrow> json \<Rightarrow> string \<Rightarrow> self_state res" where
  "self_apply X s p g version =
     bindR (foldR (self_write X g version) s (p_memory p)) (\<lambda>s'. foldR (self_note g version) s' (p_notes p))"

definition content_of :: "json \<Rightarrow> json \<Rightarrow> json" where
  "content_of view g = mk_obj [(''schema'', JStr producer), (''contract'', JStr contract), (''view'', view), (''grant'', g)]"

section \<open>Replaying a history\<close>

definition no_self :: self_state where
  "no_self = \<lparr>ss_profile = JNull, ss_version = [], ss_tasks = []\<rparr>"

text \<open>The packet among the inputs of an admission; null for none.\<close>

fun self_packet :: "json \<Rightarrow> json list \<Rightarrow> json res" where
  "self_packet packet [] = Inr packet"
| "self_packet packet (input # rest) =
     bindR (jat input ''body'') (\<lambda>b. bindR (jat b ''producer'') (\<lambda>pr.
     if pr = JStr producer
     then require (packet = JNull) ''duplicate self input'' (
       bindR (jat b ''kind'') (\<lambda>kind.
       require (kind = JStr ''observation'') ''invalid self input kind'' (
       bindR (jat b ''content'') (\<lambda>c. self_packet c rest))))
     else self_packet packet rest))"

definition pending_id :: "pending \<Rightarrow> json" where
  "pending_id q = (case pe_id q of None \<Rightarrow> JNull | Some i \<Rightarrow> JStr i)"

definition admitted_occasion :: "admission \<Rightarrow> json res" where
  "admitted_occasion a = (case sc_occasion (te_admission (ad_temporal a)) of
     None \<Rightarrow> Inl JsonException | Some q \<Rightarrow> Inr (pending_id q))"

definition self_genesis :: "ext \<Rightarrow> self_state \<Rightarrow> string \<Rightarrow> jobject \<Rightarrow> self_state res" where
  "self_genesis X s i memory =
     require (list_all (\<lambda>(k, v). \<not> reserved k \<or> k = ''self.profile'') memory) ''reserved genesis self key'' (
     require (obj_has memory ''self.profile'') ''self profile must be initialized at genesis'' (
     bindR (jat (JObj memory) ''self.profile'') (\<lambda>profile.
     bindR (profile_valid X profile) (\<lambda>_.
     bindR (jat profile ''revision'') (\<lambda>revision.
     require (revision = JInt 0) ''genesis self revision must be zero''
       (Inr (s\<lparr>ss_profile := profile, ss_version := i\<rparr>)))))))"

definition self_transition ::
    "ext \<Rightarrow> string \<Rightarrow> (string \<rightharpoonup> admission) \<Rightarrow> self_state \<Rightarrow> string \<Rightarrow> string \<Rightarrow> transition \<Rightarrow> self_state res" where
  "self_transition X subject attempts s head i t =
     bindR (parse_proposal X (proposal_enc (tr_proposal t))) (\<lambda>p.
     case attempts (tr_attempt t) of None \<Rightarrow> Inl (StdException ''map::at'')
     | Some a \<Rightarrow>
       bindR (self_packet JNull (elements (ad_inputs a))) (\<lambda>packet.
       if packet = JNull then require (\<not> protected_write p) ''unguarded self mutation in history'' (Inr s)
       else
         bindR (view_of X s subject head) (\<lambda>before.
         bindR (jat packet ''grant'') (\<lambda>g.
         bindR (admitted_occasion a) (\<lambda>occ.
         bindR (grant_valid X g before occ) (\<lambda>_.
         bindR (grant_unused_ids s g) (\<lambda>_.
         bindR (self_fields packet [''schema'', ''contract'', ''view'', ''grant'']) (\<lambda>_.
         bindR (jat packet ''schema'') (\<lambda>schema.
         require (schema = JStr producer) ''self admission view/contract mismatch'' (
         bindR (jat packet ''view'') (\<lambda>view.
         require (view = before) ''self admission view/contract mismatch'' (
         bindR (jat packet ''contract'') (\<lambda>c.
         require (is_string c \<and> length (text_of c) \<le> 2048) ''self admission view/contract mismatch''
           (self_apply X s p g i))))))))))))))"

text \<open>One round of the loop: the state, the head and the view after a commit.\<close>

definition self_commit ::
    "ext \<Rightarrow> string \<Rightarrow> (string \<rightharpoonup> admission) \<Rightarrow> self_state \<times> string \<times> json \<Rightarrow> string \<times> commit_body \<Rightarrow>
     (self_state \<times> string \<times> json) res" where
  "self_commit X subject attempts acc c = (case acc of (s, head, view) \<Rightarrow> (case c of (i, b) \<Rightarrow>
     bindR (if cb_tick b = 0 then self_genesis X s i (cb_memory b)
            else (case b of Genesis g \<Rightarrow> Inl JsonException
                  | Transition t \<Rightarrow> self_transition X subject attempts s head i t)) (\<lambda>s'.
     bindR (view_of X s' subject i) (\<lambda>view'. Inr (s', i, view')))))"

definition self_commits ::
    "ext \<Rightarrow> string \<Rightarrow> (string \<rightharpoonup> admission) \<Rightarrow> (string \<times> commit_body) list \<Rightarrow> (self_state \<times> string \<times> json) res" where
  "self_commits X subject attempts cs = foldR (self_commit X subject attempts) (no_self, [], JNull) cs"

definition timeline_attempts :: "timeline_report \<Rightarrow> (string \<rightharpoonup> admission)" where
  "timeline_attempts r = map_of (map (\<lambda>(i, b, _). (i, b)) (tl_attempts r))"

text \<open>Three read transactions; other connections may write in between.\<close>

definition self_replay :: "ext \<Rightarrow> bool \<Rightarrow> store \<Rightarrow> store \<Rightarrow> store \<Rightarrow> string \<Rightarrow> (self_state \<times> json) res" where
  "self_replay X sqlite_ok st1 st2 st3 subject =
     bindR (timeline st1 subject) (\<lambda>report.
     bindR (verify X sqlite_ok st2 subject) (\<lambda>_.
     bindR (snapshot st3 subject) (\<lambda>s.
     raise_unless (sn_head s = sn_head (tl_snapshot report)) (Conflict ''self history changed during verification'') (
     bindR (self_commits X subject (timeline_attempts report) (tl_commits report)) (\<lambda>(state, _, view). Inr (state, view))))))"

section \<open>The host's interface\<close>

definition self_profile :: "ext \<Rightarrow> json \<Rightarrow> json res" where
  "self_profile X d = bindR (data_valid X d) (\<lambda>_.
     Inr (mk_obj [(''schema'', JStr producer), (''revision'', JInt 0), (''data'', d)]))"

definition inspect_self :: "ext \<Rightarrow> bool \<Rightarrow> store \<Rightarrow> store \<Rightarrow> store \<Rightarrow> string \<Rightarrow> json res" where
  "inspect_self X sqlite_ok st1 st2 st3 subject = bindR (self_replay X sqlite_ok st1 st2 st3 subject) (\<lambda>(_, view). Inr view)"

definition guard_task :: "jobject \<Rightarrow> json \<Rightarrow> jobject res" where
  "guard_task tasks task =
     bindR (bindR (jat task ''key'') get_string) (\<lambda>key.
     bindR (jat task ''text'') (\<lambda>txt. bindR (jat task ''status'') (\<lambda>status. bindR (jat task ''version'') (\<lambda>version.
     Inr (obj_put key (task_json txt status version) tasks)))))"

definition zero_id :: string where
  "zero_id = replicate 64 (CHR ''0'')"

definition install_self_guard :: "ext \<Rightarrow> string \<Rightarrow> snapshot \<Rightarrow> admission \<Rightarrow> proposal \<Rightarrow> unit res" where
  "install_self_guard X subject snap a p =
     (if \<not> obj_has (sn_memory snap) ''self.profile''
      then require (\<not> protected_write p) ''self.* keys require a self-state subject'' (Inr ())
      else
        bindR (self_packet JNull (elements (ad_inputs a))) (\<lambda>packet.
        if packet = JNull
        then require (\<not> protected_write p) ''unguarded self mutation rejected by transition guard'' (Inr ())
        else
          bindR (self_fields packet [''schema'', ''contract'', ''view'', ''grant'']) (\<lambda>_.
          bindR (jat packet ''view'') (\<lambda>view.
          bindR (jat packet ''grant'') (\<lambda>g.
          bindR (admitted_occasion a) (\<lambda>occ.
          bindR (grant_valid X g view occ) (\<lambda>_.
          bindR (jat view ''profile'') (\<lambda>profile.
          bindR (bindR (jat view ''profile_version'') get_string) (\<lambda>version.
          bindR (jat view ''open'') (\<lambda>items.
          bindR (foldR guard_task [] (elements items)) (\<lambda>tasks.
          bindR (self_apply X \<lparr>ss_profile = profile, ss_version = version, ss_tasks = tasks\<rparr> p g zero_id) (\<lambda>s'.
          bindR (view_of X s' subject zero_id) (\<lambda>_. Inr ())))))))))))))"

definition self_grant :: "ext \<Rightarrow> json \<Rightarrow> json \<Rightarrow> json \<Rightarrow> json \<Rightarrow> json \<Rightarrow> json res" where
  "self_grant X view occ makes settles profile =
     bindR (jat view ''subject'') (\<lambda>subject. bindR (jat view ''head'') (\<lambda>head.
     let g = mk_obj [(''schema'', JStr ''cogg:self-grant/v1''), (''subject'', subject), (''head'', head),
           (''occasion'', occ), (''create'', makes), (''settle'', settles), (''profile'', profile)]
     in bindR (grant_valid X g view occ) (\<lambda>_. Inr g)))"

section \<open>What the validators accept\<close>

lemma foldR_append: "foldR f s (xs @ ys) = bindR (foldR f s xs) (\<lambda>s'. foldR f s' ys)"
proof (induction xs arbitrary: s)
  case (Cons x xs)
  then show ?case by (cases "f s x") simp_all
qed simp

lemma foldR_invariant:
  "foldR f s xs = Inr s' \<Longrightarrow> P s \<Longrightarrow> (\<And>u x u'. x \<in> set xs \<Longrightarrow> P u \<Longrightarrow> f u x = Inr u' \<Longrightarrow> P u') \<Longrightarrow> P s'"
proof (induction xs arbitrary: s)
  case (Cons x xs)
  from Cons.prems(1) obtain u where u: "f s x = Inr u" "foldR f u xs = Inr s'" by (auto simp: bindR_Inr)
  show ?case using Cons.IH [OF u(2)] Cons.prems(2,3) u(1) by (metis list.set_intros)
qed simp

lemma members_jat: "is_object j \<Longrightarrow> jat j k = Inr v \<Longrightarrow> (k, v) \<in> set (members j)"
  by (cases j) (auto split: option.splits dest: map_of_SomeD)

lemma check_creates_Inr:
  "check_creates settle kvs = Inr () \<longleftrightarrow>
     (\<forall>(k, v) \<in> set kvs. commitment k \<and> is_string v \<and> text_of v \<noteq> [] \<and> length (text_of v) \<le> 2048 \<and>
        CHR 0x00 \<notin> set (text_of v) \<and> \<not> jcontains settle k)"
  by (induction settle kvs rule: check_creates.induct) (auto simp: res_simps)

definition settlement_status :: "json \<Rightarrow> bool" where
  "settlement_status j \<longleftrightarrow> j = JStr ''closed'' \<or> j = JStr ''retracted''"

lemma find_open_Inr:
  "find_open k version found items = Inr r \<Longrightarrow> r \<longleftrightarrow> found \<or>
     (\<exists>task \<in> set items. jat task ''key'' = Inr (JStr k) \<and> jat task ''version'' = Inr version)"
proof (induction items arbitrary: found)
  case (Cons task items)
  from Cons.prems obtain key where key: "jat task ''key'' = Inr key" by (auto simp: bindR_Inr)
  show ?case
  proof (cases "key = JStr k")
    case True
    with Cons.prems key have "jat task ''version'' = Inr version" "find_open k version True items = Inr r"
      by (auto simp: res_simps)
    with Cons.IH [of True] True key show ?thesis by auto
  next
    case False
    with Cons.prems key have "find_open k version found items = Inr r" by simp
    with Cons.IH [of found] False key show ?thesis by auto
  qed
qed simp

lemma check_settles_Inr:
  "check_settles view kvs = Inr () \<Longrightarrow> (k, v) \<in> set kvs \<Longrightarrow>
     commitment k \<and> (\<exists>status. jat v ''status'' = Inr status \<and> settlement_status status) \<and>
     (\<exists>items version task. jat view ''open'' = Inr items \<and> jat v ''version'' = Inr version \<and> task \<in> set (elements items) \<and>
        jat task ''key'' = Inr (JStr k) \<and> jat task ''version'' = Inr version)"
proof (induction view kvs rule: check_settles.induct)
  case (2 view k' v' rest)
  from "2.prems"(1) obtain status items version where c: "commitment k'" "jat v' ''status'' = Inr status"
    "settlement_status status" "jat view ''open'' = Inr items" "jat v' ''version'' = Inr version"
    "find_open k' version False (elements items) = Inr True" "check_settles view rest = Inr ()"
    by (auto simp: res_simps settlement_status_def)
  show ?case
  proof (cases "(k, v) = (k', v')")
    case True
    with c find_open_Inr [OF c(6)] show ?thesis by auto
  next
    case False
    with "2.prems"(2) c(7) "2.IH" show ?thesis by auto
  qed
qed simp

text \<open>What a valid grant is: bound to the view and the occasion, and every permission it holds
  is well formed.\<close>

lemma grant_valid_Inr:
  assumes "grant_valid X g view occ = Inr ()"
  obtains creates settles profile head subject where "is_object g"
    and "jat g ''create'' = Inr (JObj creates)" and "jat g ''settle'' = Inr (JObj settles)"
    and "jat g ''profile'' = Inr profile" and "profile \<noteq> JNull \<Longrightarrow> data_valid X profile = Inr ()"
    and "jat g ''head'' = Inr head" and "jat view ''head'' = Inr head"
    and "jat g ''subject'' = Inr subject" and "jat view ''subject'' = Inr subject"
    and "jat g ''occasion'' = Inr occ"
    and "check_creates (JObj settles) creates = Inr ()" and "check_settles view settles = Inr ()"
    and "length creates + length settles \<le> 8"
proof -
  from assms obtain creates settles profile head subject where
    "is_object g" "jat g ''create'' = Inr creates" "is_object creates" "jat g ''settle'' = Inr settles" "is_object settles"
    "jat g ''profile'' = Inr profile" "(if profile \<noteq> JNull then data_valid X profile else Inr ()) = Inr ()"
    "jat g ''head'' = Inr head" "jat view ''head'' = Inr head" "jat g ''subject'' = Inr subject"
    "jat view ''subject'' = Inr subject" "jat g ''occasion'' = Inr occ"
    "check_creates settles (members creates) = Inr ()" "check_settles view (members settles) = Inr ()"
    "jsize creates + jsize settles \<le> 8"
    unfolding grant_valid_def self_fields_def by (auto simp: res_simps)
  then show thesis using that by (cases creates; cases settles) (auto split: if_splits)
qed

section \<open>Every change is granted\<close>

text \<open>How one commitment may change: it is created with exactly the granted terms, or an open
  one is settled, terms unchanged, as a permit for its last version says.\<close>

definition granted_task :: "json \<Rightarrow> string \<Rightarrow> string \<Rightarrow> json option \<Rightarrow> json option \<Rightarrow> bool" where
  "granted_task g version k old new \<longleftrightarrow>
     old = None \<and> (\<exists>txt. jat (field g ''create'') k = Inr (JStr txt) \<and>
        new = Some (task_json (JStr txt) (JStr ''open'') (JStr version))) \<or>
     (\<exists>task permit. old = Some task \<and> field task ''status'' = JStr ''open'' \<and>
        jat (field g ''settle'') k = Inr permit \<and> settlement_status (field permit ''status'') \<and>
        field permit ''version'' = field task ''version'' \<and>
        new = Some (task_json (field task ''text'') (field permit ''status'') (JStr version)))"

definition granted_profile :: "json \<Rightarrow> string \<Rightarrow> self_state \<Rightarrow> self_state \<Rightarrow> bool" where
  "granted_profile g version s s' \<longleftrightarrow> field g ''profile'' \<noteq> JNull \<and> field (ss_profile s') ''data'' = field g ''profile'' \<and>
     (\<exists>r. jat (ss_profile s) ''revision'' = Inr (JInt r) \<and> jat (ss_profile s') ''revision'' = Inr (JInt (r + 1))) \<and>
     ss_version s' = version"

definition granted :: "json \<Rightarrow> string \<Rightarrow> self_state \<Rightarrow> self_state \<Rightarrow> bool" where
  "granted g version s s' \<longleftrightarrow>
     (\<forall>k. map_of (ss_tasks s') k = map_of (ss_tasks s) k \<or>
        granted_task g version k (map_of (ss_tasks s) k) (map_of (ss_tasks s') k)) \<and>
     (ss_profile s' = ss_profile s \<and> ss_version s' = ss_version s \<or> granted_profile g version s s')"

lemma get_int_Inr: "get_int j = Inr i \<longleftrightarrow> j = JInt i"
  by (cases j) simp_all

lemma get_string_Inr: "get_string j = Inr t \<longleftrightarrow> j = JStr t"
  by (cases j) simp_all

lemma self_note_Inr:
  assumes "self_note g version s n = Inr s'" and "grant_valid X g view occ = Inr ()"
  obtains (ordinary) "\<not> reserved (n_key n)" and "s' = s"
  | (commitment) task where "commitment (n_key n)" and "s' = s\<lparr>ss_tasks := obj_put (n_key n) task (ss_tasks s)\<rparr>"
      and "granted_task g version (n_key n) (map_of (ss_tasks s) (n_key n)) (Some task)"
      and "task = task_json (JStr (n_text n)) (JStr (n_status n)) (JStr version)"
proof (cases "reserved (n_key n)")
  case True
  let ?task = "task_json (JStr (n_text n)) (JStr (n_status n)) (JStr version)"
  from assms(1) True have c: "commitment (n_key n)" and s': "s' = s\<lparr>ss_tasks := obj_put (n_key n) ?task (ss_tasks s)\<rparr>"
    by (auto simp: self_note_def res_simps)
  have "granted_task g version (n_key n) (map_of (ss_tasks s) (n_key n)) (Some ?task)"
  proof (cases "map_of (ss_tasks s) (n_key n)")
    case None
    with assms(1) True obtain creates where "n_status n = ''open''" "jat g ''create'' = Inr creates"
      "jat creates (n_key n) = Inr (JStr (n_text n))" by (auto simp: self_note_def res_simps)
    then show ?thesis using None by (simp add: granted_task_def jat_field [of g])
  next
    case (Some old)
    with assms(1) True obtain settles permit ov where o: "jat old ''status'' = Inr (JStr ''open'')"
      "jat old ''text'' = Inr (JStr (n_text n))" "jat g ''settle'' = Inr settles" "jat settles (n_key n) = Inr permit"
      "jat permit ''status'' = Inr (JStr (n_status n))" "jat permit ''version'' = Inr ov" "jat old ''version'' = Inr ov"
      by (auto simp: self_note_def res_simps)
    from assms(2) obtain kvs where g: "jat g ''settle'' = Inr (JObj kvs)" "check_settles view kvs = Inr ()"
      by (rule grant_valid_Inr)
    with o(3,4) have "(n_key n, permit) \<in> set kvs" by (auto split: option.splits dest: map_of_SomeD)
    from check_settles_Inr [OF g(2) this] o(5) have "settlement_status (JStr (n_status n))" by auto
    with o Some show ?thesis by (simp add: granted_task_def jat_field)
  qed
  with c s' show thesis by (rule commitment) simp
qed (use assms(1) in \<open>auto simp: self_note_def intro: ordinary\<close>)

lemma self_write_Inr:
  assumes "self_write X g version s w = Inr s'"
  obtains (ordinary) "\<not> reserved (fst w)" and "s' = s"
  | (profile) "fst w = ''self.profile''" and "s' = s\<lparr>ss_profile := snd w, ss_version := version\<rparr>"
      and "profile_valid X (snd w) = Inr ()" and "granted_profile g version s s'"
proof (cases "reserved (fst w)")
  case True
  from assms True obtain gp r where p: "fst w = ''self.profile''" "jat g ''profile'' = Inr gp" "gp \<noteq> JNull"
    "profile_valid X (snd w) = Inr ()" "jat (snd w) ''data'' = Inr gp" "jat (ss_profile s) ''revision'' = Inr (JInt r)"
    "jat (snd w) ''revision'' = Inr (JInt (r + 1))" "s' = s\<lparr>ss_profile := snd w, ss_version := version\<rparr>"
    by (auto simp: self_write_def res_simps get_int_Inr split: prod.splits)
  then have "granted_profile g version s s'" by (auto simp: granted_profile_def dest!: jat_field)
  with p show thesis by (intro profile) simp_all
qed (use assms in \<open>auto simp: self_write_def intro: ordinary split: prod.splits\<close>)

lemma self_notes_granted:
  assumes "foldR (self_note g version) s ns = Inr s'" and "grant_valid X g view occ = Inr ()" and "distinct (map n_key ns)"
  shows "ss_profile s' = ss_profile s \<and> ss_version s' = ss_version s \<and>
    (\<forall>k. map_of (ss_tasks s') k = map_of (ss_tasks s) k \<or>
       k \<in> n_key ` set ns \<and> granted_task g version k (map_of (ss_tasks s) k) (map_of (ss_tasks s') k))"
  using assms(1,3)
proof (induction ns arbitrary: s)
  case (Cons n ns)
  from Cons.prems(1) obtain u where u: "self_note g version s n = Inr u" "foldR (self_note g version) u ns = Inr s'"
    by (auto simp: bindR_Inr)
  have IH: "ss_profile s' = ss_profile u" "ss_version s' = ss_version u"
    "map_of (ss_tasks s') k = map_of (ss_tasks u) k \<or>
       k \<in> n_key ` set ns \<and> granted_task g version k (map_of (ss_tasks u) k) (map_of (ss_tasks s') k)" for k
    using Cons.IH [OF u(2)] Cons.prems(2) by auto
  have fresh: "n_key n \<notin> n_key ` set ns" using Cons.prems(2) by simp
  show ?case
    using u(1) assms(2)
  proof (cases rule: self_note_Inr)
    case ordinary
    then show ?thesis using IH by auto
  next
    case (commitment task)
    have "map_of (ss_tasks s') k = map_of (ss_tasks s) k \<or>
        k \<in> n_key ` set (n # ns) \<and> granted_task g version k (map_of (ss_tasks s) k) (map_of (ss_tasks s') k)" for k
    proof (cases "k = n_key n")
      case True
      then have "map_of (ss_tasks s') k = Some task" using IH(3) [of k] fresh commitment(2) by auto
      with True commitment(3) show ?thesis by simp
    next
      case False
      then have "map_of (ss_tasks u) k = map_of (ss_tasks s) k" using commitment(2) by simp
      with IH(3) [of k] show ?thesis by auto
    qed
    with IH(1,2) commitment(2) show ?thesis by simp
  qed
qed simp

lemma self_writes_granted:
  assumes "foldR (self_write X g version) s ws = Inr s'" and "distinct (map fst ws)"
  shows "ss_tasks s' = ss_tasks s \<and> (s' = s \<or> granted_profile g version s s' \<and> profile_valid X (ss_profile s') = Inr ())"
  using assms
proof (induction ws arbitrary: s)
  case (Cons w ws)
  from Cons.prems(1) obtain u where u: "self_write X g version s w = Inr u" "foldR (self_write X g version) u ws = Inr s'"
    by (auto simp: bindR_Inr)
  note IH = Cons.IH [OF u(2)]
  from u(1) show ?case
  proof (cases rule: self_write_Inr)
    case ordinary
    with IH Cons.prems(2) show ?thesis by simp
  next
    case profile
    have "foldR (self_write X g version) u ws = Inr u'" if "\<forall>w \<in> set ws. \<not> reserved (fst w)" "u' = u" for u'
      using that by (induction ws) (auto simp: self_write_def split: prod.splits)
    moreover have "\<not> reserved (fst w')" if "w' \<in> set ws" for w'
    proof
      assume "reserved (fst w')"
      moreover from u(2) that have "reserved (fst w') \<longrightarrow> fst w' = ''self.profile''"
      proof (induction ws arbitrary: u)
        case (Cons x xs)
        then show ?case by (auto simp: bindR_Inr elim!: self_write_Inr)
      qed simp
      ultimately have "fst w' = fst w" using profile(1) by simp
      with Cons.prems(2) that show False by (metis distinct.simps(2) image_eqI list.set_map list.simps(9))
    qed
    ultimately have "s' = u" using u(2) by (metis Inr_inject)
    with profile show ?thesis by simp
  qed
qed simp

lemma self_apply_granted:
  assumes "self_apply X s p g version = Inr s'" and "grant_valid X g view occ = Inr ()" and "proposal_ok X p"
  shows "granted g version s s'"
proof -
  from assms(1) obtain u where u: "foldR (self_write X g version) s (p_memory p) = Inr u"
    "foldR (self_note g version) u (p_notes p) = Inr s'" by (auto simp: self_apply_def bindR_Inr)
  have d: "distinct (map fst (p_memory p))" "distinct (map n_key (p_notes p))"
    using assms(3) by (simp_all add: proposal_ok_def notes_ok_def)
  from self_writes_granted [OF u(1) d(1)] self_notes_granted [OF u(2) assms(2) d(2)] show ?thesis
    unfolding granted_def granted_profile_def by auto
qed

section \<open>Replayed histories\<close>

definition task_ok :: "json \<Rightarrow> bool" where
  "task_ok j \<longleftrightarrow> (\<exists>txt status version. j = task_json (JStr txt) (JStr status) (JStr version) \<and>
     status \<in> {''open'', ''closed'', ''retracted''})"

definition tasks_ok :: "jobject \<Rightarrow> bool" where
  "tasks_ok tasks \<longleftrightarrow> obj_sorted tasks \<and> (\<forall>(k, j) \<in> set tasks. commitment k \<and> task_ok j)"

lemma task_json_fields [simp]:
  "jat (task_json a b c) ''text'' = Inr a" "jat (task_json a b c) ''status'' = Inr b" "jat (task_json a b c) ''version'' = Inr c"
  "field (task_json a b c) ''text'' = a" "field (task_json a b c) ''status'' = b" "field (task_json a b c) ''version'' = c"
  by (simp_all add: task_json_def mk_obj_access field_def)

lemma task_json_inject [simp]: "task_json a b c = task_json a' b' c' \<longleftrightarrow> a = a' \<and> b = b' \<and> c = c'"
  by (metis task_json_fields(4-6))

lemma map_of_tasks: "obj_sorted kvs \<Longrightarrow> (k, v) \<in> set kvs \<longleftrightarrow> map_of kvs k = Some v"
  by (simp add: obj_sorted_distinct)

lemma tasks_ok_Nil [simp]: "tasks_ok []"
  by (simp add: tasks_ok_def)

lemma tasks_ok_map: "tasks_ok tasks \<longleftrightarrow> obj_sorted tasks \<and> (\<forall>k j. map_of tasks k = Some j \<longrightarrow> commitment k \<and> task_ok j)"
  by (auto simp: tasks_ok_def map_of_tasks)

lemma granted_task_ok:
  assumes "granted_task g version k old (Some new)" and "\<And>j. old = Some j \<Longrightarrow> task_ok j"
  shows "task_ok new"
  using assms by (auto simp: granted_task_def task_ok_def settlement_status_def)

lemma self_note_tasks_ok:
  assumes "self_note g version s n = Inr s'" and "grant_valid X g view occ = Inr ()" and "tasks_ok (ss_tasks s)"
  shows "tasks_ok (ss_tasks s')"
  using assms(1,2)
proof (cases rule: self_note_Inr)
  case (commitment task)
  have "task_ok task" using granted_task_ok [OF commitment(3)] assms(3) by (simp add: tasks_ok_map)
  with commitment assms(3) show ?thesis by (auto simp: tasks_ok_map obj_sorted_put)
qed (use assms(3) in simp)

lemma self_write_tasks: "self_write X g version s w = Inr s' \<Longrightarrow> ss_tasks s' = ss_tasks s"
  by (erule self_write_Inr) simp_all

lemma self_apply_tasks_ok:
  assumes "self_apply X s p g version = Inr s'" and "grant_valid X g view occ = Inr ()" and "tasks_ok (ss_tasks s)"
  shows "tasks_ok (ss_tasks s')"
proof -
  from assms(1) obtain u where u: "foldR (self_write X g version) s (p_memory p) = Inr u"
    "foldR (self_note g version) u (p_notes p) = Inr s'" by (auto simp: self_apply_def bindR_Inr)
  have "ss_tasks u = ss_tasks s"
    using foldR_invariant [OF u(1), where P = "\<lambda>u. ss_tasks u = ss_tasks s"] self_write_tasks by metis
  with assms(3) have "tasks_ok (ss_tasks u)" by simp
  then show ?thesis
    using foldR_invariant [OF u(2), where P = "\<lambda>s. tasks_ok (ss_tasks s)"] self_note_tasks_ok [OF _ assms(2)] by blast
qed

text \<open>The ways through one round of the replay.\<close>

lemma self_commit_cases:
  assumes "self_commit X subject attempts (s, head, view) (i, b) = Inr (s', head', view')"
  obtains (genesis) "cb_tick b = 0" and "ss_tasks s' = ss_tasks s" and "head' = i" and "view_of X s' subject i = Inr view'"
  | (plain) t where "b = Transition t" and "cb_tick b \<noteq> 0" and "s' = s" and "head' = i" and "view_of X s' subject i = Inr view'"
  | (granted) t p a packet g occ before where "b = Transition t" and "cb_tick b \<noteq> 0"
      and "parse_proposal X (proposal_enc (tr_proposal t)) = Inr p" and "attempts (tr_attempt t) = Some a"
      and "self_packet JNull (elements (ad_inputs a)) = Inr packet" and "view_of X s subject head = Inr before"
      and "jat packet ''view'' = Inr before" and "jat packet ''grant'' = Inr g" and "admitted_occasion a = Inr occ"
      and "grant_valid X g before occ = Inr ()" and "grant_unused_ids s g = Inr ()" and "self_apply X s p g i = Inr s'"
      and "head' = i" and "view_of X s' subject i = Inr view'"
proof -
  from assms obtain step where step: "step = Inr s'" "head' = i" "view_of X s' subject i = Inr view'"
    and def: "step = (if cb_tick b = 0 then self_genesis X s i (cb_memory b)
            else (case b of Genesis g \<Rightarrow> Inl JsonException
                  | Transition t \<Rightarrow> self_transition X subject attempts s head i t))"
    by (auto simp: self_commit_def bindR_Inr)
  show thesis
  proof (cases "cb_tick b = 0")
    case True
    with def step(1) have "self_genesis X s i (cb_memory b) = Inr s'" by simp
    then have "ss_tasks s' = ss_tasks s" by (auto simp: self_genesis_def res_simps)
    with True step(2,3) show thesis by (intro genesis)
  next
    case False
    then obtain t where t: "b = Transition t" by (cases b) auto
    with False def step(1) have tr: "self_transition X subject attempts s head i t = Inr s'" by simp
    then obtain p a packet where pa: "parse_proposal X (proposal_enc (tr_proposal t)) = Inr p"
      "attempts (tr_attempt t) = Some a" "self_packet JNull (elements (ad_inputs a)) = Inr packet"
      by (auto simp: self_transition_def bindR_Inr split: option.splits)
    show thesis
    proof (cases "packet = JNull")
      case True
      with tr pa have "s' = s" by (simp add: self_transition_def res_simps)
      with t False step(2,3) show thesis by (intro plain)
    next
      case packet: False
      from tr pa packet obtain before g occ where
        "view_of X s subject head = Inr before" "jat packet ''view'' = Inr before" "jat packet ''grant'' = Inr g"
        "admitted_occasion a = Inr occ" "grant_valid X g before occ = Inr ()" "grant_unused_ids s g = Inr ()"
        "self_apply X s p g i = Inr s'"
        by (auto simp: self_transition_def res_simps)
      with t False pa step(2,3) show thesis by (intro granted)
    qed
  qed
qed

lemma self_commit_tasks_ok:
  assumes "self_commit X subject attempts (s, head, view) c = Inr (s', head', view')" and "tasks_ok (ss_tasks s)"
  shows "tasks_ok (ss_tasks s')"
proof -
  obtain i b where c: "c = (i, b)" by fastforce
  from assms(1) show ?thesis
    unfolding c using assms(2) by (cases rule: self_commit_cases) (auto dest: self_apply_tasks_ok)
qed

lemma self_commits_append:
  "self_commits X subject attempts (cs @ ds) =
     bindR (self_commits X subject attempts cs) (\<lambda>acc. foldR (self_commit X subject attempts) acc ds)"
  by (simp add: self_commits_def foldR_append)

lemma self_commits_tasks_ok:
  assumes "self_commits X subject attempts cs = Inr (s, head, view)"
  shows "tasks_ok (ss_tasks s)"
proof -
  have "tasks_ok (ss_tasks (fst acc))" if "foldR (self_commit X subject attempts) a cs = Inr acc" "tasks_ok (ss_tasks (fst a))" for a acc
    using that
  proof (rule foldR_invariant)
    fix u c u' assume "tasks_ok (ss_tasks (fst u))" "self_commit X subject attempts u c = Inr u'"
    then show "tasks_ok (ss_tasks (fst u'))" using self_commit_tasks_ok by (metis prod.collapse)
  qed
  from this [OF assms [unfolded self_commits_def]] show ?thesis by (simp add: no_self_def)
qed

text \<open>A commitment's terms never change, and once settled it never changes at all.\<close>

definition keeps :: "self_state \<Rightarrow> self_state \<Rightarrow> bool" where
  "keeps s s' \<longleftrightarrow> (\<forall>k task. map_of (ss_tasks s) k = Some task \<longrightarrow>
     (\<exists>task'. map_of (ss_tasks s') k = Some task' \<and> field task' ''text'' = field task ''text'' \<and>
        (field task ''status'' \<noteq> JStr ''open'' \<longrightarrow> task' = task)))"

lemma keeps_refl [simp]: "keeps s s"
  by (simp add: keeps_def)

lemma keeps_trans:
  assumes "keeps a b" and "keeps b c"
  shows "keeps a c"
  unfolding keeps_def
proof (intro allI impI)
  fix k task assume "map_of (ss_tasks a) k = Some task"
  with assms(1) obtain t1 where 1: "map_of (ss_tasks b) k = Some t1" "field t1 ''text'' = field task ''text''"
    "field task ''status'' \<noteq> JStr ''open'' \<longrightarrow> t1 = task" unfolding keeps_def by blast
  with assms(2) obtain t2 where 2: "map_of (ss_tasks c) k = Some t2" "field t2 ''text'' = field t1 ''text''"
    "field t1 ''status'' \<noteq> JStr ''open'' \<longrightarrow> t2 = t1" unfolding keeps_def by blast
  show "\<exists>task'. map_of (ss_tasks c) k = Some task' \<and> field task' ''text'' = field task ''text'' \<and>
      (field task ''status'' \<noteq> JStr ''open'' \<longrightarrow> task' = task)"
    using 1 2 by (intro exI [of _ t2]) auto
qed

lemma granted_keeps: "granted g version s s' \<Longrightarrow> keeps s s'"
proof -
  have *: "\<exists>task'. new = Some task' \<and> field task' ''text'' = field task ''text'' \<and>
      (field task ''status'' \<noteq> JStr ''open'' \<longrightarrow> task' = task)"
    if "new = Some task \<or> granted_task g version k (Some task) new" for k task new
    using that by (auto simp: granted_task_def)
  assume "granted g version s s'"
  then have "map_of (ss_tasks s') k = Some task \<or> granted_task g version k (Some task) (map_of (ss_tasks s') k)"
    if "map_of (ss_tasks s) k = Some task" for k task
    using that unfolding granted_def by metis
  with * show "keeps s s'" unfolding keeps_def by blast
qed

lemma self_commit_keeps:
  assumes "self_commit X subject attempts (s, head, view) c = Inr (s', head', view')"
  shows "keeps s s'"
proof -
  obtain i b where c: "c = (i, b)" by fastforce
  from assms [unfolded c] show ?thesis
  proof (cases rule: self_commit_cases)
    case genesis
    then show ?thesis by (simp add: keeps_def)
  next
    case (granted t p a packet g occ before)
    from self_apply_granted [OF granted(12,10) parsed_proposal_ok [OF granted(3)]] show ?thesis by (rule granted_keeps)
  qed simp
qed

lemma foldR_keeps:
  "foldR (self_commit X subject attempts) (s, head, view) ds = Inr (s', head', view') \<Longrightarrow> keeps s s'"
proof (induction ds arbitrary: s head view)
  case (Cons c ds)
  from Cons.prems obtain u h v where "self_commit X subject attempts (s, head, view) c = Inr (u, h, v)"
    "foldR (self_commit X subject attempts) (u, h, v) ds = Inr (s', head', view')" by (auto simp: bindR_Inr)
  with self_commit_keeps Cons.IH keeps_trans show ?case by blast
qed simp

text \<open>The replay of a longer history, with more attempts known.\<close>

lemma self_commit_more:
  assumes "self_commit X subject attempts acc c = Inr r" and "attempts \<subseteq>\<^sub>m wider"
  shows "self_commit X subject wider acc c = Inr r"
proof -
  obtain s head view i b where c: "acc = (s, head, view)" "c = (i, b)" by (cases acc; cases c) auto
  have "self_transition X subject wider s head i t = Inr u" if "self_transition X subject attempts s head i t = Inr u" for t u
  proof -
    from that obtain p a where "parse_proposal X (proposal_enc (tr_proposal t)) = Inr p" "attempts (tr_attempt t) = Some a"
      by (auto simp: self_transition_def bindR_Inr split: option.splits)
    moreover from this assms(2) have "wider (tr_attempt t) = Some a" by (metis domI map_le_def)
    ultimately show ?thesis using that by (simp add: self_transition_def)
  qed
  with assms(1) show ?thesis
    unfolding c self_commit_def by (auto simp: bindR_Inr split: if_splits commit_body.splits)
qed

lemma self_commits_more:
  assumes "self_commits X subject attempts cs = Inr r" and "attempts \<subseteq>\<^sub>m wider"
  shows "self_commits X subject wider cs = Inr r"
proof -
  have "foldR (self_commit X subject wider) acc cs = Inr r" if "foldR (self_commit X subject attempts) acc cs = Inr r" for acc
    using that
  proof (induction cs arbitrary: acc)
    case (Cons c cs)
    then obtain u where "self_commit X subject attempts acc c = Inr u" "foldR (self_commit X subject attempts) u cs = Inr r"
      by (auto simp: bindR_Inr)
    with self_commit_more [OF _ assms(2)] Cons.IH show ?case by simp
  qed simp
  with assms(1) show ?thesis by (simp add: self_commits_def)
qed

lemma self_commits_keeps:
  assumes "self_commits X subject attempts cs = Inr (s, head, view)"
    and "self_commits X subject wider (cs @ ds) = Inr (s', head', view')" and "attempts \<subseteq>\<^sub>m wider"
  shows "keeps s s'"
proof -
  from self_commits_more [OF assms(1,3)] assms(2)
  have "foldR (self_commit X subject wider) (s, head, view) ds = Inr (s', head', view')"
    by (simp add: self_commits_append)
  then show ?thesis by (rule foldR_keeps)
qed

text \<open>
  C25. Commitments are final: whenever a history and any continuation of it both replay,
  every commitment the shorter one lists is listed by the longer one with the same terms,
  and one that was settled is unchanged, never reopened nor settled otherwise.
\<close>

theorem commitments_final:
  assumes "self_commits X subject attempts cs = Inr (s, head, view)"
    and "self_commits X subject wider (cs @ ds) = Inr (s', head', view')" and "attempts \<subseteq>\<^sub>m wider"
    and "map_of (ss_tasks s) k = Some task"
  shows "commitment k \<and> task_ok task \<and> (\<exists>task'. map_of (ss_tasks s') k = Some task' \<and>
    field task' ''text'' = field task ''text'' \<and> (field task ''status'' \<noteq> JStr ''open'' \<longrightarrow> task' = task))"
  using self_commits_keeps [OF assms(1-3)] self_commits_tasks_ok [OF assms(1)] assms(4)
  by (auto simp: keeps_def tasks_ok_map)

lemma view_of_Inr:
  assumes "view_of X s subject head = Inr view"
  shows "jat view ''head'' = Inr (JStr head)" and "jat view ''subject'' = Inr (JStr subject)"
    and "jat view ''profile'' = Inr (ss_profile s)"
  using assms by (auto simp: view_of_def res_simps Let_def view_enc_def mk_obj_access)

text \<open>
  C26. Every change of self state in a history that replays was granted: each transition
  either leaves the self state alone, or was admitted with exactly one packet that holds the
  exact view of the state before it and a grant bound to that subject, head and occasion,
  and then every commitment it creates or settles and the profile it writes are precisely
  what the grant permits; terms are never changed.
\<close>

theorem history_authorized:
  assumes "self_commits X subject attempts (cs @ (i, Transition t) # ds) = Inr (s, head, view)" and "tr_tick t \<noteq> 0"
  shows "\<exists>s1 h1 v1 s2 v2. self_commits X subject attempts cs = Inr (s1, h1, v1) \<and>
    self_commits X subject attempts (cs @ [(i, Transition t)]) = Inr (s2, i, v2) \<and>
    (s2 = s1 \<or> (\<exists>a packet g before occ. attempts (tr_attempt t) = Some a \<and>
       self_packet JNull (elements (ad_inputs a)) = Inr packet \<and> view_of X s1 subject h1 = Inr before \<and>
       jat packet ''view'' = Inr before \<and> jat packet ''grant'' = Inr g \<and> jat g ''subject'' = Inr (JStr subject) \<and>
       jat g ''head'' = Inr (JStr h1) \<and> admitted_occasion a = Inr occ \<and> jat g ''occasion'' = Inr occ \<and> granted g i s1 s2))"
proof -
  from assms(1) obtain s1 h1 v1 s2 h2 v2 where c1: "self_commits X subject attempts cs = Inr (s1, h1, v1)"
    and c2: "self_commit X subject attempts (s1, h1, v1) (i, Transition t) = Inr (s2, h2, v2)"
    by (auto simp: self_commits_append bindR_Inr)
  from c2 show ?thesis
  proof (cases rule: self_commit_cases)
    case genesis
    with assms(2) show ?thesis by simp
  next
    case (plain t')
    with c1 c2 show ?thesis by (intro exI [of _ s1] exI [of _ h1] exI [of _ v1] exI [of _ s2] exI [of _ v2])
      (simp add: self_commits_append)
  next
    case (granted t' p a packet g occ before)
    from granted(10) obtain head sub where "jat g ''head'' = Inr head" "jat before ''head'' = Inr head"
      "jat g ''subject'' = Inr sub" "jat before ''subject'' = Inr sub" "jat g ''occasion'' = Inr occ"
      by (rule grant_valid_Inr)
    with view_of_Inr(1,2) [OF granted(6)] have "jat g ''head'' = Inr (JStr h1)" "jat g ''subject'' = Inr (JStr subject)"
      "jat g ''occasion'' = Inr occ" by simp_all
    with granted self_apply_granted [OF granted(12,10) parsed_proposal_ok [OF granted(3)]] c1 c2 show ?thesis
      by (intro exI [of _ s1] exI [of _ h1] exI [of _ v1] exI [of _ s2] exI [of _ v2]) (auto simp: self_commits_append)
  qed
qed

end
