(* ===== verification/Cogg_Self_Guard.thy ===== *)
theory Cogg_Self_Guard
  imports Cogg_Self
begin

text \<open>
  How the guard of the kernel's commit and the preview of the runtime relate to the replay:
  all three call \<open>apply\<close>, on different states and under different versions. The guard
  only knows the open commitments of the packet's view, so it accepts what the replay
  accepts except that it cannot see a settled ID.
\<close>

section \<open>The same changes on another state\<close>

text \<open>\<open>sees creates ks gs rs\<close>: on the keys \<open>ks\<close> the state \<open>gs\<close> has what \<open>rs\<close> has, or nothing
  where no creation is granted.\<close>

definition sees :: "jobject \<Rightarrow> string set \<Rightarrow> self_state \<Rightarrow> self_state \<Rightarrow> bool" where
  "sees creates ks gs rs \<longleftrightarrow> (\<forall>k \<in> ks. map_of (ss_tasks gs) k = map_of (ss_tasks rs) k \<or>
     map_of (ss_tasks gs) k = None \<and> map_of creates k = None)"

lemma sees_refl [simp]: "sees creates ks s s"
  by (simp add: sees_def)

lemma self_note_sees:
  assumes "self_note g v gs n = Inr gs'" and "jat g ''create'' = Inr (JObj creates)" and "sees creates (insert (n_key n) ks) gs rs"
    and "n_key n \<notin> ks"
  shows "\<exists>rs'. self_note g w rs n = Inr rs' \<and> sees creates ks gs' rs'"
proof (cases "reserved (n_key n)")
  case False
  with assms show ?thesis by (auto simp: self_note_def sees_def)
next
  case True
  have same: "map_of (ss_tasks gs) (n_key n) = map_of (ss_tasks rs) (n_key n)"
  proof (rule ccontr)
    assume "map_of (ss_tasks gs) (n_key n) \<noteq> map_of (ss_tasks rs) (n_key n)"
    with assms(3) have "map_of (ss_tasks gs) (n_key n) = None" "map_of creates (n_key n) = None" by (auto simp: sees_def)
    with assms(1,2) True show False by (simp add: self_note_def res_simps obj_has_def)
  qed
  from assms(1) True have gs': "gs' = gs\<lparr>ss_tasks := obj_put (n_key n) (task_json (JStr (n_text n)) (JStr (n_status n)) (JStr v)) (ss_tasks gs)\<rparr>"
    by (auto simp: self_note_def res_simps)
  from assms(1) True same have "self_note g w rs n =
      Inr (rs\<lparr>ss_tasks := obj_put (n_key n) (task_json (JStr (n_text n)) (JStr (n_status n)) (JStr w)) (ss_tasks rs)\<rparr>)"
    by (auto simp: self_note_def res_simps)
  with assms(3,4) show ?thesis by (auto simp: gs' sees_def)
qed

lemma self_notes_sees:
  assumes "foldR (self_note g v) gs ns = Inr gs'" and "jat g ''create'' = Inr (JObj creates)"
    and "sees creates (n_key ` set ns) gs rs" and "distinct (map n_key ns)"
  shows "\<exists>rs'. foldR (self_note g w) rs ns = Inr rs'"
  using assms(1,3,4)
proof (induction ns arbitrary: gs rs)
  case (Cons n ns)
  from Cons.prems(1) obtain u where u: "self_note g v gs n = Inr u" "foldR (self_note g v) u ns = Inr gs'" by (auto simp: bindR_Inr)
  from self_note_sees [OF u(1) assms(2), of "n_key ` set ns" rs w] Cons.prems(2,3) obtain u' where
    "self_note g w rs n = Inr u'" "sees creates (n_key ` set ns) u u'" by auto
  with Cons.IH [OF u(2)] Cons.prems(3) show ?case by simp
qed simp

lemma self_writes_version:
  assumes "foldR (self_write X g v) gs ws = Inr gs'" and "ss_profile gs = ss_profile rs"
  shows "\<exists>rs'. foldR (self_write X g w) rs ws = Inr rs' \<and> ss_tasks rs' = ss_tasks rs \<and> ss_tasks gs' = ss_tasks gs \<and>
    ss_profile gs' = ss_profile rs'"
  using assms
proof (induction ws arbitrary: gs rs)
  case (Cons x ws)
  from Cons.prems(1) obtain u where u: "self_write X g v gs x = Inr u" "foldR (self_write X g v) u ws = Inr gs'" by (auto simp: bindR_Inr)
  have "\<exists>u'. self_write X g w rs x = Inr u' \<and> ss_profile u = ss_profile u' \<and> ss_tasks u' = ss_tasks rs \<and> ss_tasks u = ss_tasks gs"
    using u(1) Cons.prems(2) by (auto simp: self_write_def res_simps split: prod.splits if_splits)
  then obtain u' where u': "self_write X g w rs x = Inr u'" "ss_profile u = ss_profile u'" "ss_tasks u' = ss_tasks rs" "ss_tasks u = ss_tasks gs"
    by blast
  from Cons.IH [OF u(2) u'(2)] u' show ?case by simp
qed simp

lemma self_apply_sees:
  assumes "self_apply X gs p g v = Inr gs'" and "jat g ''create'' = Inr (JObj creates)" and "proposal_ok X p"
    and "ss_profile gs = ss_profile rs" and "sees creates (n_key ` set (p_notes p)) gs rs"
  shows "\<exists>rs'. self_apply X rs p g w = Inr rs'"
proof -
  from assms(1) obtain u where u: "foldR (self_write X g v) gs (p_memory p) = Inr u"
    "foldR (self_note g v) u (p_notes p) = Inr gs'" by (auto simp: self_apply_def bindR_Inr)
  from self_writes_version [OF u(1) assms(4)] obtain u' where
    u': "foldR (self_write X g w) rs (p_memory p) = Inr u'" "ss_tasks u' = ss_tasks rs" "ss_tasks u = ss_tasks gs" by blast
  have "sees creates (n_key ` set (p_notes p)) u u'" using assms(5) u'(2,3) by (simp add: sees_def)
  from self_notes_sees [OF u(2) assms(2) this] assms(3) u'(1) show ?thesis
    by (simp add: self_apply_def proposal_ok_def notes_ok_def)
qed

section \<open>What the guard's state sees\<close>

lemma guard_tasks_see:
  assumes "open_items tasks = Inr items" and "\<forall>(k, j) \<in> set tasks. task_ok j" and "distinct (map fst tasks)"
  shows "\<exists>acc'. foldR guard_task acc items = Inr acc' \<and>
    (\<forall>k. map_of acc' k = (case map_of tasks k of
        Some j \<Rightarrow> if field j ''status'' = JStr ''open'' then Some j else map_of acc k | None \<Rightarrow> map_of acc k))"
  using assms
proof (induction tasks arbitrary: items acc)
  case (Cons kj tasks)
  obtain k0 j0 where kj: "kj = (k0, j0)" by fastforce
  from Cons.prems(2) obtain terms status version where
    j0: "j0 = task_json (JStr terms) (JStr status) (JStr version)" by (auto simp: kj task_ok_def)
  have fresh: "map_of tasks k0 = None" using Cons.prems(3) by (simp add: kj map_of_eq_None_iff)
  show ?case
  proof (cases "status = ''open''")
    case False
    with Cons.prems(1) have "open_items tasks = Inr items" by (simp add: kj j0)
    from Cons.IH [OF this, of acc] Cons.prems(2,3) obtain acc' where acc': "foldR guard_task acc items = Inr acc'"
      "\<And>k. map_of acc' k = (case map_of tasks k of
        Some j \<Rightarrow> if field j ''status'' = JStr ''open'' then Some j else map_of acc k | None \<Rightarrow> map_of acc k)" by auto
    show ?thesis using False fresh by (intro exI [of _ acc'] conjI acc'(1) allI) (auto simp: acc'(2) kj j0)
  next
    case True
    from Cons.prems(1) True obtain item rest where it: "jput ''key'' (JStr k0) j0 = Inr item" "open_items tasks = Inr rest" "items = item # rest"
      by (auto simp: kj j0 bindR_Inr)
    have "jat item ''key'' = Inr (JStr k0)" "jat item ''text'' = Inr (JStr terms)" "jat item ''status'' = Inr (JStr status)"
      "jat item ''version'' = Inr (JStr version)"
      using it(1) by (auto simp: j0 task_json_def mk_obj_def)
    then have "guard_task acc item = Inr (obj_put k0 j0 acc)" by (simp add: guard_task_def j0)
    moreover from Cons.IH [OF it(2), of "obj_put k0 j0 acc"] Cons.prems(2,3) obtain acc' where
      acc': "foldR guard_task (obj_put k0 j0 acc) rest = Inr acc'"
      "\<And>k. map_of acc' k = (case map_of tasks k of
        Some j \<Rightarrow> if field j ''status'' = JStr ''open'' then Some j else map_of (obj_put k0 j0 acc) k
      | None \<Rightarrow> map_of (obj_put k0 j0 acc) k)" by auto
    ultimately have "foldR guard_task acc items = Inr acc'" by (simp add: it(3))
    then show ?thesis using True fresh
      by (intro exI [of _ acc'] conjI allI) (auto simp: acc'(2) kj j0 split: option.splits)
  qed
qed simp


end
