(* ===== verification/Cogg_Self_Runtime.thy ===== *)
theory Cogg_Self_Runtime
  imports Cogg_Self
begin

text \<open>
  \<open>SelfRuntime\<close> of \<^verbatim>\<open>src/self_state.cpp\<close>: one step of a guarded subject with a cache of
  replayed states. Other connections may write between any two calls of the store:
  \<open>between n\<close> is what they do before the n-th of them. Main results: the cache always
  agrees with the replay of the history, whatever the others do, and a proposal is
  committed by a step only if the grant permits each of its changes.
\<close>

section \<open>One step\<close>

record cached_subject =
  ca_head :: string
  ca_state :: self_state
  ca_view :: json

type_synonym self_cache = "string \<rightharpoonup> cached_subject"

record self_result =
  sf_status :: string
  sf_attempt :: string
  sf_outcome :: json
  sf_snapshot :: "snapshot option"
  sf_maintenance :: string
  sf_schedule :: "decision option"

definition no_result :: self_result where
  "no_result = \<lparr>sf_status = [], sf_attempt = [], sf_outcome = JNull, sf_snapshot = None, sf_maintenance = [], sf_schedule = None\<rparr>"

fun foreign_inputs :: "json list \<Rightarrow> unit res" where
  "foreign_inputs [] = Inr ()"
| "foreign_inputs (input # rest) =
     bindR (jat input ''body'') (\<lambda>b. bindR (jat b ''producer'') (\<lambda>pr.
     require (pr \<noteq> JStr producer) ''self input is host-generated'' (foreign_inputs rest)))"

definition self_checks :: "ext \<Rightarrow> json \<Rightarrow> string \<Rightarrow> json \<Rightarrow> millis \<Rightarrow> unit res" where
  "self_checks X execution name inputs timeout =
     require (timeout > 0 \<and> timeout \<le> 3600000) ''invalid self attempt timeout'' (
     bindR (validate_execution execution) (\<lambda>_.
     require (execution \<noteq> JNull) ''self execution backend mismatch'' (
     bindR (jat execution ''backend'') (\<lambda>b.
     require (b = JStr name) ''self execution backend mismatch'' (
     bindR (validate_inputs X inputs) (\<lambda>_. foreign_inputs (elements inputs)))))))"

text \<open>The current state: from the cache when its head is the current one, by replay otherwise.\<close>

definition self_load ::
    "ext \<Rightarrow> bool \<Rightarrow> (nat \<Rightarrow> store \<Rightarrow> store) \<Rightarrow> self_cache \<Rightarrow> store \<Rightarrow> string \<Rightarrow> string \<Rightarrow>
     (self_state \<times> json) res \<times> self_cache \<times> store" where
  "self_load X sqlite_ok between cache st subject head =
     (case (case cache subject of Some c \<Rightarrow> if ca_head c = head then Some c else None | None \<Rightarrow> None) of
        Some c \<Rightarrow> let st1 = between 1 st in
          (bindR (verify_head X st1 subject) (\<lambda>_. Inr (ca_state c, ca_view c)), cache, st1)
      | None \<Rightarrow> let st1 = between 1 st; st2 = between 2 st1; st3 = between 3 st2 in
          (case bindR (self_replay X sqlite_ok st1 st2 st3 subject) (\<lambda>(s, view).
                bindR (bindR (jat view ''head'') get_string) (\<lambda>h. Inr (s, view, h))) of
             Inl e \<Rightarrow> (Inl e, cache, st3)
           | Inr (s, view, h) \<Rightarrow> (Inr (s, view), cache(subject \<mapsto> \<lparr>ca_head = h, ca_state = s, ca_view = view\<rparr>), st3)))"

definition self_issue :: "ext \<Rightarrow> self_state \<Rightarrow> json \<Rightarrow> json \<Rightarrow> json \<Rightarrow> json res" where
  "self_issue X s view grant occ =
     bindR (if grant = JNull then self_grant X view occ (JObj []) (JObj []) JNull else Inr grant) (\<lambda>g.
     bindR (grant_valid X g view occ) (\<lambda>_. bindR (grant_unused_ids s g) (\<lambda>_. Inr g)))"

definition self_context :: "ext \<Rightarrow> json \<Rightarrow> json \<Rightarrow> json \<Rightarrow> json \<Rightarrow> json res" where
  "self_context X view g occ inputs =
     bindR (jat view ''head'') (\<lambda>head.
     Inr (mk_obj [(''head'', head), (''occasion'', occ),
       (''inputs'', JArr (elements inputs @ [make_input X ''observation'' producer (content_of view g) []]))]))"

definition self_preview :: "ext \<Rightarrow> self_state \<Rightarrow> json \<Rightarrow> string \<Rightarrow> proposal \<Rightarrow> string option" where
  "self_preview X s g subject p =
     (case bindR (self_apply X s p g zero_id) (\<lambda>s'. view_of X s' subject zero_id) of
        Inr _ \<Rightarrow> None | Inl _ \<Rightarrow> Some ''self_rejected'')"

text \<open>The proposal the guard has accepted, if the executor answered with one.\<close>

definition validated_proposal :: "(proposal \<Rightarrow> string option) \<Rightarrow> outcome \<Rightarrow> proposal option" where
  "validated_proposal guard v = (case v of Participates p \<Rightarrow> if guard p = None then Some p else None | Abstains _ \<Rightarrow> None)"

text \<open>What the step makes of the report: the cache afterwards.\<close>

definition self_remember ::
    "ext \<Rightarrow> self_cache \<Rightarrow> string \<Rightarrow> self_state \<Rightarrow> json \<Rightarrow> proposal option \<Rightarrow> step_result \<Rightarrow> self_cache res" where
  "self_remember X cache subject s g validated res =
     (case (if sr_status res = ''committed'' then sr_snapshot res else None, validated) of
        (Some sn, Some p) \<Rightarrow>
          bindR (self_apply X s p g (sn_head sn)) (\<lambda>s'. bindR (view_of X s' subject (sn_head sn)) (\<lambda>view.
          Inr (cache(subject \<mapsto> \<lparr>ca_head = sn_head sn, ca_state = s', ca_view = view\<rparr>))))
      | _ \<Rightarrow>
        (case if sr_status res = ''disposed'' then sr_snapshot res else None of
           Some sn \<Rightarrow> bindR (view_of X s subject (sn_head sn)) (\<lambda>view.
             Inr (cache(subject \<mapsto> \<lparr>ca_head = sn_head sn, ca_state = s, ca_view = view\<rparr>)))
         | None \<Rightarrow> Inr (if sr_status res = ''conflict'' then cache(subject := None) else cache)))"

definition self_attempt ::
    "ext \<Rightarrow> guard \<Rightarrow> readings \<Rightarrow> backend \<Rightarrow> self_cache \<Rightarrow> store \<Rightarrow> string \<Rightarrow> self_state \<Rightarrow> json \<Rightarrow> attempt \<Rightarrow> json \<Rightarrow> millis \<Rightarrow>
     self_result \<Rightarrow> self_result res \<times> self_cache \<times> store" where
  "self_attempt X guard rd be cache st subject s g t execution timeout result =
     (let preview = self_preview X s g subject in
      case execute_attempt X guard rd be st t execution timeout (Some preview) True False of
        (Inl e, st') \<Rightarrow> (Inl e, cache, st')
      | (Inr res, st') \<Rightarrow>
          (case self_remember X cache subject s g
                 (validated_proposal preview (fst (answered X rd True be t timeout))) res of
             Inl e \<Rightarrow> (Inl e, cache, st')
           | Inr cache' \<Rightarrow> (Inr (result\<lparr>sf_attempt := att_id t, sf_outcome := sr_outcome res, sf_snapshot := sr_snapshot res,
                 sf_status := sr_status res, sf_maintenance := sr_maintenance res\<rparr>), cache', st')))"

text \<open>Admission under the grant and execution.\<close>

definition self_deliver ::
    "ext \<Rightarrow> guard \<Rightarrow> readings \<Rightarrow> (nat \<Rightarrow> store \<Rightarrow> store) \<Rightarrow> string \<Rightarrow> backend \<Rightarrow> json \<Rightarrow> self_cache \<Rightarrow> store \<Rightarrow> string \<Rightarrow>
     self_state \<Rightarrow> json \<Rightarrow> json \<Rightarrow> millis \<Rightarrow> millis \<Rightarrow> self_result \<Rightarrow> self_result res \<times> self_cache \<times> store" where
  "self_deliver X guard rd between nonce be execution cache st subject s g context now timeout result =
     (let st5 = between 5 st in
      case admit X st5 subject (be_name be) now (be_policy be) (Some (be_fits be)) execution context nonce of
        Inl e \<Rightarrow> (Inl e, cache, st5)
      | Inr (None, st6) \<Rightarrow> (Inr (result\<lparr>sf_status := ''waiting''\<rparr>), cache, st6)
      | Inr (Some t, st6) \<Rightarrow> self_attempt X guard rd be cache (between 6 st6) subject s g t execution timeout result)"

text \<open>From the loaded state on.\<close>

definition self_turn ::
    "ext \<Rightarrow> guard \<Rightarrow> readings \<Rightarrow> (nat \<Rightarrow> store \<Rightarrow> store) \<Rightarrow> string \<Rightarrow> backend \<Rightarrow> json \<Rightarrow> self_cache \<Rightarrow> store \<Rightarrow> string \<Rightarrow>
     self_state \<Rightarrow> json \<Rightarrow> millis \<Rightarrow> json \<Rightarrow> json \<Rightarrow> millis \<Rightarrow> self_result res \<times> self_cache \<times> store" where
  "self_turn X guard rd between nonce be execution cache st subject s view now grant inputs timeout =
     (let st4 = between 4 st in
      case schedule_at X st4 subject now of Inl e \<Rightarrow> (Inl e, cache, st4)
      | Inr d \<Rightarrow>
        (case sc_occasion d of
           None \<Rightarrow> (Inr (no_result\<lparr>sf_schedule := Some d, sf_status := ''waiting''\<rparr>), cache, st4)
         | Some q \<Rightarrow>
             (case bindR (self_issue X s view grant (pending_id q)) (\<lambda>g.
                   bindR (self_context X view g (pending_id q) inputs) (\<lambda>context. Inr (g, context))) of
                Inl e \<Rightarrow> (Inl e, cache, st4)
              | Inr (g, context) \<Rightarrow> self_deliver X guard rd between nonce be execution cache st4 subject s g context now timeout
                  (no_result\<lparr>sf_schedule := Some d\<rparr>))))"

definition self_step ::
    "ext \<Rightarrow> bool \<Rightarrow> guard \<Rightarrow> readings \<Rightarrow> (nat \<Rightarrow> store \<Rightarrow> store) \<Rightarrow> string \<Rightarrow> backend \<Rightarrow> json \<Rightarrow> self_cache \<Rightarrow> store \<Rightarrow> string \<Rightarrow>
     millis \<Rightarrow> json \<Rightarrow> json \<Rightarrow> millis \<Rightarrow> bool \<Rightarrow> self_result res \<times> self_cache \<times> store" where
  "self_step X sqlite_ok guard rd between nonce be execution cache st subject now grant inputs timeout cancelled =
     (case self_checks X execution (be_name be) inputs timeout of Inl e \<Rightarrow> (Inl e, cache, st)
      | Inr _ \<Rightarrow>
        if cancelled then (Inr (no_result\<lparr>sf_status := ''cancelled''\<rparr>), cache, st)
        else let st0 = between 0 st in
        (case snapshot st0 subject of Inl e \<Rightarrow> (Inl e, cache, st0)
         | Inr sn \<Rightarrow>
           (case self_load X sqlite_ok between cache st0 subject (sn_head sn) of
              (Inl e, cache1, st3) \<Rightarrow> (Inl e, cache1, st3)
            | (Inr (s, view), cache1, st3) \<Rightarrow>
                self_turn X guard rd between nonce be execution cache1 st3 subject s view now grant inputs timeout)))"

section \<open>The history of a subject over time\<close>

definition self_history :: "store \<Rightarrow> string \<Rightarrow> (string \<times> commit_body) list" where
  "self_history st subject = map (\<lambda>c. (co_id c, co_body c)) (subject_commits st subject)"

definition self_attempts :: "store \<Rightarrow> string \<Rightarrow> (string \<rightharpoonup> admission)" where
  "self_attempts st subject = map_of (map (\<lambda>a. (at_id a, at_body a)) (sort_key at_seq (subject_attempts st subject)))"

lemma timeline_self:
  assumes "timeline st subject = Inr report"
  shows "tl_commits report = self_history st subject" and "timeline_attempts report = self_attempts st subject"
    and "snapshot st subject = Inr (tl_snapshot report)"
  using assms
  by (auto simp: timeline_def res_simps Let_def self_history_def timeline_attempts_def self_attempts_def attempt_view_def comp_def)

lemma all_subject_commits:
  assumes "chain_inv st"
  shows "subject_commits st subject = commits_of st subject"
proof (cases "\<exists>r \<in> set (st_subjects st). su_id r = subject")
  case True
  with subject_commits_chain [OF assms] show ?thesis by auto
next
  case False
  with assms have "commits_of st subject = []" by (force simp: chain_inv_def commits_of_def filter_empty_conv)
  then show ?thesis by (simp add: subject_commits_def commits_of_def)
qed

lemma self_attempts_Some:
  assumes "keys_inv st"
  shows "self_attempts st subject i = Some b \<longleftrightarrow> (\<exists>a \<in> set (st_attempts st). at_subject a = subject \<and> at_id a = i \<and> at_body a = b)"
proof -
  let ?xs = "sort_key at_seq (subject_attempts st subject)"
  have "distinct (map at_id (subject_attempts st subject))"
    using assms by (simp add: keys_inv_def subject_attempts_def distinct_map_filter)
  then have "distinct (map fst (map (\<lambda>a. (at_id a, at_body a)) ?xs))"
    by (simp add: comp_def distinct_map inj_on_def)
  then have "self_attempts st subject i = Some b \<longleftrightarrow> (i, b) \<in> set (map (\<lambda>a. (at_id a, at_body a)) ?xs)"
    by (simp add: self_attempts_def)
  then show ?thesis by (auto simp: subject_attempts_def)
qed

lemma mapped_attempt:
  assumes "st_attempts st' = map f (st_attempts st)"
    and "\<And>a. at_subject (f a) = at_subject a \<and> at_id (f a) = at_id a \<and> at_body (f a) = at_body a"
    and "\<exists>a \<in> set (st_attempts st). at_subject a = subject \<and> at_id a = i \<and> at_body a = b"
  shows "\<exists>a \<in> set (st_attempts st'). at_subject a = subject \<and> at_id a = i \<and> at_body a = b"
proof -
  from assms(3) obtain a where "a \<in> set (st_attempts st)" "at_subject a = subject" "at_id a = i" "at_body a = b" by blast
  with assms(1,2) show ?thesis by (intro bexI [of _ "f a"]) simp_all
qed

lemma attempt_step:
  assumes "ledger_step X st st'" and "\<exists>a \<in> set (st_attempts st). at_subject a = subject \<and> at_id a = i \<and> at_body a = b"
  shows "\<exists>a \<in> set (st_attempts st'). at_subject a = subject \<and> at_id a = i \<and> at_body a = b"
  using assms
proof (induction rule: ledger_step.induct)
  case (failed row st fs reason)
  have "st_attempts (mark_failed (at_id row) reason (st\<lparr>st_failures := st_failures st @ fs\<rparr>)) =
      map (failed_row (at_id row) reason) (st_attempts st)" by (simp add: mark_failed_def failed_row_def)
  from mapped_attempt [OF this _ failed.prems] show ?case by (simp add: failed_row_def)
next
  case (abstained st row o' r)
  have "st_attempts (abstained_store st (at_id row) o') = map (abstained_row (at_id row)) (st_attempts st)" by simp
  from mapped_attempt [OF this _ abstained.prems] show ?case by (simp add: abstained_row_def)
next
  case (transition st row r q t db fs)
  from mapped_attempt [OF committed_store_simps(4) _ transition.prems] show ?case by (simp add: settled_row_def)
qed (auto simp: admitted_store_def)

lemma self_attempts_steps:
  assumes "reachable X st" and "reachable X st'" and "ledger_steps X st st'"
  shows "self_attempts st subject \<subseteq>\<^sub>m self_attempts st' subject"
proof -
  note keys = keys.reachable [OF assms(1)] keys.reachable [OF assms(2)]
  have "self_attempts st' subject i = Some b" if "self_attempts st subject i = Some b" for i b
    using assms(3) keys(1) that [unfolded self_attempts_Some [OF keys(1)]]
    unfolding self_attempts_Some [OF keys(2)]
    by (rule steps_keep [where P = "\<lambda>u. \<exists>a \<in> set (st_attempts u). at_subject a = subject \<and> at_id a = i \<and> at_body a = b"])
      (rule attempt_step)
  then show ?thesis by (auto simp: map_le_def)
qed

lemma self_attempts_later:
  "reachable X st \<Longrightarrow> later X st st' \<Longrightarrow> self_attempts st subject \<subseteq>\<^sub>m self_attempts st' subject"
  by (blast intro: self_attempts_steps reachable_later later_ledger)

lemma self_attempts_step:
  "reachable X st \<Longrightarrow> reachable X st' \<Longrightarrow> ledger_step X st st' \<Longrightarrow> self_attempts st subject \<subseteq>\<^sub>m self_attempts st' subject"
  by (blast intro: self_attempts_steps)

lemma commits_later:
  assumes "reachable X st" and "later X st st'"
  shows "\<exists>cs. st_commits st' = st_commits st @ cs"
  using later_ledger [OF assms(2)] keys.reachable [OF assms(1)]
  by (rule steps_keep [where P = "\<lambda>u. \<exists>cs. st_commits u = st_commits st @ cs"]) (use commits_step in \<open>fastforce+\<close>)

lemma self_history_commits:
  assumes "reachable X st" and "reachable X st'" and "st_commits st' = st_commits st @ cs"
  shows "self_history st' subject = self_history st subject @
    map (\<lambda>c. (co_id c, co_body c)) (filter (\<lambda>c. co_subject c = subject) cs)"
  using all_subject_commits [OF chain.reachable [OF assms(1)]] all_subject_commits [OF chain.reachable [OF assms(2)]]
  by (simp add: self_history_def commits_of_def assms(3))

lemma self_history_later:
  assumes "reachable X st" and "later X st st'"
  shows "\<exists>rest. self_history st' subject = self_history st subject @ rest"
  using commits_later [OF assms] self_history_commits [OF assms(1) reachable_later [OF assms]] by blast

lemma self_history_distinct:
  assumes "reachable X st"
  shows "distinct (map fst (self_history st subject))"
  using keys.reachable [OF assms] all_subject_commits [OF chain.reachable [OF assms]]
  by (simp add: self_history_def keys_inv_def commits_of_def comp_def distinct_map_filter)

text \<open>A prefix of the history that ends in the current head is all of it.\<close>

lemma self_history_head:
  assumes "reachable X st" and "find_subject st subject = Some r" and "self_history st subject = cs @ rest"
    and "cs \<noteq> []" and "fst (last cs) = su_head r"
  shows "rest = []"
proof (rule ccontr)
  assume ne: "rest \<noteq> []"
  have r: "r \<in> set (st_subjects st)" "su_id r = subject" using find_subject_Some [OF assms(2)] by simp_all
  have "projects r (subject_commits st subject)"
    using chain.reachable [OF assms(1)] r all_subject_commits [OF chain.reachable [OF assms(1)]] by (auto simp: chain_inv_def)
  then have "fst (last (self_history st subject)) = su_head r"
    by (simp add: projects_def self_history_def last_map)
  with ne assms(3,5) have "fst (last rest) = fst (last cs)" by simp
  moreover have "fst (last rest) \<in> set (map fst rest)" "fst (last cs) \<in> set (map fst cs)" using ne assms(4) by simp_all
  moreover have "set (map fst cs) \<inter> set (map fst rest) = {}"
    using self_history_distinct [OF assms(1), of subject] unfolding assms(3) by auto
  ultimately show False by auto
qed

lemma self_replay_state:
  assumes "self_replay X sqlite_ok st1 st2 st3 subject = Inr (s, view)"
  shows "\<exists>head. self_commits X subject (self_attempts st1 subject) (self_history st1 subject) = Inr (s, head, view)"
  using assms by (auto simp: self_replay_def res_simps timeline_self)

section \<open>What was admitted and what was committed\<close>

lemma admit_context:
  assumes "admit X st subject backend now policy fits execution context nonce = Inr (Some att, st')" and "context \<noteq> JNull"
  obtains r a occ where "find_subject st subject = Some r" and "jat context ''head'' = Inr (JStr (su_head r))"
    and "ad_subject a = subject" and "ad_parent a = su_head r" and "jat context ''inputs'' = Inr (ad_inputs a)"
    and "admitted_occasion a = Inr occ" and "jat context ''occasion'' = Inr occ"
    and "\<exists>row \<in> set (st_attempts st'). at_subject row = subject \<and> at_id row = att_id att \<and> at_body row = a"
proof -
  from assms obtain r d q inputs where r: "find_subject st subject = Some r"
    and d: "schedule X st subject now = Inr d" and q: "sc_occasion d = Some q"
    and cur: "context_current context (row_snapshot r) d = Inr True"
    and inputs: "jat context ''inputs'' = Inr inputs"
    and adm: "admit_ready X st (row_snapshot r) d q backend now policy fits execution inputs nonce = Inr (att, st')"
    by (auto simp: admit_def res_simps split: option.splits if_splits prod.splits)
  have id: "su_id r = subject" using find_subject_Some [OF r] by simp
  from cur assms(2) q obtain occ where head: "jat context ''head'' = Inr (JStr (su_head r))"
    and occ: "jat context ''occasion'' = Inr occ" "occ = pending_id q"
    by (auto simp: context_current_def res_simps pending_id_def split: if_splits)
  from adm obtain oid st1 ck prev late p' ctx capacity unsettled st2 where
    view: "admitted_view X st2
        \<lparr>pr_state = row_snapshot r, pr_occasion = \<lparr>o_id = oid, o_kind = pe_kind q, o_payload = pe_payload q\<rparr>,
          pr_prior_unsettled = unsettled,
          pr_temporal = \<lparr>te_clock = ck, te_coordinate = su_tick r, te_admission = d,
              te_previous_wake = prev, te_wake_lateness_ms = late\<rparr>,
            pr_working_memory = None, pr_memory_view = None, pr_inputs = inputs\<rparr> policy fits = Inr (p', ctx, capacity)"
    and ins: "insert_attempt X (admission_body nonce backend (sc_accounting_at d) now execution p' ctx capacity) st2 = Inr (att_id att, st')"
    unfolding admit_ready_def Let_def by (auto simp: res_simps split: prod.splits)
  define a where "a = admission_body nonce backend (sc_accounting_at d) now execution p' ctx capacity"
  note keeps = admitted_view_keeps [OF view]
  have a: "ad_subject a = subject" "ad_parent a = su_head r" "ad_inputs a = inputs" "admitted_occasion a = Inr occ"
    using keeps q occ(2) id by (simp_all add: a_def admission_body_def admitted_occasion_def)
  from insert_attempt_Inr [OF ins [folded a_def]]
  have "\<exists>row \<in> set (st_attempts st'). at_subject row = subject \<and> at_id row = att_id att \<and> at_body row = a"
    by (auto simp: attempt_for_def a)
  with r head a inputs occ(1) show thesis by (intro that [of r a occ]) simp_all
qed

lemma execute_landed_guarded:
  assumes "execute_attempt X guard rd be st t execution timeout (Some g) True rethrow = (Inr res, st')"
    and "sr_snapshot res = Some sn"
  obtains row r q tr db fs where "transition_ok X st row r q tr db" and "failures_ok st row fs"
    and "st' = committed_store X st tr db fs" and "at_id row = att_id t" and "sn_head sn = co_id (transition_row X tr)"
    and "sr_status res = ''committed'' \<and> fst (answered X rd True be t timeout) = Participates (tr_proposal tr) \<and>
         g (tr_proposal tr) = None \<or>
       sr_status res = ''disposed'' \<and> p_memory (tr_proposal tr) = [] \<and> p_notes (tr_proposal tr) = []"
  using assms by (rule execute_landed) blast

section \<open>The cache agrees with the history\<close>

text \<open>A cached state is the replay of a beginning of the history, the one its head ends.\<close>

definition cached_prefix :: "ext \<Rightarrow> store \<Rightarrow> string \<Rightarrow> cached_subject \<Rightarrow> bool" where
  "cached_prefix X st subject c \<longleftrightarrow> (\<exists>cs rest. cs \<noteq> [] \<and> self_history st subject = cs @ rest \<and>
     self_commits X subject (self_attempts st subject) cs = Inr (ca_state c, ca_head c, ca_view c))"

definition coherent :: "ext \<Rightarrow> store \<Rightarrow> self_cache \<Rightarrow> bool" where
  "coherent X st cache \<longleftrightarrow> (\<forall>subject c. cache subject = Some c \<longrightarrow> cached_prefix X st subject c)"

lemma coherent_empty [simp]: "coherent X st (\<lambda>_. None)"
  by (simp add: coherent_def)

lemma coherent_update: "coherent X st cache \<Longrightarrow> cached_prefix X st subject c \<Longrightarrow> coherent X st (cache(subject \<mapsto> c))"
  by (simp add: coherent_def)

lemma coherent_erase: "coherent X st cache \<Longrightarrow> coherent X st (cache(subject := None))"
  by (simp add: coherent_def)

lemma cached_prefix_later:
  assumes "reachable X st" and "later X st st'" and "cached_prefix X st subject c"
  shows "cached_prefix X st' subject c"
proof -
  from assms(3) obtain cs rest where cs: "cs \<noteq> []" "self_history st subject = cs @ rest"
    "self_commits X subject (self_attempts st subject) cs = Inr (ca_state c, ca_head c, ca_view c)"
    by (auto simp: cached_prefix_def)
  moreover obtain more where "self_history st' subject = cs @ (rest @ more)"
    using self_history_later [OF assms(1,2), of subject] cs(2) by auto
  ultimately show ?thesis
    using self_commits_more [OF cs(3) self_attempts_later [OF assms(1,2)]] unfolding cached_prefix_def by blast
qed

lemma coherent_later: "reachable X st \<Longrightarrow> later X st st' \<Longrightarrow> coherent X st cache \<Longrightarrow> coherent X st' cache"
  using cached_prefix_later unfolding coherent_def by blast

lemma self_commits_last:
  assumes "self_commits X subject attempts cs = Inr (s, head, view)" and "cs \<noteq> []"
  shows "head = fst (last cs) \<and> view_of X s subject head = Inr view"
proof -
  obtain ds i b where cs: "cs = ds @ [(i, b)]" using assms(2) by (metis rev_exhaust surj_pair)
  from assms(1) obtain s0 h0 v0 where "self_commit X subject attempts (s0, h0, v0) (i, b) = Inr (s, head, view)"
    by (auto simp: cs self_commits_append bindR_Inr)
  then show ?thesis by (cases rule: self_commit_cases) (simp_all add: cs)
qed

lemma cached_prefix_head:
  assumes "cached_prefix X st subject c"
  shows "view_of X (ca_state c) subject (ca_head c) = Inr (ca_view c)"
  using assms self_commits_last by (auto simp: cached_prefix_def)

text \<open>At the head it names, a cached state is the replay of everything.\<close>

lemma cached_prefix_all:
  assumes "reachable X st" and "find_subject st subject = Some r" and "su_head r = ca_head c" and "cached_prefix X st subject c"
  shows "self_commits X subject (self_attempts st subject) (self_history st subject) = Inr (ca_state c, ca_head c, ca_view c)"
proof -
  from assms(4) obtain cs rest where cs: "cs \<noteq> []" "self_history st subject = cs @ rest"
    "self_commits X subject (self_attempts st subject) cs = Inr (ca_state c, ca_head c, ca_view c)"
    by (auto simp: cached_prefix_def)
  from self_commits_last [OF cs(3,1)] assms(3) have "fst (last cs) = su_head r" by simp
  from self_history_head [OF assms(1,2) cs(2,1) this] cs show ?thesis by simp
qed

lemma committed_history:
  assumes "reachable X st" and "reachable X (committed_store X st tr db fs)"
  shows "self_history (committed_store X st tr db fs) (tr_subject tr) =
      self_history st (tr_subject tr) @ [(co_id (transition_row X tr), Transition tr)]"
proof -
  have "st_commits (committed_store X st tr db fs) = st_commits st @ [transition_row X tr]" by simp
  from self_history_commits [OF assms this] show ?thesis by (simp add: transition_row_def)
qed

lemma cached_prefix_append:
  assumes "reachable X st" and "transition_ok X st row r q tr db" and "failures_ok st row fs"
    and "reachable X (committed_store X st tr db fs)"
    and "cached_prefix X st (tr_subject tr) c" and "su_head r = ca_head c"
    and "self_commit X (tr_subject tr) (self_attempts (committed_store X st tr db fs) (tr_subject tr))
      (ca_state c, ca_head c, ca_view c) (co_id (transition_row X tr), Transition tr) = Inr (s', head', view')"
  shows "cached_prefix X (committed_store X st tr db fs) (tr_subject tr) \<lparr>ca_head = head', ca_state = s', ca_view = view'\<rparr>"
proof -
  let ?st = "committed_store X st tr db fs" and ?sub = "tr_subject tr"
  have "find_subject st (ad_subject (at_body row)) = Some r" "tr_subject tr = su_id r"
    using assms(2) by (simp_all add: transition_ok_def)
  then have r: "find_subject st ?sub = Some r" using find_subject_Some by metis
  note more = self_attempts_step [OF assms(1,4) transition [OF assms(2,3)], of ?sub]
  from self_commits_more [OF cached_prefix_all [OF assms(1) r assms(6,5)] more] assms(7)
  have "self_commits X ?sub (self_attempts ?st ?sub) (self_history ?st ?sub) = Inr (s', head', view')"
    by (simp add: committed_history [OF assms(1,4)] self_commits_append)
  then show ?thesis unfolding cached_prefix_def
    by (intro exI [of _ "self_history ?st ?sub"] exI [of _ "[]"]) (simp add: committed_history [OF assms(1,4)])
qed

text \<open>The input a step builds is what the replay finds.\<close>

lemma foreign_packet: "foreign_inputs inputs = Inr () \<Longrightarrow> self_packet JNull (inputs @ rest) = self_packet JNull rest"
  by (induction inputs) (auto simp: res_simps)

lemma made_packet: "self_packet JNull [make_input X ''observation'' producer content []] = Inr content"
  by (simp add: make_input_def Let_def mk_obj_access)

lemma content_fields:
  "self_fields (content_of view g) [''schema'', ''contract'', ''view'', ''grant''] = Inr ()"
  "jat (content_of view g) ''schema'' = Inr (JStr producer)" "jat (content_of view g) ''view'' = Inr view"
  "jat (content_of view g) ''grant'' = Inr g" "jat (content_of view g) ''contract'' = Inr (JStr contract)"
  "content_of view g \<noteq> JNull"
  by (simp_all add: content_of_def self_fields_def mk_obj_access) (simp add: mk_obj_def)

lemma contract_length: "length contract \<le> 2048"
  by (simp add: contract_def)

lemma self_transition_made:
  assumes "view_of X s subject head = Inr view" and "grant_valid X g view occ = Inr ()" and "grant_unused_ids s g = Inr ()"
    and "attempts (tr_attempt t) = Some a" and "foreign_inputs inputs = Inr ()"
    and "ad_inputs a = JArr (inputs @ [make_input X ''observation'' producer (content_of view g) []])"
    and "admitted_occasion a = Inr occ" and "proposal_ok X (tr_proposal t)" and "self_apply X s (tr_proposal t) g i = Inr s'"
  shows "self_transition X subject attempts s head i t = Inr s'"
proof -
  have "self_packet JNull (elements (ad_inputs a)) = Inr (content_of view g)"
    by (simp only: assms(6) elements.simps foreign_packet [OF assms(5)] made_packet)
  then show ?thesis
    using assms contract_length by (simp add: self_transition_def parse_proposal_enc content_fields)
qed

lemma self_load_effect:
  assumes "reachable X st" and "\<And>k u. later X u (between k u)" and "coherent X st cache"
    and "self_load X sqlite_ok between cache st subject head = (res, cache', st')"
  shows "later X st st' \<and> coherent X st' cache' \<and>
    (\<forall>s view. res = Inr (s, view) \<longrightarrow> (\<exists>c. cache' subject = Some c \<and> ca_state c = s \<and> ca_view c = view))"
proof -
  define st1 where "st1 = between 1 st"
  define st3 where "st3 = between 3 (between 2 st1)"
  have l1: "later X st st1" and l3: "later X st1 st3"
    unfolding st1_def st3_def by (rule assms(2), rule later_trans [OF assms(2) assms(2)])
  have r1: "reachable X st1" and r3: "reachable X st3"
    using reachable_later [OF assms(1) l1] reachable_later [OF _ l3] by simp_all
  have c1: "coherent X st1 cache" and c3: "coherent X st3 cache"
    using coherent_later [OF assms(1) l1 assms(3)] coherent_later [OF r1 l3] by simp_all
  show ?thesis
  proof (cases "\<exists>c. cache subject = Some c \<and> ca_head c = head")
    case True
    then obtain c where "cache subject = Some c" "ca_head c = head" by blast
    with assms(4) have "st' = st1" "cache' = cache" "res = bindR (verify_head X st1 subject) (\<lambda>_. Inr (ca_state c, ca_view c))"
      by (auto simp: self_load_def st1_def Let_def)
    with l1 c1 \<open>cache subject = Some c\<close> show ?thesis by (auto simp: bindR_Inr)
  next
    case False
    then have none: "(case cache subject of Some c \<Rightarrow> if ca_head c = head then Some c else None | None \<Rightarrow> None) = None"
      by (auto split: option.splits)
    let ?m = "bindR (self_replay X sqlite_ok st1 (between 2 st1) st3 subject) (\<lambda>(s, view).
                bindR (bindR (jat view ''head'') get_string) (\<lambda>h. Inr (s, view, h)))"
    have eq: "(res, cache', st') = (case ?m of Inl e \<Rightarrow> (Inl e, cache, st3)
           | Inr (s, view, h) \<Rightarrow> (Inr (s, view), cache(subject \<mapsto> \<lparr>ca_head = h, ca_state = s, ca_view = view\<rparr>), st3))"
      using assms(4) [unfolded self_load_def none option.case Let_def, folded st1_def, folded st3_def] by (rule sym)
    show ?thesis
    proof (cases ?m)
      case (Inl e)
      with eq l1 l3 c3 later_trans show ?thesis by auto
    next
      case (Inr svh)
      then obtain s view h where svh: "svh = (s, view, h)" and
        rep: "self_replay X sqlite_ok st1 (between 2 st1) st3 subject = Inr (s, view)" and h: "jat view ''head'' = Inr (JStr h)"
        by (auto simp: bindR_Inr get_string_Inr)
      from self_replay_state [OF rep] obtain h0 where
        com: "self_commits X subject (self_attempts st1 subject) (self_history st1 subject) = Inr (s, h0, view)" by blast
      have ne: "self_history st1 subject \<noteq> []"
      proof
        assume "self_history st1 subject = []"
        with com have "view = JNull" by (simp add: self_commits_def)
        with h show False by simp
      qed
      from self_commits_last [OF com ne] have "h0 = h" using view_of_Inr(1) h by (metis Inr_inject json.inject(4))
      with com ne have "cached_prefix X st1 subject \<lparr>ca_head = h, ca_state = s, ca_view = view\<rparr>"
        unfolding cached_prefix_def by (intro exI [of _ "self_history st1 subject"] exI [of _ "[]"]) simp
      from coherent_update [OF c3 cached_prefix_later [OF r1 l3 this]] eq Inr svh l1 l3 later_trans show ?thesis by auto
    qed
  qed
qed

text \<open>What holds of the attempt a step has admitted.\<close>

definition self_admitted :: "ext \<Rightarrow> store \<Rightarrow> string \<Rightarrow> attempt \<Rightarrow> cached_subject \<Rightarrow> json \<Rightarrow> bool" where
  "self_admitted X st subject t c g \<longleftrightarrow> (\<exists>row \<in> set (st_attempts st). \<exists>a occ inputs.
     at_subject row = subject \<and> at_id row = att_id t \<and> at_body row = a \<and> ad_subject a = subject \<and>
     ad_parent a = ca_head c \<and> admitted_occasion a = Inr occ \<and> foreign_inputs inputs = Inr () \<and>
     ad_inputs a = JArr (inputs @ [make_input X ''observation'' producer (content_of (ca_view c) g) []]) \<and>
     grant_valid X g (ca_view c) occ = Inr () \<and> grant_unused_ids (ca_state c) g = Inr ())"

lemma self_admitted_later:
  assumes "reachable X st" and "later X st st'" and "self_admitted X st subject t c g"
  shows "self_admitted X st' subject t c g"
proof -
  from assms(3) obtain row where row: "row \<in> set (st_attempts st)" "at_subject row = subject" "at_id row = att_id t"
    and rest: "\<exists>occ inputs. ad_subject (at_body row) = subject \<and>
     ad_parent (at_body row) = ca_head c \<and> admitted_occasion (at_body row) = Inr occ \<and> foreign_inputs inputs = Inr () \<and>
     ad_inputs (at_body row) = JArr (inputs @ [make_input X ''observation'' producer (content_of (ca_view c) g) []]) \<and>
     grant_valid X g (ca_view c) occ = Inr () \<and> grant_unused_ids (ca_state c) g = Inr ()"
    unfolding self_admitted_def by blast
  have "self_attempts st subject (att_id t) = Some (at_body row)"
    using row self_attempts_Some [OF keys.reachable [OF assms(1)]] by blast
  then have "self_attempts st' subject (att_id t) = Some (at_body row)"
    using self_attempts_later [OF assms(1,2)] by (metis domI map_le_def)
  then obtain row' where "row' \<in> set (st_attempts st')" "at_subject row' = subject" "at_id row' = att_id t" "at_body row' = at_body row"
    using self_attempts_Some [OF keys.reachable [OF reachable_later [OF assms(1,2)]]] by blast
  with rest show ?thesis unfolding self_admitted_def by metis
qed

text \<open>A transition on the admitted attempt extends the cached state as the replay does.\<close>

lemma self_admitted_commit:
  assumes "reachable X st" and "transition_ok X st row r q tr db" and "failures_ok st row fs"
    and "reachable X (committed_store X st tr db fs)" and "at_id row = att_id t"
    and "cached_prefix X st subject c" and "self_admitted X st subject t c g"
    and "self_apply X (ca_state c) (tr_proposal tr) g (co_id (transition_row X tr)) = Inr s'"
    and "view_of X s' subject (co_id (transition_row X tr)) = Inr view'"
  shows "cached_prefix X (committed_store X st tr db fs) subject
    \<lparr>ca_head = co_id (transition_row X tr), ca_state = s', ca_view = view'\<rparr>"
proof -
  let ?st = "committed_store X st tr db fs"
  from assms(7) obtain row' a occ inputs where row': "row' \<in> set (st_attempts st)" "at_id row' = att_id t" "at_body row' = a"
    "at_subject row' = subject" and a: "ad_subject a = subject" "ad_parent a = ca_head c" "admitted_occasion a = Inr occ"
    "foreign_inputs inputs = Inr ()"
    "ad_inputs a = JArr (inputs @ [make_input X ''observation'' producer (content_of (ca_view c) g) []])"
    and g: "grant_valid X g (ca_view c) occ = Inr ()" "grant_unused_ids (ca_state c) g = Inr ()"
    unfolding self_admitted_def by blast
  have find: "find_attempt st (att_id t) = Some row" using assms(2,5) by (simp add: transition_ok_def)
  have "row = row'"
    using keys_inv_find(3) [OF keys.reachable [OF assms(1)] row'(1)] find row'(2) by simp
  then have body: "at_body row = a" using row'(3) by simp
  have tr: "find_subject st subject = Some r" "su_head r = ca_head c" "tr_subject tr = su_id r" "tr_tick tr = su_tick r + 1"
    "tr_attempt tr = att_id t" "proposal_ok X (tr_proposal tr)"
    using assms(2,5) by (simp_all add: transition_ok_def body a)
  have sub: "tr_subject tr = subject" "r \<in> set (st_subjects st)" using tr(3) find_subject_Some [OF tr(1)] by simp_all
  have "projects r (commits_of st (su_id r))" using chain.reachable [OF assms(1)] sub(2) by (simp add: chain_inv_def)
  then have tick: "cb_tick (Transition tr) \<noteq> 0"
    by (cases "commits_of st (su_id r)") (simp_all add: projects_def tr(4))
  have "self_attempts st subject (tr_attempt tr) = Some a"
    unfolding self_attempts_Some [OF keys.reachable [OF assms(1)]] tr(5) using row' by blast
  then have att: "self_attempts ?st subject (tr_attempt tr) = Some a"
    using self_attempts_step [OF assms(1,4) transition [OF assms(2,3)], of subject] by (metis domI map_le_def)
  from self_transition_made [where attempts = "self_attempts ?st subject" and t = tr,
      OF cached_prefix_head [OF assms(6)] g att a(4,5,3) tr(6) assms(8)]
  have "self_transition X subject (self_attempts ?st subject) (ca_state c) (ca_head c) (co_id (transition_row X tr)) tr = Inr s'" .
  then have "self_commit X subject (self_attempts ?st subject) (ca_state c, ca_head c, ca_view c)
      (co_id (transition_row X tr), Transition tr) = Inr (s', co_id (transition_row X tr), view')"
    using tick assms(9) by (simp add: self_commit_def del: cb_tick.simps)
  with cached_prefix_append [OF assms(1-4), of c] assms(6) tr(2) show ?thesis unfolding sub(1) by blast
qed

lemma apply_nothing: "p_memory p = [] \<Longrightarrow> p_notes p = [] \<Longrightarrow> self_apply X s p g version = Inr s"
  by (simp add: self_apply_def)

lemma self_remember_Inr:
  assumes "self_remember X cache subject s g validated res = Inr cache'"
  obtains (committed) sn p s' view where "sr_status res = ''committed''" and "sr_snapshot res = Some sn" and "validated = Some p"
      and "self_apply X s p g (sn_head sn) = Inr s'" and "view_of X s' subject (sn_head sn) = Inr view"
      and "cache' = cache(subject \<mapsto> \<lparr>ca_head = sn_head sn, ca_state = s', ca_view = view\<rparr>)"
  | (disposed) sn view where "sr_status res = ''disposed''" and "sr_snapshot res = Some sn"
      and "view_of X s subject (sn_head sn) = Inr view"
      and "cache' = cache(subject \<mapsto> \<lparr>ca_head = sn_head sn, ca_state = s, ca_view = view\<rparr>)"
  | (same) "cache' = cache"
  | (erased) "cache' = cache(subject := None)"
proof (cases "sr_status res = ''committed'' \<and> sr_snapshot res \<noteq> None \<and> validated \<noteq> None")
  case True
  then obtain sn p where "sr_status res = ''committed''" "sr_snapshot res = Some sn" "validated = Some p" by auto
  with assms committed show thesis by (auto simp: self_remember_def bindR_Inr)
next
  case False
  then have "(case if sr_status res = ''disposed'' then sr_snapshot res else None of
           Some sn \<Rightarrow> bindR (view_of X s subject (sn_head sn)) (\<lambda>view.
             Inr (cache(subject \<mapsto> \<lparr>ca_head = sn_head sn, ca_state = s, ca_view = view\<rparr>)))
         | None \<Rightarrow> Inr (if sr_status res = ''conflict'' then cache(subject := None) else cache)) = Inr cache'"
    using assms by (auto simp: self_remember_def split: option.splits if_splits)
  with disposed same erased show thesis by (auto simp: bindR_Inr split: option.splits if_splits)
qed

lemma self_attempt_effect:
  assumes "reachable X st" and "coherent X st cache" and "cached_prefix X st subject c" and "self_admitted X st subject t c g"
    and "self_attempt X guard rd be cache st subject (ca_state c) g t execution timeout result = (res, cache', st')"
  shows "later X st st' \<and> coherent X st' cache'"
proof -
  define preview where "preview = self_preview X (ca_state c) g subject"
  obtain er where ex: "execute_attempt X guard rd be st t execution timeout (Some preview) True False = (er, st')"
    and out: "case er of Inl e \<Rightarrow> cache' = cache
      | Inr r \<Rightarrow> (case self_remember X cache subject (ca_state c) g
                 (validated_proposal preview (fst (answered X rd True be t timeout))) r of
             Inl e \<Rightarrow> cache' = cache | Inr ca \<Rightarrow> cache' = ca)"
    using assms(5) unfolding self_attempt_def Let_def
    by (auto simp: preview_def split: prod.splits sum.splits)
  have "known_in st (att_id t)"
    using assms(4) keys_inv_find(3) [OF keys.reachable [OF assms(1)]] unfolding self_admitted_def known_in_def by (metis option.distinct(1))
  with execute_later [OF ex] have later: "later X st st'" by blast
  note coh = coherent_later [OF assms(1) later assms(2)] and reach = reachable_later [OF assms(1) later]
  have "coherent X st' cache'"
  proof (cases er)
    case (Inl e)
    with out coh show ?thesis by simp
  next
    case (Inr r)
    show ?thesis
    proof (cases "self_remember X cache subject (ca_state c) g (validated_proposal preview (fst (answered X rd True be t timeout))) r")
      case (Inl e)
      with out coh Inr show ?thesis by simp
    next
      case (Inr ca)
      with out \<open>er = Inr r\<close> have ca: "cache' = ca" by simp
      from Inr show ?thesis
      proof (cases rule: self_remember_Inr)
        case (committed sn p s' view)
        from ex [unfolded \<open>er = Inr r\<close>] committed(2) show ?thesis
        proof (rule execute_landed_guarded)
          fix row ro q tr db fs
          assume tr: "transition_ok X st row ro q tr db" "failures_ok st row fs" "st' = committed_store X st tr db fs" "at_id row = att_id t"
            and head: "sn_head sn = co_id (transition_row X tr)"
            and "sr_status r = ''committed'' \<and> fst (answered X rd True be t timeout) = Participates (tr_proposal tr) \<and>
                preview (tr_proposal tr) = None \<or>
              sr_status r = ''disposed'' \<and> p_memory (tr_proposal tr) = [] \<and> p_notes (tr_proposal tr) = []"
          then have "p = tr_proposal tr" using committed(1,3) by (simp add: validated_proposal_def)
          with self_admitted_commit [OF assms(1) tr(1,2) reach [unfolded tr(3)] tr(4) assms(3,4)] committed(4,5) head
          have "cached_prefix X st' subject \<lparr>ca_head = sn_head sn, ca_state = s', ca_view = view\<rparr>" by (simp add: tr(3))
          with coherent_update [OF coh] show ?thesis by (simp add: ca committed(6))
        qed
      next
        case (disposed sn view)
        from ex [unfolded \<open>er = Inr r\<close>] disposed(2) show ?thesis
        proof (rule execute_landed_guarded)
          fix row ro q tr db fs
          assume tr: "transition_ok X st row ro q tr db" "failures_ok st row fs" "st' = committed_store X st tr db fs" "at_id row = att_id t"
            and head: "sn_head sn = co_id (transition_row X tr)"
            and "sr_status r = ''committed'' \<and> fst (answered X rd True be t timeout) = Participates (tr_proposal tr) \<and>
                preview (tr_proposal tr) = None \<or>
              sr_status r = ''disposed'' \<and> p_memory (tr_proposal tr) = [] \<and> p_notes (tr_proposal tr) = []"
          then have "p_memory (tr_proposal tr) = []" "p_notes (tr_proposal tr) = []" using disposed(1) by simp_all
          from self_admitted_commit [OF assms(1) tr(1,2) reach [unfolded tr(3)] tr(4) assms(3,4) apply_nothing [OF this]] disposed(3) head
          have "cached_prefix X st' subject \<lparr>ca_head = sn_head sn, ca_state = ca_state c, ca_view = view\<rparr>" by (simp add: tr(3))
          with coherent_update [OF coh] show ?thesis by (simp add: ca disposed(4))
        qed
      next
        case same
        with ca coh show ?thesis by simp
      next
        case erased
        with ca coherent_erase [OF coh] show ?thesis by simp
      qed
    qed
  qed
  with later show ?thesis by simp
qed

lemma self_context_fields:
  assumes "self_context X view g occ inputs = Inr context"
  shows "context \<noteq> JNull" and "jat context ''head'' = jat view ''head''" and "jat context ''occasion'' = Inr occ"
    and "jat context ''inputs'' = Inr (JArr (elements inputs @ [make_input X ''observation'' producer (content_of view g) []]))"
  using assms by (auto simp: self_context_def bindR_Inr mk_obj_access) (simp add: mk_obj_def)

lemma admitted_for_self:
  assumes "admit X st subject backend now policy fits execution context nonce = Inr (Some t, st')"
    and "self_context X (ca_view c) g occ inputs = Inr context" and "jat (ca_view c) ''head'' = Inr (JStr (ca_head c))"
    and "grant_valid X g (ca_view c) occ = Inr ()" and "grant_unused_ids (ca_state c) g = Inr ()" and "foreign_inputs (elements inputs) = Inr ()"
  shows "self_admitted X st' subject t c g"
proof -
  note con = self_context_fields [OF assms(2)]
  from assms(1) con(1) show ?thesis
  proof (rule admit_context)
    fix r a occ'
    assume "jat context ''head'' = Inr (JStr (su_head r))" "ad_subject a = subject" "ad_parent a = su_head r"
      "jat context ''inputs'' = Inr (ad_inputs a)" "admitted_occasion a = Inr occ'" "jat context ''occasion'' = Inr occ'"
      "\<exists>row \<in> set (st_attempts st'). at_subject row = subject \<and> at_id row = att_id t \<and> at_body row = a"
    with con(2-4) assms(3-6) show ?thesis unfolding self_admitted_def by auto
  qed
qed

text \<open>The three parts of a step keep the cache coherent.\<close>

lemma self_deliver_effect:
  assumes "reachable X st" and "\<And>k u. later X u (between k u)" and "coherent X st cache" and "cache subject = Some c"
    and "self_context X (ca_view c) g occ inputs = Inr context"
    and "grant_valid X g (ca_view c) occ = Inr ()" and "grant_unused_ids (ca_state c) g = Inr ()" and "foreign_inputs (elements inputs) = Inr ()"
    and "self_deliver X guard rd between nonce be execution cache st subject (ca_state c) g context now timeout result = (res, cache', st')"
  shows "later X st st' \<and> coherent X st' cache'"
proof -
  define st5 where "st5 = between 5 st"
  have l5: "later X st st5" unfolding st5_def by (rule assms(2))
  have r5: "reachable X st5" by (rule reachable_later [OF assms(1) l5])
  have c5: "coherent X st5 cache" by (rule coherent_later [OF assms(1) l5 assms(3)])
  note unf = assms(9) [unfolded self_deliver_def Let_def, folded st5_def]
  let ?adm = "admit X st5 subject (be_name be) now (be_policy be) (Some (be_fits be)) execution context nonce"
  show ?thesis
  proof (cases "\<exists>t st6. ?adm = Inr (Some t, st6)")
    case False
    then consider e where "?adm = Inl e" | st6 where "?adm = Inr (None, st6)" by (cases ?adm) (auto split: prod.splits option.splits)
    then have "cache' = cache \<and> later X st5 st'" using unf by cases (auto dest: admit_later)
    with coherent_later [OF r5 _ c5] later_trans [OF l5] show ?thesis by blast
  next
    case True
    then obtain t st6 where adm: "?adm = Inr (Some t, st6)" by blast
    have l6: "later X st5 (between 6 st6)" by (rule later_trans [OF admit_later [OF adm] assms(2)])
    have r6: "reachable X st6" by (rule reachable_later [OF r5 admit_later [OF adm]])
    have r7: "reachable X (between 6 st6)" by (rule reachable_later [OF r5 l6])
    have pre: "cached_prefix X st5 subject c" using c5 assms(4) by (simp add: coherent_def)
    have head: "jat (ca_view c) ''head'' = Inr (JStr (ca_head c))" by (rule view_of_Inr(1) [OF cached_prefix_head [OF pre]])
    from admitted_for_self [OF adm assms(5) head assms(6-8)]
    have "self_admitted X (between 6 st6) subject t c g" by (rule self_admitted_later [OF r6 assms(2)])
    moreover have "self_attempt X guard rd be cache (between 6 st6) subject (ca_state c) g t execution timeout result = (res, cache', st')"
      using unf by (simp add: adm)
    ultimately have "later X (between 6 st6) st' \<and> coherent X st' cache'"
      by (intro self_attempt_effect [OF r7 coherent_later [OF r5 l6 c5] cached_prefix_later [OF r5 l6 pre]])
    with later_trans [OF later_trans [OF l5 l6]] show ?thesis by blast
  qed
qed

lemma self_turn_effect:
  assumes "reachable X st" and "\<And>k u. later X u (between k u)" and "coherent X st cache" and "cache subject = Some c"
    and "foreign_inputs (elements inputs) = Inr ()"
    and "self_turn X guard rd between nonce be execution cache st subject (ca_state c) (ca_view c) now grant inputs timeout = (res, cache', st')"
  shows "later X st st' \<and> coherent X st' cache'"
proof -
  define st4 where "st4 = between 4 st"
  have l4: "later X st st4" unfolding st4_def by (rule assms(2))
  have r4: "reachable X st4" by (rule reachable_later [OF assms(1) l4])
  have c4: "coherent X st4 cache" by (rule coherent_later [OF assms(1) l4 assms(3)])
  note unf = assms(6) [unfolded self_turn_def Let_def, folded st4_def]
  show ?thesis
  proof (cases "\<exists>d q g context. schedule_at X st4 subject now = Inr d \<and> sc_occasion d = Some q \<and>
      self_issue X (ca_state c) (ca_view c) grant (pending_id q) = Inr g \<and>
      self_context X (ca_view c) g (pending_id q) inputs = Inr context")
    case True
    then obtain d q g con where st: "schedule_at X st4 subject now = Inr d" "sc_occasion d = Some q"
      "self_issue X (ca_state c) (ca_view c) grant (pending_id q) = Inr g"
      "self_context X (ca_view c) g (pending_id q) inputs = Inr con" by blast
    then have "grant_valid X g (ca_view c) (pending_id q) = Inr ()" "grant_unused_ids (ca_state c) g = Inr ()"
      by (auto simp: self_issue_def res_simps)
    from self_deliver_effect [OF r4 assms(2) c4 assms(4) st(4) this assms(5)] unf st
    have "later X st4 st' \<and> coherent X st' cache'" by simp
    with later_trans [OF l4] show ?thesis by blast
  next
    case False
    with unf have "cache' = cache" "st' = st4" by (auto simp: bindR_Inr bindR_Inl_iff split: sum.splits option.splits prod.splits)
    with l4 c4 show ?thesis by simp
  qed
qed

lemma self_step_effect:
  assumes "reachable X st" and "\<And>k u. later X u (between k u)" and "coherent X st cache"
    and "self_step X sqlite_ok guard rd between nonce be execution cache st subject now grant inputs timeout cancelled = (res, cache', st')"
  shows "later X st st' \<and> coherent X st' cache'"
proof -
  define st0 where "st0 = between 0 st"
  have l0: "later X st st0" unfolding st0_def by (rule assms(2))
  have r0: "reachable X st0" by (rule reachable_later [OF assms(1) l0])
  have c0: "coherent X st0 cache" by (rule coherent_later [OF assms(1) l0 assms(3)])
  note unf = assms(4) [unfolded self_step_def Let_def, folded st0_def]
  show ?thesis
  proof (cases "self_checks X execution (be_name be) inputs timeout = Inr () \<and> \<not> cancelled \<and> (\<exists>sn. snapshot st0 subject = Inr sn)")
    case False
    with unf assms(3) l0 c0 show ?thesis by (auto split: sum.splits if_splits)
  next
    case True
    then obtain sn where u: "self_checks X execution (be_name be) inputs timeout = Inr ()" "cancelled = False" "snapshot st0 subject = Inr sn"
      by blast
    then have foreign: "foreign_inputs (elements inputs) = Inr ()" by (simp add: self_checks_def res_simps)
    obtain lr cache1 st3 where load: "self_load X sqlite_ok between cache st0 subject (sn_head sn) = (lr, cache1, st3)"
      by (metis prod_cases3)
    note unf1 = unf [unfolded u if_False sum.case load prod.case]
    from self_load_effect [OF r0 assms(2) c0 load] have l3: "later X st0 st3" and c3: "coherent X st3 cache1"
      and got: "\<And>s view. lr = Inr (s, view) \<Longrightarrow> \<exists>c. cache1 subject = Some c \<and> ca_state c = s \<and> ca_view c = view" by auto
    have r3: "reachable X st3" by (rule reachable_later [OF r0 l3])
    have "later X st3 st' \<and> coherent X st' cache'"
    proof (cases lr)
      case (Inl e)
      with unf1 c3 show ?thesis by simp
    next
      case (Inr sv)
      then obtain c where c: "cache1 subject = Some c" "sv = (ca_state c, ca_view c)" using got by (cases sv) auto
      from self_turn_effect [OF r3 assms(2) c3 c(1) foreign] unf1 Inr c(2) show ?thesis by simp
    qed
    with later_trans [OF later_trans [OF l0 l3]] show ?thesis by blast
  qed
qed

section \<open>What the cache and the replays promise\<close>

lemma clock_known:
  assumes "reachable X st" and "snapshot st subject = Inr sn"
  shows "\<exists>j. clock st subject = Inr j"
proof -
  from assms(2) obtain r where r: "find_subject st subject = Some r" by (auto simp: res_simps)
  have "projects r (commits_of st subject)"
    using chain.reachable [OF assms(1)] find_subject_Some [OF r] by (auto simp: chain_inv_def)
  then have ne: "commits_of st subject \<noteq> []" and "link_ok (commits_of st subject) 0" by (auto simp: projects_def chained_def)
  then have "co_tick (hd (commits_of st subject)) = 0" by (simp add: link_ok_def hd_conv_nth)
  moreover have "hd (commits_of st subject) \<in> set (commits_of st subject)" using ne by simp
  ultimately have "\<exists>c \<in> set (st_commits st). co_subject c = subject \<and> co_tick c = 0" by (auto simp: commits_of_def)
  then have "find (\<lambda>c. co_subject c = subject \<and> co_tick c = 0) (st_commits st) \<noteq> None" by (auto simp: find_None_iff)
  then show ?thesis by (auto simp: clock_def)
qed

lemma coherent_replay:
  assumes "reachable X st" and "coherent X st cache" and "cache subject = Some c" and "snapshot st subject = Inr sn"
    and "sn_head sn = ca_head c" and "verify X sqlite_ok st subject = Inr ()"
  shows "self_replay X sqlite_ok st st st subject = Inr (ca_state c, ca_view c)"
proof -
  from assms(4) obtain r where r: "find_subject st subject = Some r" "sn = row_snapshot r" by (auto simp: res_simps)
  have pre: "cached_prefix X st subject c" using assms(2,3) by (simp add: coherent_def)
  from assms(5) r(2) have "su_head r = ca_head c" by simp
  note all = cached_prefix_all [OF assms(1) r(1) this pre]
  obtain j where "clock st subject = Inr j" using clock_known [OF assms(1,4)] by blast
  then obtain report where rep: "timeline st subject = Inr report" using assms(4) by (simp add: timeline_def Let_def)
  note tl = timeline_self [OF rep]
  have "tl_snapshot report = sn" using tl(3) assms(4) by simp
  then show ?thesis using assms(4,6) rep all by (simp add: self_replay_def tl(1,2))
qed


text \<open>The facts about replayed histories, for the histories of a store.\<close>

lemma store_commitments_final:
  assumes "reachable X st" and "later X st st'" and "self_replay X ok st st2 st3 subject = Inr (s, view)"
    and "self_replay X ok' st' st2' st3' subject = Inr (s', view')"
  shows "tasks_ok (ss_tasks s) \<and> keeps s s'"
proof -
  from self_replay_state [OF assms(3)] obtain h where
    s: "self_commits X subject (self_attempts st subject) (self_history st subject) = Inr (s, h, view)" by blast
  from self_replay_state [OF assms(4)] obtain h' where
    s': "self_commits X subject (self_attempts st' subject) (self_history st' subject) = Inr (s', h', view')" by blast
  obtain rest where "self_history st' subject = self_history st subject @ rest" using self_history_later [OF assms(1,2)] by blast
  with self_commits_keeps [OF s _ self_attempts_later [OF assms(1,2)]] s' self_commits_tasks_ok [OF s] show ?thesis by simp
qed

end
