(* ===== verification/Cogg_Self_Run.thy ===== *)
theory Cogg_Self_Run
  imports Cogg_Self_Guard Cogg_Self_Runtime Cogg_Runtime_Run
begin

text \<open>
  A concrete self subject: a genesis with a profile and a transition that accepts one
  commitment under a grant, replayed on the sample printer and digest; a proposal that the
  guard of the commit accepts and the replay refuses; and the witnesses of the properties
  about self state.
\<close>

section \<open>A grant and what it permits\<close>

definition rin_profile :: json where
  "rin_profile = mk_obj [(''schema'', JStr producer), (''revision'', JInt 0), (''data'', JObj [])]"

definition rin_key :: string where
  "rin_key = ''self.commitment.a''"

definition rin_state :: "jobject \<Rightarrow> self_state" where
  "rin_state tasks = \<lparr>ss_profile = rin_profile, ss_version = sample_id 0, ss_tasks = tasks\<rparr>"

definition rin_grant :: json where
  "rin_grant = mk_obj [(''schema'', JStr ''cogg:self-grant/v1''), (''subject'', JStr ''s''), (''head'', JStr (sample_id 0)),
     (''occasion'', JStr (sample_id 0)), (''create'', JObj [(rin_key, JStr ''call'')]), (''settle'', JObj []), (''profile'', JNull)]"

definition rin_view :: "jobject \<Rightarrow> json list \<Rightarrow> json" where
  "rin_view tasks items = view_enc (rin_state tasks) ''s'' (sample_id 0) items"

definition rin_admission :: "jobject \<Rightarrow> admission" where
  "rin_admission tasks = run_admission\<lparr>ad_inputs := JArr
     [make_input sample_ext ''observation'' producer (content_of (rin_view tasks []) rin_grant) []]\<rparr>"

definition rin_note :: memory_note where
  "rin_note = \<lparr>n_key = rin_key, n_text = ''call'', n_type = ''task'', n_status = ''open'', n_sources = [], n_covers = []\<rparr>"

definition rin_proposal :: proposal where
  "rin_proposal = default_proposal\<lparr>p_notes := [rin_note]\<rparr>"

definition rin_transition :: transition where
  "rin_transition = run_transition\<lparr>tr_proposal := rin_proposal\<rparr>"

definition rin_task :: "string \<Rightarrow> string \<Rightarrow> json" where
  "rin_task status version = task_json (JStr ''call'') (JStr status) (JStr version)"

lemma rin_view_of:
  "open_items tasks = Inr items \<Longrightarrow> length items \<le> 16 \<Longrightarrow> view_of sample_ext (rin_state tasks) subject head =
     Inr (view_enc (rin_state tasks) subject head items)"
  by (simp add: view_of_def rin_state_def Let_def) (simp add: sample_dump_def view_enc_def jat_mk_obj)

lemma rin_view_fields:
  "jat (rin_view tasks items) ''subject'' = Inr (JStr ''s'')" "jat (rin_view tasks items) ''head'' = Inr (JStr (sample_id 0))"
  "jat (rin_view tasks items) ''open'' = Inr (JArr items)" "jat (rin_view tasks items) ''profile'' = Inr rin_profile"
  "jat (rin_view tasks items) ''profile_version'' = Inr (JStr (sample_id 0))"
  by (simp_all add: rin_view_def view_enc_def mk_obj_access rin_state_def)

lemma rin_grant_fields:
  "self_fields rin_grant [''schema'', ''subject'', ''head'', ''occasion'', ''create'', ''settle'', ''profile''] = Inr ()"
  "jat rin_grant ''schema'' = Inr (JStr ''cogg:self-grant/v1'')" "jat rin_grant ''subject'' = Inr (JStr ''s'')"
  "jat rin_grant ''head'' = Inr (JStr (sample_id 0))" "jat rin_grant ''occasion'' = Inr (JStr (sample_id 0))"
  "jat rin_grant ''create'' = Inr (JObj [(rin_key, JStr ''call'')])" "jat rin_grant ''settle'' = Inr (JObj [])"
  "jat rin_grant ''profile'' = Inr JNull" "length (sample_dump rin_grant) \<le> 16384"
  by (simp_all add: rin_grant_def self_fields_def mk_obj_access) (simp add: sample_dump_def jat_mk_obj)

lemma rin_commitment: "commitment rin_key" "reserved rin_key"
  by (simp_all add: commitment_def reserved_def rin_key_def commitment_prefix_def id_char_def less_eq_char_def)

lemma sample_id_digest_value: "digest (JStr (sample_id n))"
proof -
  have "CHR 0x00 \<notin> set (sample_id n)"
  proof
    assume "CHR 0x00 \<in> set (sample_id n)"
    moreover have "\<forall>c \<in> set (sample_id n). c \<in> set ''0123456789abcdef''"
      using sample_id_digest [of n] unfolding digest_string_def hex_string_def list_all_iff by (rule conjunct2)
    ultimately have "CHR 0x00 \<in> set ''0123456789abcdef''" by blast
    then show False by simp
  qed
  then show ?thesis by (simp add: digest_def bounded_def)
qed

lemma rin_context: "validate_admission_context sample_ext
    (mk_obj [(''head'', JStr (sample_id 0)), (''occasion'', JStr (sample_id 0)), (''inputs'', JArr [])]) = Inr ()"
proof -
  have "validate_inputs sample_ext (JArr []) = Inr ()" by (simp add: validate_inputs_def sample_dump_def)
  then show ?thesis
    using sample_id_digest_value by (simp add: validate_admission_context_def mk_obj_access)
qed

lemma rin_grant_valid: "grant_valid sample_ext rin_grant (rin_view tasks items) (JStr (sample_id 0)) = Inr ()"
  using rin_commitment(1) rin_grant_fields(9)
  by (simp add: grant_valid_def rin_grant_fields(1-8) rin_view_fields rin_context obj_has_def)

lemma rin_apply:
  "map_of tasks rin_key = None \<Longrightarrow> self_apply sample_ext (rin_state tasks) rin_proposal rin_grant version =
     Inr (rin_state (obj_put rin_key (rin_task ''open'' version) tasks))"
  using rin_commitment
  by (simp add: self_apply_def rin_proposal_def default_proposal_def self_note_def rin_note_def rin_grant_fields rin_state_def
      obj_has_def rin_task_def)

section \<open>A replayed history\<close>

definition rin_genesis :: genesis where
  "rin_genesis = run_genesis\<lparr>ge_memory := [(''self.profile'', rin_profile)]\<rparr>"

definition rin_history :: "(string \<times> commit_body) list" where
  "rin_history = [(sample_id 0, Genesis rin_genesis), (sample_id 1, Transition rin_transition)]"

definition rin_attempts :: "jobject \<Rightarrow> (string \<rightharpoonup> admission)" where
  "rin_attempts tasks = [sample_id 0 \<mapsto> rin_admission tasks]"

definition rin_final :: self_state where
  "rin_final = rin_state [(rin_key, rin_task ''open'' (sample_id 1))]"

lemma rin_proposal_ok: "proposal_ok sample_ext rin_proposal"
  by (simp add: proposal_ok_def rin_proposal_def default_proposal_def notes_ok_def out_notes_def note_ok_def rin_note_def key_ok_def
      rin_key_def note_types_def note_statuses_def)

lemma rin_profile_valid: "profile_valid sample_ext rin_profile = Inr ()"
  by (simp add: profile_valid_def self_fields_def rin_profile_def mk_obj_access data_valid_def run_dump_small)

lemma rin_occasion: "admitted_occasion (rin_admission tasks) = Inr (JStr (sample_id 0))"
  by (simp add: admitted_occasion_def rin_admission_def run_admission_def admission_body_def run_present_def pending_id_def)
    (simp add: run_pending_def)

lemma rin_transition_fields: "tr_attempt rin_transition = sample_id 0" "tr_tick rin_transition = 1"
  "tr_proposal rin_transition = rin_proposal"
  by (simp_all add: rin_transition_def run_transition_def)

lemma rin_transition_accepted:
  "self_transition sample_ext ''s'' (rin_attempts []) (rin_state []) (sample_id 0) (sample_id 1) rin_transition = Inr rin_final"
proof (rule self_transition_made)
  show "view_of sample_ext (rin_state []) ''s'' (sample_id 0) = Inr (rin_view [] [])"
    using rin_view_of [of "[]" "[]"] by (simp add: rin_view_def)
  show "grant_unused_ids (rin_state []) rin_grant = Inr ()"
    by (simp add: grant_unused_ids_def rin_grant_fields rin_state_def obj_has_def)
  show "rin_attempts [] (tr_attempt rin_transition) = Some (rin_admission [])"
    by (simp add: rin_attempts_def rin_transition_fields)
  show "foreign_inputs [] = Inr ()" by simp
  show "ad_inputs (rin_admission []) = JArr ([] @ [make_input sample_ext ''observation'' producer
      (content_of (rin_view [] []) rin_grant) []])" by (simp add: rin_admission_def)
  show "self_apply sample_ext (rin_state []) (tr_proposal rin_transition) rin_grant (sample_id 1) = Inr rin_final"
    using rin_apply [of "[]" "sample_id 1"] by (simp add: rin_transition_fields rin_final_def)
qed (use rin_grant_valid rin_occasion rin_proposal_ok in \<open>simp_all add: rin_transition_fields\<close>)

lemma rin_self_genesis: "self_genesis sample_ext no_self (sample_id 0) (cb_memory (Genesis rin_genesis)) = Inr (rin_state [])"
  by (simp add: self_genesis_def rin_genesis_def obj_has_def rin_profile_valid)
    (simp add: rin_profile_def mk_obj_access rin_state_def no_self_def)

lemma rin_open_item: "\<exists>item. jput ''key'' (JStr rin_key) (rin_task ''open'' v) = Inr item"
  by (simp add: rin_task_def task_json_def mk_obj_def)

lemma rin_view_final: "\<exists>view. view_of sample_ext rin_final ''s'' (sample_id 1) = Inr view"
proof -
  obtain item where "jput ''key'' (JStr rin_key) (rin_task ''open'' (sample_id 1)) = Inr item" using rin_open_item by blast
  then have "open_items [(rin_key, rin_task ''open'' (sample_id 1))] = Inr [item]" by (simp add: rin_task_def)
  from rin_view_of [OF this] show ?thesis by (simp add: rin_final_def)
qed

lemma rin_replays_genesis:
  "\<exists>view. self_commits sample_ext ''s'' (rin_attempts []) [(sample_id 0, Genesis rin_genesis)] = Inr (rin_state [], sample_id 0, view)"
  using rin_view_of [of "[]" "[]" "''s''" "sample_id 0"] rin_self_genesis
  by (simp add: self_commits_def self_commit_def del: cb_memory.simps)

lemma rin_replays: "\<exists>view. self_commits sample_ext ''s'' (rin_attempts []) rin_history = Inr (rin_final, sample_id 1, view)"
proof -
  obtain view where g: "self_commits sample_ext ''s'' (rin_attempts []) [(sample_id 0, Genesis rin_genesis)] = Inr (rin_state [], sample_id 0, view)"
    using rin_replays_genesis by blast
  obtain view' where v: "view_of sample_ext rin_final ''s'' (sample_id 1) = Inr view'" using rin_view_final by blast
  have h: "rin_history = [(sample_id 0, Genesis rin_genesis)] @ [(sample_id 1, Transition rin_transition)]" by (simp add: rin_history_def)
  show ?thesis
    unfolding h self_commits_append g bindR_Inr_left
    using rin_transition_accepted v by (simp add: self_commits_def self_commit_def rin_transition_fields)
qed

section \<open>The guard forgets settled commitments\<close>

definition rin_settled :: jobject where
  "rin_settled = [(rin_key, rin_task ''closed'' (sample_id 0))]"

definition rin_snapshot :: snapshot where
  "rin_snapshot = run_snapshot\<lparr>sn_memory := [(''self.profile'', rin_profile)]\<rparr>"

lemma rin_packet: "self_packet JNull (elements (ad_inputs (rin_admission tasks))) = Inr (content_of (rin_view tasks []) rin_grant)"
  by (simp add: rin_admission_def made_packet del: self_packet.simps)

lemma rin_guard_accepts: "install_self_guard sample_ext ''s'' rin_snapshot (rin_admission tasks) rin_proposal = Inr ()"
proof -
  have app: "self_apply sample_ext \<lparr>ss_profile = rin_profile, ss_version = sample_id 0, ss_tasks = []\<rparr> rin_proposal rin_grant zero_id =
      Inr (rin_state [(rin_key, rin_task ''open'' zero_id)])"
    using rin_apply [of "[]" zero_id] by (simp add: rin_state_def)
  obtain item where "jput ''key'' (JStr rin_key) (rin_task ''open'' zero_id) = Inr item" using rin_open_item by blast
  then have "open_items [(rin_key, rin_task ''open'' zero_id)] = Inr [item]" by (simp add: rin_task_def)
  from rin_view_of [OF this, of "''s''" zero_id]
  have view: "\<exists>view. view_of sample_ext (rin_state [(rin_key, rin_task ''open'' zero_id)]) ''s'' zero_id = Inr view" by simp
  have mem: "obj_has (sn_memory rin_snapshot) ''self.profile''" by (simp add: rin_snapshot_def obj_has_def)
  show ?thesis
    using view by (auto simp: install_self_guard_def mem rin_packet content_fields rin_occasion rin_grant_valid rin_view_fields app)
qed

text \<open>
  The guard of the kernel's commit does not keep the promise that a settled commitment
  ID is never reused: in a state whose commitment is closed, with the actual view of that
  state and a grant that \<open>self_grant\<close> itself issues for it, \<open>install_self_guard\<close> accepts a
  proposal that creates the commitment again, and the replay then refuses the committed
  history for ever after.
\<close>

lemma guard_admits_settled_id:
  "view_of sample_ext (rin_state rin_settled) ''s'' (sample_id 0) = Inr (rin_view rin_settled []) \<and>
   self_grant sample_ext (rin_view rin_settled []) (JStr (sample_id 0)) (JObj [(rin_key, JStr ''call'')]) (JObj []) JNull = Inr rin_grant \<and>
   install_self_guard sample_ext ''s'' rin_snapshot (rin_admission rin_settled) (tr_proposal rin_transition) = Inr () \<and>
   self_transition sample_ext ''s'' (rin_attempts rin_settled) (rin_state rin_settled) (sample_id 0) i rin_transition =
     Inl (Error ''commitment ID already used'')"
proof (intro conjI)
  have "open_items rin_settled = Inr []" by (simp add: rin_settled_def rin_task_def)
  from rin_view_of [OF this] show v: "view_of sample_ext (rin_state rin_settled) ''s'' (sample_id 0) = Inr (rin_view rin_settled [])"
    by (simp add: rin_view_def)
  show "self_grant sample_ext (rin_view rin_settled []) (JStr (sample_id 0)) (JObj [(rin_key, JStr ''call'')]) (JObj []) JNull = Inr rin_grant"
    using rin_grant_valid [of rin_settled "[]"] by (simp add: self_grant_def rin_view_fields flip: rin_grant_def)
  show "install_self_guard sample_ext ''s'' rin_snapshot (rin_admission rin_settled) (tr_proposal rin_transition) = Inr ()"
    by (simp add: rin_transition_fields rin_guard_accepts)
  have used: "grant_unused_ids (rin_state rin_settled) rin_grant = Inl (Error ''commitment ID already used'')"
    by (simp add: grant_unused_ids_def rin_grant_fields rin_state_def rin_settled_def obj_has_def)
  show "self_transition sample_ext ''s'' (rin_attempts rin_settled) (rin_state rin_settled) (sample_id 0) i rin_transition =
     Inl (Error ''commitment ID already used'')"
    using rin_proposal_ok
    by (simp add: self_transition_def rin_transition_fields parse_proposal_enc rin_attempts_def rin_packet content_fields v rin_occasion
        rin_grant_valid used del: self_packet.simps)
qed

section \<open>Witnesses\<close>

theorem commitments_final_witness: "map_of (ss_tasks rin_final) rin_key \<noteq> None \<and> commitment rin_key"
proof -
  obtain view where r: "self_commits sample_ext ''s'' (rin_attempts []) rin_history = Inr (rin_final, sample_id 1, view)"
    using rin_replays by blast
  then have "self_commits sample_ext ''s'' (rin_attempts []) (rin_history @ []) = Inr (rin_final, sample_id 1, view)" by simp
  from commitments_final [OF r this, of rin_key "rin_task ''open'' (sample_id 1)"] show ?thesis
    by (auto simp: rin_final_def rin_state_def)
qed

theorem history_authorized_witness:
  "\<exists>g a. rin_attempts [] (sample_id 0) = Some a \<and> granted g (sample_id 1) (rin_state []) rin_final"
proof -
  obtain view where r: "self_commits sample_ext ''s'' (rin_attempts []) rin_history = Inr (rin_final, sample_id 1, view)"
    using rin_replays by blast
  have h: "rin_history = [(sample_id 0, Genesis rin_genesis)] @ (sample_id 1, Transition rin_transition) # []" by (simp add: rin_history_def)
  obtain view0 where g: "self_commits sample_ext ''s'' (rin_attempts []) [(sample_id 0, Genesis rin_genesis)] = Inr (rin_state [], sample_id 0, view0)"
    using rin_replays_genesis by blast
  have "rin_final \<noteq> rin_state []" by (simp add: rin_final_def rin_state_def)
  with history_authorized [OF r [unfolded h]] g r [unfolded h] show ?thesis by (auto simp: rin_transition_fields)
qed



end
