(* ===== verification/Cogg_Schema.thy ===== *)
theory Cogg_Schema
  imports Cogg_Http
begin

text \<open>
  What a schema means: the keywords of JSON Schema that \<^verbatim>\<open>src/http_backend.cpp\<close> uses, as
  a reference definition, and which of the kernel's valid outcomes the schema sent to the
  provider lets through.
\<close>

section \<open>Conformance\<close>

fun has_type :: "string \<Rightarrow> json \<Rightarrow> bool" where
  "has_type t JNull = (t = ''null'')"
| "has_type t (JBool _) = (t = ''boolean'')"
| "has_type t (JInt _) = (t = ''integer'' \<or> t = ''number'')"
| "has_type t (JFloat _) = (t = ''number'')"
| "has_type t (JStr _) = (t = ''string'')"
| "has_type t (JArr _) = (t = ''array'')"
| "has_type t (JObj _) = (t = ''object'')"

lemma member_size [termination_simp]: "(k, v) \<in> set (members j) \<Longrightarrow> size v < size j"
proof (cases j)
  case (JObj kvs)
  assume "(k, v) \<in> set (members j)"
  with JObj have "size v \<le> size_list (size_prod (\<lambda>_. 0) size) kvs"
    by (intro size_list_estimation' [of "(k, v)"]) simp_all
  with JObj show ?thesis by simp
qed simp_all

lemma element_size: "v \<in> set (elements j) \<Longrightarrow> size v \<le> size j"
proof (cases j)
  case (JArr xs)
  assume "v \<in> set (elements j)"
  with JArr have "size v \<le> size_list size xs" by (intro size_list_estimation' [of v]) simp_all
  with JArr show ?thesis by simp
next
  case (JObj kvs)
  assume "v \<in> set (elements j)"
  with JObj obtain k where "(k, v) \<in> set (members j)" by auto
  then show ?thesis using member_size by fastforce
qed simp_all

text \<open>Every keyword of a schema is a condition of its own; unknown keywords ask for nothing.\<close>

function (sequential) conforms :: "json \<Rightarrow> json \<Rightarrow> bool" where
  "conforms (JObj kvs) v = list_all (\<lambda>(k, a).
     (k = ''type'' \<longrightarrow> has_type (text_of a) v) \<and>
     (k = ''enum'' \<longrightarrow> v \<in> set (elements a)) \<and>
     (k = ''const'' \<longrightarrow> v = a) \<and>
     (k = ''required'' \<longrightarrow> is_object v \<longrightarrow> list_all (\<lambda>p. jcontains v (text_of p)) (elements a)) \<and>
     (k = ''additionalProperties'' \<longrightarrow> is_object v \<longrightarrow> a = JBool False \<longrightarrow>
        set (object_keys v) \<subseteq> set (object_keys (field (JObj kvs) ''properties''))) \<and>
     (k = ''properties'' \<longrightarrow> list_all (\<lambda>(p, s). jcontains v p \<longrightarrow> conforms s (field v p)) (members a)) \<and>
     (k = ''items'' \<longrightarrow> is_array v \<longrightarrow> list_all (\<lambda>x. conforms a x) (elements v)) \<and>
     (k = ''anyOf'' \<longrightarrow> list_ex (\<lambda>s. conforms s v) (elements a)) \<and>
     (k = ''maxItems'' \<longrightarrow> is_array v \<longrightarrow> (case a of JInt n \<Rightarrow> int (jsize v) \<le> n | _ \<Rightarrow> True)) \<and>
     (k = ''minimum'' \<longrightarrow> (case (v, a) of (JInt i, JInt n) \<Rightarrow> n \<le> i | _ \<Rightarrow> True)) \<and>
     (k = ''maximum'' \<longrightarrow> (case (v, a) of (JInt i, JInt n) \<Rightarrow> i \<le> n | _ \<Rightarrow> True))) kvs"
| "conforms s v = True"
  by pat_completeness auto

termination conforms
proof (relation "measure (\<lambda>(s, v). size s)", goal_cases)
  case 1
  show ?case by simp
next
  case (2 kvs v x k a p q s)
  have "size a < size (JObj kvs)" using 2 member_size [of k a "JObj kvs"] by simp
  moreover have "size s < size a" using 2 member_size [of q s a] by simp
  ultimately show ?case by simp
next
  case (3 kvs v x k a y)
  then show ?case using member_size [of k a "JObj kvs"] by simp
next
  case (4 kvs v x k a s)
  then show ?case using member_size [of k a "JObj kvs"] element_size [of s a] by simp
qed


section \<open>The shapes of schema the program uses\<close>

lemma set_obj_put_new: "k \<notin> fst ` set kvs \<Longrightarrow> set (obj_put k v kvs) = insert (k, v) (set kvs)"
  by (induction k v kvs rule: obj_put.induct) auto

lemma set_fold_put:
  "distinct (map fst kvs) \<Longrightarrow> fst ` set kvs \<inter> fst ` set o0 = {} \<Longrightarrow>
     set (fold (\<lambda>(k, v). obj_put k v) kvs o0) = set kvs \<union> set o0"
proof (induction kvs arbitrary: o0)
  case Nil
  then show ?case by simp
next
  case (Cons x kvs)
  obtain k v where x: "x = (k, v)" by fastforce
  from Cons.prems have "k \<notin> fst ` set o0" and "fst ` set kvs \<inter> fst ` set (obj_put k v o0) = {}"
    and "distinct (map fst kvs)"
    unfolding x keys_obj_put by auto
  with Cons.IH [of "obj_put k v o0"] show ?case by (simp add: x set_obj_put_new)
qed

lemma members_mk_obj: "distinct (map fst kvs) \<Longrightarrow> set (members (mk_obj kvs)) = set kvs"
  by (simp add: mk_obj_def set_fold_put)

text \<open>Conformance to a schema given by its members.\<close>

lemma conforms_mk_obj:
  assumes "distinct (map fst kvs)"
  shows "conforms (mk_obj kvs) v = (\<forall>(k, a) \<in> set kvs.
     (k = ''type'' \<longrightarrow> has_type (text_of a) v) \<and>
     (k = ''enum'' \<longrightarrow> v \<in> set (elements a)) \<and>
     (k = ''const'' \<longrightarrow> v = a) \<and>
     (k = ''required'' \<longrightarrow> is_object v \<longrightarrow> list_all (\<lambda>p. jcontains v (text_of p)) (elements a)) \<and>
     (k = ''additionalProperties'' \<longrightarrow> is_object v \<longrightarrow> a = JBool False \<longrightarrow>
        set (object_keys v) \<subseteq> set (object_keys (field (mk_obj kvs) ''properties''))) \<and>
     (k = ''properties'' \<longrightarrow> list_all (\<lambda>(p, s). jcontains v p \<longrightarrow> conforms s (field v p)) (members a)) \<and>
     (k = ''items'' \<longrightarrow> is_array v \<longrightarrow> list_all (\<lambda>x. conforms a x) (elements v)) \<and>
     (k = ''anyOf'' \<longrightarrow> list_ex (\<lambda>s. conforms s v) (elements a)) \<and>
     (k = ''maxItems'' \<longrightarrow> is_array v \<longrightarrow> (case a of JInt n \<Rightarrow> int (jsize v) \<le> n | _ \<Rightarrow> True)) \<and>
     (k = ''minimum'' \<longrightarrow> (case (v, a) of (JInt i, JInt n) \<Rightarrow> n \<le> i | _ \<Rightarrow> True)) \<and>
     (k = ''maximum'' \<longrightarrow> (case (v, a) of (JInt i, JInt n) \<Rightarrow> i \<le> n | _ \<Rightarrow> True)))"
proof -
  have "set (fold (\<lambda>(k, v). obj_put k v) kvs []) = set kvs" using set_fold_put [OF assms, of "[]"] by simp
  then show ?thesis unfolding mk_obj_def conforms.simps(1) list_all_iff by (rule ssubst) (rule refl)
qed

lemma conforms_any [simp]: "conforms (mk_obj []) v"
  by (simp add: conforms_mk_obj)

lemma conforms_type [simp]: "conforms (mk_obj [(''type'', JStr t)]) v = has_type t v"
  by (simp add: conforms_mk_obj)

lemma conforms_const [simp]: "conforms (mk_obj [(''const'', c)]) v = (v = c)"
  by (simp add: conforms_mk_obj)

lemma conforms_enum [simp]:
  "conforms (mk_obj [(''type'', JStr t), (''enum'', JArr cs)]) v = (has_type t v \<and> v \<in> set cs)"
  by (simp add: conforms_mk_obj)

lemma conforms_any_of [simp]: "conforms (mk_obj [(''anyOf'', JArr ss)]) v = (\<exists>s \<in> set ss. conforms s v)"
  by (simp add: conforms_mk_obj list_ex_iff)

lemma conforms_array [simp]:
  "conforms (mk_obj [(''type'', JStr ''array''), (''items'', s), (''maxItems'', JInt n)]) v =
     (is_array v \<and> (\<forall>x \<in> set (elements v). conforms s x) \<and> int (jsize v) \<le> n)"
  by (cases v) (simp_all add: conforms_mk_obj list_all_iff)

lemma conforms_integer [simp]:
  "conforms (mk_obj [(''type'', JStr ''integer''), (''minimum'', JInt l), (''maximum'', JInt u)]) v =
     (\<exists>i. v = JInt i \<and> l \<le> i \<and> i \<le> u)"
  by (cases v) (simp_all add: conforms_mk_obj)

lemma conforms_record:
  assumes "distinct (map fst ps)"
  shows "conforms (mk_obj [(''type'', JStr ''object''), (''additionalProperties'', JBool False), (''required'', JArr rs),
       (''properties'', mk_obj ps)]) v =
     (is_object v \<and> (\<forall>r \<in> set rs. jcontains v (text_of r)) \<and> set (object_keys v) \<subseteq> fst ` set ps \<and>
      (\<forall>(p, s) \<in> set ps. jcontains v p \<longrightarrow> conforms s (field v p)))"
  using assms
  by (cases v) (auto simp: conforms_mk_obj list_all_iff members_mk_obj field_def mk_obj_access object_keys_mk_obj)

section \<open>Which outcomes the schema of an answer lets through\<close>

lemma has_type_string [simp]: "has_type ''string'' v = is_string v"
  by (cases v) simp_all

lemma is_string_iff: "is_string v = (\<exists>s. v = JStr s)"
  by (cases v) simp_all

lemma note_json_fields:
  "jcontains (memory_note_json n) ''key''" "jcontains (memory_note_json n) ''text''" "jcontains (memory_note_json n) ''type''"
  "jcontains (memory_note_json n) ''status''" "jcontains (memory_note_json n) ''sources''" "jcontains (memory_note_json n) ''covers''"
  "field (memory_note_json n) ''key'' = JStr (n_key n)" "field (memory_note_json n) ''text'' = JStr (n_text n)"
  "field (memory_note_json n) ''type'' = JStr (n_type n)" "field (memory_note_json n) ''status'' = JStr (n_status n)"
  "field (memory_note_json n) ''sources'' = JArr (map JStr (n_sources n))"
  "field (memory_note_json n) ''covers'' = JArr (map JStr (n_covers n))" "is_object (memory_note_json n)"
  "set (object_keys (memory_note_json n)) = {''key'', ''text'', ''type'', ''status'', ''sources'', ''covers''}"
  by (simp_all add: memory_note_json_def field_def mk_obj_access object_keys_mk_obj)

lemma note_conforms:
  assumes "Cogg_Types.note_ok n"
  shows "conforms note_schema (memory_note_json n) = (n_type n \<notin> {''procedure'', ''prospective''})"
proof -
  note ok = assms [unfolded Cogg_Types.note_ok_def note_types_def note_statuses_def list.set]
  have t: "n_type n \<in> {''note'', ''fact'', ''episode'', ''task'', ''summary'', ''procedure'', ''prospective''}"
    using ok by (elim conjE)
  have "n_status n \<in> {''active'', ''open'', ''closed'', ''retracted''}" and "length (n_sources n) \<le> out_sources"
    and "length (n_covers n) \<le> out_sources"
    using ok by - (elim conjE, assumption)+
  then have "conforms note_schema (memory_note_json n) = (n_type n \<in> {''note'', ''fact'', ''episode'', ''task'', ''summary''})"
    unfolding note_schema_def by (subst conforms_record) (simp_all add: note_json_fields)
  with t show ?thesis by auto
qed

lemma write_conforms: "conforms write_schema (write_json w)"
proof -
  have "jcontains (write_json w) ''key''" "jcontains (write_json w) ''value''" "is_object (write_json w)"
    "set (object_keys (write_json w)) = {''key'', ''value''}" "field (write_json w) ''key'' = JStr (fst w)"
    by (simp_all add: write_json_def field_def mk_obj_access object_keys_mk_obj)
  then show ?thesis unfolding write_schema_def by (subst conforms_record) simp_all
qed

lemma wake_conforms:
  assumes "\<And>t. w = Some t \<Longrightarrow> 0 \<le> t \<and> t \<le> max_delay"
  shows "conforms wake_schema (optional_time w)"
proof (cases w)
  case None
  then show ?thesis by (simp add: wake_schema_def optional_time_def)
next
  case (Some t)
  with assms show ?thesis by (simp add: wake_schema_def optional_time_def max_delay_def)
qed

lemma proposal_json_fields:
  "jcontains (proposal_enc p) ''kind''" "jcontains (proposal_enc p) ''text''" "jcontains (proposal_enc p) ''memory''"
  "jcontains (proposal_enc p) ''wake_after_ms''" "jcontains (proposal_enc p) ''notes'' = (p_notes p \<noteq> [])"
  "field (proposal_enc p) ''kind'' = JStr (p_kind p)" "field (proposal_enc p) ''text'' = JStr (p_text p)"
  "field (proposal_enc p) ''memory'' = JArr (map write_json (p_memory p))"
  "field (proposal_enc p) ''wake_after_ms'' = optional_time (p_wake_after_ms p)" "is_object (proposal_enc p)"
  "p_notes p \<noteq> [] \<Longrightarrow> field (proposal_enc p) ''notes'' = JArr (map memory_note_json (p_notes p))"
  "set (object_keys (proposal_enc p)) \<subseteq> {''kind'', ''text'', ''memory'', ''wake_after_ms'', ''notes''}"
  "\<not> jcontains (proposal_enc p) ''reason''"
  by (simp_all add: proposal_enc_def field_def mk_obj_access object_keys_mk_obj image_iff) auto

lemma proposal_conforms:
  assumes "proposal_ok X p"
  shows "conforms proposal_schema (proposal_enc p) = (\<forall>n \<in> set (p_notes p). n_type n \<notin> {''procedure'', ''prospective''})"
proof -
  note ok = assms [unfolded proposal_ok_def notes_ok_def]
  have "p_kind p \<in> {''null'', ''reflection'', ''speech''}" and "length (p_memory p) \<le> out_memory_writes"
    and "length (p_notes p) \<le> out_notes"
    using ok by blast+
  moreover have "conforms wake_schema (optional_time (p_wake_after_ms p))"
    using ok by (intro wake_conforms) blast
  moreover have "conforms note_schema (memory_note_json n) = (n_type n \<notin> {''procedure'', ''prospective''})" if "n \<in> set (p_notes p)" for n
    using ok that by (intro note_conforms) blast
  ultimately show ?thesis
    unfolding proposal_schema_def
    by (cases "p_notes p = []") (subst conforms_record, simp_all add: proposal_json_fields write_conforms)+
qed

lemma abstention_conforms:
  assumes "abstention_ok a"
  shows "conforms abstain_schema (abstention_enc a)"
proof -
  have "jcontains (abstention_enc a) ''kind''" "jcontains (abstention_enc a) ''reason''" "jcontains (abstention_enc a) ''detail''"
    "set (object_keys (abstention_enc a)) = {''kind'', ''reason'', ''detail''}" "is_object (abstention_enc a)"
    "field (abstention_enc a) ''kind'' = JStr ''abstain''" "field (abstention_enc a) ''reason'' = JStr (a_reason a)"
    "field (abstention_enc a) ''detail'' = JStr (a_detail a)"
    by (simp_all add: abstention_enc_def field_def mk_obj_access object_keys_mk_obj)
  moreover have "a_reason a \<in> {''missing_input'', ''unsupported'', ''uncertain'', ''refused''}"
    using assms by (simp only: abstention_ok_def reasons_def list.set)
  ultimately show ?thesis
    unfolding abstain_schema_def by (subst conforms_record) simp_all
qed

lemma proposal_no_abstention: "\<not> conforms abstain_schema (proposal_enc p)"
  unfolding abstain_schema_def by (subst conforms_record) (simp_all add: proposal_json_fields)


definition procedure_proposal :: "string \<Rightarrow> proposal" where
  "procedure_proposal status = default_proposal\<lparr>p_notes := [\<lparr>n_key = ''k'', n_text = ''x'', n_type = ''procedure'', n_status = status,
     n_sources = [], n_covers = []\<rparr>]\<rparr>"


end
