(* ===== verification/Cogg_Http_Facts.thy ===== *)
theory Cogg_Http_Facts
  imports Cogg_Schema
begin

text \<open>
  What the HTTP executor promises: how much of a response it keeps, which entry of a
  credential file it takes, where a credential can be sent to, what it answers and which
  errors it can end with, and what an outage leaves behind in the store.
\<close>

section \<open>The transfer\<close>

fun pieces :: "net_event list \<Rightarrow> string list" where
  "pieces [] = []"
| "pieces (Piece data width count # es) = data # pieces es"
| "pieces (Progress answer # es) = pieces es"

definition stops :: "net_event \<Rightarrow> bool" where
  "stops e \<longleftrightarrow> (\<exists>answer. e = Progress answer \<and> transfer_progress answer \<noteq> 0)"

text \<open>libcurl always passes a size of one and the number of bytes as the count.\<close>

definition bytewise :: "net_event \<Rightarrow> bool" where
  "bytewise e \<longleftrightarrow> (\<forall>data width count. e = Piece data width count \<longrightarrow> width = 1 \<and> unat count = length data)"

lemma response_limit_unat: "unat response_limit = 2097152"
  by (simp add: response_limit_def)

lemma transfer_write_bytes:
  assumes "unat count = length data" and "length response \<le> 2097152"
  shows "transfer_write response data 1 count =
    (if length response + length data \<le> 2097152 then (count, response @ data) else (0, response))"
proof -
  have "length response < 2 ^ 64" using assms(2) by simp
  then have r: "unat (word_of_nat (length response) :: 64 word) = length response" by (simp add: unat_of_nat)
  then have "word_of_nat (length response) \<le> response_limit" using assms(2) by (simp add: word_le_nat_alt response_limit_unat)
  then have "unat (response_limit - word_of_nat (length response)) = 2097152 - length response"
    by (simp add: unat_sub r response_limit_unat)
  then have "(response_limit - word_of_nat (length response) < count) = (\<not> length response + length data \<le> 2097152)"
    using assms by (auto simp: word_less_nat_alt)
  moreover have "\<not> (- 1) div 1 < count" by (simp add: word_le_nat_alt not_less)
  ultimately show ?thesis using assms(1) by (simp add: transfer_write_def)
qed

lemma transfer_response:
  assumes "\<forall>e \<in> set es. bytewise e" and "length response \<le> 2097152"
  shows "transfer response es =
    (if (\<exists>e \<in> set es. stops e) \<or> 2097152 < length response + length (concat (pieces es))
     then None else Some (response @ concat (pieces es)))"
  using assms
proof (induction response es rule: transfer.induct)
  case (1 response)
  then show ?case by simp
next
  case (2 response answer es)
  then show ?case by (auto simp: stops_def)
next
  case (3 response data width count es)
  have w: "width = 1" "unat count = length data" using "3.prems"(1) by (simp_all add: bytewise_def)
  have piece: "\<not> stops (Piece data width count)" by (simp add: stops_def)
  show ?case
  proof (cases "length response + length data \<le> 2097152")
    case True
    then have "transfer_write response data width count = (width * count, response @ data)"
      using transfer_write_bytes [OF w(2) "3.prems"(2)] w(1) by simp
    with 3 True piece show ?thesis by simp
  next
    case False
    then have "data \<noteq> []" using "3.prems"(2) by auto
    with w have "count \<noteq> 0" by auto
    moreover have "transfer_write response data width count = (0, response)"
      using transfer_write_bytes [OF w(2) "3.prems"(2)] w(1) False by simp
    ultimately show ?thesis using False w(1) by simp
  qed
qed

text \<open>
  C30. The response is kept whole or not at all: as long as libcurl hands over its pieces
  byte by byte as documented, a transfer ends with the concatenation of the pieces, unless
  the host asks to stop or the pieces come to more than two megabytes, and then it is
  aborted: the products and differences of machine words in the callback are exact.
\<close>

theorem transfer_bounded:
  assumes "\<forall>e \<in> set es. bytewise e"
  shows "transfer [] es =
    (if (\<exists>e \<in> set es. stops e) \<or> 2097152 < length (concat (pieces es)) then None else Some (concat (pieces es)))"
  using transfer_response [OF assms, of "[]"] by simp

section \<open>Credential files\<close>

lemma trim_tight:
  assumes "s \<noteq> []" and "\<not> blank (List.hd s)" and "\<not> blank (last s)"
  shows "trim s = s"
proof -
  have "dropWhile blank s = s" using assms(1,2) by (cases s) simp_all
  moreover have "dropWhile blank (rev s) = rev s"
    using assms(1,3) by (cases s rule: rev_cases) simp_all
  ultimately show ?thesis by (simp add: trim_def)
qed

lemma trim_padded:
  assumes "\<forall>c \<in> set ws. blank c" and "\<forall>c \<in> set ws'. blank c" and "trim s = s"
  shows "trim (ws @ s @ ws') = s"
proof (cases "s = []")
  case True
  then show ?thesis using assms(1,2) by (auto simp: trim_def dropWhile_append dest: set_dropWhileD)
next
  case False
  have tight: "dropWhile blank s \<noteq> []"
    using assms(3) False unfolding trim_def by (intro notI) simp
  then have "dropWhile blank (ws @ s @ ws') = dropWhile blank s @ ws'"
    using assms(1) by (auto simp: dropWhile_append dropWhile_eq_Nil_conv)
  moreover have "dropWhile blank (rev (dropWhile blank s @ ws')) = dropWhile blank (rev (dropWhile blank s))"
    using assms(2) by (simp add: dropWhile_append)
  ultimately show ?thesis using assms(3) by (simp add: trim_def)
qed

lemma find_char: "c \<notin> set xs \<Longrightarrow> find_text [c] (xs @ c # ys) = Some (length xs)"
  by (induction xs) (auto simp: starts_with_def)

text \<open>An entry of a credential file: an optional \<open>export\<close>, the value bare or quoted, and
  after a quoted one an optional comment.\<close>

definition bare_value :: "string \<Rightarrow> bool" where
  "bare_value v \<longleftrightarrow> v \<noteq> [] \<and> \<not> blank (List.hd v) \<and> \<not> blank (last v) \<and> List.hd v \<noteq> CHR 0x27 \<and> List.hd v \<noteq> CHR 0x22 \<and>
     find_text '' #'' v = None"

definition quote_char :: "char \<Rightarrow> bool" where
  "quote_char q \<longleftrightarrow> q = CHR 0x27 \<or> q = CHR 0x22"

inductive value_text :: "string \<Rightarrow> string \<Rightarrow> bool" where
  bare: "bare_value v \<Longrightarrow> value_text v v"
| quoted: "quote_char q \<Longrightarrow> q \<notin> set v \<Longrightarrow> value_text v (q # v @ [q])"
| noted: "quote_char q \<Longrightarrow> q \<notin> set v \<Longrightarrow> \<not> blank (last (CHR ''#'' # remark)) \<Longrightarrow>
    value_text v (q # v @ q # '' #'' @ remark)"

lemma value_text_tight: "value_text v t \<Longrightarrow> t \<noteq> [] \<and> \<not> blank (List.hd t) \<and> \<not> blank (last t)"
  by (erule value_text.cases) (auto simp: bare_value_def quote_char_def blank_def)

lemma unquoted_value: "value_text v t \<Longrightarrow> unquoted t = Inr v"
proof (induction rule: value_text.induct)
  case (bare v)
  then show ?case by (cases v) (auto simp: unquoted_def bare_value_def)
next
  case (quoted q v)
  then show ?case using find_char [of q v "[]"] by (auto simp: unquoted_def quote_char_def trim_def)
next
  case (noted q v remark)
  have "trim ('' #'' @ remark) = CHR ''#'' # remark"
  proof -
    have "trim (CHR ''#'' # remark) = CHR ''#'' # remark" using noted(3) by (intro trim_tight) (simp_all add: blank_def)
    from trim_padded [of "[CHR 32]" "[]", OF _ _ this] show ?thesis by (simp add: blank_def)
  qed
  then show ?case using noted find_char [of q v "'' #'' @ remark"]
    by (auto simp: unquoted_def quote_char_def starts_with_def)
qed

lemma key_char_simps: "key_char c \<Longrightarrow> \<not> blank c \<and> c \<noteq> CHR ''=''"
  by (auto simp: key_char_def blank_def less_eq_char_def)

lemma not_export:
  assumes "CHR '' '' \<notin> set name" and "CHR ''='' \<notin> set name"
  shows "\<not> starts_with ''export '' (name @ ''='' @ t)"
proof
  assume "starts_with ''export '' (name @ ''='' @ t)"
  then have e: "take 7 (name @ ''='' @ t) = ''export ''"
    unfolding starts_with_def by (simp add: numeral_eq_Suc)
  show False
  proof (cases "length name < 7")
    case True
    then have "take 7 (name @ ''='' @ t) = name @ CHR ''='' # take (6 - length name) t" by (simp add: take_Cons')
    with e have "CHR ''='' \<in> set ''export ''" by (metis in_set_conv_decomp)
    then show False by simp
  next
    case False
    with e have "take 7 name = ''export ''" by simp
    then have "CHR '' '' \<in> set (take 7 name)" by simp
    with assms(1) show False by (auto dest: in_set_takeD)
  qed
qed

lemma credential_entry:
  assumes "name \<noteq> []" and "\<forall>c \<in> set name. key_char c" and "value_text v t"
    and "\<forall>c \<in> set ws. blank c" and "\<forall>c \<in> set ws'. blank c" and "prefix = [] \<or> prefix = ''export ''"
    and "length (ws @ (prefix @ name @ ''='' @ t) @ ws') \<le> 65536"
  shows "credential_line name (ws @ (prefix @ name @ ''='' @ t) @ ws') = Inr (Some v)"
proof -
  note t = value_text_tight [OF assms(3)]
  have n: "\<not> blank (List.hd name)" "CHR ''='' \<notin> set name" "CHR '' '' \<notin> set name" "\<not> blank (last name)"
    using assms(1,2) key_char_simps by (auto simp: blank_def)
  define entry where "entry = prefix @ name @ ''='' @ t"
  have tight: "trim (name @ ''='' @ t) = name @ ''='' @ t"
    using assms(1) t n(1) by (intro trim_tight) (simp_all add: hd_append)
  have "trim entry = entry"
    using assms(6) tight t unfolding entry_def by (elim disjE) (simp_all add: trim_tight blank_def)
  from trim_padded [OF assms(4,5) this] have stripped: "trim (ws @ entry @ ws') = entry" .
  have line: "(if starts_with ''export '' entry then trim (drop 7 entry) else entry) = name @ ''='' @ t"
    using assms(6) tight not_export [OF n(3,2), of t] unfolding entry_def
    by (elim disjE) (simp_all add: starts_with_def)
  have "trim name = name" and "trim t = t" using assms(1) n t by (simp_all add: trim_tight)
  then have "credential_line name (ws @ entry @ ws') = require (length (ws @ entry @ ws') \<le> 65536) ''credential line too large'' (Inr (Some v))"
    using unquoted_value [OF assms(3)] find_char [OF n(2), of t]
    unfolding credential_line_def stripped Let_def line by (simp add: require_def)
  then show ?thesis using assms(7) unfolding entry_def by (simp only: require_True)
qed

lemma lines_of_line: "CHR 0x0A \<notin> set l \<Longrightarrow> lines_of (l @ CHR 0x0A # s) = l # lines_of s"
proof -
  assume l: "CHR 0x0A \<notin> set l"
  then have "takeWhile (\<lambda>d. d \<noteq> CHR 0x0A) (l @ CHR 0x0A # s) = l" by (induction l) auto
  then show ?thesis using l by (cases l) (simp_all add: Let_def)
qed

lemma lines_of_lines:
  "\<forall>l \<in> set ls. CHR 0x0A \<notin> set l \<Longrightarrow> lines_of (concat (map (\<lambda>l. l @ [CHR 0x0A]) ls)) = ls"
  by (induction ls) (simp_all add: lines_of_line del: lines_of.simps(2))

lemma credential_lines_skip:
  "\<forall>l \<in> set ls. credential_line name l = Inr None \<Longrightarrow> credential_lines name (ls @ rest) = credential_lines name rest"
  by (induction ls) simp_all

text \<open>
  A credential file gives the key it holds: when the environment has none and the first
  entry for the configured name, exported or not, padded with blanks, bare, quoted or
  followed by a comment, stands for \<open>v\<close>, \<open>credential\<close> returns exactly \<open>v\<close>, whatever comes
  after it.
\<close>

lemma credential_found:
  assumes "jat settings ''api_key_env'' = Inr (JStr name)" and "jat settings ''credential_file'' = Inr (JStr path)"
    and "he_getenv env name = None"
    and "he_file env path = Some (concat (map (\<lambda>l. l @ [CHR 0x0A]) (before @ (ws @ (prefix @ name @ ''='' @ t) @ ws') # rest)))"
    and "\<forall>l \<in> set (before @ (ws @ (prefix @ name @ ''='' @ t) @ ws') # rest). CHR 0x0A \<notin> set l"
    and "\<forall>l \<in> set before. credential_line name l = Inr None"
    and "name \<noteq> []" and "\<forall>c \<in> set name. key_char c" and "value_text v t" and "safe_string v 8192"
    and "\<forall>c \<in> set ws. blank c" and "\<forall>c \<in> set ws'. blank c" and "prefix = [] \<or> prefix = ''export ''"
    and "length (ws @ (prefix @ name @ ''='' @ t) @ ws') \<le> 65536"
  shows "credential env settings = Inr v"
proof -
  define entry where "entry = ws @ (prefix @ name @ ''='' @ t) @ ws'"
  have line: "credential_line name entry = Inr (Some v)"
    unfolding entry_def by (rule credential_entry [OF assms(7-9,11-14)])
  have "he_file env path = Some (concat (map (\<lambda>l. l @ [CHR 0x0A]) (before @ entry # rest)))"
    using assms(4) unfolding entry_def .
  moreover have "lines_of (concat (map (\<lambda>l. l @ [CHR 0x0A]) (before @ entry # rest))) = before @ entry # rest"
    using assms(5) unfolding entry_def by (rule lines_of_lines)
  moreover have "credential_lines name (before @ entry # rest) = Inr v"
    by (simp add: credential_lines_skip [OF assms(6)] line)
  moreover have "jvalue_string settings ''api_key_env'' [] = Inr name"
    using assms(1) by (cases settings) (auto split: option.splits)
  ultimately show ?thesis
    using assms(2,3,7,10) jat_Inr_contains [OF assms(2)] by (simp add: credential_def del: map_append concat_append list.map)
qed

theorem credential_found_witness:
  "credential \<lparr>he_parse = (\<lambda>_. None), he_ordered = (\<lambda>_. []), he_getenv = (\<lambda>_. None),
      he_file = (\<lambda>_. Some (''# keys'' @ [CHR 0x0A] @ ''export KEY='' @ [CHR 0x22] @ ''abc'' @ [CHR 0x22] @ '' # mine'' @ [CHR 0x0A])),
      he_url = (\<lambda>_. None), he_adapter = [], he_send = (\<lambda>_. \<lparr>nw_events = [], nw_code = Curl_Other, nw_status = 0\<rparr>),
      he_base64 = (\<lambda>_. [])\<rparr>
     (JObj [(''api_key_env'', JStr ''KEY''), (''credential_file'', JStr ''f'')]) = Inr ''abc''"
proof (rule credential_found [where before = "[''# keys'']" and ws = "[]" and ws' = "[]" and prefix = "''export ''" and rest = "[]"
      and t = "CHR 0x22 # ''abc'' @ CHR 0x22 # '' #'' @ '' mine''" and name = "''KEY''" and path = "''f''"])
  show "value_text ''abc'' (CHR 0x22 # ''abc'' @ CHR 0x22 # '' #'' @ '' mine'')"
    by (rule value_text.noted) (simp_all add: quote_char_def blank_def)
  show "\<forall>l \<in> set [''# keys'']. credential_line ''KEY'' l = Inr None"
    by (simp add: credential_line_def trim_def blank_def starts_with_def Let_def)
qed (simp_all add: key_char_def less_eq_char_def safe_string_def)

section \<open>Where a credential can be sent\<close>

lemma http_endpoint_Inr:
  assumes "http_endpoint env settings = Inr (base, scheme, remote)"
  obtains parts where "jat settings ''base_url'' = Inr (JStr base)" and "he_url env base = Some parts"
    and "scheme = url_text parts Url_Scheme" and "url_text parts Url_User = []" and "url_text parts Url_Password = []"
    and "\<not> remote \<longrightarrow> url_text parts Url_Host \<in> {''127.0.0.1'', ''[::1]''}" and "http_keys settings scheme = Inr ()"
proof -
  from assms obtain parts where p: "bindR (jat settings ''base_url'') get_string = Inr base" "he_url env base = Some parts"
    "url_text parts Url_User = []" "url_text parts Url_Password = []"
    "http_remote settings (url_text parts Url_Host) = Inr remote" "http_keys settings (url_text parts Url_Scheme) = Inr ()"
    "scheme = url_text parts Url_Scheme"
    by (auto simp: http_endpoint_def res_simps split: option.splits)
  from p(1) have "jat settings ''base_url'' = Inr (JStr base)"
    by (auto simp: bindR_Inr elim: get_string.elims)
  moreover have "\<not> remote \<longrightarrow> url_text parts Url_Host \<in> {''127.0.0.1'', ''[::1]''}"
    using p(5) by (auto simp: http_remote_def Let_def res_simps split: if_splits)
  ultimately show ?thesis using that p by blast
qed

lemma new_http_Inr:
  assumes "new_http X env settings = Inr h"
  obtains base scheme remote where "http_endpoint env settings = Inr (base, scheme, remote)" and "hi_settings h = settings"
    and "hi_remote h = remote" and "hi_url h = strip_slashes base @ (if hi_ollama h then ''/api/chat'' else ''/chat/completions'')"
    and "hi_identity h = http_identity X env settings"
  using assms unfolding new_http_def by (auto simp: res_simps Let_def split: prod.splits)

lemma new_http_blind:
  "new_http X (env\<lparr>he_getenv := g, he_file := f, he_send := w\<rparr>) settings = new_http X env settings"
proof -
  have u: "he_url (env\<lparr>he_getenv := g, he_file := f, he_send := w\<rparr>) = he_url env"
    "he_adapter (env\<lparr>he_getenv := g, he_file := f, he_send := w\<rparr>) = he_adapter env" by simp_all
  have e: "http_endpoint (env\<lparr>he_getenv := g, he_file := f, he_send := w\<rparr>) settings = http_endpoint env settings"
    unfolding http_endpoint_def u(1) by (rule refl)
  have i: "http_identity X (env\<lparr>he_getenv := g, he_file := f, he_send := w\<rparr>) settings = http_identity X env settings"
    unfolding http_identity_def u(2) by (rule refl)
  show ?thesis unfolding new_http_def e i by (rule refl)
qed

lemma credential_needs_https:
  assumes "http_keys settings scheme = Inr ()" and "credential env settings = Inr key" and "key \<noteq> []"
  shows "scheme = ''https''"
proof -
  from assms(2,3) have "jcontains settings ''api_key_env''"
    by (cases settings) (auto simp: credential_def res_simps obj_has_def split: option.splits if_splits)
  with assms(1) show ?thesis by (auto simp: http_keys_def res_simps)
qed

text \<open>
  C31. A credential is confined to the configured endpoint: for every executor that passes
  the checks of its configuration, whatever it is asked, the one request goes to the
  configured URL, which names no user and no password, and follows no redirect; the
  \<open>Authorization\<close> header is there only if the scheme is \<open>https\<close>, the proxy of the
  environment is used only for a remote executor, and only a numeric loopback address counts
  as local; and neither the executor nor its identity depends on the credentials.
\<close>

theorem http_confined:
  assumes "new_http X env settings = Inr h" and "credential env' settings = Inr key"
  shows "\<exists>base parts. jat settings ''base_url'' = Inr (JStr base) \<and> he_url env base = Some parts \<and>
    rq_url (make_request h body key i timeout observation) =
      strip_slashes base @ (if hi_ollama h then ''/api/chat'' else ''/chat/completions'') \<and>
    rq_follow (make_request h body key i timeout observation) = False \<and>
    url_text parts Url_User = [] \<and> url_text parts Url_Password = [] \<and>
    (\<not> (url_text parts Url_Scheme = ''https'') \<longrightarrow>
       length (rq_headers (make_request h body key i timeout observation)) = 2) \<and>
    (rq_proxy (make_request h body key i timeout observation) = None \<longleftrightarrow> hi_remote h) \<and>
    (url_text parts Url_Host \<notin> {''127.0.0.1'', ''[::1]''} \<longrightarrow> hi_remote h) \<and>
    new_http X (env\<lparr>he_getenv := g, he_file := f, he_send := w\<rparr>) settings = Inr h"
proof -
  from assms(1) obtain base scheme remote where e: "http_endpoint env settings = Inr (base, scheme, remote)"
    and h: "hi_remote h = remote" "hi_url h = strip_slashes base @ (if hi_ollama h then ''/api/chat'' else ''/chat/completions'')"
    by (rule new_http_Inr)
  from e obtain parts where p: "jat settings ''base_url'' = Inr (JStr base)" "he_url env base = Some parts"
    "scheme = url_text parts Url_Scheme" "url_text parts Url_User = []" "url_text parts Url_Password = []"
    "\<not> remote \<longrightarrow> url_text parts Url_Host \<in> {''127.0.0.1'', ''[::1]''}" "http_keys settings scheme = Inr ()"
    by (rule http_endpoint_Inr)
  have "key = []" if "url_text parts Url_Scheme \<noteq> ''https''"
    using credential_needs_https [OF p(7) assms(2)] p(3) that by (cases "key = []") simp_all
  with p h assms(1) show ?thesis
    by (intro exI [of _ base] exI [of _ parts]) (auto simp: make_request_def new_http_blind)
qed

section \<open>What an inference can end with\<close>

lemma parse_outcome_ok: "parse_outcome X j = Inr v \<Longrightarrow> outcome_ok X v"
proof -
  assume p: "parse_outcome X j = Inr v"
  show "outcome_ok X v"
  proof (cases v)
    case (Participates q)
    with p have "parse_proposal X j = Inr q"
      by (auto simp: parse_outcome_def res_simps split: if_splits)
    with Participates show ?thesis by (simp add: parsed_proposal_ok)
  next
    case (Abstains a)
    with p obtain d where "a_reason a \<in> set reasons" "bounded d 512 True" "get_string d = Inr (a_detail a)"
      by (auto simp: parse_outcome_def res_simps split: if_splits)
    with Abstains show ?thesis
      by (cases d) (auto simp: abstention_ok_def bounded_def)
  qed
qed

definition http_failures :: "error set" where
  "http_failures = {Error ''HTTP inference exceeds limits'', Error ''invalid HTTP request limits'',
     BackendFailure Credentials ''credentials unavailable'', BackendFailure Backend ''HTTP cancelled'',
     BackendFailure Timeout ''HTTP transfer failed'', BackendFailure Transport ''HTTP transfer failed'',
     BackendFailure Transport ''HTTP status rejected'',
     BackendFailure Invalid_Output ''invalid or incomplete provider proposal'',
     BackendFailure Backend ''provider response processing failed''}"

lemma provider_guard_Inr [res_simps]: "(provider_guard msg r = Inr v) = (r = Inr v)"
  by (simp add: provider_guard_def split: sum.splits)

lemma provider_guard_Inl:
  "provider_guard msg r = Inl e \<Longrightarrow> e = BackendFailure Invalid_Output msg \<or> e = BackendFailure Backend ''provider response processing failed''"
  by (auto simp: provider_guard_def split: sum.splits if_splits)

definition exchanged :: "ext \<Rightarrow> http_env \<Rightarrow> http \<Rightarrow> json \<Rightarrow> json \<Rightarrow> string \<Rightarrow> millis \<Rightarrow> bool \<Rightarrow> json \<Rightarrow> json \<Rightarrow> bool" where
  "exchanged X env h messages schema i timeout observation v receipt \<longleftrightarrow>
     (\<exists>key raw. credential env (hi_settings h) = Inr key \<and> (key = [] \<or> \<not> contains_text key raw) \<and>
        (let nw = he_send env (make_request h (x_dump X (request_body h messages schema)) key i timeout observation) in
         transfer [] (nw_events nw) = Some raw \<and> nw_code nw = Curl_Ok \<and> 200 \<le> nw_status nw \<and> nw_status nw < 300) \<and>
        read_response X env h key raw = Inr (v, receipt))"

lemma read_response_silent: "read_response X env h key raw = Inr r \<Longrightarrow> key = [] \<or> \<not> contains_text key raw"
  unfolding read_response_def by (simp only: require_Inr)

lemma exchange_Inr:
  "exchange X env h messages schema i timeout cancelled observation = Inr (v, receipt) \<Longrightarrow>
     exchanged X env h messages schema i timeout observation v receipt"
  unfolding exchange_def exchanged_def
  by (auto simp: res_simps Let_def curl_perform_def split: sum.splits option.splits prod.splits dest: read_response_silent)

lemma exchange_Inl:
  assumes "exchange X env h messages schema i timeout cancelled observation = Inl e"
  shows "e \<in> http_failures"
proof (cases "0 < timeout \<and> timeout \<le> 3600000 \<and> safe_string i 200")
  case False
  with assms show ?thesis by (auto simp: exchange_def http_failures_def)
next
  case True
  show ?thesis
  proof (cases "credential env (hi_settings h)")
    case (Inl e')
    with assms True show ?thesis by (simp add: exchange_def http_failures_def)
  next
    case (Inr key)
    define nw where "nw = he_send env (make_request h (x_dump X (request_body h messages schema)) key i timeout observation)"
    obtain code raw where c: "curl_perform nw = (code, raw)" by fastforce
    have "e = BackendFailure Backend ''HTTP cancelled'' \<or> raise_unless (code = Curl_Ok)
           (BackendFailure (if code = Curl_Timedout then Timeout else Transport) ''HTTP transfer failed'') (
         raise_unless (200 \<le> nw_status nw \<and> nw_status nw < 300) (BackendFailure Transport ''HTTP status rejected'') (
         provider_guard ''invalid or incomplete provider proposal'' (read_response X env h key raw))) = Inl e"
      using assms True Inr by (cases cancelled) (simp_all add: exchange_def Let_def c flip: nw_def)
    then show ?thesis
    proof
      assume "e = BackendFailure Backend ''HTTP cancelled''"
      then show ?thesis by (simp add: http_failures_def)
    next
      assume r: "raise_unless (code = Curl_Ok)
           (BackendFailure (if code = Curl_Timedout then Timeout else Transport) ''HTTP transfer failed'') (
         raise_unless (200 \<le> nw_status nw \<and> nw_status nw < 300) (BackendFailure Transport ''HTTP status rejected'') (
         provider_guard ''invalid or incomplete provider proposal'' (read_response X env h key raw))) = Inl e"
      show ?thesis
      proof (cases "code = Curl_Ok \<and> 200 \<le> nw_status nw \<and> nw_status nw < 300")
        case True
        with r have "provider_guard ''invalid or incomplete provider proposal'' (read_response X env h key raw) = Inl e" by simp
        from provider_guard_Inl [OF this] show ?thesis by (elim disjE) (simp_all add: http_failures_def)
      next
        case False
        with r show ?thesis
          by (cases "code = Curl_Ok"; cases "code = Curl_Timedout") (auto simp: http_failures_def)
      qed
    qed
  qed
qed

text \<open>
  What an inference over HTTP can end with: either a valid outcome, and then the prompt
  fitted its limit, one whole exchange of at most the response limit took place with a
  status of the 200s and the response did not contain the credential; or one of nine fixed
  errors, none of which carries a word of what the provider, the network or the credential
  file said.
\<close>

lemma http_answers:
  "case fst (http_respond X env h a timeout cancelled) of
     Inr v \<Rightarrow> outcome_ok X v \<and> http_fits X env h (att_present a) \<and>
       (\<exists>j receipt. exchanged X env h (http_messages env (att_present a)) outcome_schema (att_id a) timeout False j receipt)
   | Inl e \<Rightarrow> e \<in> http_failures"
proof (cases "http_fits X env h (att_present a)")
  case False
  then show ?thesis by (simp add: http_respond_def http_failures_def)
next
  case fits: True
  show ?thesis
  proof (cases "exchange X env h (http_messages env (att_present a)) outcome_schema (att_id a) timeout cancelled False")
    case (Inl e)
    then show ?thesis using fits exchange_Inl [OF Inl] by (simp add: http_respond_def complete_def)
  next
    case (Inr vr)
    obtain j receipt where vr: "vr = (j, receipt)" by fastforce
    define parsed where "parsed = bindR (http_normalize j) (\<lambda>(v', _). parse_outcome X v')"
    have r: "fst (http_respond X env h a timeout cancelled) =
        provider_guard ''invalid or incomplete provider proposal'' parsed"
      using fits Inr by (simp add: http_respond_def complete_def vr parsed_def)
    have "outcome_ok X v" if "parsed = Inr v" for v
      using that parse_outcome_ok by (auto simp: parsed_def bindR_Inr)
    moreover have "e \<in> http_failures" if "provider_guard ''invalid or incomplete provider proposal'' parsed = Inl e" for e
      using provider_guard_Inl [OF that] by (elim disjE) (simp_all add: http_failures_def)
    ultimately show ?thesis
      using fits exchange_Inr [OF Inr [unfolded vr]] by (auto simp: r provider_guard_Inr split: sum.splits)
  qed
qed

text \<open>What the network does when it fails: no transfer succeeds, or none with a status of success.\<close>

definition network_down :: "http_env \<Rightarrow> bool" where
  "network_down env \<longleftrightarrow> (\<forall>rq. fst (curl_perform (he_send env rq)) \<noteq> Curl_Ok \<or>
     \<not> (200 \<le> nw_status (he_send env rq) \<and> nw_status (he_send env rq) < 300))"

lemma exchange_down:
  assumes "network_down env"
  shows "\<exists>e. exchange X env h messages schema i timeout cancelled observation = Inl e \<and> (\<forall>m. e \<noteq> BackendFailure Invalid_Output m)"
proof (cases "exchange X env h messages schema i timeout cancelled observation")
  case (Inr vr)
  obtain v receipt where "vr = (v, receipt)" by fastforce
  with exchange_Inr Inr have "exchanged X env h messages schema i timeout observation v receipt" by blast
  then show ?thesis
    using assms unfolding exchanged_def network_down_def Let_def curl_perform_def by fastforce
next
  case (Inl e)
  have "e \<noteq> BackendFailure Invalid_Output m" for m
    using Inl assms unfolding exchange_def network_down_def Let_def
    by (auto simp: require_def raise_unless_def split: sum.splits prod.splits if_splits)
  with Inl show ?thesis by blast
qed

text \<open>
  A network outage costs the subject nothing: if no transfer succeeds, executing an
  attempt with an HTTP executor settles it without changing any subject, occasion, commit,
  memory or counted failure, so that the occasion stays and can be served again.
\<close>

lemma http_outage:
  assumes "network_down env"
    and "execute_attempt X guard rd (http_backend X env h t timeout cancelled) st t execution timeout None True rethrow = (r, st')"
  shows "st_subjects st' = st_subjects st \<and> st_occasions st' = st_occasions st \<and> st_commits st' = st_commits st \<and>
    st_memory st' = st_memory st \<and> st_failures st' = st_failures st"
proof -
  obtain e where e: "exchange X env h (http_messages env (att_present t)) outcome_schema (att_id t) timeout cancelled False = Inl e"
    and ne: "\<forall>m. e \<noteq> BackendFailure Invalid_Output m"
    using exchange_down [OF assms(1)] by blast
  have "\<exists>e. respond X (http_backend X env h t timeout cancelled) t timeout = Inl e \<and> (\<forall>m. e \<noteq> BackendFailure Invalid_Output m)"
    using e ne by (simp add: respond_def http_backend_def http_respond_def complete_def)
  then show ?thesis using execute_transient [OF assms(2)] unfolding kept_def by blast
qed

end
