(* ===== verification/Cogg_Perception.thy ===== *)
theory Cogg_Perception
  imports Cogg_Http_Facts Cogg_Queries
begin

text \<open>
  Images as evidence, \<^verbatim>\<open>src/perception.cpp\<close>: importing an image into the
  content-addressed directory, preparing a frozen observation for an admission, and the
  executor that insists on the observation being remembered. The results of the system
  calls are arguments; the directory is a map from paths to the bytes of the files.
\<close>

type_synonym bytes = "8 word list"
type_synonym disk = "string \<rightharpoonup> bytes"

section \<open>Descriptors\<close>

definition mime :: "bytes \<Rightarrow> string res" where
  "mime b =
     (if length b \<ge> 24 \<and> take 8 b = [137, 80, 78, 71, 13, 10, 26, 10] then Inr ''image/png''
      else if length b \<ge> 4 \<and> b ! 0 = 255 \<and> b ! 1 = 216 \<and> b ! 2 = 255 \<and> b ! (length b - 2) = 255 \<and> last b = 217
      then Inr ''image/jpeg''
      else Inl (Error ''only PNG and JPEG image files are supported''))"

definition text_of_bytes :: "bytes \<Rightarrow> string" where
  "text_of_bytes b = map (\<lambda>w. char_of (unat w)) b"

definition bytes_of_text :: "string \<Rightarrow> bytes" where
  "bytes_of_text s = map (\<lambda>c. word_of_nat (of_char c)) s"

definition hash_bytes :: "ext \<Rightarrow> bytes \<Rightarrow> string" where
  "hash_bytes X b = hex (x_sha256 X (text_of_bytes b))"

definition image_descriptor :: "json \<Rightarrow> unit res" where
  "image_descriptor j =
     require (is_object j \<and> jsize j = 4) ''invalid image descriptor'' (
     bindR (jvalue_string j ''schema'' []) (\<lambda>schema.
     require (schema = ''cogg:image/v1'' \<and> jcontains j ''sha256'' \<and> is_string (field j ''sha256'') \<and>
         digest_string (text_of (field j ''sha256'')) \<and>
         (case jat j ''bytes'' of Inr (JInt n) \<Rightarrow> 0 < n \<and> n \<le> int max_image_bytes | _ \<Rightarrow> False)) ''invalid image descriptor'' (
     bindR (jvalue_string j ''mime'' []) (\<lambda>m.
     require (image_mime m) ''invalid image descriptor'' (Inr ())))))"

section \<open>Files\<close>

text \<open>What \<open>read\<close> returns: some bytes, none at the end of the file, or an error, which may
  be an interruption. After the listed results the file is at its end.\<close>

datatype read_result = Got bytes | Interrupted | Read_Failed

record file_view =
  fv_opened :: bool
  fv_regular :: bool
  fv_size :: int
  fv_reads :: "read_result list"

text \<open>The loop that fills the buffer, and what is left of the results.\<close>

fun read_loop :: "nat \<Rightarrow> bytes \<Rightarrow> read_result list \<Rightarrow> (bytes \<times> read_result list) res" where
  "read_loop n got [] = (if length got < n then Inl (Error ''file truncated during read'') else Inr (got, []))"
| "read_loop n got (r # rs) =
     (if length got < n
      then case r of
          Interrupted \<Rightarrow> read_loop n got rs
        | Got b \<Rightarrow> require (b \<noteq> []) ''file truncated during read'' (read_loop n (got @ take (n - length got) b) rs)
        | Read_Failed \<Rightarrow> Inl (Error ''file truncated during read'')
      else Inr (got, r # rs))"

definition read_file :: "nat \<Rightarrow> file_view \<Rightarrow> bytes res" where
  "read_file limit f =
     require (fv_opened f) ''cannot open image/observation file'' (
     require (fv_regular f \<and> 0 < fv_size f \<and> fv_size f \<le> int limit) ''image/observation must be a nonempty bounded regular file'' (
     bindR (read_loop (nat (fv_size f)) [] (fv_reads f)) (\<lambda>(b, rest).
     require (case rest of [] \<Rightarrow> True | r # _ \<Rightarrow> r = Got []) ''file changed during read'' (Inr b))))"

text \<open>The private directory of the media.\<close>

record directory_calls =
  dc_created :: bool
  dc_exists :: bool
  dc_private :: bool
  dc_synced :: bool

definition media_directory :: "directory_calls \<Rightarrow> unit res" where
  "media_directory d =
     require (dc_created d \<or> dc_exists d) ''cannot create media directory'' (
     require (dc_private d) ''media directory must be owned, private, and not a symlink'' (
     require (\<not> dc_created d \<or> dc_synced d) ''media parent directory sync failed'' (Inr ())))"

text \<open>Staging, renaming and syncing; \<open>pc_writes\<close> are the results of \<open>write\<close>: bytes taken,
  \<open>Some 0\<close> or less an error, \<open>None\<close> an interruption.\<close>

record publish_calls =
  pc_staged :: bool
  pc_writes :: "int option list"
  pc_synced :: bool
  pc_renamed :: bool
  pc_parent :: bool

fun write_loop :: "nat \<Rightarrow> int option list \<Rightarrow> unit res" where
  "write_loop 0 rs = Inr ()"
| "write_loop (Suc n) [] = Inl (Error ''media write failed'')"
| "write_loop (Suc n) (None # rs) = write_loop (Suc n) rs"
| "write_loop (Suc n) (Some k # rs) =
     require (0 < k) ''media write failed'' (write_loop (Suc n - nat k) rs)"

definition publish :: "publish_calls \<Rightarrow> string \<Rightarrow> bytes \<Rightarrow> disk \<Rightarrow> unit res \<times> disk" where
  "publish c path b dk =
     (case require (pc_staged c) ''cannot stage media file'' (
           bindR (write_loop (length b) (pc_writes c)) (\<lambda>_.
           require (pc_synced c) ''media sync failed'' (
           require (pc_renamed c) ''media publication failed'' (Inr ())))) of
        Inl e \<Rightarrow> (Inl e, dk)
      | Inr _ \<Rightarrow> (require (pc_parent c) ''media directory sync failed'' (Inr ()), dk(path \<mapsto> b)))"

definition image_path :: "string \<Rightarrow> string \<Rightarrow> string" where
  "image_path dir h = dir @ ''/'' @ h @ ''.image''"

definition observation_path :: "string \<Rightarrow> string \<Rightarrow> string" where
  "observation_path dir h = dir @ ''/'' @ h @ ''.observation''"

definition import_image ::
    "ext \<Rightarrow> file_view \<Rightarrow> directory_calls \<Rightarrow> publish_calls \<Rightarrow> string \<Rightarrow> disk \<Rightarrow> json res \<times> disk" where
  "import_image X f d c dir dk =
     (case bindR (read_file max_image_bytes f) (\<lambda>b. bindR (mime b) (\<lambda>m. bindR (media_directory d) (\<lambda>_. Inr (b, m)))) of
        Inl e \<Rightarrow> (Inl e, dk)
      | Inr (b, m) \<Rightarrow>
          let h = hash_bytes X b; (r, dk') = publish c (image_path dir h) b dk in
          (bindR r (\<lambda>_. Inr (mk_obj [(''schema'', JStr ''cogg:image/v1''), (''sha256'', JStr h), (''mime'', JStr m),
             (''bytes'', JInt (int (length b)))])), dk'))"

definition image_bytes :: "ext \<Rightarrow> (string \<Rightarrow> file_view) \<Rightarrow> string \<Rightarrow> json \<Rightarrow> bytes res" where
  "image_bytes X files dir img =
     bindR (image_descriptor img) (\<lambda>_.
     bindR (read_file max_image_bytes (files (image_path dir (text_of (field img ''sha256''))))) (\<lambda>b.
     require (JInt (int (length b)) = field img ''bytes'' \<and> hash_bytes X b = text_of (field img ''sha256''))
       ''image content changed or missing'' (
     bindR (mime b) (\<lambda>m.
     require (m = text_of (field img ''mime'')) ''image content changed or missing'' (Inr b)))))"

section \<open>A frozen observation\<close>

definition image_binding :: "decision \<Rightarrow> pending \<Rightarrow> json \<Rightarrow> string \<Rightarrow> json" where
  "image_binding d q img executor = mk_obj
     [(''head'', JStr (sc_head d)), (''occasion'', case pe_id q of None \<Rightarrow> JNull | Some i \<Rightarrow> JStr i), (''image'', img),
      (''executor'', JStr executor)]"

text \<open>The packet made from a fresh description.\<close>

definition image_note :: "json \<Rightarrow> string \<Rightarrow> json" where
  "image_note img description =
     (let h = text_of (field img ''sha256'') in
      mk_obj [(''key'', JStr (''image.'' @ h)),
        (''text'', JStr (''Image SHA256 '' @ h @ ''. Vision observation: '' @ description))])"

definition image_packet :: "ext \<Rightarrow> json \<Rightarrow> string \<Rightarrow> json \<Rightarrow> string \<Rightarrow> json" where
  "image_packet X img executor telemetry description =
     make_input X ''observation'' ''cogg:vision/v1'' (mk_obj
       [(''schema'', JStr ''cogg:visual-observation/v1''), (''image'', img), (''executor'', JStr executor),
        (''provider'', telemetry), (''description'', JStr description), (''memory_note'', image_note img description)]) []"

text \<open>A receipt that is there already.\<close>

definition saved_packet :: "ext \<Rightarrow> http_env \<Rightarrow> file_view \<Rightarrow> json \<Rightarrow> json \<Rightarrow> string \<Rightarrow> json res" where
  "saved_packet X env f binding img executor =
     bindR (read_file 32768 f) (\<lambda>b.
     bindR (parse_json env (text_of_bytes b)) (\<lambda>saved.
     require (is_object saved \<and> jsize saved = 2) ''observation binding mismatch'' (
     bindR (jat saved ''binding'') (\<lambda>bound.
     require (bound = binding) ''observation binding mismatch'' (
     bindR (jat saved ''input'') (\<lambda>packet.
     bindR (validate_inputs X (JArr [packet])) (\<lambda>_.
     bindR (bindR (jat packet ''body'') (\<lambda>body. jat body ''content'')) (\<lambda>content.
     bindR (jat content ''image'') (\<lambda>i.
     require (i = img) ''observation identity mismatch'' (
     bindR (jat content ''executor'') (\<lambda>e.
     require (e = JStr executor) ''observation identity mismatch'' (Inr packet))))))))))))"

text \<open>One request to the vision executor and the packet it gives.\<close>

definition fresh_packet ::
    "ext \<Rightarrow> http_env \<Rightarrow> http \<Rightarrow> (string \<Rightarrow> file_view) \<Rightarrow> string \<Rightarrow> json \<Rightarrow> string \<Rightarrow> millis \<Rightarrow> bool \<Rightarrow> json res" where
  "fresh_packet X env h files dir img key timeout cancelled =
     bindR (image_bytes X files dir img) (\<lambda>b.
     let (r, receipt) = observe_image X env h b (text_of (field img ''mime'')) key timeout cancelled in
     bindR r (\<lambda>observed.
     bindR (jvalue_string observed ''kind'' []) (\<lambda>kind.
     if kind = ''abstain''
     then bindR (bindR (jat observed ''reason'') get_string) (\<lambda>reason. Inl (BackendFailure Backend (''vision abstained: '' @ reason)))
     else bindR (bindR (jat observed ''description'') get_string) (\<lambda>description.
       let packet = image_packet X img (hi_identity h) receipt description in
       bindR (validate_inputs X (JArr [packet])) (\<lambda>_. Inr packet)))))"

datatype receipt_state = Receipt_There | Receipt_Missing | Receipt_Unknown

record vision_calls =
  vc_files :: "string \<Rightarrow> file_view"
  vc_directory :: directory_calls
  vc_receipt :: receipt_state
  vc_publish :: publish_calls
  vc_cancelled :: bool
  vc_cancelled_after :: bool

definition image_occasion :: "decision \<Rightarrow> (pending \<times> json) res" where
  "image_occasion d =
     (case sc_occasion d of None \<Rightarrow> Inl (Error ''image requires a queued external occasion'')
      | Some q \<Rightarrow>
          require (pe_id q \<noteq> None \<and> pe_kind q = ''external'') ''image requires a queued external occasion'' (
          bindR (jat (pe_payload q) ''image'') (\<lambda>img. Inr (q, img))))"

definition image_receipt ::
    "ext \<Rightarrow> http_env \<Rightarrow> http \<Rightarrow> vision_calls \<Rightarrow> string \<Rightarrow> json \<Rightarrow> json \<Rightarrow> millis \<Rightarrow> disk \<Rightarrow> json res \<times> disk" where
  "image_receipt X env h vc dir binding img timeout dk =
     (let key = hash X binding; path = observation_path dir key in
      case vc_receipt vc of
        Receipt_There \<Rightarrow> (saved_packet X env (vc_files vc path) binding img (hi_identity h), dk)
      | Receipt_Unknown \<Rightarrow> (Inl (Error ''cannot inspect observation receipt''), dk)
      | Receipt_Missing \<Rightarrow>
          (case fresh_packet X env h (vc_files vc) dir img key timeout (vc_cancelled vc) of
             Inl e \<Rightarrow> (Inl e, dk)
           | Inr packet \<Rightarrow>
               let (r, dk') = publish (vc_publish vc) path
                     (bytes_of_text (x_dump X (mk_obj [(''binding'', binding), (''input'', packet)]))) dk
               in (bindR r (\<lambda>_. Inr packet), dk')))"

text \<open>\<open>between\<close> is what other connections do to the store while the observation is prepared.\<close>

definition image_context ::
    "ext \<Rightarrow> http_env \<Rightarrow> http \<Rightarrow> vision_calls \<Rightarrow> (store \<Rightarrow> store) \<Rightarrow> store \<Rightarrow> string \<Rightarrow> string \<Rightarrow> millis \<Rightarrow> millis \<Rightarrow> disk \<Rightarrow>
     json res \<times> disk \<times> store" where
  "image_context X env h vc between st subject dir now timeout dk =
     (case bindR (schedule_at X st subject now) (\<lambda>d.
           bindR (image_occasion d) (\<lambda>(q, img).
           bindR (image_descriptor img) (\<lambda>_.
           bindR (media_directory (vc_directory vc)) (\<lambda>_. Inr (d, q, img))))) of
        Inl e \<Rightarrow> (Inl e, dk, st)
      | Inr (d, q, img) \<Rightarrow>
          let binding = image_binding d q img (hi_identity h);
              (r, dk') = image_receipt X env h vc dir binding img timeout dk;
              st' = between st in
          (bindR r (\<lambda>packet.
           raise_unless (\<not> vc_cancelled_after vc) (BackendFailure Backend ''image preparation cancelled'') (
           bindR (schedule_at X st' subject now) (\<lambda>after.
           raise_unless (sc_head after = sc_head d \<and>
               (case sc_occasion after of None \<Rightarrow> False | Some q' \<Rightarrow> pe_id q' = pe_id q))
             (Conflict ''image context became stale during observation'') (
           Inr (mk_obj [(''head'', JStr (sc_head d)), (''occasion'', field binding ''occasion''), (''inputs'', JArr [packet])]))))),
           dk', st'))"

section \<open>Remembering the observation\<close>

fun note_kept :: "json \<Rightarrow> memory_note list \<Rightarrow> bool res" where
  "note_kept note [] = Inr False"
| "note_kept note (n # ns) =
     bindR (bindR (jat note ''key'') get_string) (\<lambda>key.
     bindR (if n_key n = key then bindR (jat note ''text'') get_string else Inr []) (\<lambda>txt.
     bindR (note_kept note ns) (\<lambda>found.
     Inr (found \<or> (n_key n = key \<and> n_text n = txt \<and> n_type n = ''episode'' \<and> n_status n = ''active'' \<and>
       n_sources n = [] \<and> n_covers n = [])))))"

definition check_visual :: "proposal \<Rightarrow> json \<Rightarrow> unit res" where
  "check_visual p packet =
     bindR (bindR (jat packet ''body'') (\<lambda>body. jat body ''content'')) (\<lambda>content.
     if \<not> is_object content then Inr ()
     else bindR (jvalue_string content ''schema'' []) (\<lambda>schema.
     if schema \<noteq> ''cogg:visual-observation/v1'' then Inr ()
     else raise_unless (p_kind p = ''speech'' \<and> p_text p \<noteq> [])
         (BackendFailure Invalid_Output ''describe-and-remember image request requires a visible answer or abstention'') (
       bindR (jat content ''memory_note'') (\<lambda>note.
       bindR (note_kept note (p_notes p)) (\<lambda>found.
       raise_unless found (BackendFailure Invalid_Output ''image answer omitted the requested observation memory'') (Inr ()))))))"

fun check_visuals :: "proposal \<Rightarrow> json list \<Rightarrow> unit res" where
  "check_visuals p [] = Inr ()"
| "check_visuals p (packet # packets) = bindR (check_visual p packet) (\<lambda>_. check_visuals p packets)"

definition image_respond :: "(attempt \<Rightarrow> millis \<Rightarrow> outcome res) \<Rightarrow> attempt \<Rightarrow> millis \<Rightarrow> outcome res" where
  "image_respond actor a timeout =
     bindR (actor a timeout) (\<lambda>v. case v of
        Abstains _ \<Rightarrow> Inr v
      | Participates p \<Rightarrow> bindR (check_visuals p (elements (pr_inputs (att_present a)))) (\<lambda>_. Inr v))"

definition image_actor :: "backend \<Rightarrow> backend" where
  "image_actor actor = actor\<lparr>be_name := ''cogg-image-actor/v1:'' @ be_name actor,
     be_respond := image_respond (be_respond actor)\<rparr>"

end
