(* ===== verification/Cogg_Perception_Facts.thy ===== *)
theory Cogg_Perception_Facts
  imports Cogg_Perception
begin

text \<open>
  What the perception path promises: an imported image is read back byte for byte, a
  prepared observation is bound to the head, the occasion, the image and the executor it
  was made for, and a committed answer to an image remembers the observation.
\<close>

section \<open>Reading files\<close>

fun got :: "read_result \<Rightarrow> bytes" where
  "got (Got b) = b"
| "got _ = []"

text \<open>A file that holds \<open>b\<close>, read in pieces of any size with any interruptions before the
  last piece.\<close>

definition serves :: "file_view \<Rightarrow> bytes \<Rightarrow> bool" where
  "serves f b \<longleftrightarrow> fv_opened f \<and> fv_regular f \<and> fv_size f = int (length b) \<and>
     (\<forall>r \<in> set (fv_reads f). r \<noteq> Read_Failed \<and> r \<noteq> Got []) \<and>
     (fv_reads f \<noteq> [] \<longrightarrow> last (fv_reads f) \<noteq> Interrupted) \<and> concat (map got (fv_reads f)) = b"

lemma read_loop_serves:
  assumes "\<forall>r \<in> set rs. r \<noteq> Read_Failed \<and> r \<noteq> Got []" and "rs \<noteq> [] \<longrightarrow> last rs \<noteq> Interrupted"
    and "n = length bs + length (concat (map got rs))"
  shows "read_loop n bs rs = Inr (bs @ concat (map got rs), [])"
  using assms
proof (induction rs arbitrary: bs)
  case Nil
  then show ?case by simp
next
  case (Cons r rs)
  have later: "length (concat (map got rs)) > 0" if "rs \<noteq> []"
  proof -
    from that Cons.prems(1,2) have "last rs \<in> set rs" "last rs \<noteq> Interrupted" "last rs \<noteq> Read_Failed" "last rs \<noteq> Got []" by auto
    moreover have "got q \<noteq> []" if "q \<noteq> Interrupted" "q \<noteq> Read_Failed" "q \<noteq> Got []" for q using that by (cases q) auto
    ultimately have "got (last rs) \<noteq> []" by blast
    with \<open>last rs \<in> set rs\<close> show ?thesis unfolding length_greater_0_conv concat_eq_Nil_conv set_map by blast
  qed
  show ?case
  proof (cases r)
    case (Got b)
    then have "b \<noteq> []" using Cons.prems(1) by auto
    moreover have "take (n - length bs) b = b" using Cons.prems(3) Got by simp
    moreover have "read_loop n (bs @ b) rs = Inr ((bs @ b) @ concat (map got rs), [])"
      using Cons.prems Got by (intro Cons.IH) (auto split: if_splits)
    ultimately show ?thesis using Cons.prems(3) Got by simp
  next
    case Interrupted
    then have "rs \<noteq> []" using Cons.prems(2) by auto
    with later have "length bs < n" using Cons.prems(3) Interrupted by simp
    moreover have "read_loop n bs rs = Inr (bs @ concat (map got rs), [])"
      using Cons.prems Interrupted \<open>rs \<noteq> []\<close> by (intro Cons.IH) auto
    ultimately show ?thesis using Interrupted by simp
  next
    case Read_Failed
    then show ?thesis using Cons.prems(1) by simp
  qed
qed

lemma read_file_serves: "serves f b \<Longrightarrow> b \<noteq> [] \<Longrightarrow> length b \<le> limit \<Longrightarrow> read_file limit f = Inr b"
  using read_loop_serves [of "fv_reads f" "length b" "[]"] by (simp add: serves_def read_file_def)

lemma read_loop_length: "read_loop n bs rs = Inr (b, rest) \<Longrightarrow> length bs \<le> n \<Longrightarrow> length b = n"
proof (induction n bs rs rule: read_loop.induct)
  case (1 n bs)
  then show ?case by (simp split: if_splits)
next
  case (2 n bs r rs)
  then show ?case by (cases r) (auto simp: res_simps split: if_splits)
qed

lemma read_file_length: "read_file limit f = Inr b \<Longrightarrow> 0 < length b \<and> length b \<le> limit"
proof -
  assume "read_file limit f = Inr b"
  then obtain rest where "read_loop (nat (fv_size f)) [] (fv_reads f) = Inr (b, rest)" and s: "0 < fv_size f" "fv_size f \<le> int limit"
    by (auto simp: read_file_def res_simps)
  from read_loop_length [OF this(1)] s show ?thesis by simp
qed

section \<open>Importing an image\<close>

lemma publish_Inr: "publish c path b dk = (Inr (), dk') \<Longrightarrow> dk' = dk(path \<mapsto> b)"
  by (auto simp: publish_def split: sum.splits)

lemma publish_visible: "publish c path b dk = (r, dk') \<Longrightarrow> dk' = dk \<or> dk' = dk(path \<mapsto> b)"
  by (auto simp: publish_def split: sum.splits)

text \<open>
  An imported image is read back exactly: whatever the pieces in which the system reads
  the file of the content-addressed directory, \<open>image_bytes\<close> with the descriptor that
  \<open>import_image\<close> returned gives the very bytes that were imported, after checking their
  size, their digest and their type.
\<close>

lemma image_roundtrip:
  assumes "import_image X f d c dir dk = (Inr descr, dk')"
    and "\<forall>s. length (x_sha256 X s) = 32"
    and "dk' (image_path dir (text_of (field descr ''sha256''))) = Some b"
    and "serves (files (image_path dir (text_of (field descr ''sha256'')))) b"
  shows "read_file max_image_bytes f = Inr b \<and> image_bytes X files dir descr = Inr b"
proof -
  from assms(1) obtain b' m r where b': "read_file max_image_bytes f = Inr b'" and m: "mime b' = Inr m"
    and p: "publish c (image_path dir (hash_bytes X b')) b' dk = (Inr (), dk')"
    and descr: "descr = mk_obj [(''schema'', JStr ''cogg:image/v1''), (''sha256'', JStr (hash_bytes X b')), (''mime'', JStr m),
             (''bytes'', JInt (int (length b')))]"
    by (auto simp: import_image_def Let_def bindR_Inr split: sum.splits prod.splits)
  have fields: "field descr ''sha256'' = JStr (hash_bytes X b')" "jat descr ''bytes'' = Inr (JInt (int (length b')))"
    "field descr ''bytes'' = JInt (int (length b'))" "field descr ''mime'' = JStr m" "is_object descr" "jsize descr = 4"
    "jvalue_string descr ''schema'' [] = Inr ''cogg:image/v1''" "jcontains descr ''sha256''" "jvalue_string descr ''mime'' [] = Inr m"
    by (simp_all add: descr field_def mk_obj_access)
  have b: "b' = b" using publish_Inr [OF p] assms(3) by (simp add: fields)
  note len = read_file_length [OF b'] and img = m
  have "digest_string (hash_bytes X b')"
    using assms(2) by (simp add: digest_string_def hash_bytes_def hex_hex)
  moreover have "image_mime m" using m by (auto simp: mime_def image_mime_def split: if_splits)
  ultimately have "image_descriptor descr = Inr ()" using len by (simp add: image_descriptor_def fields)
  moreover have "read_file max_image_bytes (files (image_path dir (hash_bytes X b'))) = Inr b"
    using assms(4) len b by (intro read_file_serves) (simp_all add: fields)
  ultimately show ?thesis using b b' m by (simp add: image_bytes_def fields)
qed

section \<open>A prepared observation\<close>

text \<open>What a packet says of the image it describes.\<close>

definition observes :: "ext \<Rightarrow> json \<Rightarrow> json \<Rightarrow> string \<Rightarrow> bool" where
  "observes X packet img executor \<longleftrightarrow> validate_inputs X (JArr [packet]) = Inr () \<and>
     (\<exists>body content. jat packet ''body'' = Inr body \<and> jat body ''content'' = Inr content \<and>
        jat content ''image'' = Inr img \<and> jat content ''executor'' = Inr (JStr executor))"

lemma saved_packet_observes: "saved_packet X env f binding img executor = Inr packet \<Longrightarrow> observes X packet img executor"
  by (auto simp: saved_packet_def observes_def res_simps)

lemma image_packet_fields:
  "\<exists>body content. jat (image_packet X img executor t d) ''body'' = Inr body \<and> jat body ''content'' = Inr content \<and>
     jat content ''image'' = Inr img \<and> jat content ''executor'' = Inr (JStr executor)"
  by (simp add: image_packet_def make_input_def Let_def jat_mk_obj)

lemma fresh_packet_observes:
  assumes "fresh_packet X env h files dir img key timeout cancelled = Inr packet"
  shows "observes X packet img (hi_identity h)"
proof -
  from assms obtain b where b: "bindR (image_bytes X files dir img) (\<lambda>_. Inr ()) = Inr ()"
    and p: "(let (r, receipt) = observe_image X env h b (text_of (field img ''mime'')) key timeout cancelled in
       bindR r (\<lambda>observed. bindR (jvalue_string observed ''kind'' []) (\<lambda>kind.
       if kind = ''abstain''
       then bindR (bindR (jat observed ''reason'') get_string) (\<lambda>reason. Inl (BackendFailure Backend (''vision abstained: '' @ reason)))
       else bindR (bindR (jat observed ''description'') get_string) (\<lambda>description.
         let packet = image_packet X img (hi_identity h) receipt description in
         bindR (validate_inputs X (JArr [packet])) (\<lambda>_. Inr packet))))) = Inr packet"
    by (auto simp only: fresh_packet_def bindR_Inr)
  obtain r receipt where o': "observe_image X env h b (text_of (field img ''mime'')) key timeout cancelled = (r, receipt)" by fastforce
  from p obtain d where "packet = image_packet X img (hi_identity h) receipt d" and "validate_inputs X (JArr [packet]) = Inr ()"
    unfolding o' by (auto simp: bindR_Inr Let_def split: if_splits)
  with image_packet_fields [of X img "hi_identity h" receipt d] show ?thesis by (simp add: observes_def)
qed

lemma image_receipt_observes:
  "image_receipt X env h vc dir binding img timeout dk = (Inr packet, dk') \<Longrightarrow> observes X packet img (hi_identity h)"
  by (auto simp: image_receipt_def Let_def bindR_Inr split: receipt_state.splits sum.splits prod.splits
      dest: saved_packet_observes fresh_packet_observes)

text \<open>
  A prepared observation is bound to what it was made for: when \<open>image_context\<close> returns,
  the context names the head and the pending external occasion that the subject had before
  and still has after the observation, whatever other connections did meanwhile, and its one
  input is a valid packet that describes exactly the image of that occasion's payload and
  names the vision executor that was asked, whether it was observed now or kept from before.
\<close>

lemma image_context_bound:
  assumes "image_context X env h vc between st subject dir now timeout dk = (Inr ctx, dk', st')"
  shows "\<exists>d q i img after q' packet. schedule_at X st subject now = Inr d \<and> sc_occasion d = Some q \<and> pe_id q = Some i \<and>
    pe_kind q = ''external'' \<and> jat (pe_payload q) ''image'' = Inr img \<and> image_descriptor img = Inr () \<and>
    st' = between st \<and> schedule_at X st' subject now = Inr after \<and> sc_head after = sc_head d \<and>
    sc_occasion after = Some q' \<and> pe_id q' = Some i \<and>
    ctx = mk_obj [(''head'', JStr (sc_head d)), (''occasion'', JStr i), (''inputs'', JArr [packet])] \<and>
    observes X packet img (hi_identity h)"
proof -
  from assms obtain d q img r where d: "schedule_at X st subject now = Inr d" and q: "image_occasion d = Inr (q, img)"
    and img: "image_descriptor img = Inr ()"
    and r: "image_receipt X env h vc dir (image_binding d q img (hi_identity h)) img timeout dk = (r, dk')"
    and ctx: "bindR r (\<lambda>packet. raise_unless (\<not> vc_cancelled_after vc) (BackendFailure Backend ''image preparation cancelled'') (
        bindR (schedule_at X (between st) subject now) (\<lambda>after.
        raise_unless (sc_head after = sc_head d \<and> (case sc_occasion after of None \<Rightarrow> False | Some q' \<Rightarrow> pe_id q' = pe_id q))
          (Conflict ''image context became stale during observation'') (
        Inr (mk_obj [(''head'', JStr (sc_head d)), (''occasion'', field (image_binding d q img (hi_identity h)) ''occasion''),
          (''inputs'', JArr [packet])]))))) = Inr ctx"
    and st': "st' = between st"
    unfolding image_context_def Let_def by (auto simp: bindR_Inr split: sum.splits prod.splits)
  from q obtain i where i: "sc_occasion d = Some q" "pe_id q = Some i" "pe_kind q = ''external''" "jat (pe_payload q) ''image'' = Inr img"
    by (auto simp: image_occasion_def res_simps split: option.splits)
  from ctx obtain packet after q' where p: "r = Inr packet" and after: "schedule_at X (between st) subject now = Inr after"
    "sc_head after = sc_head d" "sc_occasion after = Some q'" "pe_id q' = pe_id q"
    and c: "ctx = mk_obj [(''head'', JStr (sc_head d)), (''occasion'', field (image_binding d q img (hi_identity h)) ''occasion''),
          (''inputs'', JArr [packet])]"
    by (auto simp: res_simps split: option.splits)
  have "field (image_binding d q img (hi_identity h)) ''occasion'' = JStr i"
    by (simp add: image_binding_def field_def jat_mk_obj i)
  with d i img st' after c image_receipt_observes [OF r [unfolded p]] show ?thesis by auto
qed

section \<open>Remembering the observation\<close>

definition visual_packet :: "json \<Rightarrow> string \<Rightarrow> string \<Rightarrow> bool" where
  "visual_packet packet key txt \<longleftrightarrow> (\<exists>body content remark. jat packet ''body'' = Inr body \<and> jat body ''content'' = Inr content \<and>
     is_object content \<and> jvalue_string content ''schema'' [] = Inr ''cogg:visual-observation/v1'' \<and>
     jat content ''memory_note'' = Inr remark \<and> jat remark ''key'' = Inr (JStr key) \<and> jat remark ''text'' = Inr (JStr txt))"

definition remembers :: "proposal \<Rightarrow> string \<Rightarrow> string \<Rightarrow> bool" where
  "remembers p key txt \<longleftrightarrow> p_kind p = ''speech'' \<and> p_text p \<noteq> [] \<and>
     \<lparr>n_key = key, n_text = txt, n_type = ''episode'', n_status = ''active'', n_sources = [], n_covers = []\<rparr> \<in> set (p_notes p)"

lemma note_kept_Inr:
  assumes "note_kept remark ns = Inr True" and "jat remark ''key'' = Inr (JStr key)" and "jat remark ''text'' = Inr (JStr txt)"
  shows "\<lparr>n_key = key, n_text = txt, n_type = ''episode'', n_status = ''active'', n_sources = [], n_covers = []\<rparr> \<in> set ns"
  using assms(1)
proof (induction ns)
  case Nil
  then show ?case by simp
next
  case (Cons n ns)
  then obtain found where "note_kept remark ns = Inr found"
    and "found \<or> (n_key n = key \<and> n_text n = txt \<and> n_type n = ''episode'' \<and> n_status n = ''active'' \<and> n_sources n = [] \<and> n_covers n = [])"
    using assms(2,3) by (auto simp: bindR_Inr split: if_splits)
  with Cons.IH show ?case by (cases found) (auto intro!: memory_note.equality)
qed

lemma check_visual_remembers: "check_visual p packet = Inr () \<Longrightarrow> visual_packet packet key txt \<Longrightarrow> remembers p key txt"
  unfolding visual_packet_def by (auto simp: check_visual_def remembers_def res_simps) (blast intro: note_kept_Inr)

lemma check_visuals_each: "check_visuals p ps = Inr () \<Longrightarrow> packet \<in> set ps \<Longrightarrow> check_visual p packet = Inr ()"
  by (induction ps) (auto simp: bindR_Inr)

lemma image_respond_checks:
  assumes "image_respond actor a timeout = Inr (Participates p)"
  shows "check_visuals p (elements (pr_inputs (att_present a))) = Inr ()"
proof -
  from assms obtain v where "actor a timeout = Inr v" by (auto simp: image_respond_def bindR_Inr)
  with assms show ?thesis by (cases v) (auto simp: image_respond_def bindR_Inr)
qed

text \<open>
  C32. A committed answer to an image remembers it: when an attempt whose frozen inputs hold a
  visual observation is executed with the image actor and committed, the new transition
  speaks, and one of its notes is exactly the note the observation asks for, an active
  episode with no sources; an actor that omits it cannot commit.
\<close>

theorem image_remembered:
  assumes "reachable X st" and "find_attempt st (att_id t) \<noteq> None"
    and "execute_attempt X guard rd (image_actor actor) st t execution timeout None True rethrow = (Inr res, st')"
    and "sr_status res = ''committed''"
    and "packet \<in> set (elements (pr_inputs (att_present t)))" and "visual_packet packet key txt"
  shows "\<exists>tr. st_commits st' = st_commits st @ [transition_row X tr] \<and> tr_attempt tr = att_id t \<and> remembers (tr_proposal tr) key txt"
proof -
  have "known_in st (att_id t)" using assms(2) by (simp add: known_in_def)
  from execute_redacted [OF assms(3) keys.reachable [OF assms(1)] this] assms(4)
  obtain sn where sn: "sr_snapshot res = Some sn" by (auto simp: report_ok_def landed_def)
  from assms(3) sn show ?thesis
  proof (rule execute_landed)
    fix row r q tr db fs
    assume tr: "transition_ok X st row r q tr db" "st' = committed_store X st tr db fs" "at_id row = att_id t"
      and "sr_status res = ''committed'' \<and> fst (answered X rd True (image_actor actor) t timeout) = Participates (tr_proposal tr) \<and>
         respond X (image_actor actor) t timeout = Inr (Participates (tr_proposal tr)) \<and>
         (\<forall>g. None = Some g \<longrightarrow> g (tr_proposal tr) = None) \<or>
       sr_status res = ''disposed'' \<and> p_memory (tr_proposal tr) = [] \<and> p_notes (tr_proposal tr) = []"
    then have "respond X (image_actor actor) t timeout = Inr (Participates (tr_proposal tr))" using assms(4) by simp
    then have "check_visuals (tr_proposal tr) (elements (pr_inputs (att_present t))) = Inr ()"
      by (auto simp: respond_def image_actor_def split: if_splits dest: image_respond_checks)
    from check_visual_remembers [OF check_visuals_each [OF this assms(5)] assms(6)]
    have "remembers (tr_proposal tr) key txt" .
    moreover have "tr_attempt tr = att_id t" using tr(1,3) by (simp add: transition_ok_def)
    moreover have "st_commits st' = st_commits st @ [transition_row X tr]"
      by (simp add: tr(2))
    ultimately show ?thesis by blast
  qed
qed

end
