(* ===== verification/Cogg_Http_Run.thy ===== *)
theory Cogg_Http_Run
  imports Cogg_Http_Facts Cogg_Runtime_Run
begin

text \<open>
  A concrete configuration of the HTTP executor, and the witnesses of the properties about
  it.
\<close>

definition http_down :: http_env where
  "http_down = \<lparr>he_parse = (\<lambda>_. None), he_ordered = (\<lambda>_. []), he_getenv = (\<lambda>n. if n = ''KEY'' then Some ''abc'' else None),
     he_file = (\<lambda>_. None),
     he_url = (\<lambda>_. Some (\<lambda>part. case part of Url_Scheme \<Rightarrow> Some ''https'' | Url_Host \<Rightarrow> Some ''h'' | _ \<Rightarrow> None)), he_adapter = [],
     he_send = (\<lambda>_. \<lparr>nw_events = [], nw_code = Curl_Timedout, nw_status = 0\<rparr>), he_base64 = (\<lambda>_. [])\<rparr>"

definition http_settings :: json where
  "http_settings = mk_obj [(''kind'', JStr ''ollama''), (''base_url'', JStr ''https://h/''), (''model'', JStr ''m''),
     (''api_key_env'', JStr ''KEY'')]"

definition http_sample :: http where
  "http_sample = \<lparr>hi_settings = http_settings, hi_url = ''https://h/api/chat'', hi_identity = http_identity sample_ext http_down http_settings,
     hi_ollama = True, hi_remote = True, hi_max_prompt = 12288, hi_output = 512, hi_context = 4096, hi_threads = 2\<rparr>"

lemma http_sample_keys: "set (object_keys http_settings) = {''kind'', ''base_url'', ''model'', ''api_key_env''}"
  by (simp add: http_settings_def object_keys_mk_obj)

lemma http_sample_fields:
  "jat http_settings ''kind'' = Inr (JStr ''ollama'')" "jat http_settings ''base_url'' = Inr (JStr ''https://h/'')"
  "jat http_settings ''model'' = Inr (JStr ''m'')" "jat http_settings ''api_key_env'' = Inr (JStr ''KEY'')"
  "jvalue_string http_settings ''api_key_env'' [] = Inr ''KEY''" "jat http_settings ''request_options'' = Inl JsonException"
  "is_object http_settings"
  by (simp_all add: http_settings_def mk_obj_access)

lemma http_sample_contains: "jcontains http_settings k = (k \<in> {''kind'', ''base_url'', ''model'', ''api_key_env''})"
  by (simp add: http_settings_def mk_obj_access)

lemma http_sample_endpoint: "http_endpoint http_down http_settings = Inr (''https://h/'', ''https'', True)"
  by (simp add: http_endpoint_def http_sample_fields safe_string_def http_down_def url_text_def http_remote_def http_keys_def
      http_sample_contains key_char_def less_eq_char_def Let_def)

lemma new_http_sample: "new_http sample_ext http_down http_settings = Inr http_sample"
proof -
  have opts: "http_options sample_ext http_settings True = Inr ()"
    by (simp add: http_options_def request_options_def http_sample_fields mk_obj_def sample_dump_def)
  have ints: "http_integer http_settings ''max_output_tokens'' 512 32 16384 = Inr 512"
    "http_integer http_settings ''context_tokens'' 4096 1024 1048576 = Inr 4096"
    "http_integer http_settings ''threads'' 2 1 256 = Inr 2" "http_integer http_settings ''max_prompt_bytes'' 12288 2048 1048576 = Inr 12288"
    by (simp_all add: http_integer_def http_sample_contains)
  show ?thesis
    unfolding new_http_def
    by (simp add: http_sample_fields http_sample_keys http_fields_def http_sample_endpoint ints opts http_sample_def strip_slashes_def)
qed

theorem http_confined_witness:
  "length (rq_headers (make_request http_sample [] ''abc'' ''i'' 1 False)) = 3 \<and>
   new_http sample_ext (http_down\<lparr>he_getenv := (\<lambda>_. None), he_file := (\<lambda>_. None), he_send := he_send http_down\<rparr>) http_settings = Inr http_sample"
proof -
  have "credential http_down http_settings = Inr ''abc''"
    by (simp add: credential_def http_sample_fields http_down_def Let_def safe_string_def)
  from http_confined [OF new_http_sample this, where g = "\<lambda>_. None" and f = "\<lambda>_. None" and w = "he_send http_down"]
  show ?thesis by (auto simp: make_request_def)
qed

theorem http_outage_witness:
  "\<exists>r st'. execute_attempt sample_ext None run_readings (http_backend sample_ext http_down http_sample run_offer 5 False)
      run_admitted run_offer JNull 5 None True False = (r, st') \<and> st_commits st' = st_commits run_admitted"
proof -
  obtain r st' where e: "execute_attempt sample_ext None run_readings (http_backend sample_ext http_down http_sample run_offer 5 False)
      run_admitted run_offer JNull 5 None True False = (r, st')" by fastforce
  have "network_down http_down" by (simp add: network_down_def http_down_def curl_perform_def)
  from http_outage [OF this e] e show ?thesis by blast
qed

theorem transfer_bounded_witness: "transfer [] [Piece ''ab'' 1 2, Progress (Some (Inr False)), Piece ''c'' 1 1] = Some ''abc''"
proof -
  have b: "\<forall>e \<in> set [Piece ''ab'' 1 2, Progress (Some (Inr False)), Piece ''c'' 1 1]. bytewise e" by (simp add: bytewise_def)
  show ?thesis by (subst transfer_bounded [OF b]) (simp add: stops_def)
qed

end
