(* ===== verification/Cogg_Perception_Run.thy ===== *)
theory Cogg_Perception_Run
  imports Cogg_Perception_Facts Cogg_Http_Run
begin

text \<open>
  The properties of \<open>Cogg_Perception_Facts\<close> on concrete files and on the run of \<open>Cogg_Run\<close>:
  the smallest image the program accepts, and an attempt whose inputs hold an observation,
  answered and committed.
\<close>

section \<open>A small image\<close>

definition small_image :: bytes where
  "small_image = [137, 80, 78, 71, 13, 10, 26, 10] @ replicate 16 0"

definition small_file :: file_view where
  "small_file = \<lparr>fv_opened = True, fv_regular = True, fv_size = 24,
     fv_reads = [Interrupted, Got (take 10 small_image), Got (drop 10 small_image)]\<rparr>"

definition ready_directory :: directory_calls where
  "ready_directory = \<lparr>dc_created = False, dc_exists = True, dc_private = True, dc_synced = False\<rparr>"

definition quick_publish :: publish_calls where
  "quick_publish = \<lparr>pc_staged = True, pc_writes = [Some 24], pc_synced = True, pc_renamed = True, pc_parent = True\<rparr>"

lemma small_serves: "serves small_file small_image"
  by (simp add: serves_def small_file_def small_image_def numeral_eq_Suc)

lemma small_import: "\<exists>descr dk'. import_image sample_ext small_file ready_directory quick_publish ''d'' (\<lambda>_. None) = (Inr descr, dk') \<and>
   dk' (image_path ''d'' (text_of (field descr ''sha256''))) = Some small_image"
proof -
  have l: "length small_image = 24" by (simp add: small_image_def)
  have r: "read_file max_image_bytes small_file = Inr small_image"
    by (rule read_file_serves [OF small_serves]) (simp_all add: small_image_def max_image_bytes_def)
  have m: "mime small_image = Inr ''image/png''" by (simp add: mime_def small_image_def)
  have d: "media_directory ready_directory = Inr ()" by (simp add: media_directory_def ready_directory_def)
  have p: "publish quick_publish path small_image dk = (Inr (), dk(path \<mapsto> small_image))" for path dk
    by (simp add: publish_def quick_publish_def l eval_nat_numeral)
  show ?thesis by (simp add: import_image_def r m d p Let_def field_def mk_obj_access)
qed

theorem image_roundtrip_witness:
  "\<exists>descr. image_bytes sample_ext (\<lambda>_. small_file) ''d'' descr = Inr small_image"
proof -
  obtain descr dk' where i: "import_image sample_ext small_file ready_directory quick_publish ''d'' (\<lambda>_. None) = (Inr descr, dk')"
    and d: "dk' (image_path ''d'' (text_of (field descr ''sha256''))) = Some small_image"
    using small_import by blast
  have "\<forall>s. length (x_sha256 sample_ext s) = 32" by (simp add: sample_ext_def)
  from image_roundtrip [where files = "\<lambda>_. small_file", OF i this d small_serves] show ?thesis by blast
qed

section \<open>A kept observation\<close>

definition shot :: json where
  "shot = mk_obj [(''schema'', JStr ''cogg:image/v1''), (''sha256'', JStr (sample_id 0)), (''mime'', JStr ''image/png''),
     (''bytes'', JInt 24)]"

definition shot_event :: event where
  "shot_event = run_event\<lparr>ev_kind := ''external'', ev_payload := mk_obj [(''image'', shot)]\<rparr>"

definition shot_store :: store where
  "shot_store = run_created\<lparr>st_occasions := [occasion_for sample_ext shot_event (sample_id 0) 1]\<rparr>"

definition shot_pending :: pending where
  "shot_pending = \<lparr>pe_id = Some (sample_id 0), pe_kind = ''external'', pe_payload = mk_obj [(''image'', shot)]\<rparr>"

definition shot_decision :: decision where
  "shot_decision = decide (row_snapshot run_subject) 0 0 run_budget (Some shot_pending)"

definition shot_binding :: json where
  "shot_binding = image_binding shot_decision shot_pending shot (hi_identity http_sample)"

definition shot_packet :: json where
  "shot_packet = image_packet sample_ext shot (hi_identity http_sample) JNull ''a cat''"

definition kept_env :: http_env where
  "kept_env = http_down\<lparr>he_parse := \<lambda>_. Some (mk_obj [(''binding'', shot_binding), (''input'', shot_packet)])\<rparr>"

definition kept_calls :: vision_calls where
  "kept_calls = \<lparr>vc_files = \<lambda>_. small_file, vc_directory = ready_directory, vc_receipt = Receipt_There,
     vc_publish = quick_publish, vc_cancelled = False, vc_cancelled_after = False\<rparr>"

lemma shot_schedule: "schedule_at sample_ext shot_store ''s'' 0 = Inr shot_decision"
proof -
  have h: "hash sample_ext (event_json shot_event) = sample_id 0"
    by (simp add: sample_hash_event shot_event_def run_event_def)
  have f: "find_subject shot_store ''s'' = Some run_subject" by (simp add: find_subject_def shot_store_def)
  have e: "ev_subject shot_event = ''s''" "ev_kind shot_event = ''external''" "ev_payload shot_event = mk_obj [(''image'', shot)]"
    by (simp_all add: shot_event_def)
  have "budget shot_store ''s'' default_limits 0 max_seq = Inr run_budget"
    using run_budget_0 by (simp add: budget_def admissions_of_def subject_attempts_def shot_store_def)
  moreover have "next_occasion sample_ext shot_store (row_snapshot run_subject) 0 = Inr (Some shot_pending)"
    by (simp add: next_occasion_def deliverable_def event_of_def find_occasion_def h e shot_pending_def shot_store_def)
  ultimately show ?thesis
    by (simp add: schedule_at_def schedule_def check_time_def snapshot_def config_def accounting_wall_def f shot_decision_def Let_def)
qed

lemma shot_saved: "saved_packet sample_ext kept_env small_file shot_binding shot (hi_identity http_sample) = Inr shot_packet"
proof -
  have r: "read_file 32768 small_file = Inr small_image"
    by (rule read_file_serves [OF small_serves]) (simp_all add: small_image_def)
  have v: "validate_inputs sample_ext (JArr [shot_packet]) = Inr ()"
  proof -
    obtain c where p: "shot_packet = make_input sample_ext ''observation'' ''cogg:vision/v1'' c []"
      by (simp add: shot_packet_def image_packet_def)
    have "check_input sample_ext [] shot_packet = Inr (input_id shot_packet)"
      unfolding p by (rule make_input_checked) (simp_all add: key_ok_def, simp add: sample_ext_def)
    then show ?thesis by (simp add: validate_inputs_def) (simp add: sample_dump_def)
  qed
  have "\<exists>body content. jat shot_packet ''body'' = Inr body \<and> jat body ''content'' = Inr content \<and>
     jat content ''image'' = Inr shot \<and> jat content ''executor'' = Inr (JStr (hi_identity http_sample))"
    unfolding shot_packet_def by (rule image_packet_fields)
  then show ?thesis by (auto simp: saved_packet_def r parse_json_def kept_env_def mk_obj_access v)
qed

lemma shot_context: "image_context sample_ext kept_env http_sample kept_calls (\<lambda>u. u) shot_store ''s'' ''d'' 0 1000 (\<lambda>_. None) =
   (Inr (mk_obj [(''head'', JStr (sample_id 0)), (''occasion'', JStr (sample_id 0)), (''inputs'', JArr [shot_packet])]),
    (\<lambda>_. None), shot_store)"
proof -
  have q: "sc_occasion shot_decision = Some shot_pending" "sc_head shot_decision = sample_id 0"
    by (simp_all add: shot_decision_def decide_def)
  have o: "image_occasion shot_decision = Inr (shot_pending, shot)"
    by (simp add: image_occasion_def q shot_pending_def mk_obj_access)
  have i: "image_descriptor shot = Inr ()"
    by (simp add: image_descriptor_def shot_def mk_obj_access field_def max_image_bytes_def image_mime_def)
  have d: "media_directory (vc_directory kept_calls) = Inr ()" by (simp add: media_directory_def kept_calls_def ready_directory_def)
  have r: "image_receipt sample_ext kept_env http_sample kept_calls ''d'' shot_binding shot 1000 (\<lambda>_. None) = (Inr shot_packet, \<lambda>_. None)"
    using shot_saved by (simp add: image_receipt_def kept_calls_def)
  have b: "field shot_binding ''occasion'' = JStr (sample_id 0)"
    by (simp add: shot_binding_def image_binding_def field_def mk_obj_access shot_pending_def)
  show ?thesis
    by (simp add: image_context_def shot_schedule o i d r b q flip: shot_binding_def) (simp add: kept_calls_def shot_schedule q b)
qed

theorem image_context_bound_witness:
  "\<exists>packet. observes sample_ext packet shot (hi_identity http_sample) \<and> JArr [packet] = JArr [shot_packet]"
proof -
  from image_context_bound [OF shot_context] obtain d q i img packet where d: "schedule_at sample_ext shot_store ''s'' 0 = Inr d"
    "sc_occasion d = Some q" "jat (pe_payload q) ''image'' = Inr img"
    and c: "mk_obj [(''head'', JStr (sample_id 0)), (''occasion'', JStr (sample_id 0)), (''inputs'', JArr [shot_packet])] =
      mk_obj [(''head'', JStr (sc_head d)), (''occasion'', JStr i), (''inputs'', JArr [packet])]"
    and o: "observes sample_ext packet img (hi_identity http_sample)"
    by blast
  from d have "img = shot" by (auto simp: shot_schedule shot_decision_def decide_def shot_pending_def mk_obj_access)
  moreover from arg_cong [OF c, of "\<lambda>j. jat j ''inputs''"] have "JArr [packet] = JArr [shot_packet]" by (simp add: mk_obj_access)
  ultimately show ?thesis using o by blast
qed

section \<open>An answer that remembers\<close>

definition seen_note :: memory_note where
  "seen_note = \<lparr>n_key = ''milk'', n_text = ''a cat'', n_type = ''episode'', n_status = ''active'', n_sources = [], n_covers = []\<rparr>"

definition seen_packet :: json where
  "seen_packet = mk_obj [(''body'', mk_obj [(''content'', mk_obj [(''schema'', JStr ''cogg:visual-observation/v1''),
     (''memory_note'', mk_obj [(''key'', JStr ''milk''), (''text'', JStr ''a cat'')])])])]"

definition seen_offer :: attempt where
  "seen_offer = \<lparr>att_id = sample_id 0, att_present = run_present\<lparr>pr_inputs := JArr [seen_packet]\<rparr>\<rparr>"

definition seen_proposal :: proposal where
  "seen_proposal = default_proposal\<lparr>p_kind := ''speech'', p_text := ''a cat'', p_notes := [seen_note]\<rparr>"

definition seen_transition :: transition where
  "seen_transition = run_transition\<lparr>tr_proposal := seen_proposal, tr_memory := [], tr_inference_elapsed_ms := Some 5\<rparr>"

definition seen_entry :: entry_row where
  "seen_entry = \<lparr>me_id = sample_id 64, me_subject = ''s'', me_key = ''milk'', me_tick = 1, me_commit = sample_id (Suc 0),
     me_body = \<lparr>de_id = sample_id 64, de_subject = ''s'', de_tick = 1, de_commit = sample_id (Suc 0), de_previous = [],
       de_note = seen_note\<rparr>, me_current = True\<rparr>"

definition seen_memory :: memory_db where
  "seen_memory = \<lparr>md_entries = [seen_entry], md_links = [], md_fts = [entry_fts seen_entry]\<rparr>"

definition seen_committed :: store where
  "seen_committed = committed_store sample_ext run_admitted seen_transition seen_memory []"

definition seen_snapshot :: snapshot where
  "seen_snapshot = \<lparr>sn_subject = ''s'', sn_tick = 1, sn_head = sample_id (Suc 0), sn_memory = [],
      sn_wake_at = None, sn_lifecycle = ''waiting_external''\<rparr>"

definition painter :: backend where
  "painter = run_down\<lparr>be_respond := \<lambda>_ _. Inr (Participates seen_proposal)\<rparr>"

lemma seen_proposal_ok: "proposal_ok sample_ext seen_proposal"
  by (simp add: proposal_ok_def seen_proposal_def default_proposal_def key_ok_def out_memory_writes_def note_statuses_def
      Cogg_Types.note_ok_def note_types_def out_notes_def max_payload_def seen_note_def)

lemma seen_hash: "hash sample_ext (transition_json seen_transition) = sample_id (Suc 0)"
  by (simp add: hash_sample sample_dump_def transition_json_def jat_mk_obj seen_transition_def run_transition_def)

lemma seen_memory_apply:
  "memory_apply sample_ext empty_memory ''s'' (sample_id 0) 1 (sample_id (Suc 0)) [seen_note] = Inr seen_memory"
proof -
  have "validate_memory_notes [seen_note] = Inr ()"
    using seen_proposal_ok by (simp add: proposal_ok_def seen_proposal_def)
  then show ?thesis
    unfolding memory_apply_def by (simp add: sample_apply_simps seen_note_def empty_memory_def seen_memory_def seen_entry_def)
qed

lemma seen_apply: "apply_commit sample_ext run_admitted (row_snapshot run_subject) (sample_id 0) run_admission seen_transition =
   Inr (seen_snapshot, seen_committed)"
proof -
  have t: "tr_subject seen_transition = ''s''" "tr_tick seen_transition = 1" "tr_memory seen_transition = []"
    "tr_proposal seen_transition = seen_proposal" "tr_wake_at seen_transition = None" "tr_occasion seen_transition = sample_id 0"
    "tr_committed_at seen_transition = 1000" "tr_attempt seen_transition = sample_id 0" "tr_parent seen_transition = sample_id 0"
    by (simp_all add: seen_transition_def run_transition_def)
  have n: "p_notes seen_proposal = [seen_note]" by (simp add: seen_proposal_def)
  have nf: "run_admitted\<lparr>st_memory := m, st_commits := c, st_failures := []\<rparr> = run_admitted\<lparr>st_memory := m, st_commits := c\<rparr>" for m c
    using run_admitted_simps(8) by (cases run_admitted) simp
  have gr: "co_id (genesis_row sample_ext run_genesis) = sample_id 0" "ge_subject run_genesis = ''s''"
    using run_hash_genesis by (simp_all add: genesis_row_def)
  show ?thesis
    by (simp add: nf apply_commit_def Let_def t n seen_hash memory_transition_def seen_memory_apply insert_commit_def gr
        sample_id_inject memory_capacity_def run_hash_event seen_committed_def committed_store_def transition_row_def
        set_head_def seen_snapshot_def flip: transition_json_def)
qed

lemma seen_commit:
  "commit_locked sample_ext None run_admitted (sample_id 0) seen_proposal 1000 (Some 5) JNull None = Inr (seen_snapshot, seen_committed)"
proof -
  have pj: "proposal_json sample_ext seen_proposal = Inr (proposal_enc seen_proposal)"
    using seen_proposal_ok by (simp add: res_simps)
  have em: "validate_emission sample_ext JNull (sample_id 0) run_admission (proposal_enc seen_proposal) = Inr ()"
    by (simp add: validate_emission_def validate_execution_def)
  have sn: "snapshot run_admitted ''s'' = Inr (row_snapshot run_subject)" "config run_admitted ''s'' = Inr default_limits"
    "accounting_wall run_admitted ''s'' = 0"
    by (simp_all add: snapshot_def config_def accounting_wall_def find_subject_def)
  have fo: "find_occasion run_admitted (sample_id 0) = Some (occasion_for sample_ext run_event (sample_id 0) 1)"
    by (simp add: find_occasion_def run_hash_event)
  have ev: "event_of sample_ext run_admitted (sample_id 0) = Inr run_event"
    by (simp add: event_of_def fo run_hash_event)
  have om: "opt_max 1000 0 (Some 5) = Inr 1000" by (simp add: opt_max_def add_time_def max_millis_def)
  have wm: "write_memory (p_memory seen_proposal) [] = []"
    by (simp add: write_memory_def seen_proposal_def default_proposal_def)
  have sz: "length (sample_dump (JObj [])) \<le> max_state" by (simp add: sample_dump_def)
  have wp: "wake_plan default_limits (p_wake_after_ms seen_proposal) 1000 (wp_budget run_plan) = Inr run_plan"
    by (simp add: wake_plan_def seen_proposal_def default_proposal_def) (simp add: run_plan_def)
  have wg: "wp_granted_at run_plan = None" by (simp add: run_plan_def)
  show ?thesis
    unfolding commit_locked_def pj bindR_Inr_left run_find_attempt option.case
    by (simp add: run_admission_hash em sn fo ev om wm sz run_budget_1 wp wg Let_def max_millis_def
        seen_apply [unfolded seen_transition_def run_transition_def, simplified])
qed

lemma seen_report: "\<exists>res. execute_attempt sample_ext None run_readings (image_actor painter) run_admitted seen_offer JNull 1000 None True False =
    (Inr res, seen_committed) \<and> sr_status res = ''committed''"
proof -
  have c: "commit sample_ext None (\<lambda>_. Inr ()) run_admitted (sample_id 0) seen_proposal 1000 (Some 5) JNull =
     (Inr seen_snapshot, seen_committed)"
    by (simp add: commit_def check_time_def seen_commit)
  have pj: "proposal_json sample_ext seen_proposal = Inr (proposal_enc seen_proposal)"
    using seen_proposal_ok by (simp add: res_simps)
  have i: "image_respond (be_respond painter) seen_offer 1000 = Inr (Participates seen_proposal)"
    by (simp add: image_respond_def painter_def seen_offer_def seen_packet_def check_visual_def mk_obj_access
        seen_proposal_def seen_note_def)
  have a: "answered sample_ext run_readings True (image_actor painter) seen_offer 1000 = (Participates seen_proposal, [], Transient, None)"
    by (simp add: answered_def respond_def image_actor_def i validate_backend_outcome_def pj)
  have rd: "rd_duration run_readings = 5" "rd_commit_wall run_readings = Inr 1000" "\<not> rd_cancelled run_readings"
    by (simp_all add: run_readings_def)
  have o: "att_id seen_offer = sample_id 0" by (simp add: seen_offer_def)
  have t: "be_committed (image_actor painter) p s = Inr ()" for p s by (simp add: image_actor_def painter_def run_down_def)
  show ?thesis
    by (simp add: execute_attempt_def a pj settle_outcome_def o c rd after_commit_def t waiting_result_def)
qed

theorem image_remembered_witness:
  "\<exists>tr. st_commits seen_committed = st_commits run_admitted @ [transition_row sample_ext tr] \<and> tr_attempt tr = sample_id 0 \<and>
     remembers (tr_proposal tr) ''milk'' ''a cat''"
proof -
  obtain res where e: "execute_attempt sample_ext None run_readings (image_actor painter) run_admitted seen_offer JNull 1000 None True False =
    (Inr res, seen_committed)" and s: "sr_status res = ''committed''"
    using seen_report by blast
  have o: "att_id seen_offer = sample_id 0" "pr_inputs (att_present seen_offer) = JArr [seen_packet]"
    by (simp_all add: seen_offer_def)
  have "find_attempt run_admitted (att_id seen_offer) \<noteq> None" by (simp add: o run_find_attempt)
  moreover have "seen_packet \<in> set (elements (pr_inputs (att_present seen_offer)))" by (simp add: o)
  moreover have "visual_packet seen_packet ''milk'' ''a cat''"
    by (simp add: visual_packet_def seen_packet_def mk_obj_access)
  ultimately show ?thesis using image_remembered [OF run_reachable_admitted _ e s] by (simp add: o)
qed

end
