(* ===== verification/Cogg_Host.thy ===== *)
theory Cogg_Host
  imports Cogg_Perception Cogg_Self_Runtime Cogg_Protocol
begin

text \<open>
  The host process of \<^verbatim>\<open>tools/tui/host.cpp\<close>, built with perception, HTTP and self state.
  A worker thread polls the schedule and runs attempts; the main thread serves one client
  request at a time; both share the record \<open>control\<close> under a mutex and the store through
  connections of their own. Each critical section and each operation of the store is one
  step; what else happens to the store during a step of the worker is among the arguments
  of that step, as in the theories of the runtimes.
\<close>

section \<open>The demonstration executor\<close>

definition message_payload :: "json \<Rightarrow> bool" where
  "message_payload p \<longleftrightarrow> is_object p \<and> jcontains p ''text'' \<and> is_string (field p ''text'') \<and>
     (\<not> jcontains p ''type'' \<or> field p ''type'' = JStr ''message'')"

definition demo_propose :: "present \<Rightarrow> proposal" where
  "demo_propose p =
     (let txt = text_of (field (o_payload (pr_occasion p)) ''text'') in
      if o_kind (pr_occasion p) = ''external'' \<and> message_payload (o_payload (pr_occasion p))
      then default_proposal\<lparr>p_kind := ''speech'', p_text := ''Demo echo: '' @ txt,
        p_notes := [\<lparr>n_key = ''demo.last-message'', n_text = txt, n_type = ''episode'', n_status = ''active'',
                     n_sources = [], n_covers = []\<rparr>]\<rparr>
      else default_proposal)"

definition demo :: backend where
  "demo = \<lparr>be_name = ''cogg:tui-demo/v1'', be_policy = None, be_fits = (\<lambda>_. True),
     be_respond = (\<lambda>a _. Inr (Participates (demo_propose (att_present a)))), be_telemetry = Inr (mk_obj []),
     be_committed = (\<lambda>_ _. Inr ())\<rparr>"

section \<open>Options\<close>

record options =
  op_db :: string
  op_subject :: string
  op_socket :: string
  op_config :: string
  op_executor :: string
  op_vision :: string
  op_create :: bool
  op_demo :: bool
  op_remote :: bool

definition no_options :: options where
  "no_options = \<lparr>op_db = [], op_subject = [], op_socket = [], op_config = [], op_executor = [], op_vision = [],
     op_create = False, op_demo = False, op_remote = False\<rparr>"

definition set_option :: "string \<Rightarrow> string \<Rightarrow> options \<Rightarrow> options res" where
  "set_option a v opts =
     (if a = ''--db'' then Inr (opts\<lparr>op_db := v\<rparr>) else if a = ''--subject'' then Inr (opts\<lparr>op_subject := v\<rparr>)
      else if a = ''--socket'' then Inr (opts\<lparr>op_socket := v\<rparr>) else if a = ''--config'' then Inr (opts\<lparr>op_config := v\<rparr>)
      else if a = ''--executor'' then Inr (opts\<lparr>op_executor := v\<rparr>)
      else if a = ''--vision-executor'' then Inr (opts\<lparr>op_vision := v\<rparr>)
      else Inl (Error (''unknown option: '' @ a)))"

fun read_options :: "options \<Rightarrow> string list \<Rightarrow> options res" where
  "read_options opts [] = Inr opts"
| "read_options opts (a # rest) =
     (if a = ''--create'' then read_options (opts\<lparr>op_create := True\<rparr>) rest
      else if a = ''--demo'' then read_options (opts\<lparr>op_demo := True\<rparr>) rest
      else if a = ''--allow-remote'' then read_options (opts\<lparr>op_remote := True\<rparr>) rest
      else case rest of [] \<Rightarrow> Inl (Error (''missing argument for '' @ a))
        | v # rest' \<Rightarrow> bindR (set_option a v opts) (\<lambda>opts'. read_options opts' rest'))"

text \<open>The paths are made absolute by the file system.\<close>

definition parse_options :: "(string \<Rightarrow> string) \<Rightarrow> (string \<Rightarrow> string) \<Rightarrow> string list \<Rightarrow> options res" where
  "parse_options canonical absolute args =
     bindR (read_options no_options args) (\<lambda>opts.
     require (op_db opts \<noteq> [] \<and> op_subject opts \<noteq> [] \<and> op_socket opts \<noteq> []) ''required: --db FILE --subject ID --socket PATH'' (
     require (if op_demo opts then op_config opts = [] \<and> op_executor opts = [] else op_config opts \<noteq> [] \<and> op_executor opts \<noteq> [])
       ''choose --demo OR --config FILE --executor ID [--allow-remote]'' (
     require (\<not> op_demo opts \<or> op_vision opts = []) ''vision requires a configured actor'' (
     Inr (opts\<lparr>op_db := canonical (op_db opts), op_socket := absolute (op_socket opts)\<rparr>)))))"

section \<open>The state of the host\<close>

record control =
  ct_paused :: bool
  ct_running :: bool
  ct_last :: string
  ct_error :: string
  ct_context :: json
  ct_grant :: json

definition new_control :: control where
  "new_control = \<lparr>ct_paused = True, ct_running = False, ct_last = ''started paused'', ct_error = [],
     ct_context = JNull, ct_grant = JNull\<rparr>"

text \<open>Where the worker is: reading the switch, having read that it is on, having seen that the
  subject is ready, preparing or making an attempt with the evidence it has taken, or about
  to report the status and the maintenance error of the attempt.\<close>

datatype worker =
    Starting
  | Polling
  | Seen_Enabled
  | Seen_Ready
  | Preparing json json
  | Stepping json json
  | Settling string string json json
  | Worker_Stopped

record host =
  ho_subject :: string
  ho_db :: string
  ho_executor :: string
  ho_caps :: capabilities
  ho_guarded :: bool
  ho_remote :: bool
  ho_vision :: string
  ho_vision_settings :: json
  ho_eye :: "http option"
  ho_registry :: registry
  ho_verified :: "string list"
  ho_store :: store
  ho_disk :: disk
  ho_audit :: "string list"
  ho_control :: control
  ho_worker :: worker

definition media_path :: "host \<Rightarrow> string" where
  "media_path h = ho_db h @ ''.media''"

definition set_control :: "(control \<Rightarrow> control) \<Rightarrow> host \<Rightarrow> host" where
  "set_control f h = h\<lparr>ho_control := f (ho_control h)\<rparr>"

definition set_worker :: "worker \<Rightarrow> host \<Rightarrow> host" where
  "set_worker w h = h\<lparr>ho_worker := w\<rparr>"

section \<open>The worker\<close>

text \<open>The handler around the whole thread.\<close>

definition worker_fails :: "string \<Rightarrow> host \<Rightarrow> host" where
  "worker_fails what h = set_worker Worker_Stopped (set_control (\<lambda>c. c\<lparr>ct_running := False, ct_paused := True,
     ct_last := ''worker stopped'', ct_error := excerpt what 512\<rparr>) h)"

text \<open>Its start: one registered executor and, when configured, the vision executor.\<close>

definition worker_start :: "ext \<Rightarrow> http_env \<Rightarrow> readings \<Rightarrow> host \<Rightarrow> host" where
  "worker_start X env rd h =
     (case bindR (new_registry 32) (\<lambda>rg. bindR (registry_add rg (ho_executor h) (ho_caps h) True) (\<lambda>rg.
           bindR (if ho_vision_settings h = JNull then Inr None
                  else bindR (new_http X env (ho_vision_settings h)) (\<lambda>eye. Inr (Some eye))) (\<lambda>eye. Inr (rg, eye)))) of
        Inl e \<Rightarrow> worker_fails (error_what rd e) h
      | Inr (rg, eye) \<Rightarrow> set_worker Polling (h\<lparr>ho_registry := rg, ho_eye := eye, ho_verified := []\<rparr>))"

text \<open>Polling: the switch under the lock, then the schedule, then the start of the attempt under
  the lock, which looks at the switch again and takes what is staged.\<close>

definition worker_poll :: "host \<Rightarrow> host" where
  "worker_poll h = (if ct_paused (ho_control h) then h else set_worker Seen_Enabled h)"

definition worker_schedule :: "ext \<Rightarrow> readings \<Rightarrow> millis \<Rightarrow> host \<Rightarrow> host" where
  "worker_schedule X rd now h =
     (case schedule_at X (ho_store h) (ho_subject h) now of
        Inl e \<Rightarrow> worker_fails (error_what rd e) h
      | Inr d \<Rightarrow> set_worker (if sc_status d = ''ready'' then Seen_Ready else Polling) h)"

definition worker_take :: "host \<Rightarrow> host" where
  "worker_take h =
     (if ct_paused (ho_control h) then set_worker Polling h
      else set_worker (Preparing (ct_context (ho_control h)) (ct_grant (ho_control h)))
        (set_control (\<lambda>c. c\<lparr>ct_running := True, ct_context := JNull, ct_grant := JNull\<rparr>) h))"

text \<open>The evidence for an image: the prepared observation first, then what was staged.\<close>

definition merge_evidence :: "ext \<Rightarrow> json \<Rightarrow> json \<Rightarrow> json res" where
  "merge_evidence X ctx prepared =
     bindR (if ctx = JNull then Inr prepared
            else bindR (jat ctx ''head'') (\<lambda>h. bindR (jat prepared ''head'') (\<lambda>h'.
              require (h = h') ''stale image evidence'' (
              bindR (jat ctx ''occasion'') (\<lambda>q. bindR (jat prepared ''occasion'') (\<lambda>q'.
              require (q = q') ''stale image evidence'' (
              bindR (jat ctx ''inputs'') (\<lambda>inputs.
              Inr (obj_set ''inputs'' (JArr (elements (field prepared ''inputs'') @ elements inputs)) prepared)))))))))
       (\<lambda>merged. bindR (validate_admission_context X merged) (\<lambda>_. Inr merged))"

text \<open>The evidence for the attempt: \<open>None\<close> when the occasion carries no image.\<close>

definition worker_evidence ::
    "ext \<Rightarrow> http_env \<Rightarrow> vision_calls \<Rightarrow> (store \<Rightarrow> store) \<Rightarrow> millis \<Rightarrow> json \<Rightarrow> host \<Rightarrow> json option res \<times> disk \<times> store" where
  "worker_evidence X env vc between now ctx h =
     (case schedule_at X (ho_store h) (ho_subject h) now of
        Inl e \<Rightarrow> (Inl e, ho_disk h, ho_store h)
      | Inr d \<Rightarrow>
          (case sc_occasion d of
             None \<Rightarrow> (Inr None, ho_disk h, ho_store h)
           | Some q \<Rightarrow>
               if \<not> jcontains (pe_payload q) ''image'' then (Inr None, ho_disk h, ho_store h)
               else case ho_eye h of
                 None \<Rightarrow> (Inl (Error ''image request requires --vision-executor''), ho_disk h, ho_store h)
               | Some vision \<Rightarrow>
                   let (r, dk, st) = image_context X env vision vc between (ho_store h) (ho_subject h) (media_path h) now 60000 (ho_disk h)
                   in (bindR r (\<lambda>prepared. bindR (merge_evidence X ctx prepared) (\<lambda>merged. Inr (Some merged))), dk, st)))"

definition worker_prepare ::
    "ext \<Rightarrow> http_env \<Rightarrow> vision_calls \<Rightarrow> (store \<Rightarrow> store) \<Rightarrow> readings \<Rightarrow> millis \<Rightarrow> json \<Rightarrow> json \<Rightarrow> host \<Rightarrow> host" where
  "worker_prepare X env vc between rd now ctx grant h =
     (let (r, dk, st) = worker_evidence X env vc between now ctx h; h' = h\<lparr>ho_disk := dk, ho_store := st\<rparr> in
      case r of
        Inl e \<Rightarrow> set_worker Polling (set_control (\<lambda>c. c\<lparr>ct_running := False, ct_paused := True, ct_last := ''image_failed'',
          ct_error := excerpt (error_what rd e) 512\<rparr>) h')
      | Inr None \<Rightarrow> set_worker (Stepping ctx grant) h'
      | Inr (Some merged) \<Rightarrow>
          if ct_paused (ho_control h') then set_worker Polling (set_control (\<lambda>c. c\<lparr>ct_running := False\<rparr>) h')
          else set_worker (Stepping merged grant) h')"

text \<open>The environment of one attempt, guarded or routed.\<close>

record attempt_env =
  ae_sqlite_ok :: bool
  ae_guard :: guard
  ae_readings :: readings
  ae_between :: "nat \<Rightarrow> store \<Rightarrow> store"
  ae_nonce :: string
  ae_backend :: backend
  ae_session :: string
  ae_cancelled :: bool
  ae_turns :: "nat \<Rightarrow> turn"
  ae_at_end :: millis

definition host_route :: "host \<Rightarrow> json \<Rightarrow> route" where
  "host_route h ctx = \<lparr>rt_executors = [ho_executor h], rt_allow_remote = ho_remote h, rt_require_exact_tokens = False,
     rt_require_checkpoint = False, rt_require_cancellation = False, rt_timeout_ms = 60000, rt_attempt_timeout_ms = 60000,
     rt_context = ctx\<rparr>"

text \<open>One attempt: its status and maintenance error. A new \<open>SelfRuntime\<close> starts with an empty
  cache.\<close>

definition worker_attempt ::
    "ext \<Rightarrow> attempt_env \<Rightarrow> millis \<Rightarrow> json \<Rightarrow> json \<Rightarrow> host \<Rightarrow> (string \<times> string) res \<times> host" where
  "worker_attempt X ae now ctx grant h =
     (if ho_guarded h then
        (case if ctx = JNull then Inr (JArr []) else jat ctx ''inputs'' of
           Inl e \<Rightarrow> (Inl e, h)
         | Inr inputs \<Rightarrow>
             let execution = execution_json (ho_executor h) \<lparr>en_caps = ho_caps h, en_enabled = True\<rparr> (ae_backend ae) (ae_session ae);
                 (r, _, st') = self_step X (ae_sqlite_ok ae) (ae_guard ae) (ae_readings ae) (ae_between ae) (ae_nonce ae)
                   (ae_backend ae) execution (\<lambda>_. None) (ho_store h) (ho_subject h) now grant inputs 60000 (ae_cancelled ae)
             in (bindR r (\<lambda>res. Inr (sf_status res, sf_maintenance res)), h\<lparr>ho_store := st'\<rparr>))
      else
        let (r, verified, rg, st') = route_step X (ae_sqlite_ok ae) (ae_guard ae) (ho_subject h) (host_route h ctx) now
              (ae_turns ae) (ae_at_end ae) (ho_verified h) (ho_registry h) (ho_store h)
        in (bindR r (\<lambda>res. Inr (rr_status res, rr_maintenance res)),
            h\<lparr>ho_store := st', ho_verified := verified, ho_registry := rg\<rparr>))"

definition worker_step :: "ext \<Rightarrow> attempt_env \<Rightarrow> millis \<Rightarrow> json \<Rightarrow> json \<Rightarrow> host \<Rightarrow> host" where
  "worker_step X ae now ctx grant h =
     (case worker_attempt X ae now ctx grant h of
        (Inl e, h') \<Rightarrow> worker_fails (error_what (ae_readings ae) e) h'
      | (Inr (status, maintenance), h') \<Rightarrow> set_worker (Settling status maintenance ctx grant) h')"

text \<open>The report, under the lock: whether the host may go on by itself, and evidence that
  was not used yet.\<close>

definition goes_on :: "string \<Rightarrow> bool" where
  "goes_on status \<longleftrightarrow> status = ''committed'' \<or> status = ''waiting''"

definition settle_control :: "string \<Rightarrow> string \<Rightarrow> json \<Rightarrow> json \<Rightarrow> control \<Rightarrow> control" where
  "settle_control status maintenance ctx grant c =
     (let c1 = c\<lparr>ct_running := False, ct_last := status, ct_error := maintenance\<rparr>;
          c2 = (if status = ''waiting'' \<and> ctx \<noteq> JNull then c1\<lparr>ct_context := ctx, ct_grant := grant\<rparr> else c1)
      in if goes_on status then c2 else c2\<lparr>ct_paused := True\<rparr>)"

definition worker_settle :: "string \<Rightarrow> string \<Rightarrow> json \<Rightarrow> json \<Rightarrow> host \<Rightarrow> host" where
  "worker_settle status maintenance ctx grant h =
     set_worker Polling (set_control (settle_control status maintenance ctx grant) h)"

section \<open>Starting the host\<close>

text \<open>The results of the calls that start the host, in their order.\<close>

record startup =
  hs_private_directory :: bool
  hs_socket_lock :: bool
  hs_db_lock :: bool
  hs_db_exists :: bool
  hs_header_opened :: bool
  hs_application_id :: "int option"
  hs_user_version :: "int option"
  hs_config_opened :: bool
  hs_config :: "json res"
  hs_now :: millis
  hs_nonce :: string
  hs_sqlite_ok :: bool
  hs_path_there :: bool
  hs_owned_socket :: bool
  hs_short_path :: bool
  hs_refused :: bool
  hs_unlinked :: bool
  hs_listener :: bool
  hs_bound :: bool
  hs_restricted :: bool
  hs_audit_opened :: bool
  hs_audit_ok :: bool

definition current_database_only :: "startup \<Rightarrow> options \<Rightarrow> unit res" where
  "current_database_only s opts =
     (if \<not> hs_db_exists s then require (op_create opts) ''database missing; use --create for a new subject'' (Inr ())
      else require (\<not> op_create opts) ''--create refuses an existing database'' (
           require (hs_header_opened s) ''cannot read database header'' (
           case hs_application_id s of None \<Rightarrow> Inl (Error ''cannot inspect database schema'')
           | Some a \<Rightarrow>
               if a \<noteq> 1129269063
               then Inl (Error ''host requires cogg schema 5; older databases must be migrated explicitly on a separate copy'')
               else case hs_user_version s of None \<Rightarrow> Inl (Error ''cannot inspect database schema'')
                 | Some u \<Rightarrow> require (u = 5)
                     ''host requires cogg schema 5; older databases must be migrated explicitly on a separate copy'' (Inr ()))))"

text \<open>The capabilities of the chosen executor and the settings of the vision executor.\<close>

definition host_executors :: "ext \<Rightarrow> http_env \<Rightarrow> startup \<Rightarrow> options \<Rightarrow> (capabilities \<times> json) res" where
  "host_executors X env s opts =
     (if op_demo opts
      then Inr (\<lparr>cap_remote = False, cap_exact_tokens = False, cap_checkpoint = False, cap_cancellation = False\<rparr>, JNull)
      else require (hs_config_opened s) ''cannot open executor config'' (
        bindR (hs_config s) (\<lambda>config.
        bindR (bindR (jat config ''executors'') (\<lambda>es. jat es (op_executor opts))) (\<lambda>selected.
        bindR (new_http X env selected) (\<lambda>probe.
        require (\<not> hi_remote probe \<or> op_remote opts) ''remote executor requires --allow-remote'' (
        if op_vision opts = [] then Inr (http_capabilities probe, JNull)
        else bindR (bindR (jat config ''executors'') (\<lambda>es. jat es (op_vision opts))) (\<lambda>vision.
          bindR (new_http X env vision) (\<lambda>eye.
          require (\<not> hi_remote eye \<or> op_remote opts) ''remote vision requires --allow-remote'' (
          Inr (http_capabilities probe, vision))))))))))"

text \<open>The executor of one attempt.\<close>

definition host_actor :: "ext \<Rightarrow> http_env \<Rightarrow> options \<Rightarrow> json \<Rightarrow> attempt \<Rightarrow> millis \<Rightarrow> bool \<Rightarrow> backend res" where
  "host_actor X env opts selected a timeout cancelled =
     (if op_demo opts then Inr demo
      else bindR (new_http X env selected) (\<lambda>h.
        let actor = http_backend X env h a timeout cancelled in
        Inr (if op_vision opts \<noteq> [] then image_actor actor else actor)))"

definition open_socket :: "startup \<Rightarrow> unit res" where
  "open_socket s =
     bindR (if hs_path_there s
            then require (hs_owned_socket s) ''socket path is not an owned socket'' (
                 require (hs_short_path s) ''socket path too long'' (
                 require (hs_refused s) ''socket is active or cannot be checked'' (
                 require (hs_unlinked s) ''cannot remove stale socket'' (Inr ()))))
            else Inr ()) (\<lambda>_.
     require (hs_listener s) ''cannot create host socket'' (
     require (hs_short_path s) ''socket path too long'' (
     require (hs_bound s) ''cannot bind/listen on host socket'' (
     require (hs_restricted s) ''cannot restrict socket permissions'' (
     require (hs_audit_opened s) ''cannot open operator audit'' (Inr ()))))))"

text \<open>The host that \<open>main\<close> reaches before its loop, and the store it leaves.\<close>

definition host_start :: "ext \<Rightarrow> http_env \<Rightarrow> startup \<Rightarrow> options \<Rightarrow> disk \<Rightarrow> store \<Rightarrow> host res \<times> store" where
  "host_start X env s opts dk st =
     (case require (hs_private_directory s) ''socket directory must be owned by you, mode 0700'' (
           require (hs_socket_lock s) ''socket already owned by another host'' (
           require (hs_db_lock s) ''database already owned by another host'' (
           bindR (current_database_only s opts) (\<lambda>_.
           bindR (host_executors X env s opts) (\<lambda>(caps, vision).
           bindR (if op_create opts then create X st (op_subject opts) default_limits (hs_now s) (mk_obj []) (hs_nonce s) else Inr st)
             (\<lambda>st'. Inr (caps, vision, st'))))))) of
        Inl e \<Rightarrow> (Inl e, st)
      | Inr (caps, vision, st') \<Rightarrow>
          (bindR (verify X (hs_sqlite_ok s) st' (op_subject opts)) (\<lambda>_.
           bindR (snapshot st' (op_subject opts)) (\<lambda>sn.
           let guarded = obj_has (sn_memory sn) ''self.profile'' in
           bindR (if guarded then bindR (inspect_self X (hs_sqlite_ok s) st' st' st' (op_subject opts)) (\<lambda>_. Inr ()) else Inr ()) (\<lambda>_.
           bindR (open_socket s) (\<lambda>_.
           require (hs_audit_ok s) ''operator audit write failed'' (
           Inr \<lparr>ho_subject = op_subject opts, ho_db = op_db opts,
                ho_executor = (if op_demo opts then ''demo'' else op_executor opts), ho_caps = caps, ho_guarded = guarded,
                ho_remote = op_remote opts, ho_vision = op_vision opts, ho_vision_settings = vision, ho_eye = None,
                ho_registry = \<lparr>rg_entries = [], rg_sessions = [], rg_max_sessions = 32\<rparr>, ho_verified = [], ho_store = st',
                ho_disk = dk, ho_audit = [''start-paused''], ho_control = new_control, ho_worker = Starting\<rparr>))))), st'))"

end
