(* ===== verification/Cogg_Host_Server.thy ===== *)
theory Cogg_Host_Server
  imports Cogg_Host
begin

text \<open>
  The requests a host answers, the loop of \<^verbatim>\<open>tools/tui/host.cpp\<close>: the projection sent to
  the terminal, submissions, operator evidence, pause and resume, and the read-only
  questions; and the steps of the whole host. A read-only request reads the store several
  times while the worker may write: \<open>sv_reads k\<close> leads from the store at the beginning of
  the request to the one its \<open>k\<close>-th read sees.
\<close>

record serve_env =
  sv_now :: millis
  sv_sampled :: millis
  sv_sqlite_ok :: bool
  sv_audit_ok :: bool
  sv_reads :: "nat \<Rightarrow> store \<Rightarrow> store"
  sv_readings :: readings
  sv_image :: file_view
  sv_directory :: directory_calls
  sv_publish :: publish_calls

section \<open>The projection\<close>

fun commit_summary :: "string \<times> commit_body \<Rightarrow> json" where
  "commit_summary (i, Genesis g) = mk_obj [(''id'', JStr i), (''tick'', JInt 0), (''kind'', JStr ''genesis''), (''occasion'', JNull),
     (''at'', JInt (ge_created_at g))]"
| "commit_summary (i, Transition t) = mk_obj [(''id'', JStr i), (''tick'', JInt (tr_tick t)),
     (''kind'', JStr (p_kind (tr_proposal t))), (''occasion'', JStr (tr_occasion t)), (''at'', JInt (tr_committed_at t))]"

text \<open>The lines of the conversation with their times.\<close>

definition user_line :: "string \<times> event \<times> string \<Rightarrow> (millis \<times> json) list" where
  "user_line q = (case q of (i, e, consumed) \<Rightarrow>
     if ev_kind e = ''external'' \<and> message_payload (ev_payload e)
     then [(ev_received_at e, mk_obj [(''id'', JStr i), (''role'', JStr ''user''),
        (''text'', JStr (excerpt (text_of (field (ev_payload e) ''text'')) 8192)), (''at'', JInt (ev_received_at e)),
        (''status'', JStr (if consumed = [] then ''pending'' else ''consumed''))])]
     else [])"

fun subject_line :: "string \<times> commit_body \<Rightarrow> (millis \<times> json) list" where
  "subject_line (i, Genesis g) = []"
| "subject_line (i, Transition t) =
     (if p_kind (tr_proposal t) = ''speech''
      then [(tr_committed_at t, mk_obj [(''id'', JStr i), (''role'', JStr ''subject''),
        (''text'', JStr (excerpt (p_text (tr_proposal t)) 8192)), (''at'', JInt (tr_committed_at t)),
        (''tick'', JInt (tr_tick t)), (''status'', JStr ''committed'')])]
      else [])"

definition conversation :: "timeline_report \<Rightarrow> json list" where
  "conversation t = map snd (sort_key fst (concat (map user_line (tl_occasions t)) @ concat (map subject_line (tl_commits t))))"

definition last_of :: "nat \<Rightarrow> 'a list \<Rightarrow> 'a list" where
  "last_of n xs = drop (length xs - n) xs"

fun status_name :: "attempt_status \<Rightarrow> string" where
  "status_name Reserved = ''reserved''"
| "status_name Committed = ''committed''"
| "status_name Failed = ''failed''"
| "status_name Superseded = ''superseded''"
| "status_name Abstained = ''abstained''"

definition attempt_line :: "(string \<times> abstention_body) list \<Rightarrow> string \<times> admission \<times> attempt_status \<times> string \<Rightarrow> json" where
  "attempt_line refusals a = (case a of (i, b, status, err) \<Rightarrow>
     fold (\<lambda>(_, r) row. if ab_attempt r = i then obj_set ''abstention'' (abstention_enc (ab_outcome r)) row else row) refusals
       (mk_obj [(''id'', JStr i), (''status'', JStr (status_name status)), (''backend'', JStr (ad_backend b)),
          (''occasion'', JStr (ad_occasion b)), (''error'', JStr (excerpt err 512))]))"

definition control_json :: "control \<Rightarrow> string \<Rightarrow> json" where
  "control_json c executor = mk_obj [(''paused'', JBool (ct_paused c)), (''running'', JBool (ct_running c)),
     (''last'', JStr (ct_last c)), (''error'', JStr (ct_error c)), (''executor'', JStr executor)]"

definition projection :: "ext \<Rightarrow> serve_env \<Rightarrow> host \<Rightarrow> json res" where
  "projection X sv h =
     bindR (timeline (sv_reads sv 0 (ho_store h)) (ho_subject h)) (\<lambda>t.
     bindR (schedule_at X (sv_reads sv 1 (ho_store h)) (ho_subject h) (sv_now sv)) (\<lambda>d.
     let talk = conversation t; commits = map commit_summary (tl_commits t) in
     Inr (mk_obj
       [(''subject'', JStr (ho_subject h)), (''tick'', JInt (sn_tick (tl_snapshot t))), (''head'', JStr (sn_head (tl_snapshot t))),
        (''lifecycle'', JStr (sn_lifecycle (tl_snapshot t))), (''wake_at'', optional_time (sn_wake_at (tl_snapshot t))),
        (''host'', control_json (ho_control h) (ho_executor h)), (''schedule'', decision_json d),
        (''conversation'', JArr (last_of 60 talk)), (''conversation_total'', JInt (int (length talk))),
        (''commits'', JArr (last_of 80 commits)), (''commits_total'', JInt (int (length commits))),
        (''attempts'', JArr (map (attempt_line (tl_abstentions t)) (last_of 20 (tl_attempts t)))),
        (''sampled_at'', JInt (sv_sampled sv))])))"

section \<open>Requests that change something\<close>

type_synonym answer = "json res \<times> host"

definition string_at :: "json \<Rightarrow> string \<Rightarrow> string res" where
  "string_at req k = bindR (jat req k) get_string"

text \<open>The operator audit: lines written and synced before the command takes effect.\<close>

definition log_operator :: "serve_env \<Rightarrow> string \<Rightarrow> host \<Rightarrow> host res" where
  "log_operator sv command h = require (sv_audit_ok sv) ''operator audit write failed'' (Inr (h\<lparr>ho_audit := ho_audit h @ [command]\<rparr>))"

definition host_submit :: "ext \<Rightarrow> serve_env \<Rightarrow> string \<Rightarrow> json \<Rightarrow> host \<Rightarrow> string res \<times> host" where
  "host_submit X sv key payload h =
     (case submit X (ho_store h) (ho_subject h) (''tui:'' @ key) payload (sv_now sv) of
        Inl e \<Rightarrow> (Inl e, h) | Inr (i, st) \<Rightarrow> (Inr i, h\<lparr>ho_store := st\<rparr>))"

definition host_send :: "ext \<Rightarrow> serve_env \<Rightarrow> json \<Rightarrow> host \<Rightarrow> answer" where
  "host_send X sv req h =
     (case bindR (string_at req ''text'') (\<lambda>words. bindR (string_at req ''key'') (\<lambda>key.
           require (words \<noteq> [] \<and> length words \<le> 8192 \<and> key \<noteq> [] \<and> length key \<le> 128) ''message/key length invalid'' (
           Inr (words, key)))) of
        Inl e \<Rightarrow> (Inl e, h)
      | Inr (words, key) \<Rightarrow>
          (case host_submit X sv key (mk_obj [(''type'', JStr ''message''), (''text'', JStr words)]) h of
             (r, h') \<Rightarrow> (bindR r (\<lambda>i. Inr (mk_obj [(''occasion'', JStr i)])), h')))"

definition host_image :: "ext \<Rightarrow> serve_env \<Rightarrow> json \<Rightarrow> host \<Rightarrow> answer" where
  "host_image X sv req h =
     (case require (ho_vision h \<noteq> []) ''host has no vision executor configured'' (
           bindR (string_at req ''path'') (\<lambda>path. bindR (string_at req ''key'') (\<lambda>key.
           bindR (jvalue_string req ''text'' ''Describe this image and remember the observation for later.'') (\<lambda>words.
           require (path \<noteq> [] \<and> length path \<le> 4096 \<and> CHR 0x00 \<notin> set path \<and> key \<noteq> [] \<and> length key \<le> 128 \<and>
               words \<noteq> [] \<and> length words \<le> 8192) ''invalid image request'' (Inr (key, words)))))) of
        Inl e \<Rightarrow> (Inl e, h)
      | Inr (key, words) \<Rightarrow>
          (case import_image X (sv_image sv) (sv_directory sv) (sv_publish sv) (media_path h) (ho_disk h) of
             (Inl e, dk) \<Rightarrow> (Inl e, h\<lparr>ho_disk := dk\<rparr>)
           | (Inr img, dk) \<Rightarrow>
               (case host_submit X sv key (mk_obj [(''type'', JStr ''message''), (''text'', JStr words), (''image'', img)])
                       (h\<lparr>ho_disk := dk\<rparr>) of
                  (r, h') \<Rightarrow> (bindR r (\<lambda>i. Inr (mk_obj [(''occasion'', JStr i), (''image'', img),
                    (''vision_executor'', JStr (ho_vision h))])), h'))))"

text \<open>Evidence is bound to the head and the occasion the operator saw.\<close>

definition staged_evidence :: "ext \<Rightarrow> serve_env \<Rightarrow> json \<Rightarrow> host \<Rightarrow> (string \<times> json \<times> json) res" where
  "staged_evidence X sv req h =
     (let c = ho_control h; st = ho_store h in
     require (ct_paused c \<and> \<not> ct_running c \<and> ct_last c \<noteq> ''worker stopped'')
       ''pause the host and wait for inference before supplying evidence'' (
     bindR (string_at req ''text'') (\<lambda>words.
     require (words \<noteq> [] \<and> length words \<le> 8192) ''evidence must be 1..8192 UTF-8 bytes'' (
     bindR (schedule_at X st (ho_subject h) (sv_now sv)) (\<lambda>d.
     case sc_occasion d of None \<Rightarrow> Inl (Error ''evidence requires a pending external occasion'')
     | Some q \<Rightarrow>
     require (pe_kind q = ''external'') ''evidence requires a pending external occasion'' (
     bindR (jat req ''head'') (\<lambda>head.
     require (head = JStr (sc_head d)) ''stale evidence binding; refresh the pending request'' (
     bindR (jat req ''occasion'') (\<lambda>occ.
     require (occ = (case pe_id q of None \<Rightarrow> JNull | Some i \<Rightarrow> JStr i)) ''stale evidence binding; refresh the pending request'' (
     let input = make_input X ''observation'' ''cogg:operator/v1''
           (mk_obj [(''kind'', JStr ''operator_report''), (''text'', JStr words)]) [];
         ctx = mk_obj [(''head'', head), (''occasion'', occ), (''inputs'', JArr [input])] in
     bindR (validate_admission_context X ctx) (\<lambda>_.
     bindR (if ho_guarded h
            then bindR (inspect_self X (sv_sqlite_ok sv) st st st (ho_subject h)) (\<lambda>view. bindR (jat view ''head'') (\<lambda>vh.
              require (vh = head) ''subject advanced while binding evidence'' (
              self_grant X view occ (mk_obj []) (mk_obj []) JNull)))
            else Inr JNull) (\<lambda>grant. Inr (input_id input, ctx, grant)))))))))))))"

definition evidence_line :: "string \<Rightarrow> string" where
  "evidence_line i = ''evidence-stage:'' @ i"

definition host_evidence :: "ext \<Rightarrow> serve_env \<Rightarrow> json \<Rightarrow> host \<Rightarrow> answer" where
  "host_evidence X sv req h =
     (case bindR (staged_evidence X sv req h) (\<lambda>(i, ctx, grant).
           bindR (log_operator sv (evidence_line i) h) (\<lambda>h'. Inr (i, ctx, grant, h'))) of
        Inl e \<Rightarrow> (Inl e, h)
      | Inr (i, ctx, grant, h') \<Rightarrow>
          (Inr (mk_obj [(''status'', JStr ''staged''), (''input'', JStr i), (''durable'', JBool False),
             (''note'', JStr ''one retry with operator-supplied evidence; receipt becomes durable at admission; restart before admission discards staging'')]),
           set_control (\<lambda>c. c\<lparr>ct_context := ctx, ct_grant := grant, ct_paused := False\<rparr>) h'))"

definition host_switch :: "serve_env \<Rightarrow> string \<Rightarrow> host \<Rightarrow> answer" where
  "host_switch sv op h =
     (case require (ct_last (ho_control h) \<noteq> ''worker stopped'') ''worker stopped; restart host after inspecting error'' (
           log_operator sv op h) of
        Inl e \<Rightarrow> (Inl e, h)
      | Inr h' \<Rightarrow>
          (Inr (mk_obj [(''paused'', JBool (op = ''pause'')), (''running'', JBool (ct_running (ho_control h))),
             (''note'', JStr ''pause takes effect before next admission; an in-flight attempt may commit'')]),
           set_control (\<lambda>c. c\<lparr>ct_paused := (op = ''pause'')\<rparr>) h'))"

section \<open>Questions\<close>

definition host_inspect :: "ext \<Rightarrow> serve_env \<Rightarrow> json \<Rightarrow> host \<Rightarrow> json res" where
  "host_inspect X sv req h =
     bindR (jvalue_string req ''id'' []) (\<lambda>given.
     bindR (if given = [] then bindR (snapshot (sv_reads sv 0 (ho_store h)) (ho_subject h)) (\<lambda>s. Inr (sn_head s)) else Inr given) (\<lambda>i.
     bindR (record_of X (sv_reads sv 1 (ho_store h)) i) (\<lambda>body.
     require (cb_subject body = ho_subject h) ''record belongs to another subject'' (
     Inr (mk_obj [(''id'', JStr i), (''body'', commit_json body)])))))"

definition host_memory :: "ext \<Rightarrow> serve_env \<Rightarrow> json \<Rightarrow> host \<Rightarrow> json res" where
  "host_memory X sv req h =
     bindR (jvalue_string req ''query'' []) (\<lambda>query.
     require (length query \<le> 1024) ''query too long'' (
     let policy = default_policy\<lparr>mp_query := query, mp_max_bytes := 32768, mp_max_items := 32,
           mp_strategy := (if query = [] then ''recent'' else ''lexical'')\<rparr> in
     bindR (recall X (sv_sqlite_ok sv) (sv_reads sv 0 (ho_store h)) (ho_subject h) policy) (\<lambda>p.
     bindR (snapshot (sv_reads sv 1 (ho_store h)) (ho_subject h)) (\<lambda>s.
     let data = mk_obj [(''view'', case pr_memory_view p of None \<Rightarrow> JNull | Some v \<Rightarrow> view_json v),
           (''working_memory'', JObj (sn_memory s)),
           (''note'', JStr (''bounded recent/search view; not necessarily the executor'' @ [CHR 0x27] @ ''s admitted context''))] in
     if ho_guarded h
     then bindR (inspect_self X (sv_sqlite_ok sv) (sv_reads sv 2 (ho_store h)) (sv_reads sv 3 (ho_store h)) (sv_reads sv 4 (ho_store h))
            (ho_subject h)) (\<lambda>view. Inr (obj_set ''self'' view data))
     else Inr data))))"

definition host_why_awake :: "ext \<Rightarrow> serve_env \<Rightarrow> host \<Rightarrow> json res" where
  "host_why_awake X sv h =
     bindR (timeline (sv_reads sv 0 (ho_store h)) (ho_subject h)) (\<lambda>t.
     bindR (schedule_at X (sv_reads sv 1 (ho_store h)) (ho_subject h) (sv_now sv)) (\<lambda>d.
     Inr (mk_obj [(''schedule'', decision_json d),
       (''last_wake_plan'', case jat (commit_json (snd (last (tl_commits t)))) ''wake_plan'' of Inr w \<Rightarrow> w | Inl _ \<Rightarrow> JNull)])))"

definition after_tick :: "int \<Rightarrow> timeline_report \<Rightarrow> (string \<times> commit_body) list" where
  "after_tick tick t = take 100 (filter (\<lambda>c. cb_tick (snd c) > tick) (tl_commits t))"

definition host_since :: "serve_env \<Rightarrow> json \<Rightarrow> host \<Rightarrow> json res" where
  "host_since sv req h =
     bindR (bindR (jat req ''tick'') get_int) (\<lambda>tick.
     bindR (timeline (sv_reads sv 0 (ho_store h)) (ho_subject h)) (\<lambda>t.
     let head = sn_tick (tl_snapshot t); rows = after_tick tick t in
     require (0 \<le> tick \<and> tick \<le> head) ''tick outside subject history'' (
     Inr (mk_obj [(''after_tick'', JInt tick), (''through_tick'', JInt (if rows = [] then tick else cb_tick (snd (last rows)))),
       (''head_tick'', JInt head), (''commits'', JArr (map commit_summary rows)), (''more'', JBool (head - tick > 100))]))))"

section \<open>One request\<close>

definition host_answer :: "ext \<Rightarrow> serve_env \<Rightarrow> string \<Rightarrow> json \<Rightarrow> host \<Rightarrow> answer" where
  "host_answer X sv op req h =
     (if op = ''snapshot'' then (projection X sv h, h)
      else if op = ''send'' then host_send X sv req h
      else if op = ''image'' then host_image X sv req h
      else if op = ''evidence'' then host_evidence X sv req h
      else if op = ''pause'' \<or> op = ''resume'' then host_switch sv op h
      else if op = ''inspect'' then (host_inspect X sv req h, h)
      else if op = ''memory'' then (host_memory X sv req h, h)
      else if op = ''why-awake'' then (host_why_awake X sv h, h)
      else if op = ''since'' then (host_since sv req h, h)
      else (Inl (Error ''unknown host operation''), h))"

definition host_reply :: "bool \<Rightarrow> (string \<times> json) list \<Rightarrow> json" where
  "host_reply ok more_fields = mk_obj ([(''protocol'', JStr ''cogg:host/v1''), (''ok'', JBool ok)] @ more_fields)"

text \<open>The frame that was received, or the error of receiving it.\<close>

definition serve :: "ext \<Rightarrow> serve_env \<Rightarrow> json res \<Rightarrow> host \<Rightarrow> json \<times> host" where
  "serve X sv received h =
     (let (r, h') = (case bindR received (\<lambda>req. require (is_object req) ''unsupported protocol'' (
              bindR (jvalue_string req ''protocol'' []) (\<lambda>protocol.
              require (protocol = ''cogg:host/v1'') ''unsupported protocol'' (
              bindR (string_at req ''op'') (\<lambda>op. Inr (op, req)))))) of
           Inl e \<Rightarrow> (Inl e, h) | Inr (op, req) \<Rightarrow> host_answer X sv op req h) in
      case bindR r (\<lambda>data. let reply = host_reply True [(''data'', data)] in
           require (length (x_dump X reply) + 1 \<le> frame_limit) ''record exceeds IPC limit; use offline cogg-cli inspection'' (Inr reply)) of
        Inl e \<Rightarrow> (host_reply False [(''error'', JStr (excerpt (error_what (sv_readings sv) e) 512))], h')
      | Inr reply \<Rightarrow> (reply, h'))"

section \<open>The steps of a host\<close>

datatype host_event = Served json | Working | Attempt_Failed | Attempt_Ended string

fun attempt_event :: "'a res \<Rightarrow> host_event" where
  "attempt_event (Inl e) = Attempt_Failed"
| "attempt_event (Inr v) = Working"

inductive host_step :: "ext \<Rightarrow> host \<Rightarrow> host_event \<Rightarrow> host \<Rightarrow> bool" for X where
  by_request: "serve X sv received h = (reply, h') \<Longrightarrow> host_step X h (Served reply) h'"
| by_start: "ho_worker h = Starting \<Longrightarrow> host_step X h Working (worker_start X env rd h)"
| by_poll: "ho_worker h = Polling \<Longrightarrow> host_step X h Working (worker_poll h)"
| by_schedule: "ho_worker h = Seen_Enabled \<Longrightarrow> host_step X h Working (worker_schedule X rd now h)"
| by_take: "ho_worker h = Seen_Ready \<Longrightarrow> host_step X h Working (worker_take h)"
| by_prepare: "ho_worker h = Preparing ctx grant \<Longrightarrow> \<forall>u. later X u (between u) \<Longrightarrow>
    host_step X h (attempt_event (fst (worker_evidence X env vc between now ctx h))) (worker_prepare X env vc between rd now ctx grant h)"
| by_attempt: "ho_worker h = Stepping ctx grant \<Longrightarrow> \<forall>k u. later X u (ae_between ae k u) \<Longrightarrow> \<forall>j. turn_grows X (ae_turns ae j) \<Longrightarrow>
    host_step X h (attempt_event (fst (worker_attempt X ae now ctx grant h))) (worker_step X ae now ctx grant h)"
| by_settle: "ho_worker h = Settling status maintenance ctx grant \<Longrightarrow>
    host_step X h (Attempt_Ended status) (worker_settle status maintenance ctx grant h)"

inductive host_run :: "ext \<Rightarrow> host \<Rightarrow> host_event list \<Rightarrow> host \<Rightarrow> bool" for X where
  run_none: "host_run X h [] h"
| run_step: "host_run X h es h' \<Longrightarrow> host_step X h' e h'' \<Longrightarrow> host_run X h (es @ [e]) h''"

end
