(* ===== verification/Cogg_Host_Facts.thy ===== *)
theory Cogg_Host_Facts
  imports Cogg_Host_Server
begin

text \<open>
  What a host promises its operator: no attempt is retried by itself after a failure, a
  paused host admits nothing, and staged evidence is valid and never survives beside an
  attempt in flight.
\<close>

section \<open>What a request can do\<close>

text \<open>The parts of the store a submission leaves alone.\<close>

definition same_ledger :: "store \<Rightarrow> store \<Rightarrow> bool" where
  "same_ledger st st' \<longleftrightarrow> st_attempts st' = st_attempts st \<and> st_commits st' = st_commits st \<and> st_memory st' = st_memory st \<and>
     st_subjects st' = st_subjects st \<and> st_abstentions st' = st_abstentions st \<and> st_failures st' = st_failures st"

lemma same_ledger_refl [simp]: "same_ledger st st"
  by (simp add: same_ledger_def)

lemma same_ledger_trans: "same_ledger st st' \<Longrightarrow> same_ledger st' st'' \<Longrightarrow> same_ledger st st''"
  by (simp add: same_ledger_def)

lemma submit_same_ledger: "submit X st s key payload now = Inr (i, st') \<Longrightarrow> same_ledger st st'"
  by (auto simp: submit_def enqueue_def res_simps Let_def same_ledger_def split: option.splits)

lemma submit_later: "submit X st s key payload now = Inr (i, st') \<Longrightarrow> later X st st'"
  unfolding later_def by (blast intro: by_submit)

text \<open>What no request touches.\<close>

definition fixed_parts :: "host \<Rightarrow> host \<Rightarrow> bool" where
  "fixed_parts h h' \<longleftrightarrow> ho_subject h' = ho_subject h \<and> ho_worker h' = ho_worker h \<and> ho_guarded h' = ho_guarded h"

lemma set_control_simps [simp]:
  "ho_control (set_control f h) = f (ho_control h)" "ho_worker (set_control f h) = ho_worker h"
  "ho_store (set_control f h) = ho_store h" "ho_audit (set_control f h) = ho_audit h" "ho_disk (set_control f h) = ho_disk h"
  "ho_subject (set_control f h) = ho_subject h" "ho_guarded (set_control f h) = ho_guarded h"
  by (simp_all add: set_control_def)

lemma set_worker_simps [simp]:
  "ho_control (set_worker w h) = ho_control h" "ho_worker (set_worker w h) = w"
  "ho_store (set_worker w h) = ho_store h" "ho_audit (set_worker w h) = ho_audit h" "ho_disk (set_worker w h) = ho_disk h"
  "ho_subject (set_worker w h) = ho_subject h" "ho_guarded (set_worker w h) = ho_guarded h"
  by (simp_all add: set_worker_def)

lemma log_operator_Inr: "log_operator sv command h = Inr h' \<longleftrightarrow> sv_audit_ok sv \<and> h' = h\<lparr>ho_audit := ho_audit h @ [command]\<rparr>"
  by (auto simp: log_operator_def res_simps)

inductive commanded :: "ext \<Rightarrow> host \<Rightarrow> host \<Rightarrow> bool" for X where
  only_store: "ho_control h' = ho_control h \<Longrightarrow> ho_audit h' = ho_audit h \<Longrightarrow> same_ledger (ho_store h) (ho_store h') \<Longrightarrow>
    later X (ho_store h) (ho_store h') \<Longrightarrow> fixed_parts h h' \<Longrightarrow> commanded X h h'"
| staging: "ct_paused (ho_control h) \<Longrightarrow> \<not> ct_running (ho_control h) \<Longrightarrow> validate_admission_context X ctx = Inr () \<Longrightarrow>
    commanded X h (set_control (\<lambda>c. c\<lparr>ct_context := ctx, ct_grant := grant, ct_paused := False\<rparr>)
      (h\<lparr>ho_audit := ho_audit h @ [evidence_line i]\<rparr>))"
| switching: "op = ''pause'' \<or> op = ''resume'' \<Longrightarrow>
    commanded X h (set_control (\<lambda>c. c\<lparr>ct_paused := (op = ''pause'')\<rparr>) (h\<lparr>ho_audit := ho_audit h @ [op]\<rparr>))"

lemma commanded_refl: "commanded X h h"
  by (rule only_store) (simp_all add: fixed_parts_def later_refl)

lemma host_submit_cases:
  assumes "host_submit X sv key payload h = (r, h')"
  obtains (refused) e where "r = Inl e" "h' = h"
  | (queued) i st where "r = Inr i" "h' = h\<lparr>ho_store := st\<rparr>" "same_ledger (ho_store h) st" "later X (ho_store h) st"
  using assms by (auto simp: host_submit_def split: sum.splits prod.splits dest: submit_same_ledger submit_later)

lemma host_send_commanded: "host_send X sv req h = (r, h') \<Longrightarrow> commanded X h h'"
  by (auto simp: host_send_def fixed_parts_def split: sum.splits prod.splits elim!: host_submit_cases intro!: commanded_refl only_store)

lemma host_image_commanded: "host_image X sv req h = (r, h') \<Longrightarrow> commanded X h h'"
  by (auto simp: host_image_def fixed_parts_def split: sum.splits prod.splits elim!: host_submit_cases
      intro!: commanded_refl only_store later_refl)

lemma staged_evidence_Inr:
  assumes "staged_evidence X sv req h = Inr (i, ctx, grant)"
  shows "ct_paused (ho_control h)" and "\<not> ct_running (ho_control h)" and "validate_admission_context X ctx = Inr ()"
  using assms by (auto simp: staged_evidence_def Let_def res_simps split: option.splits)

lemma host_evidence_commanded: "host_evidence X sv req h = (r, h') \<Longrightarrow> commanded X h h'"
  by (auto simp: host_evidence_def log_operator_Inr bindR_Inr split: sum.splits prod.splits
      intro: commanded_refl staging dest: staged_evidence_Inr)

lemma host_switch_commanded: "host_switch sv op h = (r, h') \<Longrightarrow> op = ''pause'' \<or> op = ''resume'' \<Longrightarrow> commanded X h h'"
  by (auto simp: host_switch_def log_operator_Inr res_simps split: sum.splits intro: commanded_refl switching)

lemma host_answer_commanded: "host_answer X sv op req h = (r, h') \<Longrightarrow> commanded X h h'"
  by (auto simp: host_answer_def commanded_refl host_send_commanded host_image_commanded host_evidence_commanded host_switch_commanded
      split: if_splits)

lemma serve_commanded: "serve X sv received h = (reply, h') \<Longrightarrow> commanded X h h'"
  by (auto simp: serve_def Let_def commanded_refl split: sum.splits prod.splits dest: host_answer_commanded)

section \<open>The invariant of a host\<close>

fun held :: "worker \<Rightarrow> (json \<times> json) option" where
  "held (Preparing ctx grant) = Some (ctx, grant)"
| "held (Stepping ctx grant) = Some (ctx, grant)"
| "held (Settling status maintenance ctx grant) = Some (ctx, grant)"
| "held _ = None"

definition host_ok :: "ext \<Rightarrow> host \<Rightarrow> bool" where
  "host_ok X h \<longleftrightarrow> (ct_running (ho_control h) \<longleftrightarrow> held (ho_worker h) \<noteq> None) \<and>
     (ct_running (ho_control h) \<longrightarrow> ct_context (ho_control h) = JNull \<and> ct_grant (ho_control h) = JNull) \<and>
     validate_admission_context X (ct_context (ho_control h)) = Inr () \<and>
     (\<forall>ctx grant. held (ho_worker h) = Some (ctx, grant) \<longrightarrow> validate_admission_context X ctx = Inr ())"

text \<open>The attempts an operator has allowed and the host has not failed yet: at most one.\<close>

definition allowance :: "host \<Rightarrow> nat" where
  "allowance h = (if \<not> ct_paused (ho_control h) \<or> ct_running (ho_control h) then 1 else 0)"

definition enabling :: "string \<Rightarrow> bool" where
  "enabling line \<longleftrightarrow> line = ''resume'' \<or> take 15 line = ''evidence-stage:''"

fun failed_attempt :: "host_event \<Rightarrow> bool" where
  "failed_attempt Attempt_Failed = True"
| "failed_attempt (Attempt_Ended status) = (\<not> goes_on status)"
| "failed_attempt _ = False"

lemma no_context [simp]: "validate_admission_context X JNull = Inr ()"
  by (simp add: validate_admission_context_def)

lemma merge_evidence_valid: "merge_evidence X ctx prepared = Inr merged \<Longrightarrow> validate_admission_context X merged = Inr ()"
  by (auto simp: merge_evidence_def bindR_Inr)

lemma worker_evidence_valid: "worker_evidence X env vc between now ctx h = (Inr (Some merged), dk, st) \<Longrightarrow> validate_admission_context X merged = Inr ()"
  by (auto simp: worker_evidence_def Let_def bindR_Inr split: sum.splits option.splits if_splits prod.splits dest: merge_evidence_valid)

lemma worker_attempt_parts:
  "worker_attempt X ae now ctx grant h = (r, h') \<Longrightarrow> ho_control h' = ho_control h \<and> ho_audit h' = ho_audit h \<and> ho_subject h' = ho_subject h"
  by (auto simp: worker_attempt_def Let_def split: sum.splits prod.splits if_splits)

text \<open>What a step does to the audit, to the allowance and to the invariant.\<close>

lemma commanded_ok:
  assumes "commanded X h h'" and "host_ok X h"
  shows "host_ok X h'" and "\<exists>lines. ho_audit h' = ho_audit h @ lines \<and> allowance h' \<le> allowance h + length (filter enabling lines)"
proof -
  have "host_ok X h' \<and> (\<exists>lines. ho_audit h' = ho_audit h @ lines \<and> allowance h' \<le> allowance h + length (filter enabling lines))"
    using assms
    by cases (auto simp: host_ok_def fixed_parts_def allowance_def enabling_def evidence_line_def)
  then show "host_ok X h'" and "\<exists>lines. ho_audit h' = ho_audit h @ lines \<and> allowance h' \<le> allowance h + length (filter enabling lines)"
    by blast+
qed

lemma host_step_ok:
  assumes "host_step X h e h'" and "host_ok X h"
  shows "host_ok X h' \<and> (\<exists>lines. ho_audit h' = ho_audit h @ lines \<and>
    (if failed_attempt e then 1 else 0) + allowance h' \<le> allowance h + length (filter enabling lines))"
  using assms(1)
proof cases
  case (by_request sv received reply)
  then show ?thesis using commanded_ok [OF serve_commanded assms(2)] by simp
next
  case (by_start env rd)
  then show ?thesis using assms(2)
    by (auto simp: worker_start_def worker_fails_def host_ok_def allowance_def split: sum.splits)
next
  case by_poll
  then show ?thesis using assms(2) by (auto simp: worker_poll_def host_ok_def allowance_def)
next
  case (by_schedule rd now)
  then show ?thesis using assms(2)
    by (auto simp: worker_schedule_def worker_fails_def host_ok_def allowance_def split: sum.splits)
next
  case by_take
  then show ?thesis using assms(2) by (auto simp: worker_take_def host_ok_def allowance_def)
next
  case (by_prepare ctx grant between env vc now rd)
  then show ?thesis using assms(2)
    by (auto simp: worker_prepare_def Let_def host_ok_def allowance_def split: sum.splits option.splits prod.splits
        dest: worker_evidence_valid)
next
  case (by_attempt ctx grant ae now)
  obtain r h1 where r: "worker_attempt X ae now ctx grant h = (r, h1)" by fastforce
  from by_attempt worker_attempt_parts [OF r] r show ?thesis using assms(2)
    by (auto simp: worker_step_def worker_fails_def host_ok_def allowance_def split: sum.splits)
next
  case (by_settle status maintenance ctx grant)
  then show ?thesis using assms(2)
    by (auto simp: worker_settle_def settle_control_def Let_def host_ok_def allowance_def)
qed

section \<open>The store under a host\<close>

lemma image_context_later:
  assumes "image_context X env v vc between st subject dir now timeout dk = (r, dk', st')" and "\<forall>u. later X u (between u)"
  shows "later X st st'"
  using assms by (auto simp: image_context_def Let_def later_refl split: sum.splits prod.splits)

lemma worker_evidence_later:
  assumes "worker_evidence X env vc between now ctx h = (r, dk, st)" and "\<forall>u. later X u (between u)"
  shows "later X (ho_store h) st"
  using assms by (auto simp: worker_evidence_def Let_def later_refl split: sum.splits option.splits if_splits prod.splits
      dest: image_context_later)

lemma route_step_later:
  assumes "route_step X sqlite_ok guard subject rt now turns at_end verified rg st = (r, vs, rg', st')" and "\<forall>j. turn_grows X (turns j)"
  shows "later X st st'"
  using assms(1)
proof (cases rule: route_step_cases)
  case (looped s)
  show ?thesis using looped(4) by (rule route_loop_later) (use assms(2) in blast)
qed (simp_all add: later_refl)

lemma worker_attempt_later:
  assumes "worker_attempt X ae now ctx grant h = (r, h')" and "reachable X (ho_store h)"
    and "\<forall>k u. later X u (ae_between ae k u)" and "\<forall>j. turn_grows X (ae_turns ae j)"
  shows "later X (ho_store h) (ho_store h')"
proof -
  have guarded: "later X (ho_store h) st'" if "self_step X ok g rd (ae_between ae) nonce be execution (\<lambda>_. None) (ho_store h) subject
      now grant inputs timeout cancelled = (res, cache', st')" for ok g rd nonce be execution subject inputs timeout cancelled res cache' st'
    using self_step_effect [OF assms(2) _ coherent_empty that] assms(3) by blast
  show ?thesis using assms(1,4)
    by (auto simp: worker_attempt_def Let_def later_refl split: sum.splits prod.splits if_splits dest: route_step_later guarded)
qed

lemma worker_fails_parts [simp]: "ho_store (worker_fails what h) = ho_store h" "ho_subject (worker_fails what h) = ho_subject h"
  by (simp_all add: worker_fails_def)

lemma host_step_later:
  assumes "host_step X h e h'" and "reachable X (ho_store h)"
  shows "later X (ho_store h) (ho_store h')"
  using assms(1)
proof cases
  case (by_request sv received reply)
  from serve_commanded [OF by_request(2)] show ?thesis by cases (simp_all add: later_refl)
next
  case (by_start env rd)
  then show ?thesis by (simp add: worker_start_def later_refl split: sum.splits prod.splits)
next
  case by_poll
  then show ?thesis by (simp add: worker_poll_def later_refl)
next
  case (by_schedule rd now)
  then show ?thesis by (simp add: worker_schedule_def later_refl split: sum.splits)
next
  case by_take
  then show ?thesis by (simp add: worker_take_def later_refl)
next
  case (by_prepare ctx grant between env vc now rd)
  obtain r dk st where w: "worker_evidence X env vc between now ctx h = (r, dk, st)" by (metis prod_cases3)
  have "ho_store h' = st" by (simp add: by_prepare(2) worker_prepare_def w Let_def split: sum.splits option.splits)
  with worker_evidence_later [OF w by_prepare(4)] show ?thesis by simp
next
  case (by_attempt ctx grant ae now)
  obtain r h1 where r: "worker_attempt X ae now ctx grant h = (r, h1)" by fastforce
  have "ho_store h' = ho_store h1" by (simp add: by_attempt(2) worker_step_def r split: sum.splits prod.splits)
  with worker_attempt_later [OF r assms(2) by_attempt(4,5)] show ?thesis by simp
next
  case (by_settle status maintenance ctx grant)
  then show ?thesis by (simp add: worker_settle_def later_refl)
qed

section \<open>Runs\<close>

lemma host_run_ok:
  assumes "host_run X h es h'" and "host_ok X h"
  shows "host_ok X h' \<and> (\<exists>lines. ho_audit h' = ho_audit h @ lines \<and>
    length (filter failed_attempt es) + allowance h' \<le> allowance h + length (filter enabling lines))"
  using assms
proof (induction rule: host_run.induct)
  case (run_none h)
  then show ?case by auto
next
  case (run_step h es h' e h'')
  then obtain lines where l: "ho_audit h' = ho_audit h @ lines"
    "length (filter failed_attempt es) + allowance h' \<le> allowance h + length (filter enabling lines)" and ok: "host_ok X h'"
    by blast
  from host_step_ok [OF run_step.hyps(2) ok] obtain lines' where "host_ok X h''" "ho_audit h'' = ho_audit h' @ lines'"
    "(if failed_attempt e then 1 else 0) + allowance h'' \<le> allowance h' + length (filter enabling lines')"
    by blast
  with l show ?case by (intro conjI exI [of _ "lines @ lines'"]) auto
qed

lemma host_run_later:
  assumes "host_run X h es h'" and "reachable X (ho_store h)"
  shows "later X (ho_store h) (ho_store h')"
  using assms
proof (induction rule: host_run.induct)
  case (run_step h es h' e h'')
  then have l: "later X (ho_store h) (ho_store h')" by blast
  from later_trans [OF l host_step_later [OF run_step.hyps(2) reachable_later [OF run_step.prems l]]] show ?case .
qed (simp add: later_refl)

lemma host_start_ok:
  assumes "host_start X env s opts dk st = (Inr h, st')"
  shows "host_ok X h" and "allowance h = 0" and "ho_audit h = [''start-paused'']" and "ho_store h = st'"
    and "st' = st \<or> create X st (op_subject opts) default_limits (hs_now s) (mk_obj []) (hs_nonce s) = Inr st'"
    and "verify X (hs_sqlite_ok s) st' (op_subject opts) = Inr ()"
proof -
  from assms obtain caps vision where h: "\<exists>guarded vs. h = \<lparr>ho_subject = op_subject opts, ho_db = op_db opts,
                ho_executor = (if op_demo opts then ''demo'' else op_executor opts), ho_caps = caps, ho_guarded = guarded,
                ho_remote = op_remote opts, ho_vision = op_vision opts, ho_vision_settings = vision, ho_eye = None,
                ho_registry = \<lparr>rg_entries = [], rg_sessions = [], rg_max_sessions = 32\<rparr>, ho_verified = [], ho_store = st',
                ho_disk = dk, ho_audit = [''start-paused''], ho_control = new_control, ho_worker = Starting\<rparr>"
    and st: "st' = st \<or> create X st (op_subject opts) default_limits (hs_now s) (mk_obj []) (hs_nonce s) = Inr st'"
    and v: "verify X (hs_sqlite_ok s) st' (op_subject opts) = Inr ()"
    by (auto simp: host_start_def bindR_Inr require_Inr Let_def split: sum.splits prod.splits if_splits)
  from h st v show "host_ok X h" and "allowance h = 0" and "ho_audit h = [''start-paused'']" and "ho_store h = st'"
    and "st' = st \<or> create X st (op_subject opts) default_limits (hs_now s) (mk_obj []) (hs_nonce s) = Inr st'"
    and "verify X (hs_sqlite_ok s) st' (op_subject opts) = Inr ()"
    by (auto simp: host_ok_def allowance_def new_control_def)
qed

lemma created_reachable:
  assumes "reachable X st" and "st' = st \<or> create X st s lim now init nonce = Inr st'"
  shows "reachable X st'"
  using assms by_create unfolding reachable_def by (metis rtranclp.rtrancl_into_rtrancl)

section \<open>The properties\<close>


text \<open>
  C34. The host's bookkeeping is exact: at every moment the host says that it is running
  exactly when its worker has taken evidence for an attempt it has not reported yet;
  staged evidence is always a valid admission context, and none is staged while an attempt
  is in flight, so an attempt never picks up evidence meant for another one. Everything
  that the host has done to the store is a history of kernel operations.
\<close>

theorem host_invariant:
  assumes "reachable X st" and "host_start X env s opts dk st = (Inr h, st')" and "host_run X h es h'"
  shows "(ct_running (ho_control h') = (held (ho_worker h') \<noteq> None)) \<and>
    validate_admission_context X (ct_context (ho_control h')) = Inr () \<and>
    \<not> (ct_running (ho_control h') \<and> ct_context (ho_control h') \<noteq> JNull) \<and> later X st' (ho_store h') \<and> reachable X (ho_store h')"
proof -
  have "host_ok X h'" using host_run_ok [OF assms(3) host_start_ok(1) [OF assms(2)]] by blast
  moreover have r: "reachable X (ho_store h)"
    using created_reachable [OF assms(1) host_start_ok(5) [OF assms(2)]] host_start_ok(4) [OF assms(2)] by simp
  moreover have "later X (ho_store h) (ho_store h')" by (rule host_run_later [OF assms(3) r])
  ultimately show ?thesis using host_start_ok(4) [OF assms(2)] reachable_later [OF r] by (auto simp: host_ok_def)
qed

lemma paused_step:
  assumes "host_step X h e h'" and "host_ok X h" and "ct_paused (ho_control h)" and "\<not> ct_running (ho_control h)"
  shows "length (filter enabling (ho_audit h')) > length (filter enabling (ho_audit h)) \<or>
    ct_paused (ho_control h') \<and> \<not> ct_running (ho_control h') \<and> same_ledger (ho_store h) (ho_store h') \<and>
    filter enabling (ho_audit h') = filter enabling (ho_audit h)"
  using assms(1)
proof cases
  case (by_request sv received reply)
  from serve_commanded [OF by_request(2)] show ?thesis using assms(3,4)
    by cases (auto simp: enabling_def evidence_line_def)
next
  case (by_start env rd)
  then show ?thesis using assms(3,4) by (simp add: worker_start_def worker_fails_def split: sum.splits prod.splits)
next
  case by_poll
  then show ?thesis using assms(3,4) by (simp add: worker_poll_def)
next
  case (by_schedule rd now)
  then show ?thesis using assms(3,4) by (simp add: worker_schedule_def worker_fails_def split: sum.splits)
next
  case by_take
  then show ?thesis using assms(3,4) by (simp add: worker_take_def)
qed (use assms(2,4) in \<open>simp_all add: host_ok_def\<close>)

text \<open>
  A paused host admits nothing: from the moment a host is paused with no attempt in
  flight, for as long as no command in its audit allows an attempt, it stays paused and the
  attempts, commits, memory and subjects of its store stay exactly as they are; its clients
  can only queue occasions.
\<close>

lemma paused_admits_nothing:
  assumes "host_start X env s opts dk st = (Inr h, st')" and "host_run X h es h1"
    and "ct_paused (ho_control h1)" and "\<not> ct_running (ho_control h1)"
    and "host_run X h1 es' h2" and "filter enabling (ho_audit h2) = filter enabling (ho_audit h1)"
  shows "ct_paused (ho_control h2) \<and> \<not> ct_running (ho_control h2) \<and> same_ledger (ho_store h1) (ho_store h2)"
proof -
  have "host_ok X h1" using host_run_ok [OF assms(2) host_start_ok(1) [OF assms(1)]] by blast
  with assms(5,3,4) have "length (filter enabling (ho_audit h2)) > length (filter enabling (ho_audit h1)) \<or>
    ct_paused (ho_control h2) \<and> \<not> ct_running (ho_control h2) \<and> same_ledger (ho_store h1) (ho_store h2) \<and>
    filter enabling (ho_audit h2) = filter enabling (ho_audit h1)"
  proof (induction rule: host_run.induct)
    case (run_none h)
    then show ?case by simp
  next
    case (run_step h es h' e h'')
    have ok: "host_ok X h'" using host_run_ok [OF run_step.hyps(1) run_step.prems(3)] by blast
    from host_step_ok [OF run_step.hyps(2) ok] have "length (filter enabling (ho_audit h'')) \<ge> length (filter enabling (ho_audit h'))"
      by auto
    with run_step paused_step [OF run_step.hyps(2) ok] show ?case by (auto dest: same_ledger_trans)
  qed
  with assms(6) show ?thesis by simp
qed

text \<open>
  Evidence that an attempt has taken is dropped when the operator pauses the host while the
  image of the request is being observed: the worker goes back to polling, nothing is
  staged any more, and neither the last status nor the error text says so.
\<close>

lemma evidence_dropped:
  assumes "ho_worker h = Preparing ctx grant" and "host_ok X h" and "ct_paused (ho_control h)"
    and "worker_evidence X env vc between now ctx h = (Inr (Some merged), dk, st)"
  shows "\<exists>c. ho_control (worker_prepare X env vc between rd now ctx grant h) = c \<and> ct_context c = JNull \<and> ct_grant c = JNull \<and>
     ct_last c = ct_last (ho_control h) \<and> ct_error c = ct_error (ho_control h) \<and>
     ho_worker (worker_prepare X env vc between rd now ctx grant h) = Polling"
  using assms by (auto simp: worker_prepare_def host_ok_def)

end
