(* ===== verification/Cogg_Host_Run.thy ===== *)
theory Cogg_Host_Run
  imports Cogg_Host_Facts Cogg_Perception_Run
begin

text \<open>
  A demonstration host started on the committed store of \<open>Cogg_Run\<close>, resumed and paused by
  its operator: the hypotheses of the properties of \<open>Cogg_Host_Facts\<close> hold on it.
\<close>

definition demo_options :: options where
  "demo_options = no_options\<lparr>op_db := ''db'', op_subject := ''s'', op_socket := ''socket'', op_demo := True\<rparr>"

definition smooth_start :: startup where
  "smooth_start = \<lparr>hs_private_directory = True, hs_socket_lock = True, hs_db_lock = True, hs_db_exists = True, hs_header_opened = True,
     hs_application_id = Some 1129269063, hs_user_version = Some 5, hs_config_opened = False, hs_config = Inl JsonException,
     hs_now = 0, hs_nonce = ''n'', hs_sqlite_ok = True, hs_path_there = False, hs_owned_socket = False, hs_short_path = True,
     hs_refused = False, hs_unlinked = False, hs_listener = True, hs_bound = True, hs_restricted = True, hs_audit_opened = True,
     hs_audit_ok = True\<rparr>"

definition demo_host :: host where
  "demo_host = \<lparr>ho_subject = ''s'', ho_db = ''db'', ho_executor = ''demo'',
     ho_caps = \<lparr>cap_remote = False, cap_exact_tokens = False, cap_checkpoint = False, cap_cancellation = False\<rparr>,
     ho_guarded = False, ho_remote = False, ho_vision = [], ho_vision_settings = JNull, ho_eye = None,
     ho_registry = \<lparr>rg_entries = [], rg_sessions = [], rg_max_sessions = 32\<rparr>, ho_verified = [], ho_store = run_committed,
     ho_disk = (\<lambda>_. None), ho_audit = [''start-paused''], ho_control = new_control, ho_worker = Starting\<rparr>"

lemma demo_start: "host_start sample_ext http_down smooth_start demo_options (\<lambda>_. None) run_committed = (Inr demo_host, run_committed)"
proof -
  have sn: "snapshot run_committed ''s'' = Inr (row_snapshot run_final_subject)"
    by (simp add: snapshot_def find_subject_def)
  have "\<not> obj_has (sn_memory (row_snapshot run_final_subject)) ''self.profile''"
    by (simp add: row_snapshot_def obj_has_def)
  then show ?thesis
    by (simp add: host_start_def smooth_start_def demo_options_def no_options_def current_database_only_def host_executors_def
        run_verify sn open_socket_def demo_host_def)
qed

definition operator_env :: serve_env where
  "operator_env = \<lparr>sv_now = 0, sv_sampled = 0, sv_sqlite_ok = True, sv_audit_ok = True, sv_reads = (\<lambda>_ u. u),
     sv_readings = run_readings, sv_image = small_file, sv_directory = ready_directory, sv_publish = quick_publish\<rparr>"

definition command :: "string \<Rightarrow> json" where
  "command op = mk_obj [(''protocol'', JStr ''cogg:host/v1''), (''op'', JStr op)]"

lemma serve_switch:
  assumes "op = ''pause'' \<or> op = ''resume''" and "ct_last (ho_control h) \<noteq> ''worker stopped''"
  shows "\<exists>reply. serve sample_ext operator_env (Inr (command op)) h =
    (reply, set_control (\<lambda>c. c\<lparr>ct_paused := (op = ''pause'')\<rparr>) (h\<lparr>ho_audit := ho_audit h @ [op]\<rparr>))"
  using assms
  by (auto simp: serve_def command_def mk_obj_access string_at_def host_answer_def host_switch_def log_operator_def operator_env_def
      Let_def split: sum.splits)

definition resumed :: "host \<Rightarrow> host" where
  "resumed h = set_control (\<lambda>c. c\<lparr>ct_paused := False\<rparr>) (h\<lparr>ho_audit := ho_audit h @ [''resume'']\<rparr>)"

definition paused :: "host \<Rightarrow> host" where
  "paused h = set_control (\<lambda>c. c\<lparr>ct_paused := True\<rparr>) (h\<lparr>ho_audit := ho_audit h @ [''pause'']\<rparr>)"

lemma demo_resumed: "\<exists>es. host_run sample_ext demo_host es (resumed demo_host)"
proof -
  obtain reply where "serve sample_ext operator_env (Inr (command ''resume'')) demo_host = (reply, resumed demo_host)"
    using serve_switch [of "''resume''" demo_host] by (auto simp: resumed_def demo_host_def new_control_def)
  from run_step [OF run_none by_request [OF this]] show ?thesis by blast
qed

lemma demo_paused: "\<exists>es. host_run sample_ext (resumed demo_host) es (paused (resumed demo_host))"
proof -
  obtain reply where "serve sample_ext operator_env (Inr (command ''pause'')) (resumed demo_host) = (reply, paused (resumed demo_host))"
    using serve_switch [of "''pause''" "resumed demo_host"] by (auto simp: paused_def resumed_def demo_host_def new_control_def)
  from run_step [OF run_none by_request [OF this]] show ?thesis by blast
qed


theorem host_invariant_witness: "reachable sample_ext (ho_store (resumed demo_host)) \<and> \<not> ct_running (ho_control (resumed demo_host))"
proof -
  obtain es where "host_run sample_ext demo_host es (resumed demo_host)" using demo_resumed by blast
  from host_invariant [OF run_reachable demo_start this] show ?thesis by (simp add: resumed_def demo_host_def)
qed

theorem paused_admits_nothing_witness: "ct_paused (ho_control (paused demo_host)) \<and>
   same_ledger (ho_store demo_host) (ho_store (paused demo_host))"
proof -
  obtain reply where "serve sample_ext operator_env (Inr (command ''pause'')) demo_host = (reply, paused demo_host)"
    using serve_switch [of "''pause''" demo_host] by (auto simp: paused_def demo_host_def new_control_def)
  from run_step [OF run_none by_request [OF this]] have "\<exists>es. host_run sample_ext demo_host es (paused demo_host)" by blast
  then obtain es where "host_run sample_ext demo_host es (paused demo_host)" by blast
  moreover have "ct_paused (ho_control demo_host)" "\<not> ct_running (ho_control demo_host)"
    "filter enabling (ho_audit (paused demo_host)) = filter enabling (ho_audit demo_host)"
    by (simp_all add: demo_host_def new_control_def paused_def enabling_def)
  ultimately show ?thesis using paused_admits_nothing [OF demo_start run_none] by blast
qed

end
