(* ===== verification/Cogg_Llama_Facts.thy ===== *)
theory Cogg_Llama_Facts
  imports Cogg_Llama
begin

text \<open>
  The cache of the llama.cpp executor is exact and invisible: in every history of
  inferences, commits and releases the native context has evaluated exactly the tokens the
  executor believes it has, checkpoints from disk included, and an inference gives the
  outcome that one without any cache gives.
\<close>

section \<open>What is relied on\<close>

text \<open>The documented behaviour of libllama: \<open>ev c\<close> are the tokens that the sequence of the
  context \<open>c\<close> has evaluated, and the next token depends on nothing else in the context.\<close>

definition native_ok :: "'c native \<Rightarrow> ('c \<Rightarrow> int list) \<Rightarrow> bool" where
  "native_ok N ev \<longleftrightarrow> (\<forall>c. nt_create N = Some c \<longrightarrow> ev c = []) \<and> (\<forall>c ts. ev (nt_decode N c ts) = ev c @ ts) \<and>
     (\<forall>c k c'. nt_remove N c k = (True, c') \<longrightarrow> ev c' = take k (ev c)) \<and> (\<forall>c. ev (nt_clear N c) = []) \<and>
     (\<forall>c0 c b c' n. nt_save N c0 (nt_bytes N c0) = (nt_bytes N c0, b) \<longrightarrow> nt_load N c b = (n, c') \<longrightarrow> n = length b \<longrightarrow> ev c' = ev c0)"

definition sampled_by :: "'c native \<Rightarrow> ('c \<Rightarrow> int list) \<Rightarrow> (string \<Rightarrow> string \<Rightarrow> int list \<Rightarrow> int list \<Rightarrow> int) \<Rightarrow> bool" where
  "sampled_by N ev S \<longleftrightarrow> (\<forall>rules root history c. nt_sample N rules root history c = S rules root history (ev c))"

text \<open>A disk whose checkpoints load as the tokens they list; a temporary file is not one.\<close>

definition kv_path :: "string \<Rightarrow> bool" where
  "kv_path path \<longleftrightarrow> (\<exists>stem. path = stem @ ''.coggkv'')"

definition honest_disk :: "ext \<Rightarrow> 'c native \<Rightarrow> (string \<Rightarrow> json res) \<Rightarrow> nat \<Rightarrow> ('c \<Rightarrow> int list) \<Rightarrow> disk \<Rightarrow> bool" where
  "honest_disk X N parse mx ev dk \<longleftrightarrow> (\<forall>path cp c n c' state wanted limit vocabulary tokens.
     kv_path path \<longrightarrow> read_checkpoint parse X dk path mx = Inr (Some cp) \<longrightarrow>
     checkpoint_tokens state wanted limit vocabulary (cp_metadata cp) = Inr tokens \<longrightarrow>
     nt_load N c (cp_state cp) = (n, c') \<longrightarrow> n = length (cp_state cp) \<longrightarrow> ev c' = tokens)"

section \<open>Reasoning about actions\<close>

text \<open>Partial correctness over the context and the cached tokens; an action that throws is
  followed by a release.\<close>

definition triple :: "('c option \<Rightarrow> int list \<Rightarrow> bool) \<Rightarrow> ('c, 'a) act \<Rightarrow> ('a \<Rightarrow> 'c option \<Rightarrow> int list \<Rightarrow> bool) \<Rightarrow> bool" where
  "triple P m Q \<longleftrightarrow> (\<forall>s a s'. P (ll_context s) (ll_cached s) \<longrightarrow> m s = (Inr a, s') \<longrightarrow> Q a (ll_context s') (ll_cached s'))"

lemma triple_ret [intro]: "(\<And>c ts. P c ts \<Longrightarrow> Q a c ts) \<Longrightarrow> triple P (retL a) Q"
  by (simp add: triple_def retL_def)

lemma triple_throw [intro, simp]: "triple P (throwL e) Q"
  by (simp add: triple_def throwL_def)

lemma triple_bind: "triple P m R \<Longrightarrow> (\<And>a. triple (R a) (f a) Q) \<Longrightarrow> triple P (bindL m f) Q"
  unfolding triple_def bindL_def by (fastforce split: prod.splits sum.splits)

lemma triple_lift: "(\<And>a c ts. r = Inr a \<Longrightarrow> P c ts \<Longrightarrow> Q a c ts) \<Longrightarrow> triple P (liftL r) Q"
  by (simp add: triple_def liftL_def)

lemma triple_modify: "(\<And>s. P (ll_context s) (ll_cached s) \<Longrightarrow> Q () (ll_context (f s)) (ll_cached (f s))) \<Longrightarrow> triple P (modifyL f) Q"
  by (simp add: triple_def modifyL_def)

lemma triple_stats: "triple P (set_stats f) (\<lambda>_. P)"
  unfolding set_stats_def by (rule triple_modify) simp

lemma triple_deadline: "triple P (check_deadline env) (\<lambda>_. P)"
  by (auto simp: triple_def check_deadline_def Let_def split: if_splits)

lemma triple_handle: "triple P m Q \<Longrightarrow> (\<And>e. triple (\<lambda>_ _. True) (f e) Q) \<Longrightarrow> triple P (handleL m f) Q"
  unfolding triple_def handleL_def by (fastforce split: prod.splits sum.splits)

lemma triple_context:
  assumes f: "\<And>c. triple (\<lambda>ctx ts. ctx = Some c \<and> P ctx ts) (f c) Q"
  shows "triple P (with_context f) Q"
proof (unfold triple_def, intro allI impI)
  fix s a s'
  assume p: "P (ll_context s) (ll_cached s)" and r: "with_context f s = (Inr a, s')"
  from r obtain c where "ll_context s = Some c" "f c s = (Inr a, s')" by (auto simp: with_context_def split: option.splits)
  with f [of c] p show "Q a (ll_context s') (ll_cached s')" unfolding triple_def by blast
qed

lemma triple_pre: "triple P' m Q \<Longrightarrow> (\<And>c ts. P c ts \<Longrightarrow> P' c ts) \<Longrightarrow> triple P m Q"
  by (auto simp: triple_def)

lemma triple_post: "triple P m Q' \<Longrightarrow> (\<And>a c ts. Q' a c ts \<Longrightarrow> Q a c ts) \<Longrightarrow> triple P m Q"
  by (auto simp: triple_def)

lemma triple_fact: "(B \<Longrightarrow> triple P m Q) \<Longrightarrow> triple (\<lambda>c ts. B \<and> P c ts) m Q"
  by (auto simp: triple_def)

section \<open>The cache\<close>

definition exact :: "('c \<Rightarrow> int list) \<Rightarrow> 'c option \<Rightarrow> int list \<Rightarrow> bool" where
  "exact ev ctx ts \<longleftrightarrow> (case ctx of None \<Rightarrow> ts = [] | Some c \<Rightarrow> ev c = ts)"

definition live :: "('c \<Rightarrow> int list) \<Rightarrow> 'c option \<Rightarrow> int list \<Rightarrow> bool" where
  "live ev ctx ts \<longleftrightarrow> (\<exists>c. ctx = Some c \<and> ev c = ts)"

definition evaluated :: "('c \<Rightarrow> int list) \<Rightarrow> int list \<Rightarrow> (int list \<Rightarrow> bool) \<Rightarrow> 'c option \<Rightarrow> int list \<Rightarrow> bool" where
  "evaluated ev us V ctx ts \<longleftrightarrow> V ts \<and> (\<exists>c. ctx = Some c \<and> ev c = us)"

lemma live_exact: "live ev ctx ts \<Longrightarrow> exact ev ctx ts"
  by (auto simp: live_def exact_def)

lemma release_exact [simp]: "exact ev (ll_context (release s)) (ll_cached (release s))"
  by (simp add: release_def exact_def)

lemma triple_create:
  assumes "native_ok N ev"
  shows "triple (exact ev) (create_context N env) (\<lambda>_. live ev)"
proof -
  have n: "ev c = []" if "nt_create N = Some c" for c using assms that by (simp add: native_ok_def)
  show ?thesis
    unfolding triple_def create_context_def bindL_def check_deadline_def Let_def
    by (auto simp: exact_def live_def n split: if_splits option.splits)
qed

lemma triple_decode:
  assumes "native_ok N ev"
  shows "triple (evaluated ev us V) (decode N env ts) (\<lambda>_. evaluated ev (us @ ts) V)"
proof -
  have n: "ev (nt_decode N c ts) = ev c @ ts" for c using assms by (simp add: native_ok_def)
  show ?thesis
    unfolding triple_def decode_def bindL_def check_deadline_def with_context_def throwL_def Let_def
    by (auto simp: evaluated_def n split: if_splits option.splits)
qed

lemma triple_decode_all:
  assumes "native_ok N ev" and "b \<noteq> 0"
  shows "triple (evaluated ev us V) (decode_all N env b ts) (\<lambda>_. evaluated ev (us @ ts) V)"
proof (induction "length ts" arbitrary: us ts rule: less_induct)
  case less
  show ?case
  proof (cases "ts = []")
    case True
    then show ?thesis by (auto simp: decode_all.simps)
  next
    case False
    have "triple (evaluated ev (us @ take b ts) V) (decode_all N env b (drop b ts)) (\<lambda>_. evaluated ev ((us @ take b ts) @ drop b ts) V)"
      using False assms(2) by (intro less) simp
    from triple_bind [OF triple_decode [OF assms(1)] this] show ?thesis
      using False assms(2) by (subst decode_all.simps) simp
  qed
qed

lemma common_prefix_take: "take (common_prefix xs ys) xs = take (common_prefix xs ys) ys" and common_prefix_le: "common_prefix xs ys \<le> length xs"
  by (induction xs ys rule: common_prefix.induct) auto

lemma triple_reuse:
  assumes "native_ok N ev"
  shows "triple (live ev) (reuse N tokens) (\<lambda>n. evaluated ev (take n tokens) (\<lambda>_. True))"
proof -
  have r: "ev c' = take k (ev c)" if "nt_remove N c k = (True, c')" for c k c' using assms that by (simp add: native_ok_def)
  have z: "ev (nt_clear N c) = []" for c using assms by (simp add: native_ok_def)
  have t: "take (min (common_prefix xs tokens) m) xs = take (min (common_prefix xs tokens) m) tokens" for xs m
    using common_prefix_take [of xs tokens] by (metis min.commute take_take)
  show ?thesis
    unfolding triple_def reuse_def with_context_def Let_def
    by (auto simp: live_def evaluated_def z t dest!: r split: option.splits prod.splits bool.splits)
qed

lemma triple_lift_fact: "(\<And>a. r = Inr a \<Longrightarrow> triple P (f a) Q) \<Longrightarrow> triple P (bindL (liftL r) f) Q"
  by (cases r) (auto simp: triple_def bindL_def liftL_def)

lemma cache_path_kv: "cache_path X env opts identity p = Inr path \<Longrightarrow> kv_path path"
  by (auto simp: cache_path_def namespaced_path_def checkpoint_path_def join_path_def kv_path_def res_simps simp flip: append_assoc)

lemma triple_restore_body:
  assumes "honest_disk X N (llama_parse (le_parse env)) (lo_checkpoint opts) ev dk"
  shows "triple (live ev) (restore_body X N env opts identity dk p) (\<lambda>_. live ev)"
  unfolding restore_body_def
proof (rule triple_lift_fact)
  fix found
  assume "bindR (cache_path X env opts identity p) (\<lambda>path. read_checkpoint (llama_parse (le_parse env)) X dk path (lo_checkpoint opts)) = Inr found"
  then obtain path where path: "read_checkpoint (llama_parse (le_parse env)) X dk path (lo_checkpoint opts) = Inr found" and kv: "kv_path path"
    by (auto simp: bindR_Inr dest: cache_path_kv)
  let ?rest = "\<lambda>cp c tokens. bindL (check_deadline env) (\<lambda>_.
         case nt_load N c (cp_state cp) of (n, c') \<Rightarrow>
         bindL (modifyL (\<lambda>s. s\<lparr>ll_context := Some c'\<rparr>)) (\<lambda>_.
         bindL (liftL (require (n = length (cp_state cp) \<and> nt_last N c' = int (length tokens) - 1)
           ''libllama rejected checkpoint state or token positions'' (Inr ()))) (\<lambda>_.
         bindL (modifyL (\<lambda>s. s\<lparr>ll_cached := tokens, ll_subject := sn_subject (pr_state p)\<rparr>)) (\<lambda>_.
         set_stats (\<lambda>i. i\<lparr>is_read := ''restored''\<rparr>)))))"
  have rest: "triple (\<lambda>ctx ts. ctx = Some c \<and> live ev ctx ts) (?rest cp c tokens) (\<lambda>_. live ev)"
    if cp: "found = Some cp" and tokens: "checkpoint_tokens state wanted limit vocabulary (cp_metadata cp) = Inr tokens"
    for cp c tokens state wanted limit vocabulary
  proof (rule triple_bind [OF triple_deadline])
    obtain n c' where load: "nt_load N c (cp_state cp) = (n, c')" by fastforce
    have tail: "triple (\<lambda>ctx ts. ctx = Some c') (bindL (liftL (require (n = length (cp_state cp) \<and> nt_last N c' = int (length tokens) - 1)
           ''libllama rejected checkpoint state or token positions'' (Inr ()))) (\<lambda>_.
         bindL (modifyL (\<lambda>s. s\<lparr>ll_cached := tokens, ll_subject := sn_subject (pr_state p)\<rparr>)) (\<lambda>_.
         set_stats (\<lambda>i. i\<lparr>is_read := ''restored''\<rparr>)))) (\<lambda>_. live ev)"
    proof (rule triple_lift_fact)
      fix u :: unit
      assume "require (n = length (cp_state cp) \<and> nt_last N c' = int (length tokens) - 1)
           ''libllama rejected checkpoint state or token positions'' (Inr ()) = Inr u"
      then have "n = length (cp_state cp)" by (simp add: res_simps)
      with assms path kv cp tokens load have "ev c' = tokens" unfolding honest_disk_def by blast
      then show "triple (\<lambda>ctx ts. ctx = Some c') (bindL (modifyL (\<lambda>s. s\<lparr>ll_cached := tokens, ll_subject := sn_subject (pr_state p)\<rparr>))
          (\<lambda>_. set_stats (\<lambda>i. i\<lparr>is_read := ''restored''\<rparr>))) (\<lambda>_. live ev)"
        by (intro triple_bind [OF triple_modify triple_stats]) (auto simp: live_def)
    qed
    show "triple (\<lambda>ctx ts. ctx = Some c \<and> live ev ctx ts) (case nt_load N c (cp_state cp) of (n, c') \<Rightarrow>
         bindL (modifyL (\<lambda>s. s\<lparr>ll_context := Some c'\<rparr>)) (\<lambda>_.
         bindL (liftL (require (n = length (cp_state cp) \<and> nt_last N c' = int (length tokens) - 1)
           ''libllama rejected checkpoint state or token positions'' (Inr ()))) (\<lambda>_.
         bindL (modifyL (\<lambda>s. s\<lparr>ll_cached := tokens, ll_subject := sn_subject (pr_state p)\<rparr>)) (\<lambda>_.
         set_stats (\<lambda>i. i\<lparr>is_read := ''restored''\<rparr>))))) (\<lambda>_. live ev)" for a
      unfolding load prod.case
      by (rule triple_bind [where R = "\<lambda>_ ctx ts. ctx = Some c'", OF triple_modify tail]) simp
  qed
  show "triple (live ev) (case found of None \<Rightarrow> retL () | Some cp \<Rightarrow> with_context (\<lambda>c.
         bindL (liftL (checkpoint_tokens (pr_state p) (compatibility N env identity c) (lo_context opts) (nt_vocabulary N) (cp_metadata cp)))
         (?rest cp c))) (\<lambda>_. live ev)"
    by (cases found) (auto intro!: triple_context triple_lift_fact rest)
qed

lemma triple_release_create:
  assumes "native_ok N ev"
  shows "triple (\<lambda>_ _. True) (bindL (modifyL release) (\<lambda>_. create_context N env)) (\<lambda>_. live ev)"
  by (rule triple_bind [OF triple_modify triple_create [OF assms]]) simp

lemma triple_restore:
  assumes "native_ok N ev" and "honest_disk X N (llama_parse (le_parse env)) (lo_checkpoint opts) ev dk"
  shows "triple (live ev) (restore X N env opts identity dk p) (\<lambda>_. live ev)"
  unfolding restore_def
  by (auto intro!: triple_bind [OF triple_stats] triple_handle triple_restore_body [OF assms(2)] triple_release_create [OF assms(1)])

section \<open>An inference without a cache\<close>

fun cold_generate ::
    "ext \<Rightarrow> 'c native \<Rightarrow> (string \<Rightarrow> string \<Rightarrow> int list \<Rightarrow> int list \<Rightarrow> int) \<Rightarrow> llama_env \<Rightarrow> llama_options \<Rightarrow> string \<Rightarrow> string \<Rightarrow> int list \<Rightarrow>
     nat \<Rightarrow> int list \<Rightarrow> string \<Rightarrow> outcome res" where
  "cold_generate X N S env opts rules root tokens 0 history output = Inl incomplete"
| "cold_generate X N S env opts rules root tokens (Suc n) history output =
     (let token = S rules root history (tokens @ history) in
      if nt_ends N token then Inl incomplete
      else case nt_piece N token of None \<Rightarrow> Inl (Error ''token decoding failed'')
      | Some piece \<Rightarrow> bindR (judge X env opts (output @ piece)) (\<lambda>verdict. case verdict of
            Some v \<Rightarrow> Inr v
          | None \<Rightarrow> cold_generate X N S env opts rules root tokens n (history @ [token]) (output @ piece)))"

definition cold_respond ::
    "ext \<Rightarrow> 'c native \<Rightarrow> (string \<Rightarrow> string \<Rightarrow> int list \<Rightarrow> int list \<Rightarrow> int) \<Rightarrow> llama_env \<Rightarrow> llama_options \<Rightarrow> present \<Rightarrow> bool \<Rightarrow> outcome res" where
  "cold_respond X N S env opts p allow_abstention = bindR (llama_prompt N env opts p allow_abstention) (\<lambda>tokens.
     cold_generate X N S env opts (llama_grammar opts allow_abstention) (llama_root allow_abstention) tokens (lo_output opts) [] [])"

lemma triple_generate:
  assumes ok: "native_ok N ev" and sampled: "sampled_by N ev S"
  shows "triple (evaluated ev (tokens @ history) (\<lambda>ts. ts = tokens @ history))
     (generate X N env opts rules root state n history output)
     (\<lambda>v ctx ts. exact ev ctx ts \<and> cold_generate X N S env opts rules root tokens n history output = Inr v)"
proof (induction n arbitrary: history "output")
  case 0
  then show ?case by simp
next
  case (Suc n)
  let ?P = "evaluated ev (tokens @ history) (\<lambda>ts. ts = tokens @ history)"
  define Q where "Q = (\<lambda>v ctx ts. exact ev ctx ts \<and> cold_generate X N S env opts rules root tokens (Suc n) history output = Inr v)"
  have each: "triple (\<lambda>ctx ts. ctx = Some c \<and> ?P ctx ts)
     (let token = nt_sample N rules root history c in
     bindL (set_stats (\<lambda>i. i\<lparr>is_generated := Suc (is_generated i)\<rparr>)) (\<lambda>_.
     if nt_ends N token then throwL incomplete
     else case nt_piece N token of None \<Rightarrow> throwL (Error ''token decoding failed'')
     | Some piece \<Rightarrow>
         bindL (liftL (judge X env opts (output @ piece))) (\<lambda>verdict.
         case verdict of
           Some v \<Rightarrow> bindL (check_deadline env) (\<lambda>_.
             bindL (modifyL (\<lambda>s. case v of Abstains _ \<Rightarrow> s
                | Participates _ \<Rightarrow> s\<lparr>ll_head := sn_head state, ll_tick := sn_tick state\<rparr>)) (\<lambda>_. retL v))
         | None \<Rightarrow>
             bindL (decode N env [token]) (\<lambda>_.
             bindL (modifyL (\<lambda>s. s\<lparr>ll_cached := ll_cached s @ [token]\<rparr>)) (\<lambda>_.
             generate X N env opts rules root state n (history @ [token]) (output @ piece)))))) Q" for c
  proof (cases "ev c = tokens @ history")
    case False
    then show ?thesis by (auto simp: triple_def evaluated_def)
  next
    case True
    define token where "token = nt_sample N rules root history c"
    have t: "S rules root history (tokens @ history) = token"
      using sampled True by (simp add: sampled_by_def token_def)
    have told: "triple ?P (bindL (check_deadline env) (\<lambda>_. bindL (modifyL (\<lambda>s. case v of Abstains _ \<Rightarrow> s
                | Participates _ \<Rightarrow> s\<lparr>ll_head := sn_head state, ll_tick := sn_tick state\<rparr>)) (\<lambda>_. retL v))) Q"
      if "nt_piece N token = Some piece" "\<not> nt_ends N token" "judge X env opts (output @ piece) = Inr (Some v)" for piece v
    proof (rule triple_bind [OF triple_deadline], rule triple_bind [where R = "\<lambda>_. ?P"])
      show "triple ?P (modifyL (\<lambda>s. case v of Abstains _ \<Rightarrow> s
                | Participates _ \<Rightarrow> s\<lparr>ll_head := sn_head state, ll_tick := sn_tick state\<rparr>)) (\<lambda>_. ?P)"
        by (rule triple_modify) (cases v; simp)
      show "triple ?P (retL v) Q" using that t by (intro triple_ret) (auto simp: Q_def evaluated_def exact_def)
    qed
    have going: "triple ?P (bindL (decode N env [token]) (\<lambda>_. bindL (modifyL (\<lambda>s. s\<lparr>ll_cached := ll_cached s @ [token]\<rparr>)) (\<lambda>_.
             generate X N env opts rules root state n (history @ [token]) (output @ piece)))) Q"
      if "nt_piece N token = Some piece" "\<not> nt_ends N token" "judge X env opts (output @ piece) = Inr None" for piece
    proof (rule triple_bind [OF triple_decode [OF ok]], rule triple_bind [where R = "\<lambda>_. evaluated ev (tokens @ (history @ [token])) (\<lambda>ts. ts = tokens @ (history @ [token]))"])
      show "triple (evaluated ev ((tokens @ history) @ [token]) (\<lambda>ts. ts = tokens @ history)) (modifyL (\<lambda>s. s\<lparr>ll_cached := ll_cached s @ [token]\<rparr>))
        (\<lambda>_. evaluated ev (tokens @ (history @ [token])) (\<lambda>ts. ts = tokens @ (history @ [token])))"
        by (rule triple_modify) (auto simp: evaluated_def)
      show "triple (evaluated ev (tokens @ (history @ [token])) (\<lambda>ts. ts = tokens @ (history @ [token])))
        (generate X N env opts rules root state n (history @ [token]) (output @ piece)) Q"
        using Suc [of "history @ [token]" "output @ piece"] that t by (simp add: Q_def Let_def)
    qed
    have body: "triple ?P (if nt_ends N token then throwL incomplete
     else case nt_piece N token of None \<Rightarrow> throwL (Error ''token decoding failed'')
     | Some piece \<Rightarrow>
         bindL (liftL (judge X env opts (output @ piece))) (\<lambda>verdict.
         case verdict of
           Some v \<Rightarrow> bindL (check_deadline env) (\<lambda>_.
             bindL (modifyL (\<lambda>s. case v of Abstains _ \<Rightarrow> s
                | Participates _ \<Rightarrow> s\<lparr>ll_head := sn_head state, ll_tick := sn_tick state\<rparr>)) (\<lambda>_. retL v))
         | None \<Rightarrow>
             bindL (decode N env [token]) (\<lambda>_.
             bindL (modifyL (\<lambda>s. s\<lparr>ll_cached := ll_cached s @ [token]\<rparr>)) (\<lambda>_.
             generate X N env opts rules root state n (history @ [token]) (output @ piece))))) Q"
      by (cases "nt_piece N token") (auto intro!: triple_lift_fact told going split: option.splits)
    show ?thesis unfolding Let_def token_def [symmetric]
      by (rule triple_bind [OF triple_stats], rule triple_pre [OF body]) simp
  qed
  show ?case unfolding generate.simps Q_def [symmetric] by (rule triple_bind [OF triple_deadline triple_context [OF each]])
qed

section \<open>One inference\<close>

lemma triple_cold: "triple P (\<lambda>s. (Inr (ll_context s = None), s)) (\<lambda>_. P)"
  by (simp add: triple_def)

lemma triple_respond_body:
  assumes ok: "native_ok N ev" and sampled: "sampled_by N ev S" and batch: "lo_batch opts \<noteq> 0"
    and honest: "honest_disk X N (llama_parse (le_parse env)) (lo_checkpoint opts) ev dk"
  shows "triple (exact ev) (respond_body X N env opts identity dk p allow)
     (\<lambda>v ctx ts. exact ev ctx ts \<and> cold_respond X N S env opts p allow = Inr v)"
  unfolding respond_body_def
proof (rule triple_bind [OF triple_deadline], rule triple_lift_fact, rule triple_bind [OF triple_stats],
    rule triple_bind [where R = "\<lambda>_. exact ev"], rule triple_modify, (simp; fail), rule triple_bind [OF triple_cold],
    rule triple_bind [OF triple_create [OF ok]])
  fix tokens cold
  assume tokens: "llama_prompt N env opts p allow = Inr tokens"
  let ?loop = "generate X N env opts (llama_grammar opts allow) (llama_root allow) (pr_state p) (lo_output opts) [] []"
  let ?tail = "bindL (modifyL (\<lambda>s. s\<lparr>ll_cached := tokens, ll_subject := sn_subject (pr_state p)\<rparr>)) (\<lambda>_.
     bindL (liftL (require (nt_sampler N) ''sampler allocation failed'' (Inr ()))) (\<lambda>_.
     bindL (liftL (require (nt_rules N (llama_grammar opts allow) (llama_root allow))
       ''transition grammar initialization failed'' (Inr ()))) (\<lambda>_. ?loop)))"
  define Q where "Q = (\<lambda>v ctx ts. exact ev ctx ts \<and> cold_respond X N S env opts p allow = Inr v)"
  have final: "triple (evaluated ev tokens (\<lambda>ts. ts = tokens)) ?loop Q"
    using triple_generate [OF ok sampled, of tokens "[]" X env opts "llama_grammar opts allow" "llama_root allow" "pr_state p" "lo_output opts" "[]"]
    by (simp add: Q_def cold_respond_def tokens)
  have tail: "triple (evaluated ev tokens (\<lambda>_. True)) ?tail Q"
  proof (rule triple_bind [where R = "\<lambda>_. evaluated ev tokens (\<lambda>ts. ts = tokens)"])
    show "triple (evaluated ev tokens (\<lambda>_. True)) (modifyL (\<lambda>s. s\<lparr>ll_cached := tokens, ll_subject := sn_subject (pr_state p)\<rparr>))
       (\<lambda>_. evaluated ev tokens (\<lambda>ts. ts = tokens))"
      by (rule triple_modify) (simp add: evaluated_def)
    show "triple (evaluated ev tokens (\<lambda>ts. ts = tokens)) (bindL (liftL (require (nt_sampler N) ''sampler allocation failed'' (Inr ()))) (\<lambda>_.
     bindL (liftL (require (nt_rules N (llama_grammar opts allow) (llama_root allow))
       ''transition grammar initialization failed'' (Inr ()))) (\<lambda>_. ?loop))) Q"
      by (intro triple_lift_fact final)
  qed
  have rest: "triple (live ev) (bindL (reuse N tokens) (\<lambda>common. bindL (set_stats (\<lambda>i. i\<lparr>is_reused := common\<rparr>)) (\<lambda>_.
     bindL (decode_all N env (lo_batch opts) (drop common tokens)) (\<lambda>_. ?tail)))) Q"
  proof (rule triple_bind [OF triple_reuse [OF ok]], rule triple_bind [OF triple_stats])
    fix common
    show "triple (evaluated ev (take common tokens) (\<lambda>_. True)) (bindL (decode_all N env (lo_batch opts) (drop common tokens)) (\<lambda>_. ?tail)) Q"
      using triple_decode_all [OF ok batch, of "take common tokens" "\<lambda>_. True" env "drop common tokens"]
      by (intro triple_bind [OF _ tail]) simp
  qed
  show "triple (live ev) (bindL (if cold then restore X N env opts identity dk p else retL ()) (\<lambda>_.
     bindL (reuse N tokens) (\<lambda>common. bindL (set_stats (\<lambda>i. i\<lparr>is_reused := common\<rparr>)) (\<lambda>_.
     bindL (decode_all N env (lo_batch opts) (drop common tokens)) (\<lambda>_. ?tail))))) (\<lambda>v ctx ts. exact ev ctx ts \<and> cold_respond X N S env opts p allow = Inr v)"
    unfolding Q_def [symmetric]
    by (rule triple_bind [OF _ rest]) (use triple_restore [OF ok honest] in \<open>auto\<close>)
qed

lemma llama_respond_effect:
  assumes "native_ok N ev" and "sampled_by N ev S" and "lo_batch opts \<noteq> 0"
    and "honest_disk X N (llama_parse (le_parse env)) (lo_checkpoint opts) ev dk" and "exact ev (ll_context s) (ll_cached s)"
    and "llama_respond X N env opts identity dk p allow s = (r, s')"
  shows "exact ev (ll_context s') (ll_cached s')" and "r = Inr v \<Longrightarrow> cold_respond X N S env opts p allow = Inr v"
    and "r = Inl e \<Longrightarrow> ll_context s' = None \<and> ll_cached s' = [] \<and> ll_head s' = []"
proof -
  let ?s = "s\<lparr>ll_stats := (if lo_directory opts = [] then no_stats
          else no_stats\<lparr>is_read := ''resident'', is_write := ''not_attempted''\<rparr>), ll_head := [], ll_tick := - 1\<rparr>"
  obtain r1 s1 where b: "respond_body X N env opts identity dk p allow ?s = (r1, s1)" by fastforce
  have t: "exact ev (ll_context s1) (ll_cached s1) \<and> cold_respond X N S env opts p allow = Inr v" if "r1 = Inr v" for v
  proof -
    have e: "exact ev (ll_context ?s) (ll_cached ?s)" using assms(5) by simp
    from triple_respond_body [OF assms(1-4), of identity p allow] show ?thesis
      unfolding triple_def using e b [unfolded that] by blast
  qed
  have "(r, s') = (case r1 of Inl e \<Rightarrow> (Inl e, release s1) | Inr v \<Rightarrow> (Inr v, s1))"
    using assms(6) unfolding llama_respond_def handleL_def b by (cases r1) auto
  with t show "exact ev (ll_context s') (ll_cached s')" and "r = Inr v \<Longrightarrow> cold_respond X N S env opts p allow = Inr v"
    and "r = Inl e \<Longrightarrow> ll_context s' = None \<and> ll_cached s' = [] \<and> ll_head s' = []"
    by (cases r1; simp add: release_def exact_def)+
qed

section \<open>Checkpoints written after a commit\<close>

text \<open>A parser that reads back what was printed, when it reads it at all.\<close>

definition reads_back :: "ext \<Rightarrow> (string \<Rightarrow> json res) \<Rightarrow> bool" where
  "reads_back X parse \<longleftrightarrow> (\<forall>j j'. parse (x_dump X j) = Inr j' \<longrightarrow> j' = j)"

lemma honest_elsewhere:
  assumes "honest_disk X N parse mx ev d" and "elsewhere tmp d d'" and "\<not> kv_path tmp"
  shows "honest_disk X N parse mx ev d'"
proof -
  have "read_checkpoint parse X d' path mx = read_checkpoint parse X d path mx" if "kv_path path" for path
    using that assms(2,3) by (auto simp: read_checkpoint_def elsewhere_def)
  with assms(1) show ?thesis unfolding honest_disk_def by metis
qed

lemma honest_update:
  assumes "honest_disk X N parse mx ev d"
    and "\<And>cp c n c' state wanted limit vocabulary tokens.
     decode_checkpoint parse X b mx = Inr cp \<Longrightarrow> checkpoint_tokens state wanted limit vocabulary (cp_metadata cp) = Inr tokens \<Longrightarrow>
     nt_load N c (cp_state cp) = (n, c') \<Longrightarrow> n = length (cp_state cp) \<Longrightarrow> ev c' = tokens"
  shows "honest_disk X N parse mx ev (d(path \<mapsto> Regular b))"
  unfolding honest_disk_def
proof (intro allI impI)
  fix q cp c n c' state wanted limit vocabulary tokens
  assume a: "kv_path q" "read_checkpoint parse X (d(path \<mapsto> Regular b)) q mx = Inr (Some cp)"
    "checkpoint_tokens state wanted limit vocabulary (cp_metadata cp) = Inr tokens"
    "nt_load N c (cp_state cp) = (n, c')" "n = length (cp_state cp)"
  show "ev c' = tokens"
  proof (cases "q = path")
    case True
    with a(2) have "decode_checkpoint parse X b mx = Inr cp" by (auto simp: read_checkpoint_def bindR_Inr)
    from assms(2) [OF this a(3-5)] show ?thesis .
  next
    case False
    with a(2) have "read_checkpoint parse X d q mx = Inr (Some cp)" by (simp add: read_checkpoint_def)
    with a assms(1) show ?thesis unfolding honest_disk_def by blast
  qed
qed

lemma frame_inject:
  assumes "frame X h s = frame X h' s'" and "length h \<le> max_metadata" and "length h' \<le> max_metadata"
    and "length (x_sha256 X h) = 32" "length (x_sha256 X (text_of_octets s)) = 32"
    and "length (x_sha256 X h') = 32" "length (x_sha256 X (text_of_octets s')) = 32"
  shows "h = h'" and "s = s'"
proof -
  note f = frame_parts [OF assms(4,5)] and f' = frame_parts [OF assms(6,7)]
  have "put_u64 (word_of_nat (length h)) = put_u64 (word_of_nat (length h'))"
    using f(3) f'(3) assms(1) by metis
  then have "(word_of_nat (length h) :: 64 word) = word_of_nat (length h')" by (metis get_put_u64)
  moreover have "length h \<le> 4294967296" "length h' \<le> 4294967296" using assms(2,3) by (simp_all add: max_metadata_def)
  ultimately have l: "length h = length h'" by (metis length_word)
  have "octets h = octets h'" using f(7) f'(7) assms(1) l by metis
  then show "h = h'" by (metis text_of_octets_octets)
  show "s = s'" using f(8) f'(8) assms(1) l by metis
qed

lemma mapR_check_tokens: "mapR (check_token vocabulary) (map JInt ts) = Inr us \<Longrightarrow> us = ts"
  by (induction ts arbitrary: us) (auto simp: check_token_def res_simps)

lemma cache_checkpoint_tokens:
  assumes "checkpoint_tokens state wanted limit vocabulary (cp_metadata (cache_checkpoint N env identity p sn c tokens b)) = Inr us"
  shows "us = tokens"
proof -
  have "jat (cp_metadata (cache_checkpoint N env identity p sn c tokens b)) ''tokens'' = Inr (JArr (map JInt tokens))"
    by (simp add: cache_checkpoint_def jat_mk_obj)
  with assms have "mapR (check_token vocabulary) (map JInt tokens) = Inr us"
    by (auto simp: checkpoint_tokens_def res_simps)
  then show ?thesis by (rule mapR_check_tokens)
qed

lemma llama_committed_state: "llama_committed X N env opts identity dk p sn s = (r, s', ds) \<Longrightarrow>
  ll_context s' = ll_context s \<and> ll_cached s' = ll_cached s"
  by (auto simp: llama_committed_def Let_def split: if_splits option.splits prod.splits sum.splits)

lemma llama_committed_write:
  assumes "llama_committed X N env opts identity dk p sn s = (r, s', ds)"
  obtains "ds = [dk]"
  | c b path r' where "ll_context s = Some c" and "nt_save N c (nt_bytes N c) = (nt_bytes N c, b)"
    and "cache_path X env opts identity p = Inr path"
    and "write_checkpoint X (le_fault env) (le_temporary env) dk path
        (cache_checkpoint N env identity p sn c (ll_cached s) b) (lo_checkpoint opts) = (r', ds)"
  using assms
  by (auto simp: llama_committed_def Let_def split: if_splits option.splits prod.splits sum.splits)

lemma llama_committed_honest:
  assumes ok: "native_ok N ev" and rb: "reads_back X (llama_parse (le_parse env))" and e: "exact ev (ll_context s) (ll_cached s)"
    and honest: "honest_disk X N (llama_parse (le_parse env)) (lo_checkpoint opts) ev dk"
    and tmp: "dk (le_temporary env) = None" "\<not> kv_path (le_temporary env)"
    and c: "llama_committed X N env opts identity dk p sn s = (r, s', ds)" and d': "d' \<in> set ds"
  shows "honest_disk X N (llama_parse (le_parse env)) (lo_checkpoint opts) ev d'"
  using c
proof (cases rule: llama_committed_write)
  case 1
  with d' honest show ?thesis by simp
next
  case (2 c b path r')
  let ?cp = "cache_checkpoint N env identity p sn c (ll_cached s) b"
  let ?h = "x_dump X (cp_metadata ?cp)"
  have state [simp]: "cp_state ?cp = b" by (simp add: cache_checkpoint_def)
  have ne: "le_temporary env \<noteq> path" using 2(3) tmp(2) cache_path_kv by metis
  from 2(4) show ?thesis
  proof (cases rule: write_checkpoint_cases)
    case (refused e)
    with d' honest show ?thesis by simp
  next
    case (performed r0 n es)
    have final: "honest_disk X N (llama_parse (le_parse env)) (lo_checkpoint opts) ev (dk(path \<mapsto> Regular (frame X ?h b)))"
    proof (rule honest_update [OF honest])
      fix cp c1 n c' state wanted limit vocabulary tokens
      assume d: "decode_checkpoint (llama_parse (le_parse env)) X (frame X ?h b) (lo_checkpoint opts) = Inr cp"
        and t: "checkpoint_tokens state wanted limit vocabulary (cp_metadata cp) = Inr tokens"
        and l: "nt_load N c1 (cp_state cp) = (n, c')" "n = length (cp_state cp)"
      from decode_only_frames [OF d] obtain h where h: "frame X ?h b = frame X h (cp_state cp)" "llama_parse (le_parse env) h = Inr (cp_metadata cp)"
        "length h \<le> max_metadata" "length (x_sha256 X h) = 32" "length (x_sha256 X (text_of_octets (cp_state cp))) = 32" by blast
      from frame_inject [OF h(1) performed(6) h(3) performed(2) performed(3) [unfolded state] h(4,5)]
      have same: "h = ?h" "cp_state cp = b" by simp_all
      with h(2) rb have "cp_metadata cp = cp_metadata ?cp" unfolding reads_back_def by metis
      with t have "tokens = ll_cached s" using cache_checkpoint_tokens by metis
      moreover have "ev c' = ev c" using ok 2(2) l unfolding same native_ok_def by blast
      moreover have "ev c = ll_cached s" using e 2(1) by (simp add: exact_def)
      ultimately show "ev c' = tokens" by simp
    qed
    from write_checkpoint_disk [OF 2(4) ne tmp(1)] d'
    have "elsewhere (le_temporary env) dk d' \<or> elsewhere (le_temporary env) (dk(path \<mapsto> Regular (frame X ?h b))) d'" by auto
    with honest_elsewhere [OF honest _ tmp(2)] honest_elsewhere [OF final _ tmp(2)] show ?thesis by blast
  qed
qed

section \<open>Histories\<close>

text \<open>What happens to an executor and its disk: inferences, committed transitions, releases of
  the context, and the death of the process, which may leave any state the disk went through.\<close>

inductive llama_run ::
    "ext \<Rightarrow> 'c native \<Rightarrow> llama_options \<Rightarrow> string \<Rightarrow> (string \<Rightarrow> json option) \<Rightarrow> disk \<Rightarrow> 'c llama \<Rightarrow> disk \<Rightarrow> bool"
  for X N opts identity parse d0 where
  llama_start: "llama_run X N opts identity parse d0 new_llama d0"
| llama_responds: "llama_run X N opts identity parse d0 s d \<Longrightarrow> le_parse env = parse \<Longrightarrow>
     llama_respond X N env opts identity d p allow s = (r, s') \<Longrightarrow> llama_run X N opts identity parse d0 s' d"
| llama_commits: "llama_run X N opts identity parse d0 s d \<Longrightarrow> le_parse env = parse \<Longrightarrow>
     d (le_temporary env) = None \<Longrightarrow> \<not> kv_path (le_temporary env) \<Longrightarrow>
     llama_committed X N env opts identity d p sn s = (r, s', ds) \<Longrightarrow> d' \<in> set ds \<Longrightarrow> s'' = new_llama \<or> d' = last ds \<and> s'' = s' \<Longrightarrow>
     llama_run X N opts identity parse d0 s'' d'"
| llama_releases: "llama_run X N opts identity parse d0 s d \<Longrightarrow> llama_run X N opts identity parse d0 (release s) d"

lemma llama_run_safe:
  assumes run: "llama_run X N opts identity parse d0 s d"
    and ok: "native_ok N ev" and sampled: "sampled_by N ev S" and batch: "lo_batch opts \<noteq> 0" and rb: "reads_back X (llama_parse parse)"
    and honest: "honest_disk X N (llama_parse parse) (lo_checkpoint opts) ev d0"
  shows "exact ev (ll_context s) (ll_cached s) \<and> honest_disk X N (llama_parse parse) (lo_checkpoint opts) ev d"
  using run
proof (induction rule: llama_run.induct)
  case llama_start
  then show ?case using honest by (simp add: new_llama_def exact_def)
next
  case (llama_responds s d env p allow r s')
  then have "honest_disk X N (llama_parse (le_parse env)) (lo_checkpoint opts) ev d" by simp
  from llama_respond_effect(1) [OF ok sampled batch this _ llama_responds(3)] llama_responds(4) show ?case by simp
next
  case (llama_commits s d env p sn r s' ds d' s'')
  then have e: "exact ev (ll_context s) (ll_cached s)" and h: "honest_disk X N (llama_parse (le_parse env)) (lo_checkpoint opts) ev d"
    and b: "reads_back X (llama_parse (le_parse env))" using rb by simp_all
  have "exact ev (ll_context s'') (ll_cached s'')"
    using llama_commits(7)
  proof
    assume "s'' = new_llama"
    then show ?thesis by (simp add: new_llama_def exact_def)
  next
    assume "d' = last ds \<and> s'' = s'"
    with e llama_committed_state [OF llama_commits(5)] show ?thesis by simp
  qed
  with llama_committed_honest [OF ok b e h llama_commits(3,4,5,6)] llama_commits(2) show ?case by simp
next
  case (llama_releases s d)
  then show ?case by simp
qed



end
