(* ===== verification/Cogg_Llama_Run.thy ===== *)
theory Cogg_Llama_Run
  imports Cogg_Llama_Facts Cogg_Runtime_Run
begin

text \<open>
  A small libllama, whose context is the list of the tokens it has evaluated, and an executor
  on it that has answered once: the hypotheses of the properties of \<open>Cogg_Llama_Facts\<close> hold.
\<close>

definition toy_native :: "int list native" where
  "toy_native = \<lparr>nt_create = Some [], nt_decode = (@), nt_remove = (\<lambda>c k. (True, take k c)), nt_clear = (\<lambda>_. []),
     nt_last = (\<lambda>c. int (length c) - 1), nt_load = (\<lambda>c b. (length b, map uint b)), nt_bytes = length,
     nt_save = (\<lambda>c n. (if \<forall>t \<in> set c. 0 \<le> t \<and> t < 256 then n else Suc n, map word_of_int c)), nt_effective = (\<lambda>_. 4096),
     nt_sample = (\<lambda>_ _ history c. if history = [] then sum_list c else 8), nt_sampler = True, nt_rules = (\<lambda>_ _. True),
     nt_ends = (\<lambda>t. t = 0), nt_piece = (\<lambda>t. Some (if t = 8 then ''}'' else ''{'')), nt_vocabulary = 256, nt_template = Some ''t'',
     nt_chat_length = (\<lambda>_ _ _. 1), nt_chat = (\<lambda>_ _ _. Some ''p''), nt_count = (\<lambda>_. - 3), nt_tokens = (\<lambda>_. [1, 2, 4]), nt_system = []\<rparr>"

definition toy_sample :: "string \<Rightarrow> string \<Rightarrow> int list \<Rightarrow> int list \<Rightarrow> int" where
  "toy_sample rules root history c = (if history = [] then sum_list c else 8)"

definition refusal :: abstention where
  "refusal = \<lparr>a_reason = ''refused'', a_detail = []\<rparr>"

definition toy_parse :: "string \<Rightarrow> json option" where
  "toy_parse s = (if s = ''{}'' then Some (abstention_enc refusal) else None)"

definition toy_env :: llama_env where
  "toy_env = \<lparr>le_stop = (\<lambda>_. False), le_decodes = (\<lambda>_. True), le_parse = toy_parse, le_ordered = (\<lambda>_. []), le_build = ''b'',
     le_pointer = 8, le_endian = ''little'', le_fault = (\<lambda>_. None), le_temporary = ''t'', le_readings = run_readings\<rparr>"

definition toy_ext :: ext where
  "toy_ext = sample_ext\<lparr>x_dump := (\<lambda>_. ''m'')\<rparr>"

definition toy_answered :: "int list llama" where
  "toy_answered = snd (llama_respond toy_ext toy_native toy_env default_options ''i'' (\<lambda>_. None) run_present True new_llama)"

lemma toy_native_ok: "native_ok toy_native id"
proof -
  have "map uint (map word_of_int c :: 8 word list) = c" if "\<forall>t \<in> set c. 0 \<le> t \<and> t < 256" for c
    using that by (induction c) (simp_all add: uint_word_of_int_eq take_bit_eq_mod)
  then show ?thesis by (auto simp: native_ok_def toy_native_def split: if_splits)
qed

lemma toy_sampled: "sampled_by toy_native id toy_sample"
  by (simp add: sampled_by_def toy_native_def toy_sample_def)

lemma toy_options: "check_options default_options = Inr ()"
  by (simp add: check_options_def default_options_def)

lemma toy_reads_back: "reads_back toy_ext (llama_parse toy_parse)"
  by (simp add: reads_back_def llama_parse_def toy_ext_def toy_parse_def)

lemma toy_honest: "honest_disk toy_ext toy_native (llama_parse toy_parse) (lo_checkpoint default_options) id (\<lambda>_. None)"
  by (simp add: honest_disk_def read_checkpoint_def)

lemma toy_prompt: "llama_prompt toy_native toy_env default_options p b = Inr [1, 2, 4]"
  by (simp add: llama_prompt_def toy_native_def toy_env_def default_options_def Let_def)

lemma toy_outcome: "parse_outcome toy_ext (abstention_enc refusal) = Inr (Abstains refusal)"
  by (simp add: parse_abstention_enc abstention_ok_def refusal_def reasons_def)

lemma toy_judge: "judge toy_ext toy_env default_options ''{'' = Inr None"
    "judge toy_ext toy_env default_options ''{}'' = Inr (Some (Abstains refusal))"
  by (simp_all add: judge_def toy_env_def toy_parse_def toy_outcome default_options_def)

lemma toy_simps:
  "nt_create toy_native = Some []" "nt_decode toy_native c ts = c @ ts" "nt_remove toy_native c k = (True, take k c)"
  "nt_sample toy_native rules root history c = toy_sample rules root history c" "nt_sampler toy_native" "nt_rules toy_native rules root"
  "nt_ends toy_native t = (t = 0)" "nt_piece toy_native t = Some (if t = 8 then ''}'' else ''{'')"
  "le_stop toy_env k = False" "le_decodes toy_env k" "le_parse toy_env = toy_parse"
  "lo_directory default_options = []" "lo_batch default_options = 128" "lo_output default_options = 512"
  by (simp_all add: toy_native_def toy_env_def default_options_def toy_sample_def)

lemma toy_cold_generate:
  "cold_generate toy_ext toy_native toy_sample toy_env default_options rules root [1, 2, 4] (Suc (Suc n)) [] [] = Inr (Abstains refusal)"
  by (simp add: Let_def toy_sample_def toy_simps toy_judge)

lemma toy_cold: "cold_respond toy_ext toy_native toy_sample toy_env default_options run_present True = Inr (Abstains refusal)"
  using toy_cold_generate [of _ _ 510] by (simp add: cold_respond_def toy_prompt toy_simps)

lemmas toy_actions = bindL_def check_deadline_def liftL_def set_stats_def modifyL_def retL_def with_context_def decode_def Let_def

lemma toy_generate:
  "\<exists>s'. generate toy_ext toy_native toy_env default_options rules root state (Suc (Suc n)) [] []
      (s\<lparr>ll_context := Some [1, 2, 4], ll_cached := [1, 2, 4]\<rparr>) = (Inr (Abstains refusal), s') \<and>
    ll_context s' = Some [1, 2, 4, 7] \<and> ll_cached s' = [1, 2, 4, 7]"
  by (simp add: toy_actions toy_simps toy_judge toy_sample_def)

lemma toy_first: "\<exists>s. llama_respond toy_ext toy_native toy_env default_options ''i'' (\<lambda>_. None) run_present True new_llama = (Inr (Abstains refusal), s) \<and>
    ll_context s = Some [1, 2, 4, 7] \<and> ll_cached s = [1, 2, 4, 7]"
proof -
  obtain s0 where b: "respond_body toy_ext toy_native toy_env default_options ''i'' (\<lambda>_. None) run_present True
      (new_llama\<lparr>ll_stats := no_stats, ll_head := [], ll_tick := - 1\<rparr>) =
     generate toy_ext toy_native toy_env default_options (llama_grammar default_options True) (llama_root True) (pr_state run_present)
       512 [] [] (s0\<lparr>ll_context := Some [1, 2, 4], ll_cached := [1, 2, 4]\<rparr>)"
  proof
    show "respond_body toy_ext toy_native toy_env default_options ''i'' (\<lambda>_. None) run_present True
      (new_llama\<lparr>ll_stats := no_stats, ll_head := [], ll_tick := - 1\<rparr>) =
     generate toy_ext toy_native toy_env default_options (llama_grammar default_options True) (llama_root True) (pr_state run_present)
       512 [] [] (\<lparr>ll_context = None, ll_cached = [], ll_subject = sn_subject (pr_state run_present), ll_head = [], ll_tick = - 1,
         ll_stats = no_stats\<lparr>is_prompt := Suc (Suc (Suc 0))\<rparr>, ll_stops = Suc (Suc (Suc (Suc 0))), ll_decodes = Suc 0\<rparr>\<lparr>ll_context := Some [1, 2, 4], ll_cached := [1, 2, 4]\<rparr>)"
      unfolding respond_body_def toy_prompt toy_simps
      by (simp add: toy_actions release_def create_context_def new_llama_def reuse_def decode_all.simps restore_def toy_simps no_stats_def
          del: generate.simps)
  qed
  obtain s1 where "generate toy_ext toy_native toy_env default_options (llama_grammar default_options True) (llama_root True)
       (pr_state run_present) 512 [] [] (s0\<lparr>ll_context := Some [1, 2, 4], ll_cached := [1, 2, 4]\<rparr>) = (Inr (Abstains refusal), s1)"
    and "ll_context s1 = Some [1, 2, 4, 7]" "ll_cached s1 = [1, 2, 4, 7]"
    using toy_generate [of "llama_grammar default_options True" "llama_root True" "pr_state run_present" 510 s0] by auto
  with b show ?thesis by (simp add: llama_respond_def handleL_def toy_simps)
qed

lemma toy_run: "llama_run toy_ext toy_native default_options ''i'' toy_parse (\<lambda>_. None) toy_answered (\<lambda>_. None)"
proof -
  have e: "le_parse toy_env = toy_parse" by (simp add: toy_env_def)
  show ?thesis unfolding toy_answered_def
    by (rule llama_responds [OF llama_start e, where p = run_present and allow = True]) (rule prod.collapse [symmetric])
qed



end
