(* ===== verification/Cogg_Progress.thy ===== *)
theory Cogg_Progress
  imports Cogg_Runtime_Run
begin

text \<open>
  Progress: a subject that the schedule reports as ready is moved on by one step of the
  runtime, whatever its history. The conditions are those under which the kernel must not
  refuse: new identifiers, a clock far from the end of time, an executor that answers in time.
\<close>

section \<open>Totality of what an admission and a commit read\<close>

lemma subject_head:
  assumes "reachable X st" and "find_subject st s = Some r"
  shows "\<exists>b. record_of X st (su_head r) = Inr b" and "\<exists>j. clock st s = Inr j"
proof -
  note mem = find_subject_Some [OF assms(2)]
  let ?cs = "commits_of st s"
  from chain.reachable [OF assms(1)] mem have p: "projects r ?cs" by (auto simp: chain_inv_def)
  then have ne: "?cs \<noteq> []" and head: "su_head r = co_id (last ?cs)" and ch: "chained ?cs" by (simp_all add: projects_def)
  from ne have l: "last ?cs \<in> set (st_commits st)" using last_in_set [OF ne] by (simp add: commits_of_def)
  from keys_inv_find(4) [OF keys.reachable [OF assms(1)] l] have "find_commit st (su_head r) = Some (last ?cs)" by (simp add: head)
  moreover have "commit_ok X (last ?cs)" using rows.reachable [OF assms(1)] l by (simp add: rows_inv_def)
  ultimately show "\<exists>b. record_of X st (su_head r) = Inr b" by (simp add: record_of_def commit_ok_def head)
  have "?cs ! 0 \<in> set ?cs" using ne by simp
  moreover have "co_tick (?cs ! 0) = 0" using ch ne by (auto simp: chained_def link_ok_def)
  ultimately have "\<exists>c \<in> set (st_commits st). co_subject c = s \<and> co_tick c = 0" by (auto simp: commits_of_def)
  then obtain c where "find (\<lambda>r. co_subject r = s \<and> co_tick r = 0) (st_commits st) = Some c"
    by (metis (mono_tags, lifting) find_None_iff not_None_eq)
  then show "\<exists>j. clock st s = Inr j" by (simp add: clock_def)
qed

lemma previous_wake_total:
  assumes "reachable X st" and "find_subject st s = Some r"
  shows "\<exists>w. previous_wake_of X st (row_snapshot r) = Inr w"
  using subject_head(1) [OF assms] by (auto simp: previous_wake_of_def split: commit_body.splits)

lemma budget_sql_total:
  assumes "limits_ok lim" and "\<forall>(s, a) \<in> set rows. a \<le> now" and "now + min_wake_ms lim \<le> max_millis"
    and "now + period_ms lim \<le> max_millis"
  shows "\<exists>b. budget_sql lim rows now through = Inr b"
proof -
  have lim: "0 \<le> min_wake_ms lim" "0 < max_attempts lim" "0 \<le> period_ms lim" using assms(1) by (auto simp: limits_ok_def)
  have res: "\<exists>b. budget_result lim now u w l q = Inr b"
    if "\<forall>t. l = Some t \<longrightarrow> t \<le> now" and "\<forall>t. q = Some t \<longrightarrow> t \<le> now" for u w l q
    using that lim assms(3,4) by (cases l; cases q) (simp_all add: budget_result_def add_time_def require_def)
  define visible where "visible = filter (\<lambda>(s, a). s \<le> through) rows"
  define windowed where "windowed = filter (\<lambda>(s, a). budget_lower lim now < a) visible"
  have vis: "snd x \<le> now" if "x \<in> set visible" for x using that assms(2) by (auto simp: visible_def)
  have nth: "snd (rev (sort_key snd windowed) ! (budget_cap lim - 1)) \<le> now" "budget_cap lim - 1 < length (rev (sort_key snd windowed))"
    if "budget_cap lim \<le> length windowed"
  proof -
    show l: "budget_cap lim - 1 < length (rev (sort_key snd windowed))" using that lim by (simp add: budget_cap_def)
    have "rev (sort_key snd windowed) ! (budget_cap lim - 1) \<in> set windowed" using nth_mem [OF l] by simp
    then show "snd (rev (sort_key snd windowed) ! (budget_cap lim - 1)) \<le> now" using vis by (auto simp: windowed_def)
  qed
  have last: "\<forall>t. (if visible = [] then None else Some (snd (last visible))) = Some t \<longrightarrow> t \<le> now" using vis by auto
  show ?thesis
    unfolding budget_sql_def Let_def visible_def [symmetric] windowed_def [symmetric]
    using res [OF last] nth by (auto simp: require_def)
qed

lemma budget_total:
  assumes "reachable X st" and "find_subject st s = Some r" and "su_accounting_wall r \<le> now"
    and "now + min_wake_ms (su_limits r) \<le> max_millis" and "now + period_ms (su_limits r) \<le> max_millis"
  shows "\<exists>b. budget st s (su_limits r) now max_seq = Inr b"
proof -
  note mem = find_subject_Some [OF assms(2)]
  with clocks.reachable [OF assms(1)] have "clock_ok st r" by (simp add: clock_inv_def)
  then have "limits_ok (su_limits r)" "\<forall>(n, a) \<in> set (admissions_of st s). a \<le> now"
    using assms(3) mem by (auto simp: clock_ok_def)
  from budget_sql_total [OF this assms(4,5)] show ?thesis by (simp add: budget_def)
qed

section \<open>Admission\<close>

lemma admit_offered:
  assumes reach: "reachable X st" and d: "schedule X st subject now = Inr d" and ready: "sc_status d = ''ready''"
    and q: "sc_occasion d = Some q" "pe_kind q \<noteq> ''scheduled''" and "0 \<le> now" and name: "check_text backend 200 ''backend'' = Inr ()"
    and fits: "\<And>p. f p" and seq: "st_attempt_seq st < max_seq"
    and fresh: "\<forall>a. ad_nonce a = nonce \<longrightarrow> hash X (admission_json a) \<notin> at_id ` set (st_attempts st)"
  shows "\<exists>r o' a p. find_subject st subject = Some r \<and> find_occasion st (oc_id o') = Some o' \<and> oc_subject o' = subject \<and>
    oc_consumed o' = None \<and> pe_id q = Some (oc_id o') \<and>
    admit X st subject backend now None (Some f) JNull JNull nonce = Inr (Some \<lparr>att_id = hash X (admission_json a), att_present = p\<rparr>, admitted_store X st a) \<and>
    ad_subject a = subject \<and> ad_parent a = su_head r \<and> ad_tick a = su_tick r \<and> ad_occasion a = oc_id o' \<and>
    ad_admitted_at a = max now (su_accounting_wall r) \<and> ad_execution a = JNull \<and> ad_context a = None \<and> ad_capacity a = None \<and>
    sc_tick d = su_tick r"
proof -
  from schedule_Inr [OF d] obtain r b where r: "find_subject st subject = Some r"
    and nq: "next_occasion X st (row_snapshot r) now = Inr (Some q)"
    and dd: "d = decide (row_snapshot r) now (max now (su_accounting_wall r)) b (Some q)" using q(1) by (auto simp: decide_def)
  note mem = find_subject_Some [OF r]
  from nq q(2) obtain i where i: "pe_id q = Some i"
    by (cases "pe_id q") (auto simp: next_occasion_def res_simps split: option.splits if_splits)
  from next_occasion_Some [OF nq i] obtain o' where o': "o' \<in> set (st_occasions st)" "oc_id o' = i" "oc_subject o' = subject"
    "oc_consumed o' = None" using mem by auto
  have fo: "find_occasion st (oc_id o') = Some o'" using keys_inv_find(2) [OF keys.reachable [OF reach] o'(1)] .
  obtain ck where ck: "clock st subject = Inr ck" using subject_head(2) [OF reach r] by blast
  obtain prev where prev: "previous_wake_of X st (row_snapshot r) = Inr prev" using previous_wake_total [OF reach r] by blast
  define q' where "q' = \<lparr>o_id = i, o_kind = pe_kind q, o_payload = pe_payload q\<rparr>"
  have late: "lateness q' now = Inr None" using q(2) by (simp add: lateness_def q'_def)
  have sel: "selected_id X st (row_snapshot r) q now = Inr (i, st)" by (simp add: selected_id_def i)
  define p where "p = \<lparr>pr_state = row_snapshot r, pr_occasion = q',
      pr_prior_unsettled = list_ex (\<lambda>x. at_subject x = subject \<and> at_status x = Reserved) (st_attempts st),
      pr_temporal = \<lparr>te_clock = ck, te_coordinate = su_tick r, te_admission = d, te_previous_wake = prev, te_wake_lateness_ms = None\<rparr>,
      pr_working_memory = None, pr_memory_view = None, pr_inputs = JArr []\<rparr>"
  define now' where "now' = max now (su_accounting_wall r)"
  have acc: "sc_accounting_at d = now'" "sc_tick d = su_tick r" by (simp_all add: dd decide_def now'_def)
  define a where "a = admission_body nonce backend now' now JNull p None None"
  have a: "ad_subject a = subject" "ad_parent a = su_head r" "ad_tick a = su_tick r" "ad_occasion a = i" "ad_nonce a = nonce"
    "ad_admitted_at a = now'" "ad_execution a = JNull" "ad_context a = None" "ad_capacity a = None"
    using mem by (simp_all add: a_def admission_body_def p_def q'_def)
  have ins: "insert_attempt X a (update_subject subject (\<lambda>x. x\<lparr>su_accounting_wall := now'\<rparr>) st) = Inr (hash X (admission_json a), admitted_store X st a)"
  proof -
    have "hash X (admission_json a) \<notin> at_id ` set (st_attempts st)" using fresh a(5) by blast
    moreover have "i \<in> oc_id ` set (st_occasions st)" using o' by blast
    ultimately show ?thesis
      using seq by (simp add: insert_attempt_def Let_def a admitted_store_def attempt_for_def)
  qed
  have view: "admitted_view X u p None (Some f) = Inr (p, None, None)" for u by (simp add: admitted_view_def)
  have adm: "admit_ready X st (row_snapshot r) d q backend now None (Some f) JNull (JArr []) nonce =
      Inr (\<lparr>att_id = hash X (admission_json a), att_present = p\<rparr>, admitted_store X st a)"
    unfolding admit_ready_def Let_def sel bindR_Inr_left prod.case q'_def [symmetric] acc
    using mem fits
    by (simp add: ck prev late flip: p_def; simp add: view flip: a_def; simp add: ins)
  have "admit X st subject backend now None (Some f) JNull JNull nonce = Inr (Some \<lparr>att_id = hash X (admission_json a), att_present = p\<rparr>, admitted_store X st a)"
    using r d ready q(1) \<open>0 \<le> now\<close> name adm
    by (simp add: admit_def validate_admission_context_def validate_execution_def check_time_def snapshot_def context_current_def)
  with r fo o' i a acc(2) show ?thesis by (auto simp: now'_def)
qed

section \<open>The commit\<close>

text \<open>An answer that touches no memory and asks for no wake.\<close>

definition plain_answer :: "ext \<Rightarrow> proposal \<Rightarrow> bool" where
  "plain_answer X p \<longleftrightarrow> proposal_ok X p \<and> p_memory p = [] \<and> p_notes p = [] \<and> p_wake_after_ms p = None"

lemma commit_locked_plain:
  assumes reach: "reachable X st" and row: "find_attempt st i = Some row" "at_status row = Reserved"
    and plain: "ad_execution (at_body row) = JNull" "ad_context (at_body row) = None" "ad_capacity (at_body row) = None"
    and r: "find_subject st (ad_subject (at_body row)) = Some r" "su_head r = ad_parent (at_body row)" "su_tick r = ad_tick (at_body row)"
    and q: "find_occasion st (ad_occasion (at_body row)) = Some q" "oc_subject q = ad_subject (at_body row)" "oc_consumed q = None"
    and p: "plain_answer X p" and tick: "su_tick r < max_millis"
    and at: "opt_max (max now (max (ad_admitted_at (at_body row)) (su_accounting_wall r))) (ad_admitted_at (at_body row)) elapsed = Inr at"
    and far: "at + min_wake_ms (su_limits r) \<le> max_millis" "at + period_ms (su_limits r) \<le> max_millis"
    and fresh: "\<forall>t. tr_subject t = su_id r \<and> tr_tick t = su_tick r + 1 \<longrightarrow> hash X (commit_json (Transition t)) \<notin> co_id ` set (st_commits st)"
  shows "\<exists>sn st'. commit_locked X None st i p now elapsed JNull None = Inr (sn, st')"
proof -
  note sub = find_subject_Some [OF r(1)] and occ = find_occasion_Some [OF q(1)] and att = find_attempt_Some [OF row(1)]
  have rows: "rows_inv X st" using rows.reachable [OF reach] by simp
  have "attempt_ok X row" "occasion_ok X q" using rows att occ by (simp_all add: rows_inv_def)
  then have h: "hash X (admission_json (at_body row)) = i" and
    ev: "hash X (event_json (oc_body q)) = ad_occasion (at_body row)" "ev_subject (oc_body q) = ad_subject (at_body row)"
    using att occ q(2) by (simp_all add: attempt_ok_def occasion_ok_def)
  have e: "event_of X st (ad_occasion (at_body row)) = Inr (oc_body q)" using q(1) ev(1) by (simp add: event_of_def)
  have sn: "snapshot st (ad_subject (at_body row)) = Inr (row_snapshot r)" using r(1) by (simp add: snapshot_def)
  have cf: "config st (ad_subject (at_body row)) = Inr (su_limits r)" using r(1) by (simp add: config_def)
  have wall: "accounting_wall st (ad_subject (at_body row)) = su_accounting_wall r" using r(1) by (rule accounting_wall_Some)
  have "su_accounting_wall r \<le> at" using opt_max_Inr [OF at] by simp
  from budget_total [OF reach r(1) this far] obtain b where b: "budget st (ad_subject (at_body row)) (su_limits r) at max_seq = Inr b"
    by blast
  obtain w where w: "wake_plan (su_limits r) (p_wake_after_ms p) at b = Inr w" using p by (simp add: plain_answer_def wake_plan_def)
  obtain pj where pj: "proposal_json X p = Inr pj" using p proposal_json_Inr [of X p] by (auto simp: plain_answer_def)
  have em: "validate_emission X JNull i (at_body row) pj = Inr ()"
    using plain(1) by (simp add: validate_emission_def validate_execution_def)
  have mem: "write_memory (p_memory p) (su_memory r) = su_memory r" using p by (simp add: plain_answer_def write_memory_def)
  have size: "length (x_dump X (JObj (su_memory r))) \<le> max_state"
    using sizes.reachable [OF reach] sub by (simp add: size_inv_def)
  define t where "t = \<lparr>tr_schema = 5, tr_subject = ad_subject (at_body row), tr_tick = su_tick r + 1, tr_parent = su_head r,
        tr_occasion = ad_occasion (at_body row), tr_attempt = i, tr_proposal = p, tr_memory = su_memory r,
        tr_wake_at = wp_granted_at w, tr_committed_at = at, tr_wall_observed_at = now, tr_wake_plan = Some w,
        tr_inference_elapsed_ms = elapsed, tr_emission = JNull, tr_disposition = None\<rparr>"
  have t: "tr_subject t = su_id r" "tr_tick t = su_tick r + 1" "tr_parent t = su_head r" "tr_proposal t = p" "tr_attempt t = i"
    "tr_occasion t = ad_occasion (at_body row)" using sub by (simp_all add: t_def)
  have new: "fresh_commit st (transition_row X t)"
  proof -
    have tk: "co_tick c \<noteq> su_tick r + 1" if "c \<in> set (st_commits st)" "co_subject c = su_id r" for c
    proof -
      have pr: "projects r (commits_of st (su_id r))" using chain.reachable [OF reach] sub by (auto simp: chain_inv_def)
      have "co_tick c \<in> set (map co_tick (commits_of st (su_id r)))" using that by (simp add: commits_of_def)
      with pr chained_ticks [of "commits_of st (su_id r)"] have "co_tick c < int (length (commits_of st (su_id r)))"
        by (auto simp: projects_def)
      with pr show ?thesis by (simp add: projects_def)
    qed
    have "(su_id r, su_tick r + 1) \<notin> (\<lambda>c. (co_subject c, co_tick c)) ` set (st_commits st)"
    proof
      assume "(su_id r, su_tick r + 1) \<in> (\<lambda>c. (co_subject c, co_tick c)) ` set (st_commits st)"
      then obtain c where "c \<in> set (st_commits st)" "co_subject c = su_id r" "co_tick c = su_tick r + 1" by auto
      with tk show False by blast
    qed
    moreover have "hash X (commit_json (Transition t)) \<notin> co_id ` set (st_commits st)" using fresh t(1,2) by blast
    ultimately show ?thesis by (simp add: fresh_commit_def transition_row_def t)
  qed
  have app: "\<exists>sn st'. apply_commit X st (row_snapshot r) i (at_body row) t = Inr (sn, st')"
  proof -
    have "memory_transition p (at_body row) = Inr ()" using plain(2) by (simp add: memory_transition_def)
    moreover have "memory_apply X db s h n c (p_notes p) = Inr db" for db s h n c
      using p by (simp add: plain_answer_def memory_apply_def validate_memory_notes_def)
    moreover have "memory_capacity X db n s (at_body row) = Inr ()" for db n s using plain(3) by (simp add: memory_capacity_def)
    moreover have "list_ex (\<lambda>x. su_id x = su_id r \<and> su_head x = su_head r) (st_subjects st)" using sub by (auto simp: list_ex_iff)
    moreover have "list_ex (\<lambda>x. oc_id x = ad_occasion (at_body row) \<and> oc_consumed x = None) (st_occasions st)"
      using occ q(3) by (auto simp: list_ex_iff)
    moreover have "insert_commit \<lparr>co_id = hash X (transition_json t), co_subject = su_id r, co_tick = su_tick r + 1, co_body = Transition t\<rparr>
        (st\<lparr>st_memory := st_memory st\<rparr>) = Inr (st\<lparr>st_memory := st_memory st, st_commits := st_commits st @ [transition_row X t]\<rparr>)"
      using new t by (simp add: insert_commit_Inr transition_row_def fresh_commit_def)
    ultimately show ?thesis
      by (simp add: apply_commit_def Let_def t set_head_def)
  qed
  then obtain sn' st' where app': "apply_commit X st (row_snapshot r) i (at_body row) t = Inr (sn', st')" by blast
  have "commit_locked X None st i p now elapsed JNull None = Inr (sn', st')"
    using row r q tick h ev(2) size app' [unfolded t_def]
    by (simp add: commit_locked_def pj em e sn cf wall at b w mem Let_def)
  then show ?thesis by blast
qed

text \<open>What it leaves.\<close>

lemma commit_locked_moves:
  assumes "commit_locked X guard st i p now elapsed emission dispo = Inr (sn, st')" and keys: "keys_inv st"
    and row: "find_attempt st i = Some row" and r: "find_subject st (ad_subject (at_body row)) = Some r"
  shows "sn_subject sn = su_id r \<and> sn_tick sn = su_tick r + 1 \<and>
    (\<exists>q \<in> set (st_occasions st'). oc_id q = ad_occasion (at_body row) \<and> oc_consumed q = Some (sn_head sn))"
proof (rule commit_locked_Inr [OF assms(1)])
  fix row' r' q t db
  assume ok: "transition_ok X st row' r' q t db" and id: "at_id row' = i" and st': "st' = committed_store X st t db []"
    and sn: "sn = \<lparr>sn_subject = su_id r', sn_tick = tr_tick t, sn_head = co_id (transition_row X t),
       sn_memory = tr_memory t, sn_wake_at = tr_wake_at t,
       sn_lifecycle = (if tr_wake_at t \<noteq> None then ''sleeping'' else ''waiting_external'')\<rparr>"
  from ok have "find_attempt st i = Some row'" by (simp add: transition_ok_def id)
  with row have same: "row' = row" by simp
  from ok r have "r' = r" by (simp add: transition_ok_def same)
  note rows = transition_ok_rows [OF keys ok, unfolded same]
  have "consumed_row X t q \<in> set (st_occasions st')" using rows by (simp add: st')
  moreover have "oc_id (consumed_row X t q) = oc_id q" "oc_consumed (consumed_row X t q) = Some (co_id (transition_row X t))"
    using rows by (simp_all add: consumed_row_def)
  ultimately show ?thesis using rows sn \<open>r' = r\<close> by (auto intro!: bexI [of _ "consumed_row X t q"])
qed

section \<open>A step of the runtime\<close>

definition answers_plainly :: "ext \<Rightarrow> backend \<Rightarrow> bool" where
  "answers_plainly X be \<longleftrightarrow> be_policy be = None \<and> (\<forall>p. be_fits be p) \<and> check_text (be_name be) 200 ''backend'' = Inr () \<and>
     (\<forall>a t. \<exists>p. be_respond be a t = Inr (Participates p) \<and> plain_answer X p)"

text \<open>Identifiers that the store does not hold yet: of every admission with this nonce and of
  every transition that could be the subject's next one.\<close>

definition fresh_ids :: "ext \<Rightarrow> store \<Rightarrow> string \<Rightarrow> string \<Rightarrow> int \<Rightarrow> bool" where
  "fresh_ids X st nonce subject tick \<longleftrightarrow>
     (\<forall>a. ad_nonce a = nonce \<longrightarrow> hash X (admission_json a) \<notin> at_id ` set (st_attempts st)) \<and>
     (\<forall>t. tr_subject t = subject \<and> tr_tick t = tick + 1 \<longrightarrow> hash X (commit_json (Transition t)) \<notin> co_id ` set (st_commits st))"

lemma execute_plain:
  assumes p: "be_respond be t 3600000 = Inr (Participates p)" "plain_answer X p"
    and c: "commit X None (\<lambda>_. Inr ()) st (att_id t) p w (Some (rd_duration rd)) JNull = (Inr sn, st')"
    and rd: "\<not> rd_cancelled rd" "rd_duration rd < 3600000" "rd_commit_wall rd = Inr w"
  shows "\<exists>res. execute_attempt X None rd be st t JNull 3600000 None False False = (Inr res, st') \<and> sr_snapshot res = Some sn \<and>
    sr_status res = ''committed'' \<and> sr_exception res = None"
proof -
  obtain j where j: "proposal_json X p = Inr j"
    using p(2) proposal_json_Inr [of X p] by (auto simp: plain_answer_def)
  have a: "answered X rd False be t 3600000 = (Participates p, [], Transient, None)"
    using p(1) by (simp add: answered_def respond_def validate_backend_outcome_def j)
  show ?thesis
    using rd c by (auto simp: execute_attempt_def a j settle_outcome_def waiting_result_def after_commit_def Let_def
        split: sum.splits error.splits)
qed


section \<open>On the sample store\<close>

definition run_plain :: backend where
  "run_plain = run_down\<lparr>be_respond := \<lambda>_ _. Inr (Participates default_proposal)\<rparr>"

lemma run_plain_answers: "answers_plainly sample_ext run_plain"
  using default_proposal_ok
  by (simp add: answers_plainly_def run_plain_def run_down_def check_text_def plain_answer_def default_proposal_def)

lemma run_fresh_ids: "fresh_ids sample_ext run_created nonce ''s'' 0"
proof -
  have "hash sample_ext (transition_json t) = sample_id (Suc 0)" if "tr_tick t = 1" for t
    using that by (simp add: hash_sample sample_dump_def transition_json_def jat_mk_obj split: option.split)
  then show ?thesis using run_hash_genesis by (auto simp: fresh_ids_def genesis_row_def sample_id_inject)
qed


end
