(* ===== verification/Cogg_Arguments.thy ===== *)
theory Cogg_Arguments
  imports Cogg_Types
begin

text \<open>
  How the programs of \<^verbatim>\<open>tools/\<close> read numbers and lists from their arguments: the
  standard library's \<open>stoll\<close>, \<open>stoi\<close> and \<open>getline\<close>, and \<open>number\<close> of \<^verbatim>\<open>tools/main.cpp\<close>.
\<close>

section \<open>Numbers\<close>

definition blank :: "char \<Rightarrow> bool" where
  "blank c \<longleftrightarrow> c \<in> {CHR 0x09, CHR 0x0A, CHR 0x0B, CHR 0x0C, CHR 0x0D, CHR 0x20}"

definition numeral_char :: "char \<Rightarrow> bool" where
  "numeral_char c \<longleftrightarrow> 48 \<le> (of_char c :: nat) \<and> (of_char c :: nat) \<le> 57"

definition numeral_value :: "string \<Rightarrow> int" where
  "numeral_value ds = foldl (\<lambda>n c. 10 * n + (int (of_char c) - 48)) 0 ds"

definition signed :: "string \<Rightarrow> bool \<times> string" where
  "signed s = (case s of [] \<Rightarrow> (False, [])
     | c # cs \<Rightarrow> if c = CHR ''-'' then (True, cs) else if c = CHR ''+'' then (False, cs) else (False, s))"

text \<open>\<open>stoll\<close> and \<open>stoi\<close> in base 10: the value and how many characters were read.\<close>

definition parse_integer :: "string \<Rightarrow> int \<Rightarrow> int \<Rightarrow> string \<Rightarrow> (int \<times> nat) res" where
  "parse_integer name lo hi s =
     (let rest = dropWhile blank s; (minus, body) = signed rest; ds = takeWhile numeral_char body;
          n = (if minus then - numeral_value ds else numeral_value ds) in
      if ds = [] \<or> n < lo \<or> hi < n then Inl (StdException name)
      else Inr (n, (length s - length body) + length ds))"

definition stoll :: "string \<Rightarrow> (int \<times> nat) res" where
  "stoll = parse_integer ''stoll'' (- max_millis - 1) max_millis"

definition stoi :: "string \<Rightarrow> (int \<times> nat) res" where
  "stoi = parse_integer ''stoi'' (- 2147483648) 2147483647"

definition number :: "string \<Rightarrow> int res" where
  "number s = bindR (stoll s) (\<lambda>(n, used). require (used = length s \<and> 0 \<le> n) ''expected a nonnegative integer'' (Inr n))"

section \<open>Lists\<close>

text \<open>\<open>getline\<close> with a separator, until it fails: a final separator ends the last item.\<close>

function split_items :: "char \<Rightarrow> string \<Rightarrow> string list" where
  "split_items sep s = (if s = [] then []
     else takeWhile (\<lambda>c. c \<noteq> sep) s # split_items sep (drop 1 (dropWhile (\<lambda>c. c \<noteq> sep) s)))"
  by pat_completeness auto
termination
proof (relation "measure (\<lambda>(sep, s). length s)")
  fix sep and s :: string
  assume "s \<noteq> []"
  then have "0 < length s" by simp
  with length_dropWhile_le [of "\<lambda>c. c \<noteq> sep" s] have "length (dropWhile (\<lambda>c. c \<noteq> sep) s) - 1 < length s" by linarith
  then show "((sep, drop 1 (dropWhile (\<lambda>c. c \<noteq> sep) s)), sep, s) \<in> measure (\<lambda>(sep, s). length s)" by simp
qed simp

declare split_items.simps [simp del]

section \<open>What they read\<close>

lemma number_bounds: "number s = Inr n \<Longrightarrow> 0 \<le> n \<and> n \<le> max_millis"
  by (auto simp: number_def stoll_def parse_integer_def Let_def res_simps split: prod.splits if_splits)

lemma numeral_not_blank: "numeral_char c \<Longrightarrow> \<not> blank c \<and> c \<noteq> CHR ''-'' \<and> c \<noteq> CHR ''+''"
  by (auto simp: blank_def numeral_char_def)

text \<open>Digits and nothing else are read as their value, up to the largest integer.\<close>

lemma number_digits:
  assumes "ds \<noteq> []" and "\<forall>c \<in> set ds. numeral_char c"
  shows "number ds = (if numeral_value ds \<le> max_millis \<and> - max_millis - 1 \<le> numeral_value ds
    then require (0 \<le> numeral_value ds) ''expected a nonnegative integer'' (Inr (numeral_value ds)) else Inl (StdException ''stoll''))"
proof -
  from assms obtain c cs where ds: "ds = c # cs" by (cases ds) auto
  with assms(2) numeral_not_blank [of c] have c: "\<not> blank c" "c \<noteq> CHR ''-''" "c \<noteq> CHR ''+''" by auto
  have t: "takeWhile numeral_char ds = ds" using assms(2) by (simp add: takeWhile_eq_all_conv)
  have d: "dropWhile blank ds = ds" "signed ds = (False, ds)" using c by (simp_all add: ds signed_def)
  show ?thesis using assms(1) by (auto simp: number_def stoll_def parse_integer_def d t Let_def)
qed

end
