(* ===== verification/Cogg_Client.thy ===== *)
theory Cogg_Client
  imports Cogg_Arguments Cogg_Host_Server
begin

text \<open>
  The terminal client of \<^verbatim>\<open>tools/tui/main.cpp\<close>: its arguments, the state behind the
  screen, the command line at its bottom, the network thread and the events. The texts the
  screen shows are in \<open>Cogg_Client_Screen\<close>. The JSON parser is the argument \<open>parse\<close>, the nonce
  of a message an argument of the command; the answer of the host to a request is a step of
  the network thread.
\<close>

section \<open>Arguments\<close>

record tui_args =
  ta_socket :: string
  ta_watch :: bool
  ta_single :: json
  ta_width :: int
  ta_height :: int

definition no_tui_args :: tui_args where
  "no_tui_args = \<lparr>ta_socket = [], ta_watch = False, ta_single = JNull, ta_width = 0, ta_height = 0\<rparr>"

text \<open>None when the help was asked for.\<close>

fun read_tui :: "(string \<Rightarrow> json res) \<Rightarrow> tui_args \<Rightarrow> string list \<Rightarrow> tui_args option res" where
  "read_tui parse t [] = Inr (Some t)"
| "read_tui parse t (a # rest) =
     (if a = ''--help'' then Inr None
      else if a = ''--watch'' then read_tui parse (t\<lparr>ta_watch := True\<rparr>) rest
      else case rest of [] \<Rightarrow> Inl (StdException ''invalid arguments; use --help'')
        | v # rest' \<Rightarrow>
            if a = ''--socket'' then read_tui parse (t\<lparr>ta_socket := v\<rparr>) rest'
            else if a = ''--request'' then (case parse v of Inl e \<Rightarrow> Inl e | Inr j \<Rightarrow> read_tui parse (t\<lparr>ta_single := j\<rparr>) rest')
            else if a = ''--snapshot''
            then (case rest' of [] \<Rightarrow> Inl (StdException ''invalid arguments; use --help'')
              | v' # rest'' \<Rightarrow> (case bindR (stoi v) (\<lambda>(w, _). bindR (stoi v') (\<lambda>(h, _). Inr (w, h))) of
                    Inl e \<Rightarrow> Inl e | Inr (w, h) \<Rightarrow> read_tui parse (t\<lparr>ta_width := w, ta_height := h\<rparr>) rest''))
            else Inl (StdException ''invalid arguments; use --help''))"

definition changing :: "string \<Rightarrow> bool" where
  "changing op \<longleftrightarrow> op \<in> {''send'', ''pause'', ''resume'', ''evidence'', ''image''}"

datatype tui_action = Show_Help | One_Request json | Picture int int | Interactive bool

definition tui_action :: "(string \<Rightarrow> json res) \<Rightarrow> string list \<Rightarrow> tui_action res" where
  "tui_action parse args = bindR (read_tui parse no_tui_args args) (\<lambda>found. case found of None \<Rightarrow> Inr Show_Help
     | Some t \<Rightarrow>
         raise_unless (ta_socket t \<noteq> []) (StdException ''--socket PATH is required'') (
         if ta_single t \<noteq> JNull
         then bindR (jvalue_string (ta_single t) ''op'' []) (\<lambda>op.
              raise_unless (\<not> (ta_watch t \<and> changing op)) (StdException ''watch mode is read-only'') (Inr (One_Request (ta_single t))))
         else if ta_width t \<noteq> 0 \<or> ta_height t \<noteq> 0
         then raise_unless (40 \<le> ta_width t \<and> ta_width t \<le> 300 \<and> 12 \<le> ta_height t \<and> ta_height t \<le> 100)
                (StdException ''snapshot size must be 40..300 by 12..100'') (Inr (Picture (ta_width t) (ta_height t)))
         else Inr (Interactive (ta_watch t))))"

section \<open>The state\<close>

record view =
  vw_snapshot :: json
  vw_detail :: json
  vw_mode :: string
  vw_notice :: string
  vw_error :: string
  vw_connected :: bool
  vw_watch :: bool
  vw_scroll :: int
  vw_anchor :: int

definition dots :: string where
  "dots = [CHR 0xE2, CHR 0x80, CHR 0xA6]"

definition middot :: string where
  "middot = [CHR 0x20, CHR 0xC2, CHR 0xB7, CHR 0x20]"

definition new_view :: "bool \<Rightarrow> view" where
  "new_view watch = \<lparr>vw_snapshot = JNull, vw_detail = JNull, vw_mode = ''talk'', vw_notice = ''Connecting'' @ dots, vw_error = [],
     vw_connected = False, vw_watch = watch, vw_scroll = 1000000, vw_anchor = - 1\<rparr>"

record job =
  jb_request :: json
  jb_sending :: bool
  jb_mode :: string

record job_result =
  jr_job :: job
  jr_data :: json
  jr_error :: string

text \<open>\<open>cl_busy\<close> is the job the network thread is waiting for, \<open>cl_open\<close> whether the screen's loop
  goes on.\<close>

record client =
  cl_view :: view
  cl_input :: string
  cl_retry_text :: string
  cl_retry_key :: string
  cl_pending :: bool
  cl_jobs :: "job list"
  cl_results :: "job_result list"
  cl_busy :: "job option"
  cl_open :: bool

definition new_client :: "bool \<Rightarrow> client" where
  "new_client watch = \<lparr>cl_view = new_view watch, cl_input = [], cl_retry_text = [], cl_retry_key = [], cl_pending = False,
     cl_jobs = [], cl_results = [], cl_busy = None, cl_open = True\<rparr>"

definition set_view :: "(view \<Rightarrow> view) \<Rightarrow> client \<Rightarrow> client" where
  "set_view f c = c\<lparr>cl_view := f (cl_view c)\<rparr>"

definition post :: "job \<Rightarrow> client \<Rightarrow> client" where
  "post j c = c\<lparr>cl_jobs := cl_jobs c @ [j]\<rparr>"

section \<open>The command line\<close>

definition complain :: "string \<Rightarrow> client \<Rightarrow> client" where
  "complain m = set_view (\<lambda>v. v\<lparr>vw_error := m\<rparr>)"

text \<open>A text that was tried before keeps its key.\<close>

definition keyed :: "string \<Rightarrow> client \<Rightarrow> client" where
  "keyed nonce c = (if cl_input c \<noteq> cl_retry_text c then c\<lparr>cl_retry_text := cl_input c, cl_retry_key := nonce\<rparr> else c)"

definition begin_sending :: "string \<Rightarrow> string \<Rightarrow> (string \<times> json) list \<Rightarrow> client \<Rightarrow> client" where
  "begin_sending nonce notice kvs c =
     (let c1 = keyed nonce c in
      post \<lparr>jb_request = mk_obj (kvs @ [(''key'', JStr (cl_retry_key c1))]), jb_sending = True, jb_mode = ''talk''\<rparr>
        (set_view (\<lambda>v. v\<lparr>vw_notice := notice @ dots, vw_error := []\<rparr>) (c1\<lparr>cl_pending := True\<rparr>)))"

text \<open>What every other command ends with.\<close>

definition command_done :: "client \<Rightarrow> client" where
  "command_done c = set_view (\<lambda>v. v\<lparr>vw_scroll := (if vw_mode v = ''talk'' then 1000000 else 0), vw_error := []\<rparr>) (c\<lparr>cl_input := []\<rparr>)"

definition ask :: "string \<Rightarrow> (string \<times> json) list \<Rightarrow> client \<Rightarrow> client" where
  "ask op kvs c = command_done (set_view (\<lambda>v. v\<lparr>vw_notice := ''Requesting '' @ op @ dots\<rparr>)
     (post \<lparr>jb_request = mk_obj ((''op'', JStr op) # kvs), jb_sending = False, jb_mode = op\<rparr> c))"

definition pending_occasion :: "view \<Rightarrow> json res" where
  "pending_occasion v = bindR (jat (vw_snapshot v) ''schedule'') (\<lambda>s. jat s ''occasion'')"

definition ask_evidence :: "string \<Rightarrow> client \<Rightarrow> client res" where
  "ask_evidence arg c =
     (let refused = complain ''Use /evidence TEXT for a connected, paused pending request (max 8192 bytes).'' c in
      if \<not> vw_connected (cl_view c) \<or> arg = [] \<or> length arg > 8192 then Inr refused
      else bindR (pending_occasion (cl_view c)) (\<lambda>q.
        if q = JNull then Inr refused
        else bindR (jat (vw_snapshot (cl_view c)) ''head'') (\<lambda>head. bindR (jat q ''id'') (\<lambda>i.
          Inr (ask ''evidence'' [(''head'', head), (''occasion'', i), (''text'', JStr arg)] c)))))"

definition ask_since :: "string \<Rightarrow> client \<Rightarrow> client" where
  "ask_since arg c =
     (case (if arg = [] then Inr (vw_anchor (cl_view c), 0) else stoll arg) of
        Inl e \<Rightarrow> complain ''Use /since or /since NONNEGATIVE_TICK after connecting.'' c
      | Inr (tick, used) \<Rightarrow>
          if tick < 0 \<or> (arg \<noteq> [] \<and> used \<noteq> length arg)
          then complain ''Use /since or /since NONNEGATIVE_TICK after connecting.'' c
          else ask ''since'' [(''tick'', JInt tick)] c)"

definition slash_command :: "string \<Rightarrow> string \<Rightarrow> string \<Rightarrow> client \<Rightarrow> client res" where
  "slash_command nonce op arg c =
     (let watch = vw_watch (cl_view c) in
      if op = ''quit'' then Inr (c\<lparr>cl_open := False\<rparr>)
      else if op = ''help'' then Inr (command_done (set_view (\<lambda>v. v\<lparr>vw_mode := ''help''\<rparr>) c))
      else if op = ''image''
      then Inr (if watch \<or> arg = [] then complain ''Use /image LOCAL_PATH in talk mode.'' c
        else begin_sending nonce ''Saving image to inbox'' [(''op'', JStr ''image''), (''path'', JStr arg)] c)
      else if op = ''talk'' \<or> op = ''watch''
      then Inr (command_done (set_view (\<lambda>v. v\<lparr>vw_watch := (op = ''watch''), vw_mode := ''talk''\<rparr>) c))
      else if op = ''timeline'' \<or> op = ''state'' then Inr (command_done (set_view (\<lambda>v. v\<lparr>vw_mode := op\<rparr>) c))
      else if op \<in> {''memory'', ''inspect'', ''since'', ''why-awake'', ''pause'', ''resume'', ''evidence''}
      then if watch \<and> op \<in> {''pause'', ''resume'', ''evidence''} then Inr (complain ''Watch mode: host controls disabled.'' c)
        else if op = ''evidence'' then ask_evidence arg c
        else if op = ''since'' then Inr (ask_since arg c)
        else Inr (ask op (if op = ''memory'' then [(''query'', JStr arg)] else if op = ''inspect'' then [(''id'', JStr arg)] else []) c)
      else Inr (complain ''Unknown command. F1 lists available commands.'' c))"

definition client_command :: "string \<Rightarrow> client \<Rightarrow> client res" where
  "client_command nonce c =
     (let input = cl_input c in
      if cl_pending c \<or> input = [] then Inr c
      else if hd input \<noteq> CHR ''/''
      then Inr (if vw_watch (cl_view c) then complain ''Watch mode: use /talk before sending.'' c
        else if length input > 8192 then complain ''Message exceeds 8192 bytes.'' c
        else begin_sending nonce ''Saving to inbox'' [(''op'', JStr ''send''), (''text'', JStr input)] c)
      else slash_command nonce (takeWhile (\<lambda>x. x \<noteq> CHR '' '') (tl input)) (drop 1 (dropWhile (\<lambda>x. x \<noteq> CHR '' '') input)) c)"

section \<open>The network thread\<close>

definition poll_job :: job where
  "poll_job = \<lparr>jb_request = mk_obj [(''op'', JStr ''snapshot'')], jb_sending = False, jb_mode = []\<rparr>"

definition net_take :: "client \<Rightarrow> client" where
  "net_take c = (case cl_jobs c of [] \<Rightarrow> c\<lparr>cl_busy := Some poll_job\<rparr> | j # js \<Rightarrow> c\<lparr>cl_busy := Some j, cl_jobs := js\<rparr>)"

text \<open>The request with the protocol's name, as \<open>request\<close> sends it.\<close>

definition sent_frame :: "job \<Rightarrow> json" where
  "sent_frame j = obj_set ''protocol'' (JStr ''cogg:host/v1'') (jb_request j)"

text \<open>\<open>nonce\<close> of \<^verbatim>\<open>protocol.cpp\<close> from four words of the random device.\<close>

definition new_nonce :: "32 word list \<Rightarrow> string" where
  "new_nonce ws = concat (map (\<lambda>w. map (\<lambda>i. hex_digit (unat (and (drop_bit i w) 15))) [28, 24, 20, 16, 12, 8, 4, 0]) ws)"

text \<open>\<open>request\<close>, with the results of its system calls: whether the socket was made, the error of
  the connection, what each \<^verbatim>\<open>send\<close> and \<^verbatim>\<open>recv\<close> did.\<close>

record wire =
  wi_created :: bool
  wi_refused :: "string option"
  wi_sends :: "sent list"
  wi_receives :: "received list"

fun named_frame :: "json \<Rightarrow> json res" where
  "named_frame (JObj kvs) = Inr (JObj (obj_put ''protocol'' (JStr ''cogg:host/v1'') kvs))"
| "named_frame JNull = Inr (mk_obj [(''protocol'', JStr ''cogg:host/v1'')])"
| "named_frame j = Inl JsonException"

definition request :: "ext \<Rightarrow> (string \<Rightarrow> json res) \<Rightarrow> string \<Rightarrow> wire \<Rightarrow> json \<Rightarrow> json res" where
  "request X parse path w body =
     raise_unless (length path < 108) (StdException ''socket path too long'') (
     raise_unless (wi_created w) (StdException ''cannot create client socket'') (
     case wi_refused w of Some e \<Rightarrow> Inl (StdException (''host unavailable: '' @ e)) | None \<Rightarrow>
     bindR (named_frame body) (\<lambda>frame.
     bindR (fst (send_frame X frame (wi_sends w))) (\<lambda>_.
     bindR (receive_frame parse frame_limit (wi_receives w)) read_reply))))"

text \<open>The end of a job: the data, or what the exception of \<open>request\<close> says.\<close>

definition net_done :: "job \<Rightarrow> string + json \<Rightarrow> client \<Rightarrow> client" where
  "net_done j answer c = c\<lparr>cl_busy := None, cl_results := cl_results c @ [case answer of
     Inl e \<Rightarrow> \<lparr>jr_job = j, jr_data = JNull, jr_error = e\<rparr> | Inr d \<Rightarrow> \<lparr>jr_job = j, jr_data = d, jr_error = []\<rparr>]\<rparr>"

section \<open>Events\<close>

definition snapshot_result :: "job_result \<Rightarrow> client \<Rightarrow> client res" where
  "snapshot_result r c =
     (let was = vw_connected (cl_view c); c1 = set_view (\<lambda>v. v\<lparr>vw_connected := (jr_error r = [])\<rparr>) c in
      if jr_error r \<noteq> [] then Inr (complain (jr_error r @ middot @ ''displayed data is stale'') c1)
      else let c2 = set_view (\<lambda>v. (if was then v else v\<lparr>vw_error := [], vw_notice := ''Connected; F1 for help''\<rparr>)
                \<lparr>vw_snapshot := jr_data r\<rparr>) c1 in
        if vw_anchor (cl_view c2) < 0
        then bindR (bindR (jat (jr_data r) ''tick'') get_int) (\<lambda>tick. Inr (set_view (\<lambda>v. v\<lparr>vw_anchor := tick\<rparr>) c2))
        else Inr c2)"

definition handle_result :: "job_result \<Rightarrow> client \<Rightarrow> client res" where
  "handle_result r c =
     (let sending = jb_sending (jr_job r); freed = (\<lambda>c. if sending then c\<lparr>cl_pending := False\<rparr> else c) in
      bindR (jat (jb_request (jr_job r)) ''op'') (\<lambda>op.
      if op = JStr ''snapshot'' then bindR (snapshot_result r c) (\<lambda>c'. Inr (freed c'))
      else if jr_error r \<noteq> []
      then Inr (freed (complain (jr_error r @ (if sending then middot @ ''input retained; retry uses the same message key'' else [])) c))
      else let c1 = set_view (\<lambda>v. v\<lparr>vw_error := [], vw_notice := (if sending then ''Saved to durable inbox''
               else ''Host: '' @ jb_mode (jr_job r))\<rparr>) c in
        Inr (freed (if sending
          then set_view (\<lambda>v. v\<lparr>vw_mode := ''talk'', vw_scroll := 1000000\<rparr>) (c1\<lparr>cl_input := [], cl_retry_key := [], cl_retry_text := []\<rparr>)
          else set_view (\<lambda>v. v\<lparr>vw_detail := jr_data r, vw_mode := jb_mode (jr_job r), vw_scroll := 0\<rparr>) c1))))"

fun handle_results :: "job_result list \<Rightarrow> client \<Rightarrow> client res" where
  "handle_results [] c = Inr c"
| "handle_results (r # rs) c = bindR (handle_result r c) (handle_results rs)"

definition client_batch :: "client \<Rightarrow> client res" where
  "client_batch c = handle_results (cl_results c) (c\<lparr>cl_results := []\<rparr>)"

datatype key = Ctrl_Q | Ctrl_C | Key_F1 | Key_F2 | Key_F3 | Key_F4 | Key_F5 | Page_Up | Page_Down

text \<open>The keys, with the height of the content and of the terminal.\<close>

definition client_key :: "int \<Rightarrow> int \<Rightarrow> key \<Rightarrow> client \<Rightarrow> client" where
  "client_key content rows k c = (case k of
     Ctrl_Q \<Rightarrow> c\<lparr>cl_open := False\<rparr>
   | Ctrl_C \<Rightarrow> if cl_pending c then c else c\<lparr>cl_input := []\<rparr>
   | Key_F1 \<Rightarrow> set_view (\<lambda>v. v\<lparr>vw_mode := ''help'', vw_scroll := 0\<rparr>) c
   | Key_F2 \<Rightarrow> set_view (\<lambda>v. v\<lparr>vw_mode := ''timeline'', vw_scroll := 0\<rparr>) c
   | Key_F3 \<Rightarrow> post \<lparr>jb_request = mk_obj [(''op'', JStr ''memory'')], jb_sending = False, jb_mode = ''memory''\<rparr> c
   | Key_F4 \<Rightarrow> post \<lparr>jb_request = mk_obj [(''op'', JStr ''inspect'')], jb_sending = False, jb_mode = ''inspect''\<rparr> c
   | Key_F5 \<Rightarrow> set_view (\<lambda>v. v\<lparr>vw_watch := \<not> vw_watch v, vw_mode := ''talk'', vw_scroll := 1000000\<rparr>) c
   | _ \<Rightarrow> let top = max 0 content; page = max 1 (rows - 12) in
       set_view (\<lambda>v. v\<lparr>vw_scroll := max 0 (min top (min (vw_scroll v) top + (if k = Page_Up then - page else page)))\<rparr>) c)"

text \<open>Editing reaches the input only when no message is on its way.\<close>

definition client_edit :: "string \<Rightarrow> client \<Rightarrow> client" where
  "client_edit s c = (if cl_pending c then c else c\<lparr>cl_input := s\<rparr>)"

end
