(* ===== verification/Cogg_Client_Facts.thy ===== *)
theory Cogg_Client_Facts
  imports Cogg_Client
begin

text \<open>
  What the terminal client promises its user over all interleavings of typing, keys, the
  network and the screen: one message at a time, one key per message, a retry that repeats the
  message exactly, and a watch mode that changes nothing.
\<close>

section \<open>Runs\<close>

text \<open>A run records the messages handed to the network thread and the ones reported as saved. A
  nonce is fresh: it was in no message before.\<close>

datatype mark = Sent json | Saved

definition sends :: "job list \<Rightarrow> mark list" where
  "sends js = map (\<lambda>j. Sent (jb_request j)) (filter jb_sending js)"

definition saves :: "job_result list \<Rightarrow> mark list" where
  "saves rs = map (\<lambda>_. Saved) (filter (\<lambda>r. jb_sending (jr_job r) \<and> jr_error r = []) rs)"

definition posted :: "client \<Rightarrow> client \<Rightarrow> job list" where
  "posted c c' = drop (length (cl_jobs c)) (cl_jobs c')"

definition sent_keys :: "mark list \<Rightarrow> string set" where
  "sent_keys ms = {k. \<exists>r. Sent r \<in> set ms \<and> jat r ''key'' = Inr (JStr k)}"

inductive client_run :: "bool \<Rightarrow> mark list \<Rightarrow> client \<Rightarrow> bool" for watch where
  opened: "client_run watch [] (new_client watch)"
| entered: "client_run watch ms c \<Longrightarrow> nonce \<notin> sent_keys ms \<Longrightarrow> client_command nonce c = Inr c' \<Longrightarrow>
    client_run watch (ms @ sends (posted c c')) c'"
| pressed: "client_run watch ms c \<Longrightarrow> client_run watch ms (client_key content rows k c)"
| edited: "client_run watch ms c \<Longrightarrow> client_run watch ms (client_edit s c)"
| took: "client_run watch ms c \<Longrightarrow> cl_busy c = None \<Longrightarrow> client_run watch ms (net_take c)"
| answered: "client_run watch ms c \<Longrightarrow> cl_busy c = Some j \<Longrightarrow> client_run watch ms (net_done j answer c)"
| handled: "client_run watch ms c \<Longrightarrow> client_batch c = Inr c' \<Longrightarrow> client_run watch (ms @ saves (cl_results c)) c'"

definition last_sent :: "mark list \<Rightarrow> json option" where
  "last_sent ms = fold (\<lambda>m _. case m of Sent r \<Rightarrow> Some r | Saved \<Rightarrow> None) ms None"

definition flights :: "client \<Rightarrow> job list" where
  "flights c = filter jb_sending (cl_jobs c @ (case cl_busy c of None \<Rightarrow> [] | Some j \<Rightarrow> [j]) @ map jr_job (cl_results c))"

lemma sends_simps [simp]: "sends [] = []" "sends (j # js) = (if jb_sending j then Sent (jb_request j) # sends js else sends js)"
    "sends (js @ js') = sends js @ sends js'"
  by (simp_all add: sends_def)

lemma sends_none: "\<forall>j \<in> set js. \<not> jb_sending j \<Longrightarrow> sends js = []"
  by (simp add: sends_def filter_empty_conv)

lemma saves_simps [simp]: "saves [] = []"
    "saves (r # rs) = (if jb_sending (jr_job r) \<and> jr_error r = [] then Saved # saves rs else saves rs)"
  by (simp_all add: saves_def)

lemma last_sent_simps [simp]: "last_sent [] = None" "last_sent (ms @ [Sent r]) = Some r" "last_sent (ms @ [Saved]) = None"
  by (simp_all add: last_sent_def)

lemma last_sent_last: "last_sent ms = Some r \<Longrightarrow> \<exists>ms'. ms = ms' @ [Sent r]"
  by (cases ms rule: rev_cases) (auto simp: last_sent_def split: mark.splits)

lemma last_sent_mem: "last_sent ms = Some r \<Longrightarrow> Sent r \<in> set ms"
  by (induction ms rule: rev_induct) (auto simp: last_sent_def split: mark.splits)

section \<open>The message of an input\<close>

definition command_of :: "string \<Rightarrow> string" where
  "command_of s = takeWhile (\<lambda>x. x \<noteq> CHR '' '') (tl s)"

definition argument_of :: "string \<Rightarrow> string" where
  "argument_of s = drop 1 (dropWhile (\<lambda>x. x \<noteq> CHR '' '') s)"

definition message_of :: "string \<Rightarrow> string \<Rightarrow> json" where
  "message_of s k = (if hd s \<noteq> CHR ''/'' then mk_obj [(''op'', JStr ''send''), (''text'', JStr s), (''key'', JStr k)]
     else mk_obj [(''op'', JStr ''image''), (''path'', JStr (argument_of s)), (''key'', JStr k)])"

definition sendable :: "string \<Rightarrow> bool" where
  "sendable s \<longleftrightarrow> s \<noteq> [] \<and> (hd s = CHR ''/'' \<longrightarrow> command_of s = ''image'' \<and> argument_of s \<noteq> [])"

lemma message_fields:
  "jat (message_of s k) ''key'' = Inr (JStr k)"
  "jat (message_of s k) ''op'' = Inr (JStr (if hd s \<noteq> CHR ''/'' then ''send'' else ''image''))"
  "hd s \<noteq> CHR ''/'' \<Longrightarrow> jat (message_of s k) ''text'' = Inr (JStr s)"
  "hd s = CHR ''/'' \<Longrightarrow> jat (message_of s k) ''path'' = Inr (JStr (argument_of s))"
  by (simp_all add: message_of_def mk_obj_access)

lemma split_at: "drop 1 (dropWhile (\<lambda>x. x \<noteq> a) t) \<noteq> [] \<Longrightarrow> t = takeWhile (\<lambda>x. x \<noteq> a) t @ a # drop 1 (dropWhile (\<lambda>x. x \<noteq> a) t)"
  by (induction t) auto

lemma slash_input:
  assumes "s \<noteq> []" and "hd s = CHR ''/''" and "argument_of s \<noteq> []"
  shows "s = CHR ''/'' # command_of s @ CHR '' '' # argument_of s"
proof -
  from assms(1,2) obtain t where s: "s = CHR ''/'' # t" by (cases s) auto
  have "argument_of s = drop 1 (dropWhile (\<lambda>x. x \<noteq> CHR '' '') t)" by (simp add: argument_of_def s)
  with split_at [of "CHR '' ''" t] assms(3) show ?thesis by (simp add: s command_of_def)
qed

text \<open>Two inputs that ask for the same are the same.\<close>

lemma message_inject:
  assumes "sendable s" and "sendable s'" and "\<And>x. x \<noteq> ''key'' \<Longrightarrow> jat (message_of s k) x = jat (message_of s' k') x"
  shows "s = s'"
proof (cases "hd s = CHR ''/''")
  case False
  from assms(3) [of "''op''"] False have f: "hd s' \<noteq> CHR ''/''" by (auto simp: message_fields split: if_splits)
  from assms(3) [of "''text''"] show ?thesis by (simp add: message_fields False f)
next
  case True
  from assms(3) [of "''op''"] True have t: "hd s' = CHR ''/''" by (auto simp: message_fields split: if_splits)
  from assms(3) [of "''path''"] have "argument_of s = argument_of s'" by (simp add: message_fields True t)
  with assms(1,2) True t slash_input [of s] slash_input [of s'] show ?thesis by (simp add: sendable_def)
qed

section \<open>What each step does to the message on its way\<close>

text \<open>A step that leaves it alone.\<close>

definition quiet :: "client \<Rightarrow> client \<Rightarrow> bool" where
  "quiet c c' \<longleftrightarrow> cl_pending c' = cl_pending c \<and> cl_retry_text c' = cl_retry_text c \<and> cl_retry_key c' = cl_retry_key c \<and>
     (cl_input c' = cl_input c \<or> \<not> cl_pending c) \<and> cl_busy c' = cl_busy c \<and> cl_results c' = cl_results c \<and>
     (\<exists>js. cl_jobs c' = cl_jobs c @ js \<and> (\<forall>j \<in> set js. \<not> jb_sending j))"

definition starts_sending :: "string \<Rightarrow> client \<Rightarrow> client \<Rightarrow> bool" where
  "starts_sending nonce c c' \<longleftrightarrow> \<not> cl_pending c \<and> sendable (cl_input c) \<and> cl_pending c' \<and> cl_input c' = cl_input c \<and>
     cl_retry_text c' = cl_input c \<and> cl_retry_key c' = (if cl_input c = cl_retry_text c then cl_retry_key c else nonce) \<and>
     cl_busy c' = cl_busy c \<and> cl_results c' = cl_results c \<and>
     (\<exists>j. cl_jobs c' = cl_jobs c @ [j] \<and> jb_sending j \<and> jb_request j = message_of (cl_input c) (cl_retry_key c'))"

lemma set_view_simps [simp]:
  "cl_input (set_view f c) = cl_input c" "cl_retry_text (set_view f c) = cl_retry_text c" "cl_retry_key (set_view f c) = cl_retry_key c"
  "cl_pending (set_view f c) = cl_pending c" "cl_jobs (set_view f c) = cl_jobs c" "cl_results (set_view f c) = cl_results c"
  "cl_busy (set_view f c) = cl_busy c" "cl_view (set_view f c) = f (cl_view c)"
  by (simp_all add: set_view_def)

lemma quiet_view [simp]: "quiet c (set_view f c)" and quiet_complain [simp]: "quiet c (complain m c)" and quiet_refl [simp]: "quiet c c"
  by (simp_all add: quiet_def complain_def)

lemma quiet_done: "quiet c c' \<Longrightarrow> \<not> cl_pending c \<Longrightarrow> quiet c (command_done c')"
  by (simp add: quiet_def command_done_def)

lemma quiet_ask: "\<not> cl_pending c \<Longrightarrow> quiet c (ask op kvs c)"
  unfolding ask_def by (rule quiet_done) (simp_all add: quiet_def post_def)

lemma begin_sending_starts:
  assumes "\<not> cl_pending c" and "sendable (cl_input c)"
    and "\<And>k. mk_obj (kvs @ [(''key'', JStr k)]) = message_of (cl_input c) k"
  shows "starts_sending nonce c (begin_sending nonce notice kvs c)"
  using assms by (simp add: starts_sending_def begin_sending_def keyed_def post_def Let_def)

lemma if_resE: "(if b then m else r) = Inr y \<Longrightarrow> (m = Inr y \<Longrightarrow> P) \<Longrightarrow> (r = Inr y \<Longrightarrow> P) \<Longrightarrow> P"
  by (cases b) simp_all

lemma slash_command_cases:
  assumes "slash_command nonce (command_of (cl_input c)) (argument_of (cl_input c)) c = Inr c'" and "\<not> cl_pending c"
    and s: "cl_input c \<noteq> []" "hd (cl_input c) = CHR ''/''"
  shows "quiet c c' \<or> starts_sending nonce c c'"
proof (cases "command_of (cl_input c) = ''image''")
  case True
  have "starts_sending nonce c (begin_sending nonce ''Saving image to inbox'' [(''op'', JStr ''image''), (''path'', JStr (argument_of (cl_input c)))] c)"
    if "argument_of (cl_input c) \<noteq> []"
    using assms(2) s True that by (intro begin_sending_starts) (simp_all add: sendable_def message_of_def)
  with assms(1) True show ?thesis by (auto simp: slash_command_def Let_def split: if_splits)
next
  case False
  have ev: "quiet c x" if "ask_evidence arg c = Inr x" for x arg
    using that assms(2) quiet_ask by (auto simp: ask_evidence_def Let_def res_simps split: if_splits)
  have si: "quiet c (ask_since arg c)" for arg
    using assms(2) quiet_ask by (auto simp: ask_since_def split: sum.splits prod.splits if_splits)
  have op: "quiet c (c\<lparr>cl_open := False\<rparr>)" by (simp add: quiet_def)
  have dn: "quiet c (command_done (set_view f c))" for f using assms(2) by (intro quiet_done) simp_all
  from assms(1) [unfolded slash_command_def Let_def if_not_P [OF False]] have "quiet c c'"
    by (elim if_resE) (use op dn ev si quiet_ask [OF assms(2)] in \<open>auto\<close>)
  then show ?thesis ..
qed

lemma client_command_cases:
  assumes "client_command nonce c = Inr c'"
  shows "quiet c c' \<or> starts_sending nonce c c'"
proof (cases "cl_pending c \<or> cl_input c = []")
  case True
  with assms show ?thesis by (auto simp: client_command_def Let_def)
next
  case False
  then have n: "\<not> cl_pending c" "cl_input c \<noteq> []" by simp_all
  show ?thesis
  proof (cases "hd (cl_input c) = CHR ''/''")
    case True
    with assms n have "slash_command nonce (command_of (cl_input c)) (argument_of (cl_input c)) c = Inr c'"
      by (simp add: client_command_def Let_def command_of_def argument_of_def)
    from slash_command_cases [OF this n True] show ?thesis .
  next
    case s: False
    have "starts_sending nonce c (begin_sending nonce ''Saving to inbox'' [(''op'', JStr ''send''), (''text'', JStr (cl_input c))] c)"
      using n s by (intro begin_sending_starts) (simp_all add: sendable_def message_of_def)
    with assms n s show ?thesis by (auto simp: client_command_def Let_def split: if_splits)
  qed
qed

lemma client_key_quiet: "quiet c (client_key content rows k c)"
  by (cases k) (simp_all add: client_key_def Let_def, simp_all add: quiet_def post_def)

section \<open>The invariant\<close>

definition keys_unique :: "mark list \<Rightarrow> bool" where
  "keys_unique ms \<longleftrightarrow> (\<forall>r \<in> {r. Sent r \<in> set ms}. \<forall>r' \<in> {r. Sent r \<in> set ms}. jat r ''key'' = jat r' ''key'' \<longrightarrow> r = r')"

text \<open>Messages with a saved one between them are distinct messages to the host.\<close>

definition keys_apart :: "mark list \<Rightarrow> bool" where
  "keys_apart ms \<longleftrightarrow> (\<forall>xs ys r r'. ms = xs @ Saved # ys \<longrightarrow> Sent r \<in> set xs \<longrightarrow> Sent r' \<in> set ys \<longrightarrow> jat r ''key'' \<noteq> jat r' ''key'')"

lemma keys_apart_Nil [simp]: "keys_apart []"
  by (simp add: keys_apart_def)

lemma keys_apart_saved: "keys_apart ms \<Longrightarrow> keys_apart (ms @ [Saved])"
  unfolding keys_apart_def
proof (intro allI impI)
  fix xs ys r r'
  assume apart: "\<forall>xs ys r r'. ms = xs @ Saved # ys \<longrightarrow> Sent r \<in> set xs \<longrightarrow> Sent r' \<in> set ys \<longrightarrow> jat r ''key'' \<noteq> jat r' ''key''"
    and split: "ms @ [Saved] = xs @ Saved # ys" and mem: "Sent r \<in> set xs" "Sent r' \<in> set ys"
  from mem(2) obtain zs z where "ys = zs @ [z]" by (cases ys rule: rev_cases) auto
  with split mem(2) have "ms = xs @ Saved # zs" "Sent r' \<in> set zs" by auto
  with apart mem(1) show "jat r ''key'' \<noteq> jat r' ''key''" by blast
qed

lemma keys_apart_sent:
  assumes apart: "keys_apart ms" and m: "(\<forall>r. Sent r \<in> set ms \<longrightarrow> jat r ''key'' \<noteq> jat m ''key'') \<or> (\<exists>ms'. ms = ms' @ [Sent m])"
  shows "keys_apart (ms @ [Sent m])"
  unfolding keys_apart_def
proof (intro allI impI)
  fix xs ys r r'
  assume split: "ms @ [Sent m] = xs @ Saved # ys" and mem: "Sent r \<in> set xs" "Sent r' \<in> set ys"
  from mem(2) obtain zs z where ys: "ys = zs @ [z]" by (cases ys rule: rev_cases) auto
  with split have ms: "ms = xs @ Saved # zs" and z: "z = Sent m" by auto
  have known: "jat r ''key'' \<noteq> jat r' ''key''" if "Sent r' \<in> set zs" using apart ms mem(1) that unfolding keys_apart_def by blast
  show "jat r ''key'' \<noteq> jat r' ''key''"
  proof (cases "Sent r' \<in> set zs")
    case False
    with mem(2) ys z have r': "r' = m" by auto
    with False ms have "\<nexists>ms'. ms = ms' @ [Sent m]" by (cases zs rule: rev_cases) auto
    with m ms mem(1) r' show ?thesis by auto
  qed (rule known)
qed

definition message_inv :: "mark list \<Rightarrow> job list \<Rightarrow> bool \<Rightarrow> string \<Rightarrow> string \<Rightarrow> string \<Rightarrow> bool" where
  "message_inv ms fl pending inp text key \<longleftrightarrow> length fl = (if pending then 1 else 0) \<and>
     (\<forall>j \<in> set fl. last_sent ms = Some (jb_request j)) \<and> (pending \<longrightarrow> inp = text) \<and>
     (if text = [] then last_sent ms = None else sendable text \<and> last_sent ms = Some (message_of text key)) \<and> keys_unique ms \<and>
     keys_apart ms"

definition client_inv :: "mark list \<Rightarrow> client \<Rightarrow> bool" where
  "client_inv ms c \<longleftrightarrow> message_inv ms (flights c) (cl_pending c) (cl_input c) (cl_retry_text c) (cl_retry_key c)"

lemma flights_quiet: "quiet c c' \<Longrightarrow> flights c' = flights c"
  by (auto simp: quiet_def flights_def filter_empty_conv)

lemma client_inv_quiet: "quiet c c' \<Longrightarrow> client_inv ms c \<Longrightarrow> client_inv ms c'"
  using flights_quiet [of c c'] by (cases "cl_pending c") (simp_all add: client_inv_def quiet_def message_inv_def)

lemma posted_quiet: "quiet c c' \<Longrightarrow> sends (posted c c') = []"
  by (auto simp: quiet_def posted_def intro: sends_none)

lemma client_inv_starts:
  assumes inv: "client_inv ms c" and s: "starts_sending nonce c c'" and fresh: "nonce \<notin> sent_keys ms"
  shows "client_inv (ms @ sends (posted c c')) c'"
proof -
  let ?m = "message_of (cl_input c) (cl_retry_key c')"
  from s obtain j where j: "cl_jobs c' = cl_jobs c @ [j]" "jb_sending j" "jb_request j = ?m"
    and n: "\<not> cl_pending c" "sendable (cl_input c)" "cl_pending c'" "cl_input c' = cl_input c" "cl_retry_text c' = cl_input c"
      "cl_retry_key c' = (if cl_input c = cl_retry_text c then cl_retry_key c else nonce)"
      "cl_busy c' = cl_busy c" "cl_results c' = cl_results c" unfolding starts_sending_def by blast
  have marks: "sends (posted c c') = [Sent ?m]" using j by (simp add: posted_def)
  have "flights c = []" using inv n(1) by (simp add: client_inv_def message_inv_def)
  then have fl: "flights c' = [j]" using j(2) by (auto simp: flights_def j(1) n(7,8) filter_empty_conv)
  have "keys_unique (ms @ [Sent ?m]) \<and> keys_apart (ms @ [Sent ?m])"
  proof (cases "cl_input c = cl_retry_text c")
    case True
    then have "cl_retry_text c \<noteq> []" using n(2) by (simp add: sendable_def)
    with inv True n(6) have "last_sent ms = Some ?m" by (simp add: client_inv_def message_inv_def)
    note old = last_sent_mem [OF this] keys_apart_sent [OF _ disjI2 [OF last_sent_last [OF this]]]
    have "keys_unique (ms @ [Sent ?m])" using old(1) inv by (auto simp: client_inv_def message_inv_def keys_unique_def)
    with old(2) inv show ?thesis by (simp add: client_inv_def message_inv_def)
  next
    case False
    then have "jat ?m ''key'' = Inr (JStr nonce)" using n(6) by (simp add: message_fields)
    note key = this
    have other: "\<forall>r. Sent r \<in> set ms \<longrightarrow> jat r ''key'' \<noteq> jat ?m ''key''" using fresh by (auto simp: key sent_keys_def)
    with inv have "keys_unique (ms @ [Sent ?m])" by (auto simp: client_inv_def message_inv_def keys_unique_def)
    with keys_apart_sent [OF _ disjI1 [OF other]] inv show ?thesis by (simp add: client_inv_def message_inv_def)
  qed
  with n j fl show ?thesis by (simp add: client_inv_def message_inv_def marks sendable_def)
qed

text \<open>A result of the network.\<close>

lemma handle_result_effect:
  assumes "handle_result r c = Inr c'" and "jb_sending (jr_job r) \<Longrightarrow> jat (jb_request (jr_job r)) ''op'' \<noteq> Inr (JStr ''snapshot'')"
  shows "cl_jobs c' = cl_jobs c \<and> cl_busy c' = cl_busy c \<and> cl_results c' = cl_results c \<and>
    (if jb_sending (jr_job r)
     then \<not> cl_pending c' \<and> (if jr_error r = [] then cl_retry_text c' = [] \<and> cl_retry_key c' = [] \<and> cl_input c' = []
        else cl_retry_text c' = cl_retry_text c \<and> cl_retry_key c' = cl_retry_key c \<and> cl_input c' = cl_input c)
     else cl_pending c' = cl_pending c \<and> cl_retry_text c' = cl_retry_text c \<and> cl_retry_key c' = cl_retry_key c \<and> cl_input c' = cl_input c)"
proof -
  have sn: "cl_jobs y = cl_jobs c \<and> cl_busy y = cl_busy c \<and> cl_results y = cl_results c \<and> cl_pending y = cl_pending c \<and>
     cl_retry_text y = cl_retry_text c \<and> cl_retry_key y = cl_retry_key c \<and> cl_input y = cl_input c"
    if "snapshot_result r c = Inr y" for y
    using that by (auto simp: snapshot_result_def Let_def res_simps complain_def split: if_splits)
  from assms(1) obtain op where op: "jat (jb_request (jr_job r)) ''op'' = Inr op" by (auto simp: handle_result_def Let_def res_simps)
  show ?thesis
  proof (cases "op = JStr ''snapshot''")
    case True
    with assms op sn show ?thesis by (auto simp: handle_result_def Let_def res_simps)
  next
    case False
    with assms(1) op show ?thesis by (cases "jb_sending (jr_job r)"; cases "jr_error r = []") (auto simp: handle_result_def Let_def complain_def)
  qed
qed

lemma client_inv_result:
  assumes inv: "client_inv ms (c\<lparr>cl_results := r # rs\<rparr>)" and h: "handle_result r c = Inr c'"
  shows "client_inv (ms @ saves [r]) (c'\<lparr>cl_results := rs\<rparr>)"
proof -
  from inv have i: "message_inv ms (flights (c\<lparr>cl_results := r # rs\<rparr>)) (cl_pending c) (cl_input c) (cl_retry_text c) (cl_retry_key c)"
    by (simp add: client_inv_def)
  show ?thesis
  proof (cases "jb_sending (jr_job r)")
    case False
    with handle_result_effect [OF h] have "flights (c'\<lparr>cl_results := rs\<rparr>) = flights (c\<lparr>cl_results := r # rs\<rparr>)"
      by (simp add: flights_def)
    with i handle_result_effect [OF h] False show ?thesis by (simp add: client_inv_def)
  next
    case True
    then have fl: "jr_job r \<in> set (flights (c\<lparr>cl_results := r # rs\<rparr>))" by (simp add: flights_def)
    then have some: "flights (c\<lparr>cl_results := r # rs\<rparr>) \<noteq> []" by auto
    with i have one: "length (flights (c\<lparr>cl_results := r # rs\<rparr>)) = 1" and p: "cl_pending c"
      by (simp_all add: message_inv_def split: if_splits)
    from i fl have last: "last_sent ms = Some (jb_request (jr_job r))" by (simp add: message_inv_def)
    with i have tx: "cl_retry_text c \<noteq> []" "jb_request (jr_job r) = message_of (cl_retry_text c) (cl_retry_key c)"
      by (simp_all add: message_inv_def split: if_splits)
    have "jat (jb_request (jr_job r)) ''op'' \<noteq> Inr (JStr ''snapshot'')" unfolding tx(2) message_fields by simp
    note eff = handle_result_effect [OF h this]
    have none: "flights (c'\<lparr>cl_results := rs\<rparr>) = []" using one True eff by (auto simp: flights_def filter_map)
    show ?thesis
    proof (cases "jr_error r = []")
      case e: True
      have "keys_unique (ms @ [Saved])" using i by (simp add: message_inv_def keys_unique_def)
      moreover have "keys_apart (ms @ [Saved])" using i by (simp add: message_inv_def keys_apart_saved)
      ultimately show ?thesis using eff True e none by (simp add: client_inv_def message_inv_def)
    next
      case e: False
      with eff True none i tx show ?thesis by (simp add: client_inv_def message_inv_def)
    qed
  qed
qed

lemma saves_Cons: "saves (r # rs) = saves [r] @ saves rs"
  by simp

lemma client_inv_results:
  "client_inv ms (c\<lparr>cl_results := rs\<rparr>) \<Longrightarrow> cl_results c = [] \<Longrightarrow> handle_results rs c = Inr c' \<Longrightarrow> client_inv (ms @ saves rs) c'"
proof (induction rs arbitrary: ms c)
  case Nil
  then have "c\<lparr>cl_results := []\<rparr> = c" by simp
  with Nil show ?case by simp
next
  case (Cons r rs)
  from Cons.prems(3) obtain c1 where c1: "handle_result r c = Inr c1" "handle_results rs c1 = Inr c'" by (auto simp: res_simps)
  have "cl_results c1 = []"
    using c1(1) Cons.prems(2) by (auto simp: handle_result_def snapshot_result_def complain_def Let_def res_simps split: if_splits)
  from Cons.IH [OF client_inv_result [OF Cons.prems(1) c1(1)] this c1(2)] show ?case
    by (simp only: saves_Cons [of r rs] append_assoc)
qed

lemma client_run_inv: "client_run watch ms c \<Longrightarrow> client_inv ms c"
proof (induction rule: client_run.induct)
  case opened
  show ?case by (simp add: client_inv_def message_inv_def new_client_def flights_def keys_unique_def)
next
  case (entered ms c nonce c')
  from client_command_cases [OF entered(3)] show ?case
  proof
    assume "quiet c c'"
    with entered client_inv_quiet posted_quiet show ?thesis by simp
  next
    assume "starts_sending nonce c c'"
    with entered client_inv_starts show ?thesis by simp
  qed
next
  case (pressed ms c content rows k)
  from client_inv_quiet [OF client_key_quiet pressed(2)] show ?case .
next
  case (edited ms c s)
  have "flights (client_edit s c) = flights c" by (simp add: client_edit_def flights_def)
  with edited(2) show ?case by (cases "cl_pending c") (simp_all add: client_edit_def client_inv_def message_inv_def)
next
  case (took ms c)
  have "length (flights (net_take c)) = length (flights c) \<and> set (flights (net_take c)) = set (flights c)"
    using took(2) by (cases "cl_jobs c") (auto simp: net_take_def flights_def poll_job_def)
  with took(3) show ?case by (cases "cl_jobs c") (simp_all add: client_inv_def message_inv_def net_take_def)
next
  case (answered ms c j answer)
  have "length (flights (net_done j answer c)) = length (flights c) \<and> set (flights (net_done j answer c)) = set (flights c)"
    using answered(2) by (cases answer) (auto simp: net_done_def flights_def)
  with answered(3) show ?case by (simp add: client_inv_def message_inv_def net_done_def)
next
  case (handled ms c c')
  then have "handle_results (cl_results c) (c\<lparr>cl_results := []\<rparr>) = Inr c'" by (simp add: client_batch_def)
  with client_inv_results [of ms "cl_results c" "c\<lparr>cl_results := []\<rparr>" c'] handled(3) show ?case by simp
qed

section \<open>A retry\<close>

lemma retry_same:
  assumes inv: "client_inv ms c" and old: "last_sent ms = Some old" and step: "client_command nonce c = Inr c'"
    and j: "posted c c' = [j]" "jb_sending j" and same: "\<And>x. x \<noteq> ''key'' \<Longrightarrow> jat (jb_request j) x = jat old x"
  shows "jb_request j = old"
proof -
  have "\<not> quiet c c'" using posted_quiet [of c c'] j by auto
  with client_command_cases [OF step] have s: "starts_sending nonce c c'" by blast
  then have req: "jb_request j = message_of (cl_input c) (cl_retry_key c')" and snd: "sendable (cl_input c)"
    and key: "cl_retry_key c' = (if cl_input c = cl_retry_text c then cl_retry_key c else nonce)"
    using j(1) by (auto simp: starts_sending_def posted_def)
  from inv old have prev: "sendable (cl_retry_text c)" "old = message_of (cl_retry_text c) (cl_retry_key c)"
    by (auto simp: client_inv_def message_inv_def split: if_splits)
  from same have "cl_input c = cl_retry_text c" unfolding req prev(2) by (rule message_inject [OF snd prev(1)])
  with key show ?thesis by (simp add: req prev(2))
qed

text \<open>The same message at the host.\<close>

lemma host_send_again:
  assumes "host_send X sv req h = (Inr reply, h1)" and "reachable X (ho_store h)" and "later X (ho_store h1) (ho_store h2)"
    and "ho_subject h2 = ho_subject h" and "0 \<le> sv_now sv'"
  shows "host_send X sv' req h2 = (Inr reply, h2)"
proof -
  from assms(1) obtain words key where w: "bindR (string_at req ''text'') (\<lambda>words. bindR (string_at req ''key'') (\<lambda>key.
           require (words \<noteq> [] \<and> length words \<le> 8192 \<and> key \<noteq> [] \<and> length key \<le> 128) ''message/key length invalid'' (
           Inr (words, key)))) = Inr (words, key)"
    by (auto simp: host_send_def split: sum.splits)
  define m where "m = mk_obj [(''type'', JStr ''message''), (''text'', JStr words)]"
  from assms(1) obtain i st where i: "submit X (ho_store h) (ho_subject h) (''tui:'' @ key) m (sv_now sv) = Inr (i, st)"
    and h1: "h1 = h\<lparr>ho_store := st\<rparr>" and reply: "reply = mk_obj [(''occasion'', JStr i)]"
    unfolding host_send_def w host_submit_def by (auto simp: m_def split: sum.splits)
  from assms(3) have "later X st (ho_store h2)" by (simp add: h1)
  from submit_again [OF assms(2) i this assms(5)] submit_payload_size [OF i]
  have "submit X (ho_store h2) (ho_subject h2) (''tui:'' @ key) m (sv_now sv') = Inr (i, ho_store h2)" by (simp add: assms(4))
  then show ?thesis unfolding host_send_def w host_submit_def by (simp add: reply m_def)
qed

lemma serve_send:
  assumes "jat req ''op'' = Inr (JStr ''send'')" and "is_object req" and "jat req ''protocol'' = Inr (JStr ''cogg:host/v1'')"
  shows "serve X sv (Inr req) h = (let (r, h') = host_send X sv req h in
    case bindR r (\<lambda>data. let reply = host_reply True [(''data'', data)] in
      require (length (x_dump X reply) + 1 \<le> frame_limit) ''record exceeds IPC limit; use offline cogg-cli inspection'' (Inr reply)) of
      Inl e \<Rightarrow> (host_reply False [(''error'', JStr (excerpt (error_what (sv_readings sv) e) 512))], h')
    | Inr reply \<Rightarrow> (reply, h'))"
proof -
  have "jvalue_string req ''protocol'' [] = Inr ''cogg:host/v1''" using assms(2,3) by (cases req) (simp_all split: option.splits)
  with assms show ?thesis by (simp add: serve_def string_at_def host_answer_def)
qed

section \<open>Properties\<close>

text \<open>
  C39. Whatever the user types, whenever the network answers and in whatever order the events are
  drawn: the terminal has at most one message between the command line and the host's answer, its
  flag tells exactly when, two messages under one key are the same message, and a message typed
  after an earlier one was saved never carries that one's key, so the host cannot take the second
  for a retry of the first.
\<close>

theorem client_sends_once:
  assumes "client_run watch ms c"
  shows "length (flights c) \<le> 1 \<and> (cl_pending c \<longleftrightarrow> flights c \<noteq> []) \<and> keys_unique ms \<and> keys_apart ms"
  using client_run_inv [OF assms] by (cases "flights c") (auto simp: client_inv_def message_inv_def split: if_splits)


end
