(* ===== verification/Cogg_Client_Screen.thy ===== *)
theory Cogg_Client_Screen
  imports Cogg_Client
begin

text \<open>
  The screen of \<^verbatim>\<open>tools/tui/main.cpp\<close>: what \<open>layout\<close> builds from the view. The elements
  are those the source asks the terminal library for; how they are drawn is the library's. The
  printer with indentation, \<open>dump(2)\<close>, is the argument \<open>pretty\<close>.
\<close>

section \<open>Elements\<close>

datatype style = Bold | Dim | Cyan | Red | Yellow | Border | Flex | Reflected | Focus int | Scroll_Bar | Yframe | Width int

datatype element = Text string | Paragraph string | Vbox "element list" | Hbox "element list" | Separator | Filler
  | Line_Editor | Styled style element

fun texts :: "element \<Rightarrow> string list" where
  "texts (Text s) = [s]"
| "texts (Paragraph s) = [s]"
| "texts (Vbox es) = concat (map texts es)"
| "texts (Hbox es) = concat (map texts es)"
| "texts (Styled st e) = texts e"
| "texts Separator = []"
| "texts Filler = []"
| "texts Line_Editor = []"

definition heading :: "string \<Rightarrow> element" where
  "heading s = Styled Cyan (Styled Bold (Text s))"

text \<open>The line ends in \<open>help\<close> are \<open>newline\<close>; the dash of the first line is \<open>dash\<close>.\<close>

definition dash :: string where
  "dash = [CHR 0xE2, CHR 0x80, CHR 0x94]"

definition unlines :: "string list \<Rightarrow> string" where
  "unlines ls = concat (map (\<lambda>l. l @ [newline]) ls)"

definition help_text :: string where
  "help_text = unlines
    [''cogg '' @ dash @ '' a window into a durable subject'', [],
     ''F1 Help   F2 Timeline   F3 Memory   F4 Inspect head   F5 Talk / Watch'',
     ''PgUp / PgDn scroll; Ctrl+Q disconnects; Ctrl+C clears input.'',
     ''Enter sends a message to the subject'' @ [CHR 0x27] @ ''s durable inbox.'', [],
     ''/talk       conversation, committed speech only'',
     ''/watch      disable sending and host controls in this client'',
     ''/state      scheduler and host state'',
     ''/timeline   accepted transitions + attempt diagnostics'',
     ''/memory [query]   bounded deposits and working memory'',
     ''/inspect [full commit ID]   verified record, default current head'',
     ''/since [tick]   commits since connection, or an explicit tick'',
     ''/why-awake  actual occasion and last committed wake plan'',
     ''/evidence TEXT   retry the paused request with an operator report'',
     ''/image PATH   send a local PNG/JPEG to the configured vision organ'',
     ''/resume     allow execution (also explicitly retries a pending failure)'',
     ''/pause      stop new admissions; current inference may still commit'',
     ''/quit       disconnect; the host continues running'', [],
     ''The host starts PAUSED. Send a message, then /resume.'',
     ''Abstention / failure pauses execution; the message remains pending.'',
     ''Watch is a client mode, not an access-control boundary.''] @
     ''Demo echoes text; it is not an LLM. Reflection and null are not speech.''"

definition safe :: "string \<Rightarrow> string" where
  "safe s = display_text s"

definition shown_value :: "ext \<Rightarrow> json \<Rightarrow> string" where
  "shown_value X j = (case j of JStr s \<Rightarrow> safe s | _ \<Rightarrow> safe (x_dump X j))"

definition shown_at :: "ext \<Rightarrow> json \<Rightarrow> string \<Rightarrow> string res" where
  "shown_at X j k = bindR (jat j k) (\<lambda>v. Inr (shown_value X v))"

definition document :: "string \<Rightarrow> element" where
  "document content = (let ls = map (\<lambda>l. if l = [] then Text '' '' else Paragraph l) (lines_of (safe content)) in
     Vbox (if ls = [] then [Text '' ''] else ls))"

section \<open>The pages\<close>

definition runtime_name :: "ext \<Rightarrow> view \<Rightarrow> string res" where
  "runtime_name X v = (if \<not> vw_connected v then Inr ''DISCONNECTED''
     else bindR (jat (vw_snapshot v) ''host'') (\<lambda>h. bindR (jat h ''running'') (\<lambda>r.
       if r = JBool True then Inr ''INFERENCE''
       else bindR (jat h ''paused'') (\<lambda>p. if p = JBool True then Inr ''HOST PAUSED''
         else bindR (jat (vw_snapshot v) ''schedule'') (\<lambda>s. shown_at X s ''status'')))))"

definition message_rows :: "ext \<Rightarrow> string \<Rightarrow> json \<Rightarrow> element list res" where
  "message_rows X subject m =
     bindR (jat m ''role'') (\<lambda>role. let user = role = JStr ''user'' in
     bindR (shown_at X m ''status'') (\<lambda>status.
     bindR (if jcontains m ''tick'' then bindR (shown_at X m ''tick'') (\<lambda>t. Inr ('' '' @ middot @ '' tick '' @ t)) else Inr []) (\<lambda>tick.
     bindR (bindR (jat m ''text'') get_string) (\<lambda>words.
     Inr [Styled (if user then Yellow else Cyan) (Styled Bold (Text ((if user then ''YOU'' else subject) @ '' '' @ middot @ '' '' @ status @ tick))),
       document words, Text '' '']))))"

definition talk_rows :: "ext \<Rightarrow> string \<Rightarrow> json \<Rightarrow> element list res" where
  "talk_rows X subject s =
     (let nothing = document (unlines [''No conversation yet. Write a message, then /resume.''] @
        ''F1 explains host controls and the history views.'') in
      if s = JNull then Inr [nothing]
      else bindR (jat s ''conversation'') (\<lambda>talk. if jempty talk then Inr [nothing]
        else bindR (bindR (jat s ''conversation_total'') get_int) (\<lambda>total.
          bindR (mapR (message_rows X subject) (elements talk)) (\<lambda>rows.
          Inr ((if total mod 2 ^ 64 > int (jsize talk)
            then [Styled Dim (Text ''Recent 60 messages; older records remain in the database.'')] else []) @ concat rows)))))"

definition commit_row :: "ext \<Rightarrow> json \<Rightarrow> element res" where
  "commit_row X c = bindR (shown_at X c ''tick'') (\<lambda>t. bindR (shown_at X c ''kind'') (\<lambda>k. bindR (shown_at X c ''id'') (\<lambda>i.
     Inr (Paragraph (''tick '' @ t @ ''  '' @ k @ ''  '' @ i)))))"

definition attempt_rows :: "ext \<Rightarrow> (json \<Rightarrow> string) \<Rightarrow> json \<Rightarrow> element list res" where
  "attempt_rows X pretty a =
     bindR (shown_at X a ''status'') (\<lambda>status. bindR (shown_at X a ''backend'') (\<lambda>backend.
     bindR (if jcontains a ''abstention'' then bindR (jat a ''abstention'') (\<lambda>b. Inr [document (pretty b)]) else Inr []) (\<lambda>refusal.
     bindR (jat a ''error'') (\<lambda>e.
     Inr (Paragraph (status @ ''  '' @ backend) # refusal @ (if e \<noteq> JStr [] then [document (shown_value X e)] else []))))))"

definition timeline_rows :: "ext \<Rightarrow> (json \<Rightarrow> string) \<Rightarrow> json \<Rightarrow> element list res" where
  "timeline_rows X pretty s =
     bindR (jat s ''commits'') (\<lambda>cs. bindR (mapR (commit_row X) (elements cs)) (\<lambda>commits.
     bindR (jat s ''attempts'') (\<lambda>as. bindR (mapR (attempt_rows X pretty) (elements as)) (\<lambda>attempts.
     Inr (heading ''COMMITS  (latest 80; /inspect FULL_ID opens a record)'' # commits @
       [Separator, heading ''ATTEMPTS  (latest 20; diagnostics, not subject speech)''] @ concat attempts)))))"

definition deposit_rows :: "ext \<Rightarrow> json \<Rightarrow> element list res" where
  "deposit_rows X n =
     bindR (shown_at X n ''key'') (\<lambda>key. bindR (shown_at X n ''type'') (\<lambda>type. bindR (shown_at X n ''status'') (\<lambda>status.
     bindR (bindR (jat n ''text'') get_string) (\<lambda>words. bindR (shown_at X n ''tick'') (\<lambda>tick. bindR (shown_at X n ''id'') (\<lambda>i.
     Inr [Styled Cyan (Styled Bold (Paragraph (key @ middot @ type @ middot @ status))), document words,
       Styled Dim (Paragraph (''tick '' @ tick @ middot @ ''source '' @ i)), Text '' '']))))))"

definition memory_rows :: "ext \<Rightarrow> (json \<Rightarrow> string) \<Rightarrow> json \<Rightarrow> element list res" where
  "memory_rows X pretty d =
     bindR (jat d ''view'') (\<lambda>memory. bindR (shown_at X memory ''strategy'') (\<lambda>strategy.
     bindR (bindR (jat d ''note'') get_string) (\<lambda>remark.
     bindR (jat memory ''items'') (\<lambda>items. bindR (mapR (deposit_rows X) (elements items)) (\<lambda>deposits.
     bindR (jat d ''working_memory'') (\<lambda>working.
     bindR (if jcontains d ''self'' then bindR (jat d ''self'') (\<lambda>self.
         Inr [Separator, heading (''GUARDED SELF STATE'' @ middot @ ''read-only''), document (pretty self)]) else Inr []) (\<lambda>self.
     Inr ([heading (''DEPOSITS'' @ middot @ strategy), Styled Dim (document remark), Text '' ''] @ concat deposits @
       (if jempty items then [Text ''No deposits selected.''] else []) @
       [Separator, heading ''WORKING MEMORY'', document (pretty working)] @ self))))))))"

definition without :: "string \<Rightarrow> json \<Rightarrow> json res" where
  "without k j = (case j of JObj kvs \<Rightarrow> Inr (JObj (obj_del k kvs)) | _ \<Rightarrow> Inl JsonException)"

definition page_rows :: "ext \<Rightarrow> (json \<Rightarrow> string) \<Rightarrow> string \<Rightarrow> view \<Rightarrow> element list res" where
  "page_rows X pretty subject v =
     (let s = vw_snapshot v; d = vw_detail v; mode = vw_mode v in
      if mode = ''help'' then Inr [document help_text]
      else if mode = ''talk'' then talk_rows X subject s
      else if mode = ''timeline'' \<and> s \<noteq> JNull then timeline_rows X pretty s
      else if mode = ''memory'' \<and> d \<noteq> JNull then memory_rows X pretty d
      else if mode = ''state'' \<and> s \<noteq> JNull
      then bindR (without ''conversation'' s) (\<lambda>s1. bindR (without ''commits'' s1) (\<lambda>s2. bindR (without ''attempts'' s2) (\<lambda>s3.
        Inr [document (pretty s3)])))
      else Inr [if d \<noteq> JNull then document (pretty d) else Text (''Loading'' @ dots)])"

section \<open>The screen\<close>

definition side_panel :: "ext \<Rightarrow> json \<Rightarrow> element res" where
  "side_panel X s =
     bindR (jat s ''host'') (\<lambda>h. bindR (shown_at X s ''tick'') (\<lambda>tick. bindR (shown_at X s ''head'') (\<lambda>head.
     bindR (shown_at X s ''lifecycle'') (\<lambda>lifecycle. bindR (shown_at X h ''executor'') (\<lambda>executor.
     bindR (bindR (jat s ''schedule'') (\<lambda>sc. shown_at X sc ''status'')) (\<lambda>status. bindR (shown_at X s ''wake_at'') (\<lambda>wake.
     bindR (shown_at X h ''last'') (\<lambda>final. bindR (shown_at X h ''error'') (\<lambda>err.
     Inr (Styled Border (Styled (Width 28) (Vbox
       [heading '' SUBJECT STATE '', Separator, Text (''tick  '' @ tick), Paragraph (''head  '' @ take 16 head), Text '' '',
        Styled Dim (Text ''Committed lifecycle''), Text lifecycle, Text '' '', Styled Dim (Text ''Executor''), Paragraph executor,
        Text '' '', Styled Dim (Text ''Scheduler''), Paragraph status, Paragraph (''wake_at: '' @ wake), Text '' '',
        Styled Dim (Text ''Last host result''), Paragraph final, Paragraph err, Filler,
        Styled Dim (Paragraph ''Host state and committed subject state are separate.'')]))))))))))))"

definition executor_name :: "ext \<Rightarrow> json \<Rightarrow> string res" where
  "executor_name X s = (if s = JNull then Inr []
     else bindR (jat s ''host'') (\<lambda>h. bindR (jat h ''executor'') (\<lambda>e.
       Inr (shown_value X e @ (if e = JStr ''demo'' then '' (echo only)'' else [])))))"

definition notice_text :: "ext \<Rightarrow> view \<Rightarrow> string res" where
  "notice_text X v =
     (let s = vw_snapshot v in
      if s = JNull \<or> \<not> vw_connected v then Inr (vw_notice v)
      else bindR (bindR (jat s ''host'') (\<lambda>h. jat h ''paused'')) (\<lambda>p.
        if p \<noteq> JBool True then Inr (vw_notice v)
        else bindR (jat s ''attempts'') (\<lambda>as.
          if jempty as \<or> \<not> jcontains (last (elements as)) ''abstention''
          then Inr ''Host paused: queued messages wait. /resume to process; F2 for diagnostics.''
          else bindR (jat (last (elements as)) ''abstention'') (\<lambda>a. bindR (shown_at X a ''reason'') (\<lambda>reason.
            bindR (shown_at X a ''detail'') (\<lambda>detail.
            Inr (''Executor abstained ('' @ reason @ ''): '' @ detail @ middot @ ''/evidence TEXT or F2'')))))))"

definition tick_text :: "ext \<Rightarrow> json \<Rightarrow> string res" where
  "tick_text X s = (if s = JNull then Inr []
     else bindR (shown_at X s ''tick'') (\<lambda>t. bindR (shown_at X s ''lifecycle'') (\<lambda>l.
       Inr (''tick '' @ t @ middot @ l @ middot))))"

definition page_box :: "view \<Rightarrow> element list \<Rightarrow> element" where
  "page_box v rows =
     (let caption = '' '' @ vw_mode v @ (if vw_watch v then middot @ ''WATCH'' else []) @ (if vw_connected v then [] else middot @ ''STALE VIEW'') @ '' '';
          body = Styled Flex (Styled Yframe (Styled Scroll_Bar (Styled (Focus (vw_scroll v)) (Styled Reflected (Vbox rows))))) in
      Styled Flex (Styled Border (Vbox [heading caption, Separator, body])))"

definition whole_screen :: "view \<Rightarrow> string \<Rightarrow> string \<Rightarrow> element \<Rightarrow> string \<Rightarrow> string \<Rightarrow> string \<Rightarrow> element" where
  "whole_screen v subject runtime middle executor remark tick = Vbox
     [Hbox [Styled Cyan (Styled Bold (Text '' cogg '')), Styled Bold (Text subject), Filler,
        Styled (if vw_connected v then Cyan else Red) (Text runtime), Text '' ''],
      Styled Dim (Text ('' '' @ tick @ (if vw_watch v then ''watching'' else ''talk'') @ middot @ executor @ middot @ ''F1 help'')),
      Styled Flex middle,
      Styled (if vw_error v = [] then Dim else Red) (Paragraph ('' '' @ safe (if vw_error v = [] then remark else vw_error v))),
      Styled Border (Hbox [Styled Cyan (Text (if vw_watch v then '' watch > '' else '' > '')), Styled Flex Line_Editor]),
      Styled Dim (Text '' F2 timeline  F3 memory  F4 inspect  F5 talk/watch  PgUp/Dn  Ctrl+Q exit'')]"

definition layout :: "ext \<Rightarrow> (json \<Rightarrow> string) \<Rightarrow> view \<Rightarrow> int \<Rightarrow> element res" where
  "layout X pretty v width =
     bindR (if vw_snapshot v = JNull then Inr ''connecting'' else shown_at X (vw_snapshot v) ''subject'') (\<lambda>subject.
     bindR (runtime_name X v) (\<lambda>runtime.
     bindR (page_rows X pretty subject v) (\<lambda>rows.
     bindR (if 100 \<le> width \<and> vw_snapshot v \<noteq> JNull
            then bindR (side_panel X (vw_snapshot v)) (\<lambda>panel. Inr (Hbox [page_box v rows, panel])) else Inr (page_box v rows)) (\<lambda>middle.
     bindR (executor_name X (vw_snapshot v)) (\<lambda>executor.
     bindR (notice_text X v) (\<lambda>remark.
     bindR (tick_text X (vw_snapshot v)) (\<lambda>tick.
     Inr (whole_screen v subject runtime middle executor remark tick))))))))"

end
