(* ===== verification/Cogg_Screen_Facts.thy ===== *)
theory Cogg_Screen_Facts
  imports Cogg_Client_Facts Cogg_Client_Screen
begin

text \<open>
  No control sequence reaches the terminal, whatever a model wrote, a user typed or a host answered.
\<close>

section \<open>Safe texts\<close>

definition terminal_safe :: "string \<Rightarrow> bool" where
  "terminal_safe s \<longleftrightarrow> (\<forall>c \<in> set s. byte c \<ge> 32 \<and> byte c \<noteq> 127 \<or> c = newline) \<and> successively no_c1_pair s"

named_theorems safe_simps

lemma terminal_safe_Nil [safe_simps]: "terminal_safe []"
  by (simp add: terminal_safe_def)

lemma terminal_safe_Cons [safe_simps]:
  "terminal_safe (c # s) \<longleftrightarrow> (byte c \<ge> 32 \<and> byte c \<noteq> 127 \<or> c = newline) \<and> terminal_safe s \<and> (s = [] \<or> no_c1_pair c (hd s))"
  by (cases s) (auto simp: terminal_safe_def)

lemma terminal_safe_append:
  "terminal_safe (s @ t) \<longleftrightarrow> terminal_safe s \<and> terminal_safe t \<and> (s = [] \<or> t = [] \<or> no_c1_pair (last s) (hd t))"
  by (auto simp: terminal_safe_def successively_append_iff)

lemma terminal_safe_append_Cons [safe_simps]: "\<not> c1 c \<Longrightarrow> terminal_safe (s @ c # t) \<longleftrightarrow> terminal_safe s \<and> terminal_safe (c # t)"
  by (auto simp: terminal_safe_append no_c1_pair_def)

lemma pair_plain [safe_simps]: "byte c \<noteq> 194 \<Longrightarrow> no_c1_pair c d" "\<not> c1 d \<Longrightarrow> no_c1_pair c d"
  by (simp_all add: no_c1_pair_def)

lemma terminal_safe_take: "terminal_safe s \<Longrightarrow> terminal_safe (take n s)" and terminal_safe_drop: "terminal_safe s \<Longrightarrow> terminal_safe (drop n s)"
  using terminal_safe_append [of "take n s" "drop n s"] by simp_all

lemma safe_safe [safe_simps]: "terminal_safe (safe s)"
  using display_text_chars [of _ s] display_text_pairs [of s] by (auto simp: terminal_safe_def safe_def)

lemma shown_value_safe [safe_simps]: "terminal_safe (shown_value X j)"
  by (simp add: shown_value_def safe_simps split: json.split)

lemma shown_at_safe: "shown_at X j k = Inr s \<Longrightarrow> terminal_safe s"
  by (auto simp: shown_at_def res_simps safe_simps)

lemma lines_safe: "terminal_safe s \<Longrightarrow> l \<in> set (lines_of s) \<Longrightarrow> terminal_safe l"
proof (induction "length s" arbitrary: s rule: less_induct)
  case less
  show ?case
  proof (cases s)
    case (Cons c t)
    define n where "n = length (takeWhile (\<lambda>d. d \<noteq> CHR 0x0A) s)"
    have "lines_of s = take n s # lines_of (drop (Suc n) s)"
      unfolding Cons lines_of.simps Let_def by (simp add: n_def Cons flip: takeWhile_eq_take)
    with less(3) have "l = take n s \<or> l \<in> set (lines_of (drop (Suc n) s))" by simp
    then show ?thesis
    proof
      assume "l \<in> set (lines_of (drop (Suc n) s))"
      moreover have "length (drop (Suc n) s) < length s" by (simp add: Cons)
      ultimately show ?thesis using less(1) terminal_safe_drop [OF less(2)] by blast
    qed (simp add: terminal_safe_take [OF less(2)])
  qed (use less(3) in simp)
qed

section \<open>Safe elements\<close>

definition screen_safe :: "element \<Rightarrow> bool" where
  "screen_safe e \<longleftrightarrow> (\<forall>s \<in> set (texts e). terminal_safe s)"

lemma screen_safe_simps [safe_simps]:
  "screen_safe (Text s) = terminal_safe s" "screen_safe (Paragraph s) = terminal_safe s"
  "screen_safe (Vbox es) = (\<forall>e \<in> set es. screen_safe e)" "screen_safe (Hbox es) = (\<forall>e \<in> set es. screen_safe e)"
  "screen_safe (Styled st e) = screen_safe e" "screen_safe Separator" "screen_safe Filler" "screen_safe Line_Editor"
  by (auto simp: screen_safe_def)

lemma heading_safe [safe_simps]: "screen_safe (heading s) = terminal_safe s"
  by (simp add: heading_def safe_simps)

lemma bytes_plain [safe_simps]: "byte c = of_char c" "c1 c \<longleftrightarrow> 128 \<le> byte c \<and> byte c \<le> 159"
  by (simp_all add: byte_def c1_def)

lemma document_safe [safe_simps]: "screen_safe (document s)"
  using lines_safe [OF safe_safe [of s]] by (auto simp: document_def Let_def safe_simps)

section \<open>The pages\<close>

lemma mapR_all: "mapR f xs = Inr ys \<Longrightarrow> (\<And>x y. f x = Inr y \<Longrightarrow> P y) \<Longrightarrow> \<forall>y \<in> set ys. P y"
  using mapR_mem by fast

lemma runtime_safe: "runtime_name X v = Inr s \<Longrightarrow> terminal_safe s"
  by (auto simp: runtime_name_def res_simps safe_simps dest: shown_at_safe split: if_splits)

lemma message_safe: "message_rows X subject m = Inr rows \<Longrightarrow> terminal_safe subject \<Longrightarrow> \<forall>e \<in> set rows. screen_safe e"
  by (auto simp: message_rows_def Let_def res_simps safe_simps middot_def dest!: shown_at_safe split: if_splits)

lemma messages_safe:
  "mapR (message_rows X subject) ms = Inr ess \<Longrightarrow> terminal_safe subject \<Longrightarrow> \<forall>es \<in> set ess. \<forall>e \<in> set es. screen_safe e"
  by (rule mapR_all) (assumption, rule message_safe)

lemma talk_safe: "talk_rows X subject s = Inr rows \<Longrightarrow> terminal_safe subject \<Longrightarrow> \<forall>e \<in> set rows. screen_safe e"
  by (auto simp: talk_rows_def Let_def res_simps safe_simps dest!: messages_safe split: if_splits)

lemma commit_safe: "commit_row X c = Inr e \<Longrightarrow> screen_safe e"
  by (auto simp: commit_row_def res_simps safe_simps dest!: shown_at_safe)

lemma attempt_safe: "attempt_rows X pretty a = Inr rows \<Longrightarrow> \<forall>e \<in> set rows. screen_safe e"
  by (auto simp: attempt_rows_def res_simps safe_simps dest!: shown_at_safe split: if_splits)

lemma commits_safe: "mapR (commit_row X) cs = Inr es \<Longrightarrow> \<forall>e \<in> set es. screen_safe e"
  by (rule mapR_all) (assumption, rule commit_safe)

lemma attempts_safe: "mapR (attempt_rows X pretty) as = Inr ess \<Longrightarrow> \<forall>es \<in> set ess. \<forall>e \<in> set es. screen_safe e"
  by (rule mapR_all) (assumption, rule attempt_safe)

lemma timeline_safe: "timeline_rows X pretty s = Inr rows \<Longrightarrow> \<forall>e \<in> set rows. screen_safe e"
  by (auto simp: timeline_rows_def res_simps safe_simps dest!: commits_safe attempts_safe)

lemma deposit_safe: "deposit_rows X n = Inr rows \<Longrightarrow> \<forall>e \<in> set rows. screen_safe e"
  by (auto simp: deposit_rows_def res_simps safe_simps middot_def dest!: shown_at_safe)

lemma deposits_safe: "mapR (deposit_rows X) ns = Inr ess \<Longrightarrow> \<forall>es \<in> set ess. \<forall>e \<in> set es. screen_safe e"
  by (rule mapR_all) (assumption, rule deposit_safe)

lemma memory_safe: "memory_rows X pretty d = Inr rows \<Longrightarrow> \<forall>e \<in> set rows. screen_safe e"
  by (auto simp: memory_rows_def res_simps safe_simps middot_def dest!: shown_at_safe deposits_safe split: if_splits)

lemma page_safe: "page_rows X pretty subject v = Inr rows \<Longrightarrow> terminal_safe subject \<Longrightarrow> \<forall>e \<in> set rows. screen_safe e"
  by (auto simp: page_rows_def Let_def res_simps safe_simps dots_def dest!: talk_safe timeline_safe memory_safe split: if_splits)

lemma panel_safe: "side_panel X s = Inr e \<Longrightarrow> screen_safe e"
  by (auto simp: side_panel_def res_simps safe_simps terminal_safe_take dest!: shown_at_safe)

lemma executor_safe: "executor_name X s = Inr e \<Longrightarrow> terminal_safe e"
  by (auto simp: executor_name_def res_simps safe_simps split: if_splits)

lemma tick_safe: "tick_text X s = Inr t \<Longrightarrow> terminal_safe t"
  by (auto simp: tick_text_def res_simps safe_simps middot_def dest!: shown_at_safe split: if_splits)

lemma box_safe: "terminal_safe (vw_mode v) \<Longrightarrow> \<forall>e \<in> set rows. screen_safe e \<Longrightarrow> screen_safe (page_box v rows)"
  by (simp add: page_box_def Let_def safe_simps middot_def)

lemma whole_safe:
  "terminal_safe subject \<Longrightarrow> terminal_safe runtime \<Longrightarrow> screen_safe middle \<Longrightarrow> terminal_safe executor \<Longrightarrow> terminal_safe tick \<Longrightarrow>
     screen_safe (whole_screen v subject runtime middle executor remark tick)"
  by (simp add: whole_screen_def safe_simps middot_def)

lemma subject_safe: "(if s = JNull then Inr ''connecting'' else shown_at X s ''subject'') = Inr subject \<Longrightarrow> terminal_safe subject"
  by (auto simp: safe_simps dest: shown_at_safe split: if_splits)

lemma middle_safe:
  "(if 100 \<le> (width :: int) \<and> s \<noteq> JNull then bindR (side_panel X s) (\<lambda>panel. Inr (Hbox [box, panel])) else Inr box) = Inr middle \<Longrightarrow>
     screen_safe box \<Longrightarrow> screen_safe middle"
  by (auto simp: res_simps safe_simps dest: panel_safe split: if_splits)

lemma layout_safe:
  assumes "layout X pretty v width = Inr e" and mode: "terminal_safe (vw_mode v)"
  shows "screen_safe e"
proof -
  from assms(1) obtain subject runtime rows middle executor remark tick where
    subject: "(if vw_snapshot v = JNull then Inr ''connecting'' else shown_at X (vw_snapshot v) ''subject'') = Inr subject"
    and runtime: "runtime_name X v = Inr runtime" and rows: "page_rows X pretty subject v = Inr rows"
    and middle: "(if 100 \<le> width \<and> vw_snapshot v \<noteq> JNull
       then bindR (side_panel X (vw_snapshot v)) (\<lambda>panel. Inr (Hbox [page_box v rows, panel])) else Inr (page_box v rows)) = Inr middle"
    and executor: "executor_name X (vw_snapshot v) = Inr executor" and tick: "tick_text X (vw_snapshot v) = Inr tick"
    and e: "e = whole_screen v subject runtime middle executor remark tick"
    unfolding layout_def bindR_Inr sum.inject by (elim exE conjE) (rule that, assumption+, rule sym)
  note s = subject_safe [OF subject]
  show ?thesis unfolding e
    by (intro whole_safe s runtime_safe [OF runtime] executor_safe [OF executor] tick_safe [OF tick]
        middle_safe [OF middle] box_safe [OF mode] page_safe [OF rows])
qed

section \<open>The modes\<close>

definition modes_ok :: "client \<Rightarrow> bool" where
  "modes_ok c \<longleftrightarrow> terminal_safe (vw_mode (cl_view c)) \<and>
     (\<forall>j \<in> set (cl_jobs c) \<union> {j. cl_busy c = Some j} \<union> jr_job ` set (cl_results c). terminal_safe (jb_mode j))"

lemma ask_modes: "modes_ok c \<Longrightarrow> terminal_safe op \<Longrightarrow> modes_ok (ask op kvs c)"
  by (auto simp: modes_ok_def ask_def command_done_def post_def)

lemma sending_modes: "modes_ok c \<Longrightarrow> modes_ok (begin_sending nonce remark kvs c)"
  by (auto simp: modes_ok_def begin_sending_def keyed_def post_def Let_def safe_simps)

lemma complain_modes: "modes_ok c \<Longrightarrow> modes_ok (complain m c)"
  by (simp add: modes_ok_def complain_def)

lemma page_modes: "modes_ok c \<Longrightarrow> terminal_safe (vw_mode (f (cl_view c))) \<Longrightarrow> modes_ok (command_done (set_view f c))"
  by (simp add: modes_ok_def command_done_def)

lemma if_knownE: "(if b then m else r) = Inr y \<Longrightarrow> (b \<Longrightarrow> m = Inr y \<Longrightarrow> P) \<Longrightarrow> (\<not> b \<Longrightarrow> r = Inr y \<Longrightarrow> P) \<Longrightarrow> P"
  by (cases b) simp_all

definition asking :: "string \<Rightarrow> bool" where
  "asking op \<longleftrightarrow> op \<in> {''memory'', ''inspect'', ''since'', ''why-awake'', ''pause'', ''resume'', ''evidence''}"

lemma asking_safe: "asking op \<Longrightarrow> terminal_safe op"
  by (auto simp: asking_def safe_simps)

lemma slash_command_asking:
  assumes "asking op"
  shows "slash_command nonce op arg c = (if vw_watch (cl_view c) \<and> op \<in> {''pause'', ''resume'', ''evidence''}
     then Inr (complain ''Watch mode: host controls disabled.'' c) else if op = ''evidence'' then ask_evidence arg c
     else if op = ''since'' then Inr (ask_since arg c)
     else Inr (ask op (if op = ''memory'' then [(''query'', JStr arg)] else if op = ''inspect'' then [(''id'', JStr arg)] else []) c))"
  using assms unfolding asking_def insert_iff empty_iff simp_thms by (elim disjE; hypsubst; simp add: slash_command_def)

lemma slash_command_local:
  assumes "\<not> asking op"
  shows "slash_command nonce op arg c =
     (if op = ''quit'' then Inr (c\<lparr>cl_open := False\<rparr>)
      else if op = ''help'' then Inr (command_done (set_view (\<lambda>v. v\<lparr>vw_mode := ''help''\<rparr>) c))
      else if op = ''image''
      then Inr (if vw_watch (cl_view c) \<or> arg = [] then complain ''Use /image LOCAL_PATH in talk mode.'' c
        else begin_sending nonce ''Saving image to inbox'' [(''op'', JStr ''image''), (''path'', JStr arg)] c)
      else if op = ''talk'' \<or> op = ''watch''
      then Inr (command_done (set_view (\<lambda>v. v\<lparr>vw_watch := (op = ''watch''), vw_mode := ''talk''\<rparr>) c))
      else if op = ''timeline'' \<or> op = ''state'' then Inr (command_done (set_view (\<lambda>v. v\<lparr>vw_mode := op\<rparr>) c))
      else Inr (complain ''Unknown command. F1 lists available commands.'' c))"
  using assms unfolding slash_command_def Let_def asking_def [symmetric] by simp

lemma Inr_modes: "Inr x = (Inr c' :: client res) \<Longrightarrow> modes_ok x \<Longrightarrow> modes_ok c'"
  by simp

lemma slash_modes:
  assumes "slash_command nonce op arg c = Inr c'" and "modes_ok c"
  shows "modes_ok c'"
proof (cases "asking op")
  case True
  have ev: "ask_evidence arg c = Inr x \<Longrightarrow> modes_ok x" for x
    using assms(2) by (auto simp: ask_evidence_def Let_def res_simps safe_simps intro!: ask_modes complain_modes split: if_splits)
  have si: "modes_ok (ask_since arg c)"
    using assms(2) by (auto simp: ask_since_def safe_simps intro!: ask_modes complain_modes split: sum.splits prod.splits if_splits)
  from assms(1) ask_modes [OF assms(2) asking_safe [OF True]] complain_modes [OF assms(2)] si show ?thesis
    unfolding slash_command_asking [OF True] by (elim if_resE) (auto dest: ev)
next
  case False
  note page = page_modes [OF assms(2)]
  have quit: "modes_ok (c\<lparr>cl_open := False\<rparr>)" using assms(2) by (simp add: modes_ok_def)
  have helps: "modes_ok (command_done (set_view (\<lambda>v. v\<lparr>vw_mode := ''help''\<rparr>) c))" by (rule page) (simp add: safe_simps)
  have talk: "modes_ok (command_done (set_view (\<lambda>v. v\<lparr>vw_watch := w, vw_mode := ''talk''\<rparr>) c))" for w
    by (rule page) (simp add: safe_simps)
  have own: "modes_ok (command_done (set_view (\<lambda>v. v\<lparr>vw_mode := op\<rparr>) c))" if "op = ''timeline'' \<or> op = ''state''"
    using that by (intro page) (auto simp: safe_simps)
  have image: "modes_ok (if b then complain m c else begin_sending nonce n kvs c)" for b m n kvs
    using complain_modes [OF assms(2)] sending_modes [OF assms(2)] by simp
  from assms(1) show ?thesis
    unfolding slash_command_local [OF False]
    apply (elim if_knownE)
    apply (erule Inr_modes, rule quit)
    apply (erule Inr_modes, rule helps)
    apply (erule Inr_modes, rule image)
    apply (erule Inr_modes, rule talk)
    apply (erule Inr_modes, rule own, assumption)
    apply (erule Inr_modes, rule complain_modes [OF assms(2)])
    done
qed

lemma command_modes: "client_command nonce c = Inr c' \<Longrightarrow> modes_ok c \<Longrightarrow> modes_ok c'"
  by (auto simp: client_command_def Let_def intro: slash_modes complain_modes sending_modes split: if_splits)

lemma key_modes: "modes_ok c \<Longrightarrow> modes_ok (client_key content rows k c)"
  by (cases k) (auto simp: client_key_def Let_def modes_ok_def post_def safe_simps)

lemma result_modes:
  assumes "handle_result r c = Inr c'" and "modes_ok c" and "terminal_safe (jb_mode (jr_job r))"
  shows "modes_ok c'"
proof -
  have sn: "modes_ok y" if "snapshot_result r c = Inr y" for y
    using that assms(2) by (auto simp: snapshot_result_def Let_def res_simps complain_def modes_ok_def split: if_splits)
  have free: "modes_ok (x\<lparr>cl_pending := False\<rparr>)" if "modes_ok x" for x using that by (simp add: modes_ok_def)
  from assms(1) obtain op where op: "jat (jb_request (jr_job r)) ''op'' = Inr op" by (auto simp: handle_result_def Let_def res_simps)
  show ?thesis
  proof (cases "op = JStr ''snapshot''")
    case True
    with assms(1) op sn free show ?thesis by (auto simp: handle_result_def Let_def res_simps split: if_splits)
  next
    case False
    with assms op show ?thesis
      by (cases "jb_sending (jr_job r)"; cases "jr_error r = []")
        (auto simp: handle_result_def Let_def complain_def modes_ok_def safe_simps)
  qed
qed

lemma results_modes:
  "handle_results rs c = Inr c' \<Longrightarrow> modes_ok c \<Longrightarrow> \<forall>r \<in> set rs. terminal_safe (jb_mode (jr_job r)) \<Longrightarrow> modes_ok c'"
  by (induction rs arbitrary: c) (auto simp: res_simps dest: result_modes)

lemma client_run_modes: "client_run watch ms c \<Longrightarrow> modes_ok c"
proof (induction rule: client_run.induct)
  case opened
  show ?case by (simp add: modes_ok_def new_client_def new_view_def safe_simps)
next
  case (entered ms c nonce c')
  then show ?case using command_modes by blast
next
  case (pressed ms c content rows k)
  then show ?case by (intro key_modes)
next
  case (edited ms c s)
  then show ?case by (simp add: client_edit_def modes_ok_def)
next
  case (took ms c)
  then show ?case by (cases "cl_jobs c") (auto simp: net_take_def modes_ok_def poll_job_def safe_simps)
next
  case (answered ms c j answer)
  then show ?case by (cases answer) (auto simp: net_done_def modes_ok_def)
next
  case (handled ms c c')
  then have "handle_results (cl_results c) (c\<lparr>cl_results := []\<rparr>) = Inr c'" by (simp add: client_batch_def)
  from results_modes [OF this] handled(3) show ?case by (auto simp: modes_ok_def)
qed


end
