(* ===== verification/Cogg_Client_Run.thy ===== *)
theory Cogg_Client_Run
  imports Cogg_Screen_Facts Cogg_Host_Run Cogg_Examples
begin

text \<open>
  A message typed in a terminal, taken by a host whose answer is lost, and sent again: the
  hypotheses of the properties of \<open>Cogg_Client_Facts\<close> hold on it; and a host that answers with a
  control sequence, for \<open>Cogg_Screen_Facts\<close>.
\<close>

definition typed :: job where
  "typed = \<lparr>jb_request = mk_obj [(''op'', JStr ''send''), (''text'', JStr ''hi''), (''key'', JStr ''012345'')],
     jb_sending = True, jb_mode = ''talk''\<rparr>"

definition typing :: client where
  "typing = client_edit ''hi'' (new_client False)"

definition waiting :: client where
  "waiting = begin_sending ''012345'' ''Saving to inbox'' [(''op'', JStr ''send''), (''text'', JStr ''hi'')] typing"

definition answer_lost :: client where
  "answer_lost = net_done typed (Inl ''IPC connection closed'') (net_take waiting)"

definition told :: client where
  "told = complain (''IPC connection closed'' @ middot @ ''input retained; retry uses the same message key'') (answer_lost\<lparr>cl_results := []\<rparr>)
     \<lparr>cl_pending := False\<rparr>"

lemma typing_simps [simp]: "cl_input typing = ''hi''" "cl_retry_text typing = []" "cl_retry_key typing = []" "cl_pending typing = False"
    "cl_jobs typing = []" "cl_results typing = []" "cl_busy typing = None" "vw_watch (cl_view typing) = False"
  by (simp_all add: typing_def client_edit_def new_client_def new_view_def)

lemma enters: "client_command ''012345'' typing = Inr waiting"
  by (simp add: client_command_def Let_def waiting_def)

lemma waiting_simps [simp]: "cl_input waiting = ''hi''" "cl_retry_text waiting = ''hi''" "cl_retry_key waiting = ''012345''"
    "cl_pending waiting = True" "cl_jobs waiting = [typed]" "cl_results waiting = []" "cl_busy waiting = None"
    "vw_watch (cl_view waiting) = False"
  by (simp_all add: waiting_def begin_sending_def keyed_def post_def typed_def Let_def)

lemma lost_simps [simp]: "cl_input answer_lost = ''hi''" "cl_retry_text answer_lost = ''hi''" "cl_retry_key answer_lost = ''012345''"
    "cl_pending answer_lost = True" "cl_jobs answer_lost = []" "cl_busy answer_lost = None" "vw_watch (cl_view answer_lost) = False"
    "cl_results answer_lost = [\<lparr>jr_job = typed, jr_data = JNull, jr_error = ''IPC connection closed''\<rparr>]"
  by (simp_all add: answer_lost_def net_done_def net_take_def)

lemma told_simps [simp]: "cl_input told = ''hi''" "cl_retry_text told = ''hi''" "cl_retry_key told = ''012345''" "cl_pending told = False"
    "cl_jobs told = []" "cl_busy told = None" "cl_results told = []" "vw_watch (cl_view told) = False"
  by (simp_all add: told_def complain_def)

lemma tells: "client_batch answer_lost = Inr told"
  by (simp add: client_batch_def handle_result_def Let_def told_def typed_def mk_obj_access)

lemma told_run: "client_run False [Sent (jb_request typed)] told"
proof -
  have "client_run False [] typing" unfolding typing_def by (rule client_run.edited [OF client_run.opened])
  from client_run.entered [OF this _ enters] have "client_run False [Sent (jb_request typed)] waiting"
    by (simp add: sent_keys_def posted_def typed_def)
  from client_run.took [OF this] have "client_run False [Sent (jb_request typed)] (net_take waiting)" by simp
  from client_run.answered [OF this] have "client_run False [Sent (jb_request typed)] answer_lost"
    by (simp add: answer_lost_def net_take_def)
  from client_run.handled [OF this tells] show ?thesis by (simp add: typed_def)
qed

theorem client_sends_once_witness: "flights told = [] \<and> keys_apart [Sent (jb_request typed)]"
  using client_sends_once [OF told_run] by simp

section \<open>At the host\<close>

definition greeting :: json where
  "greeting = mk_obj [(''type'', JStr ''message''), (''text'', JStr ''hi'')]"

definition greeting_event :: event where
  "greeting_event = \<lparr>ev_subject = ''s'', ev_key = ''user:tui:012345'', ev_kind = ''external'', ev_payload = greeting,
     ev_received_at = 0, ev_parents = [sample_id 0]\<rparr>"

definition greeted :: store where
  "greeted = run_created\<lparr>st_occasions := st_occasions run_created @ [occasion_for sample_ext greeting_event (sample_id 0) 2],
     st_occasion_seq := 2\<rparr>"

lemma greets: "submit sample_ext run_created ''s'' ''tui:012345'' greeting 0 = Inr (sample_id 1, greeted)"
proof -
  have "hash sample_ext (event_json greeting_event) = sample_id 1"
    by (simp add: sample_hash_event greeting_event_def)
  moreover have "st_occasion_seq run_created = 1" by (simp add: run_created_def)
  moreover have "ev_key run_event = ''system:created''" "oc_seq (occasion_for sample_ext run_event h n) = n" for h n
    by (simp_all add: run_event_def occasion_for_def)
  moreover have "sample_dump greeting = []" by (simp add: sample_dump_def greeting_def mk_obj_access)
  ultimately show ?thesis
    by (simp add: submit_def check_time_def check_text_def snapshot_def enqueue_def Let_def
        max_seq_def max_millis_def run_hash_event sample_id_inject greeted_def max_payload_def
        flip: greeting_event_def) (simp add: greeting_event_def occasion_for_def)
qed

definition listening :: host where
  "listening = demo_host\<lparr>ho_store := run_created\<rparr>"

definition heard :: host where
  "heard = demo_host\<lparr>ho_store := greeted\<rparr>"

definition receipt :: json where
  "receipt = host_reply True [(''data'', mk_obj [(''occasion'', JStr (sample_id 1))])]"

lemma hears: "serve sample_ext operator_env (Inr (sent_frame typed)) listening = (receipt, heard)"
proof -
  have f: "jat (sent_frame typed) ''op'' = Inr (JStr ''send'')" "is_object (sent_frame typed)"
      "jat (sent_frame typed) ''protocol'' = Inr (JStr ''cogg:host/v1'')"
      "jat (sent_frame typed) ''text'' = Inr (JStr ''hi'')" "jat (sent_frame typed) ''key'' = Inr (JStr ''012345'')"
    by (simp_all add: sent_frame_def typed_def mk_obj_def)
  have "host_send sample_ext operator_env (sent_frame typed) listening = (Inr (mk_obj [(''occasion'', JStr (sample_id 1))]), heard)"
    using greets by (simp add: host_send_def string_at_def f host_submit_def operator_env_def listening_def heard_def demo_host_def greeting_def)
  moreover have "sample_dump receipt = []" by (simp add: sample_dump_def receipt_def host_reply_def mk_obj_access)
  ultimately show ?thesis by (simp add: serve_send [OF f(1-3)] Let_def frame_limit_def receipt_def)
qed


section \<open>On the screen\<close>

definition clear_screen :: string where
  "clear_screen = CHR 0x1B # ''[2J''"

definition attacked :: client where
  "attacked = complain (clear_screen @ middot @ ''displayed data is stale'')
     (net_done poll_job (Inl clear_screen) (net_take (new_client False))\<lparr>cl_results := []\<rparr>)"

lemma attacked_run: "client_run False [] attacked"
proof -
  let ?c = "net_done poll_job (Inl clear_screen) (net_take (new_client False))"
  have "client_run False [] (net_take (new_client False))"
    by (rule client_run.took [OF client_run.opened]) (simp add: new_client_def)
  from client_run.answered [OF this, of poll_job] have run: "client_run False [] ?c" by (simp add: net_take_def new_client_def)
  have "client_batch ?c = Inr attacked"
    by (simp add: client_batch_def handle_result_def snapshot_result_def attacked_def net_done_def net_take_def new_client_def new_view_def
        poll_job_def mk_obj_access clear_screen_def complain_def set_view_def Let_def)
  from client_run.handled [OF run this] show ?thesis by (simp add: net_done_def net_take_def new_client_def poll_job_def)
qed


end
