(* ===== verification/Cogg_Open.thy ===== *)
theory Cogg_Open
  imports Cogg_Store
begin

text \<open>
  Opening a database: the constructor of \<open>Store\<close>, the class \<open>Transaction\<close> and \<open>random_id\<close> of
  \<^verbatim>\<open>src/kernel.cpp\<close>. A database file is its application ID, its schema version, the names of
  its tables and their rows; a table that does not exist has no rows. The errors of SQLite are
  arguments.
\<close>

section \<open>Transactions\<close>

text \<open>An error of the body or of the commit rolls back.\<close>

definition in_transaction :: "string option \<Rightarrow> string option \<Rightarrow> ('s \<Rightarrow> ('a \<times> 's) res) \<Rightarrow> 's \<Rightarrow> 'a res \<times> 's" where
  "in_transaction busy uncommitted body s =
     (case busy of Some e \<Rightarrow> (Inl (Error e), s)
      | None \<Rightarrow> (case body s of Inl e \<Rightarrow> (Inl e, s)
        | Inr (a, s') \<Rightarrow> (case uncommitted of Some e \<Rightarrow> (Inl (Error e), s) | None \<Rightarrow> (Inr a, s'))))"

definition random_id :: "8 word list option \<Rightarrow> string res" where
  "random_id bytes = (case bytes of None \<Rightarrow> Inl (Error ''random source failed'') | Some bs \<Rightarrow> Inr (hex bs))"

section \<open>The database\<close>

record database =
  da_application :: int
  da_version :: int
  da_tables :: "string list"
  da_wal :: bool
  da_store :: store

definition new_database :: database where
  "new_database = \<lparr>da_application = 0, da_version = 0, da_tables = [], da_wal = False, da_store = empty_store\<rparr>"

definition application_number :: int where
  "application_number = 1129269063"

definition kernel_tables :: "string list" where
  "kernel_tables = [''subjects'', ''occasions'', ''attempts'', ''commits'', ''abstentions'', ''occasion_failures'']"

definition memory_tables :: "string list" where
  "memory_tables = [''memory_entries'', ''memory_links'', ''memory_fts'']"

definition create_tables :: "string list \<Rightarrow> database \<Rightarrow> database" where
  "create_tables names d = d\<lparr>da_tables := da_tables d @ filter (\<lambda>t. t \<notin> set (da_tables d)) names\<rparr>"

definition migrate :: "database \<Rightarrow> (unit \<times> database) res" where
  "migrate d = require (da_version d \<in> {0, 1, 2, 3, 4, 5}) ''unsupported database version''
     (Inr ((), create_tables memory_tables ((create_tables kernel_tables d)\<lparr>da_application := application_number, da_version := 5\<rparr>)))"

datatype open_mode = Read_Write | Read_Only

record open_env =
  oe_refused :: "string option"
  oe_busy :: "string option"
  oe_uncommitted :: "string option"

definition recognized :: "database \<Rightarrow> unit res" where
  "recognized d = require (da_application d = 0 \<or> da_application d = application_number) ''not a cogg database''
     (require (da_application d = 0 \<longrightarrow> da_tables d = []) ''nonempty unrecognized database'' (Inr ()))"

definition readable :: "database \<Rightarrow> unit res" where
  "readable d = require (da_application d = application_number) ''not a cogg database''
     (require (da_version d = 5) ''read-only open requires schema 5; migrate explicitly with a writable host'' (Inr ()))"

definition open_store :: "open_env \<Rightarrow> string \<Rightarrow> open_mode \<Rightarrow> database \<Rightarrow> unit res \<times> database" where
  "open_store oe path mode d =
     (case require (path \<noteq> '':memory:'' \<and> path \<noteq> []) ''a durable database path is required'' (
           case oe_refused oe of Some e \<Rightarrow> Inl (Error e) | None \<Rightarrow> recognized d) of
        Inl e \<Rightarrow> (Inl e, d)
      | Inr _ \<Rightarrow> if mode = Read_Only then (readable d, d)
          else in_transaction (oe_busy oe) (oe_uncommitted oe) migrate (d\<lparr>da_wal := True\<rparr>))"

section \<open>What it promises\<close>

definition smooth_open :: open_env where
  "smooth_open = \<lparr>oe_refused = None, oe_busy = None, oe_uncommitted = None\<rparr>"

definition ready :: "database \<Rightarrow> bool" where
  "ready d \<longleftrightarrow> da_application d = application_number \<and> da_version d = 5 \<and> set (kernel_tables @ memory_tables) \<subseteq> set (da_tables d)"

lemma transaction_cases:
  "in_transaction busy uncommitted body s = (r, s') \<Longrightarrow> (s' = s \<and> (\<exists>e. r = Inl e)) \<or> (\<exists>a. r = Inr a \<and> body s = Inr (a, s'))"
  by (auto simp: in_transaction_def split: option.splits sum.splits prod.splits)

lemma create_tables_parts [simp]: "da_application (create_tables ts d) = da_application d" "da_version (create_tables ts d) = da_version d"
    "da_store (create_tables ts d) = da_store d" "set (da_tables (create_tables ts d)) = set (da_tables d) \<union> set ts"
    "da_wal (create_tables ts d) = da_wal d"
  by (auto simp: create_tables_def)

lemma create_tables_known: "set ts \<subseteq> set (da_tables d) \<Longrightarrow> create_tables ts d = d"
proof -
  assume "set ts \<subseteq> set (da_tables d)"
  then have "filter (\<lambda>t. t \<notin> set (da_tables d)) ts = []" by (auto simp: filter_empty_conv)
  then show ?thesis by (cases d) (simp add: create_tables_def)
qed

lemma open_cases:
  assumes "open_store oe path mode d = (r, d')"
  shows "d' = d \<or> (mode = Read_Write \<and> recognized d = Inr () \<and> (d' = d\<lparr>da_wal := True\<rparr> \<and> (\<exists>e. r = Inl e) \<or> migrate (d\<lparr>da_wal := True\<rparr>) = Inr ((), d')))"
  using assms
  by (cases mode) (auto simp: open_store_def res_simps dest!: transaction_cases split: sum.splits option.splits)

text \<open>Opening never changes a row, and never anything of a database of another program.\<close>

lemma open_keeps_rows: "open_store oe path mode d = (r, d') \<Longrightarrow> da_store d' = da_store d"
  by (drule open_cases) (auto simp: migrate_def res_simps)

lemma open_spares_foreign: "open_store oe path mode d = (r, d') \<Longrightarrow> recognized d = Inl e \<Longrightarrow> d' = d \<and> (\<exists>e'. r = Inl e')"
  by (cases "oe_refused oe"; cases "path \<noteq> '':memory:'' \<and> path \<noteq> []") (auto simp: open_store_def dest: sym)

text \<open>After a writer has opened it, a database has every table, readers can open it, and opening it
  again changes nothing.\<close>

lemma open_ready:
  assumes "open_store oe path Read_Write d = (Inr (), d')"
  shows "ready d' \<and> open_store smooth_open path Read_Only d' = (Inr (), d') \<and> open_store smooth_open path Read_Write d' = (Inr (), d')"
proof -
  from assms have path: "path \<noteq> '':memory:'' \<and> path \<noteq> []" by (auto simp: open_store_def res_simps split: sum.splits)
  from assms have m: "migrate (d\<lparr>da_wal := True\<rparr>) = Inr ((), d')"
    by (auto simp: open_store_def in_transaction_def split: sum.splits option.splits)
  then have r: "ready d'" and w: "da_wal d' = True" by (auto simp: migrate_def res_simps ready_def)
  have tables: "create_tables kernel_tables d' = d'" "create_tables memory_tables d' = d'"
    using r by (simp_all add: ready_def create_tables_known)
  have fields: "d'\<lparr>da_wal := True\<rparr> = d'" "d'\<lparr>da_application := application_number, da_version := 5\<rparr> = d'"
    using r w by (cases d'; simp add: ready_def)+
  have "migrate (d'\<lparr>da_wal := True\<rparr>) = Inr ((), d')"
    unfolding migrate_def fields tables using r by (simp add: ready_def)
  moreover have "recognized d' = Inr ()" "readable d' = Inr ()"
    using r by (simp_all add: ready_def recognized_def readable_def application_number_def)
  ultimately show ?thesis using r path by (simp add: open_store_def smooth_open_def in_transaction_def)
qed

end
