(* ===== verification/Cogg_Cli.thy ===== *)
theory Cogg_Cli
  imports Cogg_Arguments Cogg_Open Cogg_Llama Cogg_Host_Server
begin

text \<open>
  The command line of \<^verbatim>\<open>tools/main.cpp\<close>: the demonstration executor, the options, the
  commands and the loops of \<open>run\<close> and \<open>run-model\<close>. A file is what reading it gives: nothing when
  it does not open, the parsed value or the parser's exception otherwise. What a command prints is
  a list of typed lines. Each turn of a loop has its own readings; the list of them ends when a
  signal stops the program.
\<close>

section \<open>The demonstration executor\<close>

definition c_rem :: "int \<Rightarrow> int \<Rightarrow> int" where
  "c_rem n m = (if n < 0 then - ((- n) mod m) else n mod m)"

definition counter_propose :: "ext \<Rightarrow> millis \<Rightarrow> present \<Rightarrow> proposal res" where
  "counter_propose X interval p =
     bindR (case map_of (sn_memory (pr_state p)) ''counter'' of None \<Rightarrow> Inr 0 | Some v \<Rightarrow> get_int v) (\<lambda>before.
     let n = before + 1; speaks = o_kind (pr_occasion p) = ''external'' in
     Inr (default_proposal\<lparr>p_kind := (if speaks then ''speech'' else ''reflection''),
       p_text := (if speaks then ''Demo received: '' @ x_dump X (o_payload (pr_occasion p)) else p_text default_proposal),
       p_memory := [(''counter'', JInt n)],
       p_wake_after_ms := (if 0 < interval then Some (interval * (1 + c_rem n 3)) else None)\<rparr>))"

definition counter :: "ext \<Rightarrow> millis \<Rightarrow> backend" where
  "counter X interval = \<lparr>be_name = ''demo-counter/v1'', be_policy = None, be_fits = (\<lambda>_. True),
     be_respond = (\<lambda>a _. bindR (counter_propose X interval (att_present a)) (\<lambda>p. Inr (Participates p))),
     be_telemetry = Inr (mk_obj []), be_committed = (\<lambda>_ _. Inr ())\<rparr>"

section \<open>Options\<close>

type_synonym files = "string \<Rightarrow> json res option"

definition load_file :: "files \<Rightarrow> string \<Rightarrow> string \<Rightarrow> json res" where
  "load_file fs refusal path = (case fs path of None \<Rightarrow> Inl (Error refusal) | Some r \<Rightarrow> r)"

definition default_route :: route where
  "default_route = \<lparr>rt_executors = [], rt_allow_remote = False, rt_require_exact_tokens = False, rt_require_checkpoint = False,
     rt_require_cancellation = False, rt_timeout_ms = 60000, rt_attempt_timeout_ms = 30000, rt_context = JNull\<rparr>"

definition route_switch :: "string \<Rightarrow> route \<Rightarrow> route option" where
  "route_switch flag r =
     (if flag = ''--allow-remote'' then Some (r\<lparr>rt_allow_remote := True\<rparr>)
      else if flag = ''--require-exact-tokens'' then Some (r\<lparr>rt_require_exact_tokens := True\<rparr>)
      else if flag = ''--require-checkpoint'' then Some (r\<lparr>rt_require_checkpoint := True\<rparr>)
      else if flag = ''--require-cancellation'' then Some (r\<lparr>rt_require_cancellation := True\<rparr>) else None)"

definition route_option :: "files \<Rightarrow> string \<Rightarrow> string \<Rightarrow> route \<Rightarrow> route res" where
  "route_option fs flag v r =
     (if flag = ''--context'' then bindR (load_file fs ''cannot open admission context'' v) (\<lambda>j. Inr (r\<lparr>rt_context := j\<rparr>))
      else if flag = ''--route'' then Inr (r\<lparr>rt_executors := rt_executors r @ split_items CHR '','' v\<rparr>)
      else if flag = ''--timeout-ms'' then bindR (number v) (\<lambda>n. Inr (r\<lparr>rt_timeout_ms := n\<rparr>))
      else if flag = ''--attempt-timeout-ms'' then bindR (number v) (\<lambda>n. Inr (r\<lparr>rt_attempt_timeout_ms := n\<rparr>))
      else Inl (Error ''unknown route option''))"

fun read_route :: "files \<Rightarrow> route \<Rightarrow> string list \<Rightarrow> route res" where
  "read_route fs r [] = Inr r"
| "read_route fs r (flag # rest) =
     (case route_switch flag r of Some r' \<Rightarrow> read_route fs r' rest
      | None \<Rightarrow> (case rest of [] \<Rightarrow> Inl (Error ''missing route option value'')
        | v # rest' \<Rightarrow> (case route_option fs flag v r of Inl e \<Rightarrow> Inl e | Inr r' \<Rightarrow> read_route fs r' rest')))"

record model_args =
  ma_options :: llama_options
  ma_steps :: int
  ma_release :: bool
  ma_once :: bool
  ma_context :: json

definition no_model_args :: model_args where
  "no_model_args = \<lparr>ma_options = default_options, ma_steps = 0, ma_release = False, ma_once = False, ma_context = JNull\<rparr>"

definition set_options :: "(llama_options \<Rightarrow> llama_options) \<Rightarrow> model_args \<Rightarrow> model_args" where
  "set_options f a = a\<lparr>ma_options := f (ma_options a)\<rparr>"

definition model_switch :: "string \<Rightarrow> model_args \<Rightarrow> model_args option" where
  "model_switch flag a =
     (if flag = ''--release-context'' then Some (a\<lparr>ma_release := True\<rparr>)
      else if flag = ''--once'' then Some (a\<lparr>ma_once := True\<rparr>)
      else if flag = ''--allow-abstention'' then Some (set_options (\<lambda>opts. opts\<lparr>lo_abstention := True\<rparr>) a)
      else if flag = ''--internal-only'' then Some (set_options (\<lambda>opts. opts\<lparr>lo_internal := True\<rparr>) a) else None)"

text \<open>The casts to narrower integers are exact after their checks: see \<open>model_options_exact\<close>.\<close>

definition model_number :: "string \<Rightarrow> int \<Rightarrow> model_args \<Rightarrow> model_args res" where
  "model_number flag n a =
     (if flag = ''--steps'' then Inr (a\<lparr>ma_steps := n\<rparr>)
      else if flag = ''--timeout-ms'' then Inr (set_options (\<lambda>opts. opts\<lparr>lo_timeout := n\<rparr>) a)
      else if flag = ''--checkpoint-mib''
      then require (1 \<le> n \<and> n \<le> 4096) ''checkpoint limit must be 1..4096 MiB''
        (Inr (set_options (\<lambda>opts. opts\<lparr>lo_checkpoint := unat (word_of_int n * 1048576 :: 64 word)\<rparr>) a))
      else require (n \<le> 131072) ''inference option too large'' (
        if flag = ''--ctx'' then Inr (set_options (\<lambda>opts. opts\<lparr>lo_context := unat (word_of_int n :: 32 word)\<rparr>) a)
        else if flag = ''--tokens'' then Inr (set_options (\<lambda>opts. opts\<lparr>lo_output := unat (word_of_int n :: 32 word)\<rparr>) a)
        else if flag = ''--threads'' then Inr (set_options (\<lambda>opts. opts\<lparr>lo_threads := sint (word_of_int n :: 32 word)\<rparr>) a)
        else Inl (Error (''unknown option: '' @ flag))))"

definition model_option :: "files \<Rightarrow> string \<Rightarrow> string \<Rightarrow> model_args \<Rightarrow> model_args res" where
  "model_option fs flag v a =
     (if flag = ''--context'' then bindR (load_file fs ''cannot open admission context'' v) (\<lambda>j. Inr (a\<lparr>ma_context := j\<rparr>))
      else if flag = ''--template'' then Inr (set_options (\<lambda>opts. opts\<lparr>lo_template := v\<rparr>) a)
      else if flag = ''--checkpoint-dir'' then Inr (set_options (\<lambda>opts. opts\<lparr>lo_directory := v\<rparr>) a)
      else bindR (number v) (\<lambda>n. model_number flag n a))"

fun read_model :: "files \<Rightarrow> model_args \<Rightarrow> string list \<Rightarrow> model_args res" where
  "read_model fs a [] = Inr a"
| "read_model fs a (flag # rest) =
     (case model_switch flag a of Some a' \<Rightarrow> read_model fs a' rest
      | None \<Rightarrow> (case rest of [] \<Rightarrow> Inl (Error (''missing value for '' @ flag))
        | v # rest' \<Rightarrow> (case model_option fs flag v a of Inl e \<Rightarrow> Inl e | Inr a' \<Rightarrow> read_model fs a' rest')))"

section \<open>What is printed\<close>

datatype said = Usage | Line string | Shown json | Timeline_Shown timeline_report | View_Shown present | Deposit_Shown deposit

text \<open>A command prints lines and ends with an exit code or an exception.\<close>

type_synonym spoken = "said list \<times> int res \<times> store"

section \<open>The loops\<close>

record pulse =
  pu_now :: millis
  pu_readings :: readings
  pu_during :: "store \<Rightarrow> store"
  pu_nonce :: string
  pu_backend :: backend
  pu_stats :: inference_stats

fun demo_loop :: "ext \<Rightarrow> bool \<Rightarrow> backend \<Rightarrow> string \<Rightarrow> int \<Rightarrow> pulse list \<Rightarrow> int \<Rightarrow> runtime \<Rightarrow> store \<Rightarrow> spoken" where
  "demo_loop X sqlite_ok be subject steps [] n rn st = ([], Inr 0, st)"
| "demo_loop X sqlite_ok be subject steps (p # ps) n rn st =
     (if steps \<noteq> 0 \<and> steps \<le> n then ([], Inr 0, st)
      else case runtime_step X sqlite_ok None (pu_readings p) (pu_during p) (pu_nonce p) be st rn subject (pu_now p) JNull of
        (Inl e, rn', st') \<Rightarrow> ([], Inl e, st')
      | (Inr (Some s), rn', st') \<Rightarrow>
          (case demo_loop X sqlite_ok be subject steps ps (n + 1) rn' st' of (out, r, st'') \<Rightarrow>
            (Shown (mk_obj [(''subject'', JStr subject), (''tick'', JInt (sn_tick s)), (''head'', JStr (sn_head s)),
               (''lifecycle'', JStr (sn_lifecycle s)), (''memory'', JObj (sn_memory s))]) # out, r, st''))
      | (Inr None, rn', st') \<Rightarrow> demo_loop X sqlite_ok be subject steps ps n rn' st')"

definition stats_json :: "inference_stats \<Rightarrow> (string \<times> json) list" where
  "stats_json s =
     [(''inference'', mk_obj [(''prompt_tokens'', JInt (int (is_prompt s))), (''reused_tokens'', JInt (int (is_reused s))),
        (''generated_tokens'', JInt (int (is_generated s)))]),
      (''checkpoint'', mk_obj [(''read'', JStr (is_read s)), (''write'', JStr (is_write s)), (''detail'', JStr (is_detail s))])]"

definition model_line :: "ext \<Rightarrow> string \<Rightarrow> snapshot \<Rightarrow> inference_stats \<Rightarrow> runtime \<Rightarrow> store \<Rightarrow> json res" where
  "model_line X subject s stats rn st =
     bindR (record_of X st (sn_head s)) (\<lambda>body. bindR (jat (commit_json body) ''proposal'') (\<lambda>proposal.
     bindR (jat (commit_json body) ''wake_plan'') (\<lambda>plan.
     Inr (mk_obj ([(''subject'', JStr subject), (''tick'', JInt (sn_tick s)), (''head'', JStr (sn_head s)),
       (''lifecycle'', JStr (sn_lifecycle s)), (''memory'', JObj (sn_memory s)), (''proposal'', proposal), (''wake_plan'', plan),
       (''wake_at'', optional_time (sn_wake_at s))] @ stats_json stats @ [(''maintenance_error'', JStr (rn_maintenance rn))])))))"

fun model_loop :: "ext \<Rightarrow> bool \<Rightarrow> string \<Rightarrow> model_args \<Rightarrow> pulse list \<Rightarrow> int \<Rightarrow> runtime \<Rightarrow> store \<Rightarrow> spoken" where
  "model_loop X sqlite_ok subject a [] n rn st = ([], Inr 0, st)"
| "model_loop X sqlite_ok subject a (p # ps) n rn st =
     (if ma_steps a \<noteq> 0 \<and> ma_steps a \<le> n then ([], Inr 0, st)
      else case runtime_step X sqlite_ok None (pu_readings p) (pu_during p) (pu_nonce p) (pu_backend p) st rn subject (pu_now p) (ma_context a) of
        (Inl e, rn', st') \<Rightarrow> ([], Inl e, st')
      | (Inr (Some s), rn', st') \<Rightarrow>
          (case model_line X subject s (pu_stats p) rn' st' of Inl e \<Rightarrow> ([], Inl e, st')
           | Inr line \<Rightarrow>
               if ma_once a then ([Shown line], Inr 0, st')
               else (case model_loop X sqlite_ok subject a ps (n + 1) rn' st' of (out, r, st'') \<Rightarrow> (Shown line # out, r, st'')))
      | (Inr None, rn', st') \<Rightarrow>
          (case rn_abstention rn' of
             Some v \<Rightarrow> (case outcome_json X (Abstains v) of Inl e \<Rightarrow> ([], Inl e, st')
               | Inr j \<Rightarrow> ([Shown (mk_obj [(''status'', JStr ''abstained''), (''subject'', JStr subject), (''outcome'', j)])], Inr 4, st'))
           | None \<Rightarrow> if ma_once a then ([], Inr 0, st') else model_loop X sqlite_ok subject a ps n rn' st'))"

section \<open>Commands\<close>

record cli_env =
  ce_sqlite_ok :: bool
  ce_now :: millis
  ce_later :: millis
  ce_nonce :: string
  ce_files :: files
  ce_pulses :: "pulse list"
  ce_llama :: "string \<Rightarrow> llama_options \<Rightarrow> string res"
  ce_http :: http_env
  ce_turns :: "nat \<Rightarrow> turn"
  ce_end :: millis

definition init_limits :: "string list \<Rightarrow> limits res" where
  "init_limits args =
     bindR (if 6 \<le> length args
       then bindR (number (args ! 3)) (\<lambda>a. bindR (number (args ! 4)) (\<lambda>b. bindR (number (args ! 5)) (\<lambda>c.
         Inr (default_limits\<lparr>min_wake_ms := a, max_attempts := b, period_ms := c\<rparr>))))
       else Inr default_limits) (\<lambda>l.
     if 7 \<le> length args then bindR (number (args ! 6)) (\<lambda>w. Inr (l\<lparr>max_wake_ms := w\<rparr>)) else Inr l)"

definition cli_init :: "ext \<Rightarrow> cli_env \<Rightarrow> string list \<Rightarrow> store \<Rightarrow> spoken" where
  "cli_init X env args st =
     (case bindR (init_limits args) (\<lambda>l.
           bindR (if length args = 8 then load_file (ce_files env) ''cannot open seed memory'' (args ! 7) else Inr (mk_obj [])) (\<lambda>seed.
           create X st (args ! 2) l (ce_now env) seed (ce_nonce env))) of
        Inl e \<Rightarrow> ([], Inl e, st) | Inr st' \<Rightarrow> ([Line (''created '' @ args ! 2 @ '' tick=0'')], Inr 0, st'))"

definition ended :: "(said list \<times> store) res \<Rightarrow> store \<Rightarrow> spoken" where
  "ended r st = (case r of Inl e \<Rightarrow> ([], Inl e, st) | Inr (out, st') \<Rightarrow> (out, Inr 0, st'))"

definition recall_policy :: "string list \<Rightarrow> memory_policy res" where
  "recall_policy args =
     (let policy = default_policy\<lparr>mp_query := args ! 3\<rparr> in
      if length args = 7
      then bindR (number (args ! 4)) (\<lambda>n. bindR (number (args ! 6)) (\<lambda>h.
        Inr (policy\<lparr>mp_max_bytes := nat n, mp_strategy := args ! 5, mp_history := (h \<noteq> 0)\<rparr>)))
      else Inr policy)"

definition route_exit :: "string \<Rightarrow> int" where
  "route_exit status = (if status = ''cancelled'' then 130 else if status = ''abstained'' then 4
     else if status \<noteq> ''committed'' \<and> status \<noteq> ''waiting'' then 3 else 0)"

definition note_enc :: "route_note \<Rightarrow> json" where
  "note_enc n = mk_obj ([(''executor'', JStr (no_executor n)), (''status'', JStr (no_status n))] @
     (case no_attempt n of None \<Rightarrow> [] | Some a \<Rightarrow> [(''attempt'', JStr a)]) @
     (case no_receipt n of None \<Rightarrow> [] | Some r \<Rightarrow> [(''receipt'', JStr r)]) @
     (case no_outcome n of None \<Rightarrow> [] | Some j \<Rightarrow> [(''outcome'', j)]))"

definition route_answer :: "ext \<Rightarrow> string \<Rightarrow> millis \<Rightarrow> route_result \<Rightarrow> store \<Rightarrow> json res" where
  "route_answer X subject now res st =
     (let base = [(''status'', JStr (rr_status res)), (''attempts'', JArr (map note_enc (rr_attempts res))),
        (''maintenance_error'', JStr (rr_maintenance res))] in
      case rr_snapshot res of
        Some s \<Rightarrow> bindR (record_of X st (sn_head s)) (\<lambda>body.
          bindR (jat (commit_json body) ''proposal'') (\<lambda>proposal. bindR (jat (commit_json body) ''emission'') (\<lambda>emission.
          Inr (mk_obj (base @ [(''subject'', JStr subject), (''tick'', JInt (sn_tick s)), (''head'', JStr (sn_head s)),
            (''proposal'', proposal), (''emission'', emission)])))))
      | None \<Rightarrow> bindR (schedule_at X st subject now) (\<lambda>d. Inr (mk_obj (base @ [(''schedule'', decision_json d)]))))"

definition cli_route :: "ext \<Rightarrow> cli_env \<Rightarrow> string list \<Rightarrow> store \<Rightarrow> spoken" where
  "cli_route X env args st =
     (case bindR (read_route (ce_files env) default_route (drop 4 args)) (\<lambda>rt.
           bindR (load_file (ce_files env) ''cannot open executor configuration'' (args ! 3)) (\<lambda>settings.
           bindR (new_registry 32) (\<lambda>rg. case register_http X (ce_http env) rg settings of
             (Inl e, rg') \<Rightarrow> Inl e | (Inr _, rg') \<Rightarrow> Inr (rt, rg')))) of
        Inl e \<Rightarrow> ([], Inl e, st)
      | Inr (rt, rg) \<Rightarrow>
          (case route_step X (ce_sqlite_ok env) None (args ! 2) rt (ce_now env) (ce_turns env) (ce_end env) [] rg st of
             (Inl e, vs, rg', st') \<Rightarrow> ([], Inl e, st')
           | (Inr res, vs, rg', st') \<Rightarrow>
               (case route_answer X (args ! 2) (ce_later env) res st' of Inl e \<Rightarrow> ([], Inl e, st')
                | Inr j \<Rightarrow> ([Shown j], Inr (route_exit (rr_status res)), st'))))"

definition cli_model :: "ext \<Rightarrow> cli_env \<Rightarrow> string list \<Rightarrow> store \<Rightarrow> spoken" where
  "cli_model X env args st =
     (case bindR (read_model (ce_files env) no_model_args (drop 4 args)) (\<lambda>a.
           require (ma_context a = JNull \<or> ma_once a) ''bound context requires --once'' (
           bindR (validate_admission_context X (ma_context a)) (\<lambda>_.
           bindR (verify X (ce_sqlite_ok env) st (args ! 2)) (\<lambda>_.
           bindR (ce_llama env (args ! 3) (ma_options a)) (\<lambda>_. Inr a))))) of
        Inl e \<Rightarrow> ([], Inl e, st)
      | Inr a \<Rightarrow> model_loop X (ce_sqlite_ok env) (args ! 2) a (ce_pulses env) 0 new_runtime st)"

definition cli_run :: "ext \<Rightarrow> cli_env \<Rightarrow> string list \<Rightarrow> store \<Rightarrow> spoken" where
  "cli_run X env args st =
     (case bindR (if 4 \<le> length args then number (args ! 3) else Inr 0) (\<lambda>steps.
           bindR (if 5 \<le> length args then number (args ! 4) else Inr 0) (\<lambda>interval.
           require (interval \<le> 86400000) ''demo interval exceeds one day'' (
           bindR (verify X (ce_sqlite_ok env) st (args ! 2)) (\<lambda>_. Inr (steps, interval))))) of
        Inl e \<Rightarrow> ([], Inl e, st)
      | Inr (steps, interval) \<Rightarrow>
          demo_loop X (ce_sqlite_ok env) (counter X interval) (args ! 2) steps (ce_pulses env) 0 new_runtime st)"

definition duration_answer :: "ext \<Rightarrow> bool \<Rightarrow> store \<Rightarrow> string \<Rightarrow> string \<Rightarrow> string \<Rightarrow> said res" where
  "duration_answer X ok st subject from to =
     bindR (duration X ok st subject from to) (\<lambda>d. bindR (clock st subject) (\<lambda>ck.
     Inr (Shown (mk_obj [(''clock'', ck), (''from'', JStr from), (''to'', JStr to), (''window'', JStr ''[from,to)''),
       (''duration'', JInt d), (''coverage'', JStr ''complete_verified_chain'')]))))"

text \<open>The arguments are those after the program's name; the database was opened as the second.\<close>

definition cli :: "ext \<Rightarrow> cli_env \<Rightarrow> string list \<Rightarrow> store \<Rightarrow> spoken" where
  "cli X env args st =
     (let n = length args; subject = args ! 2; op = args ! 0; ok = ce_sqlite_ok env; ask = (\<lambda>r. ended (bindR r (\<lambda>x. Inr ([x], st))) st) in
      if args = [''--help''] then ([Usage], Inr 0, st)
      else if n < 3 then ([Usage], Inr 2, st)
      else if op = ''init'' \<and> n \<in> {3, 6, 7, 8} then cli_init X env args st
      else if op = ''send'' \<and> n = 5
      then ended (bindR (submit X st subject (args ! 3) (mk_obj [(''text'', JStr (args ! 4))]) (ce_now env)) (\<lambda>(i, st'). Inr ([Line i], st'))) st
      else if op = ''schedule'' \<and> n = 3 then ask (bindR (schedule_at X st subject (ce_now env)) (\<lambda>d. Inr (Shown (decision_json d))))
      else if op = ''duration'' \<and> n = 5 then ask (duration_answer X ok st subject (args ! 3) (args ! 4))
      else if op = ''inspect'' \<and> n = 3 then ask (bindR (timeline st subject) (\<lambda>t. Inr (Timeline_Shown t)))
      else if op = ''recall'' \<and> (n = 4 \<or> n = 7)
      then ask (bindR (recall_policy args) (\<lambda>policy. bindR (recall X ok st subject policy) (\<lambda>p. Inr (View_Shown p))))
      else if op = ''memory-record'' \<and> n = 4 then ask (bindR (memory_record X ok st subject (args ! 3)) (\<lambda>d. Inr (Deposit_Shown d)))
      else if op = ''rebuild-memory'' \<and> n = 3
      then (case rebuild_memory X ok st subject of (r, st') \<Rightarrow>
        ended (bindR r (\<lambda>_. Inr ([Line ''rebuilt memory index; subject unchanged''], st'))) st')
      else if op = ''verify'' \<and> n = 3
      then ask (bindR (verify X ok st subject) (\<lambda>_. bindR (snapshot st subject) (\<lambda>s.
        Inr (Line (''verified '' @ subject @ '' tick='' @ show_nat (nat (sn_tick s)))))))
      else if op = ''run-route'' \<and> 6 \<le> n then cli_route X env args st
      else if op = ''run-model'' \<and> 4 \<le> n then cli_model X env args st
      else if op = ''run'' \<and> 3 \<le> n \<and> n \<le> 5 then cli_run X env args st
      else ([Usage], Inr 2, st))"

text \<open>The process ends with the code, or with 1 after an exception.\<close>

definition cli_code :: "spoken \<Rightarrow> int" where
  "cli_code s = (case s of (_, Inl e, _) \<Rightarrow> 1 | (_, Inr code, _) \<Rightarrow> code)"

text \<open>The whole program: the usage needs no database.\<close>

definition cli_process :: "ext \<Rightarrow> cli_env \<Rightarrow> open_env \<Rightarrow> string list \<Rightarrow> database \<Rightarrow> said list \<times> int \<times> database" where
  "cli_process X env oe args d =
     (if args = [''--help''] then ([Usage], 0, d)
      else if length args < 3 then ([Usage], 2, d)
      else case open_store oe (args ! 1) Read_Write d of
        (Inl e, d') \<Rightarrow> ([], 1, d')
      | (Inr _, d') \<Rightarrow> (case cli X env args (da_store d') of (out, r, st) \<Rightarrow> (out, cli_code (out, r, st), d'\<lparr>da_store := st\<rparr>)))"

end
