(* ===== verification/Cogg_Cli_Facts.thy ===== *)
theory Cogg_Cli_Facts
  imports Cogg_Cli Cogg_Host_Facts
begin

text \<open>
  What a command of the command line can do to a database, and what it refuses.
\<close>

section \<open>Options\<close>

text \<open>The casts of the options to narrower integers lose nothing.\<close>

lemma model_options_exact:
  assumes "model_number flag n a = Inr a'" and "0 \<le> n"
  shows "(flag = ''--ctx'' \<longrightarrow> int (lo_context (ma_options a')) = n) \<and> (flag = ''--tokens'' \<longrightarrow> int (lo_output (ma_options a')) = n) \<and>
    (flag = ''--threads'' \<longrightarrow> lo_threads (ma_options a') = n) \<and>
    (flag = ''--checkpoint-mib'' \<longrightarrow> int (lo_checkpoint (ma_options a')) = n * 1048576)"
proof -
  have u: "int (unat (word_of_int n :: 32 word)) = n" "sint (word_of_int n :: 32 word) = n" if "n \<le> 131072"
    using assms(2) that by (simp_all add: unat_eq_nat_uint uint_word_of_int sint_uint signed_take_bit_int_eq_self)
  have c: "int (unat (word_of_int n * 1048576 :: 64 word)) = n * 1048576" if "n \<le> 4096"
  proof -
    have "(word_of_int n * 1048576 :: 64 word) = word_of_int (n * 1048576)" by simp
    then show ?thesis using assms(2) that by (simp only: unat_eq_nat_uint uint_word_of_int) simp
  qed
  show ?thesis using assms(1) u c by (auto simp: model_number_def set_options_def res_simps split: if_splits)
qed

section \<open>The loops\<close>

lemma runtime_step_later:
  assumes "runtime_step X sqlite_ok guard rd during nonce be st rn subject now context = (r, rn', st')" and "\<forall>u. later X u (during u)"
  shows "later X st st'"
proof -
  obtain q rn1 st1 where q: "run_step X sqlite_ok guard rd during nonce be st rn subject now context 3600000 False = (q, rn1, st1)"
    by (cases "run_step X sqlite_ok guard rd during nonce be st rn subject now context 3600000 False") blast
  with assms(1) have "st' = st1" by (simp add: runtime_step_def)
  with run_step_effect [OF q] assms(2) show ?thesis by blast
qed

lemma demo_loop_later:
  "demo_loop X sqlite_ok be subject steps ps n rn st = (out, r, st') \<Longrightarrow> \<forall>p \<in> set ps. \<forall>u. later X u (pu_during p u) \<Longrightarrow> later X st st'"
proof (induction ps arbitrary: n rn st out)
  case (Cons p ps)
  obtain q rn1 st1 where q: "runtime_step X sqlite_ok None (pu_readings p) (pu_during p) (pu_nonce p) be st rn subject (pu_now p) JNull = (q, rn1, st1)"
    by (cases "runtime_step X sqlite_ok None (pu_readings p) (pu_during p) (pu_nonce p) be st rn subject (pu_now p) JNull") blast
  have one: "later X st st1" using runtime_step_later [OF q] Cons.prems(2) by simp
  show ?case
  proof (cases "steps \<noteq> 0 \<and> steps \<le> n")
    case True
    with Cons.prems(1) show ?thesis by (simp add: later_refl)
  next
    case False
    with Cons.prems(1) q have "st' = st1 \<or> (\<exists>m out1. demo_loop X sqlite_ok be subject steps ps m rn1 st1 = (out1, r, st'))"
      by (auto split: sum.splits option.splits prod.splits)
    with Cons.IH Cons.prems(2) one later_trans show ?thesis by fastforce
  qed
qed (simp add: later_refl)

lemma model_loop_later:
  "model_loop X sqlite_ok subject a ps n rn st = (out, r, st') \<Longrightarrow> \<forall>p \<in> set ps. \<forall>u. later X u (pu_during p u) \<Longrightarrow> later X st st'"
proof (induction ps arbitrary: n rn st out)
  case (Cons p ps)
  obtain q rn1 st1 where q: "runtime_step X sqlite_ok None (pu_readings p) (pu_during p) (pu_nonce p) (pu_backend p) st rn subject
      (pu_now p) (ma_context a) = (q, rn1, st1)"
    by (cases "runtime_step X sqlite_ok None (pu_readings p) (pu_during p) (pu_nonce p) (pu_backend p) st rn subject (pu_now p) (ma_context a)") blast
  have one: "later X st st1" using runtime_step_later [OF q] Cons.prems(2) by simp
  show ?case
  proof (cases "ma_steps a \<noteq> 0 \<and> ma_steps a \<le> n")
    case True
    with Cons.prems(1) show ?thesis by (simp add: later_refl)
  next
    case False
    with Cons.prems(1) q have "st' = st1 \<or> (\<exists>m out1. model_loop X sqlite_ok subject a ps m rn1 st1 = (out1, r, st'))"
      by (auto split: sum.splits option.splits prod.splits if_splits)
    with Cons.IH Cons.prems(2) one later_trans show ?thesis by fastforce
  qed
qed (simp add: later_refl)

text \<open>With a number of steps, no more lines are printed.\<close>

lemma demo_loop_steps:
  "demo_loop X sqlite_ok be subject steps ps n rn st = (out, r, st') \<Longrightarrow> 0 < steps \<Longrightarrow> n \<le> steps \<Longrightarrow> int (length out) \<le> steps - n"
proof (induction ps arbitrary: n rn st out)
  case (Cons p ps)
  obtain q rn1 st1 where q: "runtime_step X sqlite_ok None (pu_readings p) (pu_during p) (pu_nonce p) be st rn subject (pu_now p) JNull = (q, rn1, st1)"
    by (cases "runtime_step X sqlite_ok None (pu_readings p) (pu_during p) (pu_nonce p) be st rn subject (pu_now p) JNull") blast
  show ?case
  proof (cases "steps \<noteq> 0 \<and> steps \<le> n")
    case True
    with Cons.prems show ?thesis by simp
  next
    case False
    with Cons.prems(1) q have "out = [] \<or> demo_loop X sqlite_ok be subject steps ps n rn1 st1 = (out, r, st') \<or>
        (\<exists>j out1. out = j # out1 \<and> demo_loop X sqlite_ok be subject steps ps (n + 1) rn1 st1 = (out1, r, st'))"
      by (auto split: sum.splits option.splits prod.splits)
    with Cons.IH Cons.prems(2,3) False show ?thesis by fastforce
  qed
qed simp

section \<open>Commands\<close>

lemma cli_init_later: "cli_init X env args st = (out, r, st') \<Longrightarrow> later X st st'"
  unfolding later_def by (auto simp: cli_init_def res_simps intro: by_create split: sum.splits)

lemma cli_run_later:
  "cli_run X env args st = (out, r, st') \<Longrightarrow> \<forall>p \<in> set (ce_pulses env). \<forall>u. later X u (pu_during p u) \<Longrightarrow> later X st st'"
  by (auto simp: cli_run_def later_refl dest: demo_loop_later split: sum.splits prod.splits)

lemma cli_model_later:
  "cli_model X env args st = (out, r, st') \<Longrightarrow> \<forall>p \<in> set (ce_pulses env). \<forall>u. later X u (pu_during p u) \<Longrightarrow> later X st st'"
  by (auto simp: cli_model_def later_refl dest: model_loop_later split: sum.splits prod.splits)

lemma cli_route_later:
  assumes "cli_route X env args st = (out, r, st')" and "\<forall>j. turn_grows X (ce_turns env j)"
  shows "later X st st'"
  using assms(1) route_step_later [OF _ assms(2)] by (auto simp: cli_route_def later_refl split: sum.splits prod.splits)

lemma ended_same: "ended (bindR r (\<lambda>x. Inr ([x], st))) st = (out, q, st') \<Longrightarrow> st' = st"
  by (cases r) (simp_all add: ended_def)

lemma send_later:
  "ended (bindR (submit X st s k payload now) (\<lambda>(i, st'). Inr ([Line i], st'))) st = (out, q, st') \<Longrightarrow> later X st st'"
  by (cases "submit X st s k payload now") (auto simp: ended_def later_refl dest: submit_later)

lemma if_splitE: "(if b then x else y) = z \<Longrightarrow> (b \<Longrightarrow> x = z \<Longrightarrow> P) \<Longrightarrow> (\<not> b \<Longrightarrow> y = z \<Longrightarrow> P) \<Longrightarrow> P"
  by (cases b) simp_all

text \<open>Every command but the rebuild takes a history of the kernel to one of its later histories.\<close>

lemma cli_later:
  assumes "cli X env args st = (out, r, st')" and "args ! 0 \<noteq> ''rebuild-memory''"
    and "\<forall>p \<in> set (ce_pulses env). \<forall>u. later X u (pu_during p u)" and "\<forall>j. turn_grows X (ce_turns env j)"
  shows "later X st st'"
proof -
  have same: "st' = st \<Longrightarrow> later X st st'" by (simp add: later_refl)
  note rules = cli_init_later send_later cli_run_later [OF _ assms(3)] cli_model_later [OF _ assms(3)] cli_route_later [OF _ assms(4)]
  have rebuild: "args ! 0 = ''rebuild-memory'' \<and> b \<Longrightarrow> later X st st'" for b using assms(2) by blast
  have usage: "([Usage], Inr k, st) = (out, r, st') \<Longrightarrow> later X st st'" for k by (simp add: later_refl)
  from assms(1) [unfolded cli_def Let_def] show ?thesis
    by (elim if_splitE) (erule rebuild usage rules ended_same [THEN same])+
qed

lemma cli_rebuild:
  assumes "cli X env args st = (out, r, st')" and "args ! 0 = ''rebuild-memory''"
  shows "\<exists>db. st' = st\<lparr>st_memory := db\<rparr>"
proof -
  have "\<exists>db. st2 = st\<lparr>st_memory := db\<rparr>" if "rebuild_memory X ok st s = (q, st2)" for ok s q st2
    using that by (auto simp: rebuild_memory_def Let_def intro: exI [of _ "st_memory st"] split: sum.splits)
  with assms show ?thesis
    by (auto simp: cli_def Let_def ended_def res_simps intro: exI [of _ "st_memory st"] split: if_splits prod.splits sum.splits)
qed

text \<open>On a database whose history does not verify, the executors are never asked.\<close>

lemma cli_refuses:
  assumes "verify X (ce_sqlite_ok env) st (args ! 2) = Inl e" and "args ! 0 \<in> {''run'', ''run-model'', ''run-route''}"
    and "cli X env args st = (out, r, st')"
  shows "st' = st \<and> cli_code (out, r, st') \<noteq> 0"
proof -
  have route: "st2 = st \<and> (\<exists>e. q = Inl e)" if "cli_route X env args st = (o2, q, st2)" for o2 q st2
    using that assms(1) by (auto simp: cli_route_def route_step_def res_simps split: sum.splits prod.splits)
  have model: "st2 = st \<and> (\<exists>e. q = Inl e)" if "cli_model X env args st = (o2, q, st2)" for o2 q st2
    using that assms(1) by (auto simp: cli_model_def res_simps split: sum.splits prod.splits)
  have run: "st2 = st \<and> (\<exists>e. q = Inl e)" if "cli_run X env args st = (o2, q, st2)" for o2 q st2
    using that assms(1) by (auto simp: cli_run_def res_simps split: sum.splits prod.splits)
  have "args \<noteq> [''--help'']" using assms(2) by auto
  with assms(2) have "cli X env args st \<in> {cli_run X env args st, cli_model X env args st, cli_route X env args st, ([Usage], Inr 2, st)}"
    unfolding insert_iff empty_iff simp_thms by (elim disjE) (simp_all add: cli_def Let_def)
  then have "cli_run X env args st = (out, r, st') \<or> cli_model X env args st = (out, r, st') \<or> cli_route X env args st = (out, r, st') \<or>
      st' = st \<and> r = Inr 2"
    unfolding assms(3) insert_iff empty_iff simp_thms by (elim disjE) simp_all
  then have "st' = st \<and> ((\<exists>e. r = Inl e) \<or> r = Inr 2)" using run model route by blast
  then show ?thesis by (auto simp: cli_code_def)
qed

lemma cli_process_later:
  assumes "cli_process X env oe args d = (out, code, d')" and "args ! 0 \<noteq> ''rebuild-memory''"
    and "\<forall>p \<in> set (ce_pulses env). \<forall>u. later X u (pu_during p u)" and "\<forall>j. turn_grows X (ce_turns env j)"
  shows "later X (da_store d) (da_store d')"
proof (cases "args = [''--help''] \<or> length args < 3")
  case True
  with assms(1) show ?thesis by (auto simp: cli_process_def later_refl split: if_splits)
next
  case False
  obtain r d1 where o: "open_store oe (args ! 1) Read_Write d = (r, d1)" by fastforce
  note rows = open_keeps_rows [OF o]
  show ?thesis
  proof (cases r)
    case Inl
    with assms(1) False o rows show ?thesis by (auto simp: cli_process_def later_refl)
  next
    case (Inr u)
    obtain out2 r2 st2 where c: "cli X env args (da_store d1) = (out2, r2, st2)" by (cases "cli X env args (da_store d1)") blast
    with assms(1) False o Inr have "da_store d' = st2" by (auto simp: cli_process_def)
    with cli_later [OF c assms(2-4)] rows show ?thesis by simp
  qed
qed

end
