(* ===== verification/Spec2Isabelle.thy ===== *)
theory Spec2Isabelle
  imports Cogg_Routing_Run Cogg_Checkpoint Cogg_Protocol Cogg_Self_Run Cogg_Perception_Run Cogg_Host_Run Cogg_Llama_Run
    Cogg_Progress Cogg_Client_Run Cogg_Cli_Facts
begin

text \<open>
  A verification library for the \<^verbatim>\<open>cogg\<close> agent kernel, a C++ library that keeps the
  history of an agent in an SQLite database. A subject is admitted to think (an attempt), an
  executor answers with a proposal or an abstention, and the kernel commits the proposal as
  the next transition of a hash-linked chain. The library models the kernel's own logic; the
  database engine's files, the language models and the network are outside it.

  \<^bold>\<open>What models what.\<close>
  \<^item> \<open>Cogg_Prelude\<close>: results as values (\<open>Inl\<close> an \<open>error\<close>, one constructor per exception
    class), \<open>bindR\<close>, \<open>require\<close>, \<open>mapR\<close>, the collection \<open>res_simps\<close>; 64-bit limits.
  \<^item> \<open>Cogg_Json\<close>: JSON values and the operations of the JSON library the source uses. The
    printer, SHA-256 and the FTS5 ranking are the fields of the record \<open>ext\<close>, the one
    parameter of the model; \<open>sample_ext\<close> is a concrete instance used by the witnesses.
  \<^item> \<open>Cogg_Types\<close>: \<^verbatim>\<open>include/cogg/kernel.hpp\<close>, \<^verbatim>\<open>memory.hpp\<close> and the
    validators, printers and parsers of \<^verbatim>\<open>src/kernel.cpp\<close> (proposals, limits) and
    \<^verbatim>\<open>src/memory.cpp\<close> (notes).
  \<^item> \<open>Cogg_Budget\<close>: the admission budget of \<open>Store::Impl::budget\<close>, the SQL form and the
    verifier's binary search, and \<open>wake_plan\<close>.
  \<^item> \<open>Cogg_Search\<close>: query construction of \<^verbatim>\<open>src/memory.cpp\<close>.
  \<^item> \<open>Cogg_Store\<close>: the tables, one record per row, with the typed body each JSON column holds.
  \<^item> \<open>Cogg_Open\<close>: opening a database (\<open>open_store\<close>: recognition, read-only mode, migration) and
    the class \<open>Transaction\<close>.
  \<^item> \<open>Cogg_Memory\<close>: the typed memory index (\<open>memory_apply\<close>, \<open>memory_rebuild\<close>).
  \<^item> \<open>Cogg_View\<close>: retrieval and projection (\<open>memory_candidates\<close>, \<open>project_memory\<close>).
  \<^item> \<open>Cogg_Outcome\<close>: \<^verbatim>\<open>src/outcome.cpp\<close> and the envelopes of \<^verbatim>\<open>src/routing.cpp\<close>.
  \<^item> \<open>Cogg_Kernel\<close>: the write operations of \<open>Store\<close>. A transaction is a function from the
    tables to new tables or an error; an error leaves the tables as they were.
  \<^item> \<open>Cogg_Verify\<close>: \<open>verify\<close>, \<open>verify_head\<close>, \<open>memory_verify\<close> and the verified reads, run on any
    tables whatever; \<open>Cogg_Queries\<close>: the read-only queries.
  \<^item> \<open>Cogg_Runtime\<close>: \<open>execute_attempt\<close> and \<open>Runtime\<close>. An executor is a record of functions that
    may throw; \<open>readings\<close> are the clock readings, \<open>during\<close> what other connections do to the
    store while the executor runs.
  \<^item> \<open>Cogg_Routing\<close>: \<open>Registry\<close> and \<open>RoutedRuntime\<close>.
  \<^item> \<open>Cogg_Self\<close>: \<^verbatim>\<open>src/self_state.cpp\<close>, the grants, the replay of a subject's self
    state from its history (\<open>self_replay\<close>) and the guard of the commit
    (\<open>install_self_guard\<close>); \<open>Cogg_Self_Runtime\<close>: \<open>SelfRuntime::step\<close> with its cache. Any
    error of the guard that the step installs is the answer \<open>self_rejected\<close>; equality of
    JSON values is structural.
  \<^item> \<open>Cogg_Http\<close>: the executor of \<^verbatim>\<open>src/http_backend.cpp\<close>: its configuration, credentials,
    prompt, schema, request and reading of the response (\<open>complete\<close>, \<open>http_respond\<close>). The
    network, the files, the JSON parser and libcurl's URL parser are the record \<open>http_env\<close>.
  \<^item> \<open>Cogg_Perception\<close>: \<^verbatim>\<open>src/perception.cpp\<close>: importing an image, the prepared
    observation of \<open>image_context\<close>, and the executor \<open>ImageActor\<close>. The results of the system
    calls are arguments, the media directory is a map from paths to bytes.
  \<^item> \<open>Cogg_Checkpoint\<close>: the checkpoint files of \<^verbatim>\<open>src/checkpoint.cpp\<close>. The result of
    each system call is an argument, a crash is a choice of one of the disk's states.
  \<^item> \<open>Cogg_Llama\<close>: the executor of \<^verbatim>\<open>src/llama_backend.cpp\<close>: options and
    identity, prompt and grammar, the cache of evaluated tokens (\<open>reuse\<close>, \<open>decode\<close>, \<open>generate\<close>,
    \<open>llama_respond\<close>) and its checkpoints (\<open>restore\<close>, \<open>llama_committed\<close>). libllama is the record
    \<open>native\<close>; what the properties rely on is \<open>native_ok\<close> and \<open>sampled_by\<close>.
  \<^item> \<open>Cogg_Protocol\<close>: the frames and text filters of \<^verbatim>\<open>tools/tui/protocol.cpp\<close>.
  \<^item> \<open>Cogg_Host\<close>: the host process of \<^verbatim>\<open>tools/tui/host.cpp\<close>, its start
    (\<open>host_start\<close>) and its worker (\<open>worker_take\<close>, \<open>worker_prepare\<close>, \<open>worker_step\<close>, ...);
    \<open>Cogg_Host_Server\<close>: its requests (\<open>serve\<close>) and the interleaving of both (\<open>host_step\<close>,
    \<open>host_run\<close>), where each critical section under the mutex is one step.
  \<^item> \<open>Cogg_Client\<close>: the terminal client of \<^verbatim>\<open>tools/tui/main.cpp\<close>: its command line
    (\<open>client_command\<close>), keys, network thread (\<open>net_take\<close>, \<open>net_done\<close>, \<open>request\<close>) and results
    (\<open>client_batch\<close>); \<open>Cogg_Client_Screen\<close>: what it shows (\<open>layout\<close>), as the elements it asks
    the terminal library for; \<open>Cogg_Arguments\<close>: how the programs read numbers.
  \<^item> \<open>Cogg_Cli\<close>: \<^verbatim>\<open>tools/main.cpp\<close>: the options, the commands (\<open>cli\<close>) and the loops of
    \<open>run\<close> and \<open>run-model\<close> (\<open>demo_loop\<close>, \<open>model_loop\<close>), one element of a list per turn.

  \<^bold>\<open>What the lemmas show.\<close> \<open>Cogg_Ledger\<close> states the abstract specification, the atomic steps
  of a ledger (new subject, occasion, attempt, settlement, transition) each under its full
  precondition, and proves that every operation of \<open>Cogg_Kernel\<close> is a sequence of them.
  \<open>Cogg_Invariant\<close> states the invariants of the ledger once, in the locale
  \<open>ledger_invariant\<close> (kept by every step, true of the empty store), and interprets it on the
  key, chain, row, clock, settlement, failure, size and index invariants; each interpretation
  yields the invariant of every reachable store. \<open>Cogg_Contract\<close> derives from them what each
  operation promises its callers. \<open>Cogg_Audit\<close> shows what a successful verification means on
  any tables, and that two verified stores with the same head have the same history unless
  they hold a collision of the hash. \<open>Cogg_Runtime\<close> and \<open>Cogg_Routing\<close> carry the promises
  over executors that fail, throw, time out or are refused. \<open>Cogg_Self\<close> shows that every
  change of self state in an accepted history was granted and that commitments are final,
  \<open>Cogg_Self_Guard\<close> what the guard must be given for the replay to accept what it accepts,
  and \<open>Cogg_Self_Runtime\<close> that the cache never differs from a replay. \<open>Cogg_Schema\<close> gives the
  keywords of JSON Schema their meaning and compares the schema of an answer with the valid
  outcomes; \<open>Cogg_Http_Facts\<close> shows what the HTTP executor can send, answer and end with;
  \<open>Cogg_Perception_Facts\<close> follows an image from the import to the committed memory of it, and
  \<open>Cogg_Host_Facts\<close> shows what a host promises its operator over all interleavings.
  \<open>Cogg_Llama_Facts\<close> shows, with triples over the executor's actions, that its cache and its
  checkpoints are exact and cannot change an answer. \<open>Cogg_Progress\<close> shows that a ready occasion
  and an executor that answers give a commit, \<open>Cogg_Client_Facts\<close> that the client has one
  message on its way at a time and that its retries reach the ledger once, \<open>Cogg_Screen_Facts\<close>
  that no control sequence reaches the terminal, \<open>Cogg_Cli_Facts\<close> that every command of the
  command line but the rebuild extends the history and that none runs an executor on one that
  does not verify; \<open>Cogg_Open\<close> shows that opening never changes a row or another program's file.
  \<open>Cogg_Run\<close>, \<open>Cogg_Examples\<close>,
  \<open>Cogg_Audit_Run\<close>, \<open>Cogg_Runtime_Run\<close>, \<open>Cogg_Routing_Run\<close>,
  \<open>Cogg_Self_Run\<close>, \<open>Cogg_Http_Run\<close>, \<open>Cogg_Perception_Run\<close>, \<open>Cogg_Host_Run\<close>,
  \<open>Cogg_Llama_Run\<close> and \<open>Cogg_Client_Run\<close> evaluate the definitions on a
  concrete history and apply the properties there.

  \<^bold>\<open>Bounds and fuel.\<close> Loops are structural recursions over lists, or recursions on a
  shrinking text or number. The only fuel is that of
  the clients \<open>read_history\<close> and \<open>read_tasks\<close> in \<open>Cogg_Queries\<close>, and the properties about them
  show that the number of ticks plus two, and the number of entries plus one, are enough.
  Times are unbounded integers; every addition the source checks for overflow is \<open>add_time\<close>,
  which throws beyond \<open>max_millis\<close>.

  \<^bold>\<open>Reading the model.\<close> Strings are byte lists. A JSON column is a typed record with the
  printer that produces the column's text, so a body that does not parse, or that lacks a
  field every body of its schema has, is not representable. The file-level check of SQLite
  is the boolean \<open>sqlite_ok\<close>. Sums of tick counters are bounded by the check
  \<open>tick exhausted\<close>.

  \<^bold>\<open>Not modelled\<close>, and why. The wrappers of SQLite statements and of OpenSSL (calls into
  libraries) and the indexes of the schema, which change no result. libllama itself, a parameter of \<open>Cogg_Llama\<close>.
  The terminal library, which draws the elements of \<open>Cogg_Client_Screen\<close> and edits the input line.
  The benchmarks and the text of the command line's usage, which have no state. The private method \<open>Runtime::fail_scoped\<close> is
  never called.
\<close>

end
